(* ===== verification/Js_Prelude.thy ===== *)
theory Js_Prelude
  imports Main "HOL-Library.AList" "HOL-Library.Char_ord" "HOL-Library.List_Lexorder"
    "HOL-Library.Code_Target_Numeral"
begin

text \<open>
  Shared vocabulary of the development: the JavaScript values and library functions that the
  sources under \<^verbatim>\<open>src/packages\<close> use, with the lemmas the component theories rest on.

  \<^item> A JavaScript string that holds a header value, a path or an offset is a \<^typ>\<open>string\<close>:
    Node decodes headers as Latin-1 and URL paths are percent-encoded ASCII, so each UTF-16
    code unit is below 256 and is one \<^typ>\<open>char\<close>. The relational operators on strings
    compare code units lexicographically, which is the list order on \<^typ>\<open>string\<close>.
  \<^item> A \<^verbatim>\<open>Uint8Array\<close> is a list of bytes, again \<^typ>\<open>string\<close>.
  \<^item> A \<^verbatim>\<open>Map\<close> is an association list in insertion order: \<^verbatim>\<open>get\<close> is \<^const>\<open>map_of\<close>,
    \<^verbatim>\<open>set\<close> is \<^const>\<open>AList.update\<close> (in place for a present key, at the end otherwise) and
    \<^verbatim>\<open>delete\<close> is \<^const>\<open>AList.delete\<close>.
  \<^item> A value that may be \<^verbatim>\<open>undefined\<close> is an option; a thrown error is the left side of a sum.
\<close>

type_synonym bytes = string
type_synonym ('k, 'v) jsmap = "('k \<times> 'v) list"

named_theorems map_simps "facts on insertion-ordered maps"
named_theorems js_defs "definitions of the JavaScript library functions"

section \<open>Maps in insertion order\<close>

lemma map_of_update_if [simp, map_simps]:
  "map_of (AList.update k v m) k' = (if k' = k then Some v else map_of m k')"
  by (simp add: update_conv')

lemma map_of_delete_if [simp, map_simps]:
  "map_of (AList.delete k m) k' = (if k' = k then None else map_of m k')"
  by (simp add: delete_conv')

lemma keys_delete_subset: "set (map fst (AList.delete k m)) = set (map fst m) - {k}"
  by (auto simp: AList.delete_eq)

lemma distinct_keys_delete [simp]:
  "distinct (map fst m) \<Longrightarrow> distinct (map fst (AList.delete k m))"
  by (rule distinct_delete)

lemma distinct_keys_update [simp]:
  "distinct (map fst m) \<Longrightarrow> distinct (map fst (AList.update k v m))"
  by (rule distinct_update)

lemma length_delete_less:
  "map_of m k = Some v \<Longrightarrow> length (AList.delete k m) < length m"
  by (induction m) (auto split: if_splits intro: le_imp_less_Suc length_delete_le)

lemma length_update_present:
  "map_of m k = Some w \<Longrightarrow> length (AList.update k v m) = length m"
  by (induction m) (auto split: if_splits)

lemma put_same: "map_of m k = Some v \<Longrightarrow> AList.update k v m = m"
  by (induction m) (auto split: if_splits)

lemma update_twice [simp]: "AList.update k v (AList.update k w m) = AList.update k v m"
  by (induction m) auto

text \<open>How many entries of a map satisfy a predicate: what reference counts count.\<close>

definition count_vals :: "('v \<Rightarrow> bool) \<Rightarrow> ('k, 'v) jsmap \<Rightarrow> nat" where
  "count_vals P m = length (filter (P \<circ> snd) m)"

lemma count_vals_Nil [simp]: "count_vals P [] = 0"
  by (simp add: count_vals_def)

lemma count_vals_Cons [simp]:
  "count_vals P (x # m) = (if P (snd x) then Suc (count_vals P m) else count_vals P m)"
  by (simp add: count_vals_def)

lemma count_vals_zero: "distinct (map fst m) \<Longrightarrow>
    count_vals P m = 0 \<longleftrightarrow> (\<forall>k v. map_of m k = Some v \<longrightarrow> \<not> P v)"
  by (force simp: count_vals_def filter_empty_conv dest: map_of_SomeD)

lemma count_vals_update_absent:
  "map_of m k = None \<Longrightarrow> count_vals P (AList.update k v m) = count_vals P m + (if P v then 1 else 0)"
  by (induction m) (auto split: if_splits)

lemma count_vals_update_present: "map_of m k = Some w \<Longrightarrow> distinct (map fst m) \<Longrightarrow>
    count_vals P (AList.update k v m) + (if P w then 1 else 0) = count_vals P m + (if P v then 1 else 0)"
  by (induction m) (auto split: if_splits)

lemma delete_absent: "map_of m k = None \<Longrightarrow> AList.delete k m = m"
  by (induction m) (auto split: if_splits)

lemma count_vals_delete: "map_of m k = Some w \<Longrightarrow> distinct (map fst m) \<Longrightarrow>
    count_vals P (AList.delete k m) + (if P w then 1 else 0) = count_vals P m"
proof (induction m)
  case (Cons a m)
  show ?case
  proof (cases "fst a = k")
    case True
    with Cons.prems have "map_of m k = None" by (auto simp: map_of_eq_None_iff)
    with True Cons.prems show ?thesis by (cases a) (simp add: delete_absent)
  qed (use Cons in auto)
qed simp

section \<open>Characters and strings\<close>

definition is_digit :: "char \<Rightarrow> bool" where
  "is_digit c \<longleftrightarrow> 48 \<le> (of_char c :: nat) \<and> (of_char c :: nat) \<le> 57"

definition digit_val :: "char \<Rightarrow> nat" where
  "digit_val c = of_char c - 48"

definition digit_char :: "nat \<Rightarrow> char" where
  "digit_char n = char_of (48 + n)"

lemma digit_val_digit_char [simp]: "n < 10 \<Longrightarrow> digit_val (digit_char n) = n"
  by (simp add: digit_val_def digit_char_def)

lemma is_digit_digit_char [simp]: "n < 10 \<Longrightarrow> is_digit (digit_char n)"
  by (simp add: is_digit_def digit_char_def)

lemma digit_char_0 [simp]: "digit_char 0 = CHR ''0''"
  by (simp add: digit_char_def char_of_def bit_iff_odd)

lemma digit_val_less: "is_digit c \<Longrightarrow> digit_val c < 10"
  by (auto simp: is_digit_def digit_val_def)

lemma digit_less_iff: "is_digit c \<Longrightarrow> is_digit d \<Longrightarrow> c < d \<longleftrightarrow> digit_val c < digit_val d"
  by (auto simp: is_digit_def digit_val_def less_char_def)

lemma digit_eq_iff: "is_digit c \<Longrightarrow> is_digit d \<Longrightarrow> c = d \<longleftrightarrow> digit_val c = digit_val d"
  using digit_less_iff[of c d] digit_less_iff[of d c] by (metis less_irrefl linorder_neqE)

text \<open>\<^verbatim>\<open>String(n)\<close> on a non-negative integer and \<^verbatim>\<open>Number(s)\<close> on a decimal numeral.\<close>

fun nat_string :: "nat \<Rightarrow> string" where
  "nat_string n = (if n < 10 then [digit_char n] else nat_string (n div 10) @ [digit_char (n mod 10)])"

declare nat_string.simps [simp del]

definition digits_val :: "string \<Rightarrow> nat" where
  "digits_val s = foldl (\<lambda>a c. 10 * a + digit_val c) 0 s"

lemma digits_val_Nil [simp]: "digits_val [] = 0"
  by (simp add: digits_val_def)

lemma digits_val_snoc [simp]: "digits_val (s @ [c]) = 10 * digits_val s + digit_val c"
  by (simp add: digits_val_def)

lemma digits_val_nat_string [simp]: "digits_val (nat_string n) = n"
proof (induction n rule: nat_string.induct)
  case (1 n)
  show ?case
  proof (cases "n < 10")
    case True
    then show ?thesis by (simp add: nat_string.simps[of n] digits_val_def)
  next
    case False
    with 1 show ?thesis by (simp add: nat_string.simps[of n])
  qed
qed

lemma list_all_digit_nat_string [simp]: "list_all is_digit (nat_string n)"
proof (induction n rule: nat_string.induct)
  case (1 n)
  then show ?case by (simp add: nat_string.simps[of n])
qed

lemma nat_string_not_Nil [simp]: "nat_string n \<noteq> []"
  by (simp add: nat_string.simps[of n])

lemma length_nat_string: "n < 10 ^ w \<Longrightarrow> 0 < w \<Longrightarrow> length (nat_string n) \<le> w"
proof (induction n arbitrary: w rule: nat_string.induct)
  case (1 n)
  show ?case
  proof (cases "n < 10")
    case True
    then show ?thesis using 1 by (simp add: nat_string.simps[of n])
  next
    case False
    then obtain w' where w: "w = Suc w'" "0 < w'"
      using 1 by (cases w; cases "w - 1") auto
    have "n div 10 < 10 ^ w'" using 1 w by (simp add: less_mult_imp_div_less)
    then have "length (nat_string (n div 10)) \<le> w'" using 1 False w by auto
    with False w show ?thesis by (simp add: nat_string.simps[of n])
  qed
qed

text \<open>\<^verbatim>\<open>String.prototype.padStart\<close> with a one-character filler.\<close>

definition padStart :: "nat \<Rightarrow> char \<Rightarrow> string \<Rightarrow> string" where
  "padStart w c s = replicate (w - length s) c @ s"

lemma digits_val_zeros: "digits_val (replicate n CHR ''0'' @ s) = digits_val s"
  by (induction n) (simp_all add: digits_val_def digit_val_def)

lemma digits_val_padStart [simp]: "digits_val (padStart w CHR ''0'' s) = digits_val s"
  by (simp add: padStart_def digits_val_zeros)

lemma length_padStart: "length s \<le> w \<Longrightarrow> length (padStart w c s) = w"
  by (simp add: padStart_def)

lemma is_digit_0 [simp]: "is_digit CHR ''0''"
  by (simp add: is_digit_def)

lemma list_all_digit_padStart [simp]:
  "list_all is_digit s \<Longrightarrow> list_all is_digit (padStart w CHR ''0'' s)"
  by (auto simp: padStart_def list_all_iff)

text \<open>On decimal numerals of one width the string order is the numeric order.\<close>

lemma digits_val_bound: "list_all is_digit s \<Longrightarrow> digits_val s < 10 ^ length s"
proof (induction s rule: rev_induct)
  case (snoc c s)
  then have "digits_val s + 1 \<le> 10 ^ length s" "digit_val c < 10" by (auto simp: digit_val_less)
  then show ?case by simp
qed simp

lemma digits_val_Cons: "digits_val (c # s) = digit_val c * 10 ^ length s + digits_val s"
proof (induction s rule: rev_induct)
  case Nil
  then show ?case by (simp add: digits_val_def)
next
  case (snoc d s)
  have "digits_val (c # s @ [d]) = 10 * digits_val (c # s) + digit_val d"
    using digits_val_snoc[of "c # s" d] by simp
  with snoc show ?case by (simp add: algebra_simps)
qed

lemma digits_less_iff:
  "length s = length t \<Longrightarrow> list_all is_digit s \<Longrightarrow> list_all is_digit t \<Longrightarrow>
    s < t \<longleftrightarrow> digits_val s < digits_val t"
proof (induction s t rule: list_induct2)
  case (Cons c s d t)
  then have b: "digits_val s < 10 ^ length t" "digits_val t < 10 ^ length t"
    using digits_val_bound[of s] digits_val_bound[of t] by auto
  show ?case
  proof (cases "digit_val c" "digit_val d" rule: linorder_cases)
    case less
    then have "(digit_val c + 1) * 10 ^ length t \<le> digit_val d * 10 ^ length t"
      by (intro mult_le_mono1) simp
    with b have "digits_val (c # s) < digits_val (d # t)"
      using Cons.hyps by (simp add: digits_val_Cons)
    moreover have "c < d" using less Cons.prems by (simp add: digit_less_iff)
    ultimately show ?thesis by simp
  next
    case equal
    then have "c = d" using Cons.prems by (simp add: digit_eq_iff)
    with Cons equal show ?thesis by (simp add: digits_val_Cons)
  next
    case greater
    then have "(digit_val d + 1) * 10 ^ length t \<le> digit_val c * 10 ^ length t"
      by (intro mult_le_mono1) simp
    with b have "digits_val (d # t) < digits_val (c # s)"
      using Cons.hyps by (simp add: digits_val_Cons)
    moreover have "d < c" using greater Cons.prems by (simp add: digit_less_iff)
    ultimately show ?thesis by (meson less_asym Cons_less_Cons)
  qed
qed simp

section \<open>String library functions\<close>

text \<open>\<^verbatim>\<open>s.split(c)\<close> on a one-character separator.\<close>

fun split_on :: "char \<Rightarrow> string \<Rightarrow> string list" where
  "split_on c [] = [[]]"
| "split_on c (x # xs) =
     (if x = c then [] # split_on c xs
      else (case split_on c xs of [] \<Rightarrow> [[x]] | y # ys \<Rightarrow> (x # y) # ys))"

lemma split_on_not_Nil [simp]: "split_on c s \<noteq> []"
  by (induction s) (auto split: list.splits)

lemma split_on_none: "c \<notin> set s \<Longrightarrow> split_on c s = [s]"
  by (induction s) auto

lemma split_on_append: "c \<notin> set s \<Longrightarrow> split_on c (s @ c # t) = s # split_on c t"
  by (induction s) auto

text \<open>\<^verbatim>\<open>s.trim()\<close>: the white space and line terminators below code unit 256.\<close>

definition is_js_space :: "char \<Rightarrow> bool" where
  "is_js_space c \<longleftrightarrow> (of_char c :: nat) \<in> {9, 10, 11, 12, 13, 32, 160}"

definition trimStart :: "string \<Rightarrow> string" where
  "trimStart s = dropWhile is_js_space s"

definition trimEnd :: "string \<Rightarrow> string" where
  "trimEnd s = rev (dropWhile is_js_space (rev s))"

definition trim :: "string \<Rightarrow> string" where
  "trim s = trimEnd (trimStart s)"

text \<open>\<^verbatim>\<open>s.toLowerCase()\<close> on Latin-1: A-Z and the accented capitals, but not the
  multiplication sign.\<close>

definition lower_char :: "char \<Rightarrow> char" where
  "lower_char c = (let n = (of_char c :: nat) in
     if (65 \<le> n \<and> n \<le> 90) \<or> (192 \<le> n \<and> n \<le> 222 \<and> n \<noteq> 215) then char_of (n + 32) else c)"

definition toLowerCase :: "string \<Rightarrow> string" where
  "toLowerCase s = map lower_char s"

lemma lower_char_idem [simp]: "lower_char (lower_char c) = lower_char c"
proof -
  have "(of_char (char_of (of_char c + 32 :: nat)) :: nat) = of_char c + 32" if "of_char c \<le> (222 :: nat)"
    using that by (simp add: of_char_of)
  then show ?thesis by (auto simp: lower_char_def Let_def)
qed

lemma toLowerCase_idem [simp]: "toLowerCase (toLowerCase s) = toLowerCase s"
  by (simp add: toLowerCase_def)

definition startsWith :: "string \<Rightarrow> string \<Rightarrow> bool" where
  "startsWith s p \<longleftrightarrow> take (length p) s = p"

fun str_includes :: "string \<Rightarrow> string \<Rightarrow> bool" where
  "str_includes [] p \<longleftrightarrow> p = []"
| "str_includes (c # s) p \<longleftrightarrow> startsWith (c # s) p \<or> str_includes s p"

lemma startsWith_append: "startsWith (p @ s) p"
  by (simp add: startsWith_def)

lemma str_includes_iff: "str_includes s p \<longleftrightarrow> (\<exists>u v. s = u @ p @ v)"
proof (induction s)
  case (Cons c s)
  show ?case
  proof
    assume "str_includes (c # s) p"
    then consider "startsWith (c # s) p" | "str_includes s p" by auto
    then show "\<exists>u v. c # s = u @ p @ v"
    proof cases
      case 1
      then have "c # s = [] @ p @ drop (length p) (c # s)"
        by (metis append_Nil append_take_drop_id startsWith_def)
      then show ?thesis by blast
    next
      case 2
      with Cons.IH obtain u v where "s = u @ p @ v" by blast
      then have "c # s = (c # u) @ p @ v" by simp
      then show ?thesis by blast
    qed
  next
    assume "\<exists>u v. c # s = u @ p @ v"
    then obtain u v where uv: "c # s = u @ p @ v" by blast
    show "str_includes (c # s) p"
    proof (cases u)
      case Nil
      with uv have "startsWith (c # s) p" by (simp add: startsWith_append)
      then show ?thesis by simp
    next
      case (Cons d u')
      with uv have "s = u' @ p @ v" by simp
      with Cons.IH show ?thesis by auto
    qed
  qed
qed auto

text \<open>\<^verbatim>\<open>Number(s)\<close> on a string of decimal digits (the empty string gives 0); None is NaN. Other
  spellings that \<^verbatim>\<open>Number\<close> accepts never reach it: every argument in the modelled code is a
  part of an offset, whose shape is an invariant of the store.\<close>

definition js_Number :: "string \<Rightarrow> nat option" where
  "js_Number s = (if list_all is_digit s then Some (digits_val s) else None)"

definition num_str :: "nat option \<Rightarrow> string" where
  "num_str n = (case n of None \<Rightarrow> ''NaN'' | Some k \<Rightarrow> nat_string k)"

text \<open>A truthiness test on an optional string: undefined and the empty string are false.\<close>

definition truthy :: "string option \<Rightarrow> bool" where
  "truthy s \<longleftrightarrow> s \<noteq> None \<and> s \<noteq> Some []"

lemma truthy_simps [simp]: "\<not> truthy None" "truthy (Some s) \<longleftrightarrow> s \<noteq> []"
  by (simp_all add: truthy_def)

end
