(* ===== verification/Offsets.thy ===== *)
theory Offsets
  imports Js_Prelude
begin

text \<open>
  Stream offsets: the strings \<^verbatim>\<open><read-seq>_<byte-offset>\<close>, two 16-digit zero-padded numerals, that
  \<^verbatim>\<open>StreamStore.appendToStream\<close> and \<^verbatim>\<open>StreamStore.create\<close> (server/src/store.ts) compute and that
  every reader compares with the string order. The locale \<open>offset_codec\<close> states what the rest of
  the server relies on: the encoding is injective and turns the numeric order into the string
  order. It is interpreted on the format of the store below the width of the padding.
\<close>

definition ZERO_OFFSET :: string where
  "ZERO_OFFSET = ''0000000000000000_0000000000000000''"

definition format_offset :: "nat option \<Rightarrow> nat option \<Rightarrow> string" where
  "format_offset readSeq byteOffset =
     padStart 16 CHR ''0'' (num_str readSeq) @ ''_'' @ padStart 16 CHR ''0'' (num_str byteOffset)"

definition parse_offset :: "string \<Rightarrow> nat option \<times> nat option" where
  "parse_offset s = (case map js_Number (split_on CHR ''_'' s) of
      readSeq # byteOffset # _ \<Rightarrow> (readSeq, byteOffset)
    | [readSeq] \<Rightarrow> (readSeq, None)
    | [] \<Rightarrow> (None, None))"

text \<open>The offset after a frame with \<open>len\<close> payload bytes: a 4-byte length prefix, the payload and a
  newline.\<close>

definition FRAME_OVERHEAD :: nat where
  "FRAME_OVERHEAD = 5"

definition advance_offset :: "string \<Rightarrow> nat \<Rightarrow> string" where
  "advance_offset cur len = (let (readSeq, byteOffset) = parse_offset cur in
     format_offset readSeq (map_option (\<lambda>b. b + FRAME_OVERHEAD + len) byteOffset))"

text \<open>\<open>off n\<close> is the canonical offset at byte position \<open>n\<close>: the read sequence is always 0.\<close>

definition off :: "nat \<Rightarrow> string" where
  "off n = format_offset (Some 0) (Some n)"

definition MAX_OFFSET :: nat where
  "MAX_OFFSET = 10 ^ 16"

lemma underscore_not_digit: "list_all is_digit s \<Longrightarrow> CHR ''_'' \<notin> set s"
  by (auto simp: list_all_iff is_digit_def)

lemma off_eq: "off n = replicate 16 CHR ''0'' @ ''_'' @ padStart 16 CHR ''0'' (nat_string n)"
proof -
  have "nat_string 0 = ''0''" by (simp add: nat_string.simps)
  then show ?thesis by (simp add: off_def format_offset_def num_str_def padStart_def numeral_eq_Suc)
qed

lemma ZERO_OFFSET_off: "ZERO_OFFSET = off 0"
  by (simp add: ZERO_OFFSET_def off_eq padStart_def nat_string.simps numeral_eq_Suc)

lemma parse_off [simp]: "parse_offset (off n) = (Some 0, Some n)"
proof -
  have d: "list_all is_digit (padStart 16 CHR ''0'' (nat_string n))"
    "list_all is_digit (replicate 16 CHR ''0'')" by (rule list_all_digit_padStart, simp) (simp add: list_all_iff)
  have "split_on CHR ''_'' (off n) = [replicate 16 CHR ''0'', padStart 16 CHR ''0'' (nat_string n)]"
    using underscore_not_digit[OF d(1)] underscore_not_digit[OF d(2)]
    by (simp add: off_eq split_on_append split_on_none)
  moreover have "digits_val (replicate 16 CHR ''0'') = 0"
    using digits_val_zeros[of 16 "[]"] by simp
  ultimately show ?thesis using d by (simp add: parse_offset_def js_Number_def)
qed

lemma advance_off [simp]: "advance_offset (off n) len = off (n + FRAME_OVERHEAD + len)"
  by (simp add: advance_offset_def off_def[symmetric])

lemma append_same_less [simp]: "(u :: string) @ s < u @ t \<longleftrightarrow> s < t"
  by (induction u) auto

lemma off_less_iff: "n < MAX_OFFSET \<Longrightarrow> m < MAX_OFFSET \<Longrightarrow> off n < off m \<longleftrightarrow> n < m"
proof -
  assume a: "n < MAX_OFFSET" "m < MAX_OFFSET"
  have l: "length (padStart 16 CHR ''0'' (nat_string k)) = 16" if "k < MAX_OFFSET" for k
    using that by (intro length_padStart length_nat_string) (simp_all add: MAX_OFFSET_def)
  have "padStart 16 CHR ''0'' (nat_string n) < padStart 16 CHR ''0'' (nat_string m) \<longleftrightarrow> n < m"
    by (subst digits_less_iff) (use l a in auto)
  then show ?thesis by (simp add: off_eq)
qed

section \<open>The interface readers and writers rely on\<close>

locale offset_codec =
  fixes enc :: "nat \<Rightarrow> string" and dec :: "string \<Rightarrow> nat" and bound :: nat
  assumes dec_enc: "n < bound \<Longrightarrow> dec (enc n) = n"
    and enc_less: "n < bound \<Longrightarrow> m < bound \<Longrightarrow> enc n < enc m \<longleftrightarrow> n < m"
begin

lemma enc_le: "n < bound \<Longrightarrow> m < bound \<Longrightarrow> enc n \<le> enc m \<longleftrightarrow> n \<le> m"
  using enc_less by (metis linorder_not_le)

lemma enc_eq: "n < bound \<Longrightarrow> m < bound \<Longrightarrow> enc n = enc m \<longleftrightarrow> n = m"
  by (metis dec_enc)

lemma strict_sorted_enc:
  "\<forall>n\<in>set ns. n < bound \<Longrightarrow> sorted_wrt (<) (map enc ns) \<longleftrightarrow> sorted_wrt (<) ns"
  by (induction ns) (auto simp: enc_less)

end

definition off_val :: "string \<Rightarrow> nat" where
  "off_val s = digits_val (drop 17 s)"

lemma off_val_off [simp]: "off_val (off n) = n"
  by (simp add: off_val_def off_eq)

interpretation ofs: offset_codec off off_val MAX_OFFSET
  by unfold_locales (simp_all add: off_less_iff)

lemma off_inject [simp]: "off n = off m \<longleftrightarrow> n = m"
  by (metis off_val_off)

text \<open>A stored offset is canonical when it is the format of a byte position that fits the padding.\<close>

definition canonical :: "string \<Rightarrow> bool" where
  "canonical s \<longleftrightarrow> off_val s < MAX_OFFSET \<and> s = off (off_val s)"

lemma canonical_off [simp]: "canonical (off n) \<longleftrightarrow> n < MAX_OFFSET"
  by (simp add: canonical_def)

lemma canonicalE [elim]: "canonical s \<Longrightarrow> (\<And>n. n < MAX_OFFSET \<Longrightarrow> s = off n \<Longrightarrow> P) \<Longrightarrow> P"
  by (auto simp: canonical_def)

lemma canonical_less_iff: "canonical s \<Longrightarrow> canonical t \<Longrightarrow> s < t \<longleftrightarrow> off_val s < off_val t"
  by (auto simp: canonical_def off_less_iff[symmetric])

lemma canonical_le_iff: "canonical s \<Longrightarrow> canonical t \<Longrightarrow> s \<le> t \<longleftrightarrow> off_val s \<le> off_val t"
  using canonical_less_iff by (metis linorder_not_le)

lemma canonical_ZERO [simp]: "canonical ZERO_OFFSET"
  by (simp add: ZERO_OFFSET_off MAX_OFFSET_def)

lemma off_val_ZERO [simp]: "off_val ZERO_OFFSET = 0"
  by (simp add: ZERO_OFFSET_off)

lemma advance_canonical:
  "canonical s \<Longrightarrow> off_val s + FRAME_OVERHEAD + len < MAX_OFFSET \<Longrightarrow>
    canonical (advance_offset s len) \<and> off_val (advance_offset s len) = off_val s + FRAME_OVERHEAD + len
    \<and> s < advance_offset s len"
  by (auto elim!: canonicalE simp: off_less_iff FRAME_OVERHEAD_def)

end
