(* ===== verification/Json_Text.thy ===== *)
theory Json_Text
  imports Js_Prelude
begin

text \<open>
  The text and JSON library functions that the JSON mode of the stores calls:
  \<^verbatim>\<open>TextDecoder.decode\<close>, \<^verbatim>\<open>TextEncoder.encode\<close>, \<^verbatim>\<open>JSON.parse\<close> and \<^verbatim>\<open>JSON.stringify\<close>.

  A decoded text is a list of code points. Unpaired surrogates occur only inside JSON strings,
  where an escape can produce them. Numbers are kept as the text that \<^verbatim>\<open>String(Number(lexeme))\<close>
  gives; that conversion (IEEE 754 parsing and shortest printing) is the parameter \<open>nc\<close>.
  An object is the list of its own properties in enumeration order: array indices ascending, then
  the other keys in creation order.
\<close>

type_synonym utext = "nat list"

definition asc :: "string \<Rightarrow> utext" where
  "asc s = map of_char s"

section \<open>UTF-8\<close>

definition REPLACEMENT :: nat where
  "REPLACEMENT = 65533"

definition is_cont :: "nat \<Rightarrow> bool" where
  "is_cont b \<longleftrightarrow> 128 \<le> b \<and> b \<le> 191"

text \<open>The decoder of the encoding standard: an ill-formed maximal prefix of a sequence becomes one
  replacement character and decoding resumes at the offending byte.\<close>

fun utf8_decode :: "nat list \<Rightarrow> utext" where
  "utf8_decode [] = []"
| "utf8_decode (b # bs) =
    (if b < 128 then b # utf8_decode bs
     else if 194 \<le> b \<and> b \<le> 223 then
       (case bs of
          c # cs \<Rightarrow> if is_cont c then ((b - 192) * 64 + (c - 128)) # utf8_decode cs
                    else REPLACEMENT # utf8_decode bs
        | [] \<Rightarrow> [REPLACEMENT])
     else if 224 \<le> b \<and> b \<le> 239 then
       (case bs of
          c # cs \<Rightarrow>
            if (if b = 224 then 160 else 128) \<le> c \<and> c \<le> (if b = 237 then 159 else 191) then
              (case cs of
                 d # ds \<Rightarrow> if is_cont d then ((b - 224) * 4096 + (c - 128) * 64 + (d - 128)) # utf8_decode ds
                           else REPLACEMENT # utf8_decode cs
               | [] \<Rightarrow> [REPLACEMENT])
            else REPLACEMENT # utf8_decode bs
        | [] \<Rightarrow> [REPLACEMENT])
     else if 240 \<le> b \<and> b \<le> 244 then
       (case bs of
          c # cs \<Rightarrow>
            if (if b = 240 then 144 else 128) \<le> c \<and> c \<le> (if b = 244 then 143 else 191) then
              (case cs of
                 d # ds \<Rightarrow>
                   if is_cont d then
                     (case ds of
                        e # es \<Rightarrow> if is_cont e
                                  then ((b - 240) * 262144 + (c - 128) * 4096 + (d - 128) * 64 + (e - 128)) # utf8_decode es
                                  else REPLACEMENT # utf8_decode ds
                      | [] \<Rightarrow> [REPLACEMENT])
                   else REPLACEMENT # utf8_decode cs
               | [] \<Rightarrow> [REPLACEMENT])
            else REPLACEMENT # utf8_decode bs
        | [] \<Rightarrow> [REPLACEMENT])
     else REPLACEMENT # utf8_decode bs)"

definition is_surrogate :: "nat \<Rightarrow> bool" where
  "is_surrogate u \<longleftrightarrow> 55296 \<le> u \<and> u \<le> 57343"

definition utf8_char :: "nat \<Rightarrow> nat list" where
  "utf8_char u =
    (if u < 128 then [u]
     else if u < 2048 then [192 + u div 64, 128 + u mod 64]
     else if is_surrogate u then [239, 191, 189]
     else if u < 65536 then [224 + u div 4096, 128 + u div 64 mod 64, 128 + u mod 64]
     else [240 + u div 262144, 128 + u div 4096 mod 64, 128 + u div 64 mod 64, 128 + u mod 64])"

definition utf8_encode :: "utext \<Rightarrow> nat list" where
  "utf8_encode t = concat (map utf8_char t)"

text \<open>\<^verbatim>\<open>new TextDecoder().decode(data)\<close> drops one leading byte order mark.\<close>

definition text_decode :: "bytes \<Rightarrow> utext" where
  "text_decode data = (case utf8_decode (map of_char data) of
      u # r \<Rightarrow> if u = 65279 then r else u # r
    | [] \<Rightarrow> [])"

definition text_encode :: "utext \<Rightarrow> bytes" where
  "text_encode t = map char_of (utf8_encode t)"

definition scalar :: "nat \<Rightarrow> bool" where
  "scalar u \<longleftrightarrow> u < 1114112 \<and> \<not> is_surrogate u"

text \<open>The base-64 digits of a code point, the payloads of its continuation bytes.\<close>

lemma base64_digits:
  fixes u :: nat
  shows "u div 4096 * 4096 + u div 64 mod 64 * 64 + u mod 64 = u"
    and "u div 262144 * 64 + u div 4096 mod 64 = u div 4096"
    and "u div 4096 * 64 + u div 64 mod 64 = u div 64"
    and "u div 64 mod 64 \<le> 63" and "u div 4096 mod 64 \<le> 63" and "u mod 64 \<le> 63"
proof -
  have a: "u div 4096 = u div 64 div 64" "u div 262144 = u div 4096 div 64"
    by (simp_all add: div_mult2_eq[symmetric])
  show b: "u div 262144 * 64 + u div 4096 mod 64 = u div 4096" unfolding a(2) by simp
  show c: "u div 4096 * 64 + u div 64 mod 64 = u div 64" unfolding a(1) by simp
  have "u div 64 * 64 + u mod 64 = u" by simp
  with c show "u div 4096 * 4096 + u div 64 mod 64 * 64 + u mod 64 = u" by linarith
qed auto

lemma utf8_decode_2:
  assumes "128 \<le> u" "u < 2048"
  shows "utf8_decode (utf8_char u @ bs) = u # utf8_decode bs"
proof -
  have q: "2 \<le> u div 64" "u div 64 \<le> 31" "u mod 64 \<le> 63" using assms by auto
  have c: "utf8_char u = [192 + u div 64, 128 + u mod 64]" using assms by (simp add: utf8_char_def)
  show ?thesis using q unfolding c by (simp add: is_cont_def)
qed

lemma utf8_decode_3:
  assumes "2048 \<le> u" "u < 65536" "\<not> is_surrogate u"
  shows "utf8_decode (utf8_char u @ bs) = u # utf8_decode bs"
proof -
  note d = base64_digits[of u]
  have q: "u div 4096 \<le> 15" using assms by auto
  have low: "32 \<le> u div 64 mod 64" if "u div 4096 = 0" using that d assms by linarith
  have high: "u div 64 mod 64 \<le> 31" if "u div 4096 = 13"
    using that d assms by (auto simp: is_surrogate_def)
  have c: "utf8_char u = [224 + u div 4096, 128 + u div 64 mod 64, 128 + u mod 64]"
    using assms by (simp add: utf8_char_def)
  have e: "u div 4096 * 4096 + u div 64 mod 64 * 64 + u mod 64 = u" by (rule d)
  show ?thesis unfolding c using q low high d(4,6) e
    by (cases "u div 4096 = 0"; cases "u div 4096 = 13") (simp_all add: is_cont_def)
qed

lemma utf8_decode_4:
  assumes "65536 \<le> u" "u < 1114112"
  shows "utf8_decode (utf8_char u @ bs) = u # utf8_decode bs"
proof -
  note d = base64_digits[of u]
  have q: "u div 262144 \<le> 4" using assms by auto
  have low: "16 \<le> u div 4096 mod 64" if "u div 262144 = 0" using that d assms by linarith
  have high: "u div 4096 mod 64 \<le> 15" if "u div 262144 = 4" using that d assms by linarith
  have c: "utf8_char u = [240 + u div 262144, 128 + u div 4096 mod 64, 128 + u div 64 mod 64, 128 + u mod 64]"
    using assms by (simp add: utf8_char_def is_surrogate_def)
  have e: "u div 262144 * 262144 + u div 4096 mod 64 * 4096 + u div 64 mod 64 * 64 + u mod 64 = u"
    using d by linarith
  show ?thesis unfolding c using q low high d(4,5,6) e
    by (cases "u div 262144 = 0"; cases "u div 262144 = 4") (simp_all add: is_cont_def)
qed

lemma utf8_decode_char: "scalar u \<Longrightarrow> utf8_decode (utf8_char u @ bs) = u # utf8_decode bs"
  using utf8_decode_2[of u bs] utf8_decode_3[of u bs] utf8_decode_4[of u bs]
  by (cases "u < 128"; cases "u < 2048"; cases "u < 65536") (auto simp: scalar_def utf8_char_def)

lemma utf8_roundtrip: "list_all scalar t \<Longrightarrow> utf8_decode (utf8_encode t) = t"
  by (induction t) (auto simp: utf8_encode_def utf8_decode_char)

lemma utf8_char_bytes: "u < 1114112 \<Longrightarrow> list_all (\<lambda>b. b < 256) (utf8_char u)"
  by (auto simp: utf8_char_def)

lemma text_roundtrip:
  assumes "list_all scalar t" and "t = [] \<or> hd t \<noteq> 65279"
  shows "text_decode (text_encode t) = t"
proof -
  have "list_all (\<lambda>b. b < 256) (utf8_encode t)"
    using assms(1) utf8_char_bytes by (auto simp: utf8_encode_def list_all_iff scalar_def)
  then have "map of_char (map char_of (utf8_encode t) :: char list) = utf8_encode t"
    by (auto simp: list_all_iff intro!: map_idI)
  then show ?thesis
    using assms by (cases t) (auto simp: text_decode_def text_encode_def utf8_roundtrip)
qed

lemma text_encode_append: "text_encode (s @ t) = text_encode s @ text_encode t"
  by (simp add: text_encode_def utf8_encode_def)

lemma text_encode_Nil [simp]: "text_encode [] = []"
  by (simp add: text_encode_def utf8_encode_def)

text \<open>Every decoded code point is a scalar value: surrogates and values above the last plane are
  ill-formed and become replacement characters.\<close>

lemma scalar_2: "194 \<le> b \<Longrightarrow> b \<le> 223 \<Longrightarrow> is_cont c \<Longrightarrow> scalar ((b - 192) * 64 + (c - 128))"
proof -
  assume a: "194 \<le> b" "b \<le> 223" "is_cont c"
  then have "(b - 192) * 64 \<le> 31 * 64" by (intro mult_le_mono1) simp
  with a show ?thesis by (auto simp: scalar_def is_surrogate_def is_cont_def)
qed

lemma scalar_3:
  assumes "224 \<le> b" "b \<le> 239" "(if b = 224 then 160 else 128) \<le> c" "c \<le> (if b = 237 then 159 else 191)" "is_cont d"
  shows "scalar ((b - 224) * 4096 + (c - 128) * 64 + (d - 128))"
proof -
  have c: "(c - 128) * 64 \<le> (if b = 237 then 31 else 63) * 64"
    using assms by (intro mult_le_mono1) (auto split: if_splits)
  have d: "d - 128 \<le> 63" using assms by (auto simp: is_cont_def)
  consider "b < 237" | "b = 237" | "237 < b" by linarith
  then show ?thesis
  proof cases
    case 1
    then have "(b - 224) * 4096 \<le> 12 * 4096" by (intro mult_le_mono1) simp
    with 1 c d show ?thesis by (auto simp: scalar_def is_surrogate_def)
  next
    case 2
    with c d show ?thesis by (auto simp: scalar_def is_surrogate_def)
  next
    case 3
    then have "14 * 4096 \<le> (b - 224) * 4096" "(b - 224) * 4096 \<le> 15 * 4096"
      using assms by (auto intro!: mult_le_mono1)
    with 3 c d show ?thesis by (auto simp: scalar_def is_surrogate_def)
  qed
qed

lemma scalar_4:
  assumes "240 \<le> b" "b \<le> 244" "(if b = 240 then 144 else 128) \<le> c" "c \<le> (if b = 244 then 143 else 191)"
    "is_cont d" "is_cont e"
  shows "scalar ((b - 240) * 262144 + (c - 128) * 4096 + (d - 128) * 64 + (e - 128))"
proof -
  have c: "(c - 128) * 4096 \<le> (if b = 244 then 15 else 63) * 4096"
    using assms by (intro mult_le_mono1) (auto split: if_splits)
  have c': "16 * 4096 \<le> (c - 128) * 4096" if "b = 240" using assms that by (intro mult_le_mono1) auto
  have d: "(d - 128) * 64 \<le> 63 * 64" using assms by (intro mult_le_mono1) (auto simp: is_cont_def)
  have e: "e - 128 \<le> 63" using assms by (auto simp: is_cont_def)
  consider "b = 240" | "240 < b" "b < 244" | "b = 244" using assms by linarith
  then show ?thesis
  proof cases
    case 2
    then have "1 * 262144 \<le> (b - 240) * 262144" "(b - 240) * 262144 \<le> 3 * 262144"
      by (auto intro!: mult_le_mono1)
    with 2 c d e show ?thesis by (auto simp: scalar_def is_surrogate_def)
  qed (use c c' d e in \<open>auto simp: scalar_def is_surrogate_def\<close>)
qed

declare utf8_decode.simps(2) [simp del]

lemma utf8_decode_scalar: "list_all scalar (utf8_decode bs)"
proof (induction bs rule: measure_induct_rule[of length])
  case (less bs)
  have r: "scalar REPLACEMENT" by (simp add: scalar_def is_surrogate_def REPLACEMENT_def)
  show ?case
  proof (cases bs)
    case (Cons b cs)
    have IH: "list_all scalar (utf8_decode q)" if "length q \<le> length cs" for q
      using less that Cons by simp
    consider "b < 128" | "194 \<le> b" "b \<le> 223" | "224 \<le> b" "b \<le> 239" | "240 \<le> b" "b \<le> 244"
      | "\<not> b < 128" "\<not> (194 \<le> b \<and> b \<le> 223)" "\<not> (224 \<le> b \<and> b \<le> 239)" "\<not> (240 \<le> b \<and> b \<le> 244)"
      by linarith
    then show ?thesis
    proof cases
      case 1
      then have "scalar b" by (simp add: scalar_def is_surrogate_def)
      with 1 IH show ?thesis by (simp add: Cons utf8_decode.simps(2))
    next
      case 2
      show ?thesis unfolding Cons utf8_decode.simps(2)[of b cs] using 2 IH r scalar_2[of b] by (simp split: list.split)
    next
      case 3
      show ?thesis unfolding Cons utf8_decode.simps(2)[of b cs] using 3 IH r
        by (auto split: list.split intro!: scalar_3
            scalar_3[of 224, simplified])
    next
      case 4
      show ?thesis unfolding Cons utf8_decode.simps(2)[of b cs] using 4 IH r
        by (auto split: list.split intro!: scalar_4
            scalar_4[of 240, simplified])
    next
      case 5
      show ?thesis unfolding Cons utf8_decode.simps(2)[of b cs] by (simp only: 5 if_False list.pred_inject r IH order_refl simp_thms)
    qed
  qed simp
qed

lemma text_decode_scalar: "list_all scalar (text_decode data)"
  using utf8_decode_scalar[of "map of_char data"] by (auto simp: text_decode_def split: list.splits)

end
