(* ===== verification/Json.thy ===== *)
theory Json
  imports Json_Text
begin

text \<open>
  \<^verbatim>\<open>JSON.parse\<close> and \<^verbatim>\<open>JSON.stringify\<close> (without indentation) over code point texts, and the
  theorem the JSON mode of the stores rests on: parsing the text of a value gives the value back,
  whatever follows it. The parser takes fuel, one unit per nested value or list element; the entry
  point gives it more than the text can use, and \<open>parse_value_fuel\<close> shows that any larger amount
  gives the same result.
\<close>

datatype json = JNull | JBool bool | JNum utext | JStr utext
  | JArr "json list" | JObj "(utext \<times> json) list"

section \<open>Objects\<close>

definition is_udigit :: "nat \<Rightarrow> bool" where
  "is_udigit u \<longleftrightarrow> 48 \<le> u \<and> u \<le> 57"

definition udigits_val :: "utext \<Rightarrow> nat" where
  "udigits_val t = foldl (\<lambda>a u. 10 * a + (u - 48)) 0 t"

text \<open>An array index is the canonical numeral of an integer below \<open>2^32 - 1\<close>.\<close>

definition is_index :: "utext \<Rightarrow> bool" where
  "is_index k \<longleftrightarrow> k \<noteq> [] \<and> list_all is_udigit k \<and> (hd k \<noteq> 48 \<or> k = [48]) \<and> udigits_val k < 4294967295"

text \<open>Creating or overwriting a property, keeping the enumeration order.\<close>

fun obj_set :: "utext \<Rightarrow> json \<Rightarrow> (utext \<times> json) list \<Rightarrow> (utext \<times> json) list" where
  "obj_set k v [] = [(k, v)]"
| "obj_set k v ((k', v') # r) =
     (if k = k' then (k, v) # r
      else if is_index k \<and> \<not> (is_index k' \<and> udigits_val k' < udigits_val k) then (k, v) # (k', v') # r
      else (k', v') # obj_set k v r)"

lemma map_of_obj_set_same [simp]: "map_of (obj_set k v m) k = Some v"
  by (induction m) auto

section \<open>JSON.stringify\<close>

definition hex_digit :: "nat \<Rightarrow> nat" where
  "hex_digit n = (if n < 10 then 48 + n else 87 + n)"

definition hex4 :: "nat \<Rightarrow> utext" where
  "hex4 u = [hex_digit (u div 4096), hex_digit (u div 256 mod 16), hex_digit (u div 16 mod 16), hex_digit (u mod 16)]"

definition quote_char :: "nat \<Rightarrow> utext" where
  "quote_char u =
    (if u = 8 then [92, 98] else if u = 9 then [92, 116] else if u = 10 then [92, 110]
     else if u = 12 then [92, 102] else if u = 13 then [92, 114]
     else if u = 34 then [92, 34] else if u = 92 then [92, 92]
     else if u < 32 \<or> is_surrogate u then [92, 117] @ hex4 u
     else [u])"

definition quote_str :: "utext \<Rightarrow> utext" where
  "quote_str t = [34] @ concat (map quote_char t) @ [34]"

fun join_comma :: "utext list \<Rightarrow> utext" where
  "join_comma [] = []"
| "join_comma [x] = x"
| "join_comma (x # y # r) = x @ [44] @ join_comma (y # r)"

text \<open>A number that is not finite prints as null.\<close>

definition num_finite :: "utext \<Rightarrow> bool" where
  "num_finite t \<longleftrightarrow> t \<notin> {asc ''Infinity'', asc ''-Infinity'', asc ''NaN''}"

fun stringify :: "json \<Rightarrow> utext" where
  "stringify JNull = asc ''null''"
| "stringify (JBool b) = (if b then asc ''true'' else asc ''false'')"
| "stringify (JNum t) = (if num_finite t then t else asc ''null'')"
| "stringify (JStr s) = quote_str s"
| "stringify (JArr vs) = [91] @ join_comma (map stringify vs) @ [93]"
| "stringify (JObj ps) = [123] @ join_comma (map (\<lambda>(k, v). quote_str k @ [58] @ stringify v) ps) @ [125]"

section \<open>JSON.parse\<close>

definition is_ws :: "nat \<Rightarrow> bool" where
  "is_ws u \<longleftrightarrow> u = 32 \<or> u = 9 \<or> u = 10 \<or> u = 13"

definition skip_ws :: "utext \<Rightarrow> utext" where
  "skip_ws s = dropWhile is_ws s"

definition hex_val :: "nat \<Rightarrow> nat option" where
  "hex_val u = (if 48 \<le> u \<and> u \<le> 57 then Some (u - 48)
     else if 97 \<le> u \<and> u \<le> 102 then Some (u - 87)
     else if 65 \<le> u \<and> u \<le> 70 then Some (u - 55) else None)"

fun parse_hex4 :: "utext \<Rightarrow> (nat \<times> utext) option" where
  "parse_hex4 (a # b # c # d # r) =
     (case (hex_val a, hex_val b, hex_val c, hex_val d) of
        (Some w, Some x, Some y, Some z) \<Rightarrow> Some (w * 4096 + x * 256 + y * 16 + z, r)
      | _ \<Rightarrow> None)"
| "parse_hex4 _ = None"

lemma parse_hex4_length: "parse_hex4 s = Some (u, r) \<Longrightarrow> length r < length s"
  by (induction s rule: parse_hex4.induct) (auto split: option.splits)

definition simple_escape :: "nat \<Rightarrow> nat option" where
  "simple_escape u = map_of [(34, 34), (92, 92), (47, 47), (98, 8), (102, 12), (110, 10), (114, 13), (116, 9)] u"

text \<open>A low surrogate escape, looked for after a high surrogate escape.\<close>

fun low_escape :: "utext \<Rightarrow> (nat \<times> utext) option" where
  "low_escape (a # b # r) =
     (if a = 92 \<and> b = 117 then
        (case parse_hex4 r of
           Some (l, r') \<Rightarrow> if 56320 \<le> l \<and> l \<le> 57343 then Some (l, r') else None
         | None \<Rightarrow> None)
      else None)"
| "low_escape _ = None"

lemma low_escape_length: "low_escape s = Some (u, r) \<Longrightarrow> length r < length s"
  by (induction s rule: low_escape.induct)
    (auto split: option.splits if_splits dest!: parse_hex4_length)

definition add_char :: "nat \<Rightarrow> (utext \<times> utext) option \<Rightarrow> (utext \<times> utext) option" where
  "add_char u p = map_option (\<lambda>(t, r). (u # t, r)) p"

text \<open>The rest of a string literal after its opening quote: its contents and what follows.\<close>

function parse_str :: "utext \<Rightarrow> (utext \<times> utext) option" where
  "parse_str [] = None"
| "parse_str (c # r) =
    (if c = 34 then Some ([], r)
     else if c = 92 then
       (case r of
          [] \<Rightarrow> None
        | e # r1 \<Rightarrow>
            if e = 117 then
              (case parse_hex4 r1 of
                 None \<Rightarrow> None
               | Some (u, r2) \<Rightarrow>
                   (case (if 55296 \<le> u \<and> u \<le> 56319 then low_escape r2 else None) of
                      Some (l, r3) \<Rightarrow> add_char (65536 + (u - 55296) * 1024 + (l - 56320)) (parse_str r3)
                    | None \<Rightarrow> add_char u (parse_str r2)))
            else (case simple_escape e of None \<Rightarrow> None | Some x \<Rightarrow> add_char x (parse_str r1)))
     else if c < 32 then None
     else add_char c (parse_str r))"
  by pat_completeness auto
termination
  by (relation "measure length")
    (auto split: if_splits dest!: parse_hex4_length low_escape_length)

definition span_digits :: "utext \<Rightarrow> utext \<times> utext" where
  "span_digits s = (takeWhile is_udigit s, dropWhile is_udigit s)"

text \<open>The grammar of numbers: the lexeme and what follows it.\<close>

definition parse_int :: "utext \<Rightarrow> (utext \<times> utext) option" where
  "parse_int s = (case s of
      [] \<Rightarrow> None
    | d # r \<Rightarrow> if d = 48 then Some ([48], r) else if is_udigit d then Some (span_digits s) else None)"

definition parse_frac :: "utext \<Rightarrow> (utext \<times> utext) option" where
  "parse_frac s = (case s of
      d # r \<Rightarrow> if d = 46 then (case span_digits r of (ds, r') \<Rightarrow> if ds = [] then None else Some (46 # ds, r'))
               else Some ([], s)
    | [] \<Rightarrow> Some ([], []))"

definition parse_sign :: "utext \<Rightarrow> utext \<times> utext" where
  "parse_sign s = (case s of g # r \<Rightarrow> if g = 43 \<or> g = 45 then ([g], r) else ([], s) | [] \<Rightarrow> ([], []))"

definition parse_exp :: "utext \<Rightarrow> (utext \<times> utext) option" where
  "parse_exp s = (case s of
      e # r \<Rightarrow> if e = 101 \<or> e = 69 then
          (case span_digits (snd (parse_sign r)) of
             (ds, r') \<Rightarrow> if ds = [] then None else Some (e # fst (parse_sign r) @ ds, r'))
        else Some ([], s)
    | [] \<Rightarrow> Some ([], []))"

definition parse_num :: "utext \<Rightarrow> (utext \<times> utext) option" where
  "parse_num s =
    (let (sg, s1) = (case s of c # r \<Rightarrow> if c = 45 then ([45], r) else ([], s) | [] \<Rightarrow> ([], []))
     in case parse_int s1 of None \<Rightarrow> None
      | Some (i, s2) \<Rightarrow> (case parse_frac s2 of None \<Rightarrow> None
      | Some (f, s3) \<Rightarrow> (case parse_exp s3 of None \<Rightarrow> None
      | Some (e, s4) \<Rightarrow> Some (sg @ i @ f @ e, s4))))"

definition literal :: "string \<Rightarrow> json \<Rightarrow> utext \<Rightarrow> (json \<times> utext) option" where
  "literal w v s = (if take (length w) s = asc w then Some (v, drop (length w) s) else None)"

fun parse_value :: "(utext \<Rightarrow> utext) \<Rightarrow> nat \<Rightarrow> utext \<Rightarrow> (json \<times> utext) option"
and parse_elems :: "(utext \<Rightarrow> utext) \<Rightarrow> nat \<Rightarrow> utext \<Rightarrow> (json list \<times> utext) option"
and parse_members :: "(utext \<Rightarrow> utext) \<Rightarrow> nat \<Rightarrow> (utext \<times> json) list \<Rightarrow> utext \<Rightarrow> ((utext \<times> json) list \<times> utext) option"
where
  "parse_value nc 0 s = None"
| "parse_value nc (Suc f) s =
    (case skip_ws s of
       [] \<Rightarrow> None
     | c # r \<Rightarrow>
         if c = 123 then
           (case skip_ws r of
              [] \<Rightarrow> None
            | c' # r' \<Rightarrow> if c' = 125 then Some (JObj [], r')
                          else map_option (\<lambda>(ps, r''). (JObj ps, r'')) (parse_members nc f [] r))
         else if c = 91 then
           (case skip_ws r of
              [] \<Rightarrow> None
            | c' # r' \<Rightarrow> if c' = 93 then Some (JArr [], r')
                          else map_option (\<lambda>(vs, r''). (JArr vs, r'')) (parse_elems nc f r))
         else if c = 34 then map_option (\<lambda>(t, r'). (JStr t, r')) (parse_str r)
         else if c = 116 then literal ''true'' (JBool True) (c # r)
         else if c = 102 then literal ''false'' (JBool False) (c # r)
         else if c = 110 then literal ''null'' JNull (c # r)
         else map_option (\<lambda>(l, r'). (JNum (nc l), r')) (parse_num (c # r)))"
| "parse_elems nc 0 s = None"
| "parse_elems nc (Suc f) s =
    (case parse_value nc f s of
       None \<Rightarrow> None
     | Some (v, s1) \<Rightarrow>
         (case skip_ws s1 of
            [] \<Rightarrow> None
          | c # r \<Rightarrow> if c = 44 then map_option (\<lambda>(vs, r'). (v # vs, r')) (parse_elems nc f r)
                     else if c = 93 then Some ([v], r) else None))"
| "parse_members nc 0 acc s = None"
| "parse_members nc (Suc f) acc s =
    (case skip_ws s of
       [] \<Rightarrow> None
     | q # s0 \<Rightarrow>
         if q \<noteq> 34 then None
         else (case parse_str s0 of
            None \<Rightarrow> None
          | Some (k, s1) \<Rightarrow>
              (case skip_ws s1 of
                 [] \<Rightarrow> None
               | c # s2 \<Rightarrow>
                   if c \<noteq> 58 then None
                   else (case parse_value nc f s2 of
                      None \<Rightarrow> None
                    | Some (v, s3) \<Rightarrow>
                        (case skip_ws s3 of
                           [] \<Rightarrow> None
                         | d # r \<Rightarrow> if d = 44 then parse_members nc f (obj_set k v acc) r
                                    else if d = 125 then Some (obj_set k v acc, r) else None)))))"

definition json_parse :: "(utext \<Rightarrow> utext) \<Rightarrow> utext \<Rightarrow> json option" where
  "json_parse nc s = (case parse_value nc (2 * length s + 2) s of
      Some (v, r) \<Rightarrow> if skip_ws r = [] then Some v else None
    | None \<Rightarrow> None)"

section \<open>Parsing what was printed\<close>

subsection \<open>Strings\<close>

definition is_high :: "nat \<Rightarrow> bool" where
  "is_high u \<longleftrightarrow> 55296 \<le> u \<and> u \<le> 56319"

definition is_low :: "nat \<Rightarrow> bool" where
  "is_low u \<longleftrightarrow> 56320 \<le> u \<and> u \<le> 57343"

text \<open>A list of code points denotes a string when no high surrogate stands before a low one: the
  two would be one code point.\<close>

fun str_ok :: "utext \<Rightarrow> bool" where
  "str_ok [] \<longleftrightarrow> True"
| "str_ok [u] \<longleftrightarrow> True"
| "str_ok (u # v # t) \<longleftrightarrow> \<not> (is_high u \<and> is_low v) \<and> str_ok (v # t)"

lemma hex_val_digit [simp]: "n < 16 \<Longrightarrow> hex_val (hex_digit n) = Some n"
  by (auto simp: hex_val_def hex_digit_def)

lemma hex_value: "u div 4096 * 4096 + u div 256 mod 16 * 256 + u div 16 mod 16 * 16 + u mod 16 = (u :: nat)"
proof -
  have "u div 4096 = u div 256 div 16" "u div 256 = u div 16 div 16"
    by (simp_all add: div_mult2_eq[symmetric])
  moreover have "u div 256 div 16 * 16 + u div 256 mod 16 = u div 256"
    "u div 16 div 16 * 16 + u div 16 mod 16 = u div 16" "u div 16 * 16 + u mod 16 = u" by simp_all
  ultimately show ?thesis by linarith
qed

lemma parse_hex4_hex4 [simp]: "u < 65536 \<Longrightarrow> parse_hex4 (hex4 u @ r) = Some (u, r)"
proof -
  assume "u < 65536"
  then have "u div 4096 < 16" by auto
  then show ?thesis using hex_value[of u] by (simp add: hex4_def)
qed

lemma low_escape_head: "a \<noteq> 92 \<Longrightarrow> low_escape (a # r) = None"
  by (cases r) auto

lemma low_escape_quote: "u < 1114112 \<Longrightarrow> \<not> is_low u \<Longrightarrow> low_escape (quote_char u @ r) = None"
  by (auto simp: quote_char_def is_low_def is_surrogate_def low_escape_head)

lemma parse_str_quote:
  assumes "str_ok (u # t)" and "u < 1114112" and "list_all (\<lambda>v. v < 1114112) t"
  shows "parse_str (quote_char u @ concat (map quote_char t) @ 34 # r) =
           add_char u (parse_str (concat (map quote_char t) @ 34 # r))"
proof -
  have "low_escape (concat (map quote_char t) @ 34 # r) = None" if "is_high u"
  proof (cases t)
    case Nil
    then show ?thesis by (cases r) auto
  next
    case (Cons v t')
    with that assms have "\<not> is_low v" "v < 1114112" by auto
    with Cons show ?thesis by (simp add: low_escape_quote)
  qed
  moreover consider "is_surrogate u" | "\<not> is_surrogate u" "u < 32" | "\<not> is_surrogate u" "32 \<le> u" by linarith
  ultimately show ?thesis
    by cases (auto simp: quote_char_def simple_escape_def is_surrogate_def is_high_def)
qed

lemma parse_str_concat: "str_ok t \<Longrightarrow> list_all (\<lambda>v. v < 1114112) t \<Longrightarrow>
    parse_str (concat (map quote_char t) @ 34 # r) = Some (t, r)"
proof (induction t)
  case (Cons u t)
  then have "str_ok t" by (cases t) auto
  with Cons have "parse_str (concat (map quote_char t) @ 34 # r) = Some (t, r)" by simp
  moreover have "parse_str (quote_char u @ concat (map quote_char t) @ 34 # r) =
      add_char u (parse_str (concat (map quote_char t) @ 34 # r))"
    using Cons by (intro parse_str_quote) auto
  ultimately show ?case by (simp add: add_char_def)
qed simp

definition text_ok :: "utext \<Rightarrow> bool" where
  "text_ok t \<longleftrightarrow> str_ok t \<and> list_all (\<lambda>v. v < 1114112) t"

lemma parse_str_quote_str: "text_ok t \<Longrightarrow> parse_str (tl (quote_str t) @ r) = Some (t, r)"
  by (simp add: quote_str_def text_ok_def parse_str_concat)

subsection \<open>Numbers\<close>

definition num_end :: "utext \<Rightarrow> bool" where
  "num_end r \<longleftrightarrow> r = [] \<or> \<not> is_udigit (hd r) \<and> hd r \<notin> {46, 101, 69}"

definition num_ok :: "(utext \<Rightarrow> utext) \<Rightarrow> utext \<Rightarrow> bool" where
  "num_ok nc t \<longleftrightarrow> parse_num t = Some (t, []) \<and> nc t = t"

lemma span_digits_append:
  "span_digits s = (a, b) \<Longrightarrow> b = [] \<longrightarrow> num_end r \<Longrightarrow> span_digits (s @ r) = (a, b @ r)"
proof (induction s arbitrary: a)
  case Nil
  then show ?case by (cases r) (auto simp: span_digits_def num_end_def)
qed (auto simp: span_digits_def split: if_splits)

lemma parse_sign_append: "s \<noteq> [] \<Longrightarrow> parse_sign (s @ r) = (fst (parse_sign s), snd (parse_sign s) @ r)"
  by (cases s) (auto simp: parse_sign_def)

lemma parse_exp_append:
  assumes "parse_exp s = Some (a, b)" and "b = [] \<longrightarrow> num_end r"
  shows "parse_exp (s @ r) = Some (a, b @ r)"
proof (cases s)
  case Nil
  with assms show ?thesis by (cases r) (auto simp: parse_exp_def num_end_def)
next
  case (Cons e s')
  show ?thesis
  proof (cases "e = 101 \<or> e = 69")
    case True
    with assms Cons obtain ds where ds: "span_digits (snd (parse_sign s')) = (ds, b)" "ds \<noteq> []"
      "a = e # fst (parse_sign s') @ ds"
      by (auto simp: parse_exp_def split: prod.splits if_splits)
    then have "s' \<noteq> []" by (auto simp: parse_sign_def span_digits_def)
    with ds True Cons assms(2) show ?thesis
      by (simp add: parse_exp_def parse_sign_append span_digits_append)
  qed (use assms Cons in \<open>auto simp: parse_exp_def\<close>)
qed

lemma parse_frac_append:
  assumes "parse_frac s = Some (a, b)" and "b = [] \<longrightarrow> num_end r"
  shows "parse_frac (s @ r) = Some (a, b @ r)"
proof (cases s)
  case Nil
  with assms show ?thesis by (cases r) (auto simp: parse_frac_def num_end_def)
next
  case (Cons e s')
  show ?thesis
  proof (cases "e = 46")
    case True
    with assms Cons obtain ds where "span_digits s' = (ds, b)" "ds \<noteq> []" "a = e # ds"
      by (auto simp: parse_frac_def split: prod.splits if_splits)
    with True Cons assms(2) show ?thesis by (simp add: parse_frac_def span_digits_append)
  qed (use assms Cons in \<open>auto simp: parse_frac_def\<close>)
qed

lemma parse_int_append:
  assumes "parse_int s = Some (a, b)" and "b = [] \<longrightarrow> num_end r"
  shows "parse_int (s @ r) = Some (a, b @ r)"
proof (cases s)
  case (Cons d s')
  show ?thesis
  proof (cases "d = 48")
    case False
    with assms Cons have "is_udigit d" "span_digits (d # s') = (a, b)"
      by (auto simp: parse_int_def split: if_splits)
    with span_digits_append[of "d # s'" a b r] False Cons assms(2) show ?thesis
      by (simp add: parse_int_def)
  qed (use assms Cons in \<open>auto simp: parse_int_def\<close>)
qed (use assms in \<open>simp add: parse_int_def\<close>)

text \<open>What remains after the last part of a number is what each part left.\<close>

lemma parse_num_append:
  assumes "parse_num s = Some (a, [])" and "num_end r"
  shows "parse_num (s @ r) = Some (a, r)"
proof -
  obtain sg s1 :: utext where s1: "(sg, s1) = (case s of c # r \<Rightarrow> if c = 45 then ([45], r) else ([], s) | [] \<Rightarrow> ([], []))"
    by (metis surj_pair)
  have eq: "parse_num s = (case parse_int s1 of None \<Rightarrow> None
      | Some (i, s2) \<Rightarrow> (case parse_frac s2 of None \<Rightarrow> None
      | Some (f, s3) \<Rightarrow> (case parse_exp s3 of None \<Rightarrow> None
      | Some (e, s4) \<Rightarrow> Some (sg @ i @ f @ e, s4))))"
    unfolding parse_num_def s1[symmetric] by simp
  with assms(1) obtain i s2 f s3 e where p: "parse_int s1 = Some (i, s2)" "parse_frac s2 = Some (f, s3)"
    "parse_exp s3 = Some (e, [])" "a = sg @ i @ f @ e"
    by (auto split: option.splits)
  have "s \<noteq> []" using p(1) s1 by (auto simp: parse_int_def)
  then have s1r: "(case s @ r of c # q \<Rightarrow> if c = 45 then ([45], q) else ([], s @ r) | [] \<Rightarrow> ([], [])) = (sg, s1 @ r)"
    using s1 by (cases s) auto
  have "parse_exp (s3 @ r) = Some (e, r)" using parse_exp_append[OF p(3)] assms(2) by simp
  moreover have "parse_frac (s2 @ r) = Some (f, s3 @ r)" using parse_frac_append[OF p(2)] assms(2) by simp
  moreover have "parse_int (s1 @ r) = Some (i, s2 @ r)" using parse_int_append[OF p(1)] assms(2) by simp
  ultimately show ?thesis unfolding parse_num_def s1r using p(4) by simp
qed

lemma parse_num_hd: "parse_num s = Some (a, b) \<Longrightarrow> s \<noteq> [] \<and> (hd s = 45 \<or> is_udigit (hd s))"
  by (cases s) (auto simp: parse_num_def parse_int_def is_udigit_def split: if_splits option.splits)

subsection \<open>Values\<close>

text \<open>The values \<^verbatim>\<open>JSON.parse\<close> can return: numbers in the form their conversion gives, strings
  without split surrogate pairs, objects in enumeration order.\<close>

fun json_ok :: "(utext \<Rightarrow> utext) \<Rightarrow> json \<Rightarrow> bool" where
  "json_ok nc JNull = True"
| "json_ok nc (JBool b) = True"
| "json_ok nc (JNum t) = num_ok nc t"
| "json_ok nc (JStr t) = text_ok t"
| "json_ok nc (JArr vs) = (\<forall>v\<in>set vs. json_ok nc v)"
| "json_ok nc (JObj ps) = ((\<forall>p\<in>set ps. text_ok (fst p) \<and> json_ok nc (snd p))
     \<and> foldl (\<lambda>acc p. obj_set (fst p) (snd p) acc) [] ps = ps)"

lemma num_ok_finite: "num_ok nc t \<Longrightarrow> num_finite t"
  by (auto simp: num_ok_def num_finite_def asc_def parse_num_def parse_int_def is_udigit_def)

text \<open>The first character decides how a value is parsed; it is never white space.\<close>

lemma stringify_Cons: "json_ok nc v \<Longrightarrow> \<exists>c s. stringify v = c # s \<and> \<not> is_ws c \<and> c \<notin> {93, 125}"
  by (cases v)
    (auto simp: asc_def is_ws_def quote_str_def num_ok_finite num_ok_def is_udigit_def neq_Nil_conv
       dest!: parse_num_hd)

lemma skip_ws_stringify: "json_ok nc v \<Longrightarrow> skip_ws (stringify v @ r) = stringify v @ r"
  using stringify_Cons[of nc v] by (auto simp: skip_ws_def)

lemma skip_ws_simps [simp]:
  "skip_ws (44 # r) = 44 # r" "skip_ws (93 # r) = 93 # r" "skip_ws (125 # r) = 125 # r"
  "skip_ws (34 # r) = 34 # r" "skip_ws (58 # r) = 58 # r" "skip_ws (91 # r) = 91 # r"
  "skip_ws (123 # r) = 123 # r" "skip_ws [] = []"
  by (simp_all add: skip_ws_def is_ws_def)

lemma num_end_simps [simp]: "num_end []" "num_end (44 # r)" "num_end (93 # r)" "num_end (125 # r)"
  by (simp_all add: num_end_def is_udigit_def)

definition reads_back :: "(utext \<Rightarrow> utext) \<Rightarrow> json \<Rightarrow> bool" where
  "reads_back nc v \<longleftrightarrow> (\<forall>f r. length (stringify v) \<le> f \<longrightarrow> num_end r \<longrightarrow>
     parse_value nc f (stringify v @ r) = Some (v, r))"

lemma reads_backD: "reads_back nc v \<Longrightarrow> length (stringify v) \<le> f \<Longrightarrow> num_end r \<Longrightarrow>
    parse_value nc f (stringify v @ r) = Some (v, r)"
  by (simp add: reads_back_def)

lemma parse_elems_join:
  assumes "\<forall>v\<in>set vs. reads_back nc v" and "vs \<noteq> []" and "length (join_comma (map stringify vs)) < f"
  shows "parse_elems nc f (join_comma (map stringify vs) @ 93 # r) = Some (vs, r)"
  using assms
proof (induction vs arbitrary: f rule: induct_list012)
  case (2 v)
  then obtain g where "f = Suc g" by (cases f) auto
  with 2 show ?case by (simp add: reads_backD)
next
  case (3 v w vs)
  then obtain g where f: "f = Suc g" by (cases f) auto
  have "parse_elems nc g (join_comma (map stringify (w # vs)) @ 93 # r) = Some (w # vs, r)"
    using 3 f by (intro "3.IH") auto
  then show ?case using 3 f by (simp add: reads_backD)
qed simp

lemma parse_members_join:
  assumes "\<forall>p\<in>set ps. text_ok (fst p) \<and> reads_back nc (snd p)" and "ps \<noteq> []"
    and "length (join_comma (map (\<lambda>(k, v). quote_str k @ [58] @ stringify v) ps)) < f"
  shows "parse_members nc f acc (join_comma (map (\<lambda>(k, v). quote_str k @ [58] @ stringify v) ps) @ 125 # r)
    = Some (foldl (\<lambda>acc p. obj_set (fst p) (snd p) acc) acc ps, r)"
  using assms
proof (induction ps arbitrary: f acc rule: induct_list012)
  case (2 p)
  then obtain g where "f = Suc g" by (cases f) auto
  with 2 show ?case
    by (cases p) (simp add: reads_backD quote_str_def text_ok_def parse_str_concat)
next
  case (3 p q ps)
  then obtain g where f: "f = Suc g" by (cases f) auto
  have "parse_members nc g (obj_set (fst p) (snd p) acc)
      (join_comma (map (\<lambda>(k, v). quote_str k @ [58] @ stringify v) (q # ps)) @ 125 # r)
      = Some (foldl (\<lambda>acc p. obj_set (fst p) (snd p) acc) (obj_set (fst p) (snd p) acc) (q # ps), r)"
    using 3 f by (intro "3.IH") (auto split: prod.splits)
  then show ?case using 3 f
    by (cases p) (simp add: reads_backD quote_str_def text_ok_def parse_str_concat)
qed simp

lemma reads_back_JArr:
  assumes "\<forall>v\<in>set vs. reads_back nc v \<and> json_ok nc v"
  shows "reads_back nc (JArr vs)"
  unfolding reads_back_def
proof (intro allI impI)
  fix f r
  assume l: "length (stringify (JArr vs)) \<le> f"
  then obtain g where f: "f = Suc g" by (cases f) auto
  show "parse_value nc f (stringify (JArr vs) @ r) = Some (JArr vs, r)"
  proof (cases vs)
    case Nil
    then show ?thesis by (simp add: f)
  next
    case (Cons v ws)
    then obtain c s where c: "stringify v = c # s" "\<not> is_ws c" "c \<noteq> 93" using assms stringify_Cons[of nc v] by auto
    have j: "join_comma (map stringify vs) = c # s @ (if ws = [] then [] else [44] @ join_comma (map stringify ws))"
      using Cons c by (cases ws) auto
    have "parse_elems nc g (join_comma (map stringify vs) @ 93 # r) = Some (vs, r)"
      using assms l f Cons by (intro parse_elems_join) auto
    then show ?thesis using c f j by (simp add: skip_ws_def is_ws_def)
  qed
qed

lemma reads_back_JObj:
  assumes "\<forall>p\<in>set ps. text_ok (fst p) \<and> reads_back nc (snd p)"
    and "foldl (\<lambda>acc p. obj_set (fst p) (snd p) acc) [] ps = ps"
  shows "reads_back nc (JObj ps)"
  unfolding reads_back_def
proof (intro allI impI)
  fix f r
  let ?j = "join_comma (map (\<lambda>(k, v). quote_str k @ [58] @ stringify v) ps)"
  assume l: "length (stringify (JObj ps)) \<le> f"
  then obtain g where f: "f = Suc g" by (cases f) auto
  show "parse_value nc f (stringify (JObj ps) @ r) = Some (JObj ps, r)"
  proof (cases ps)
    case Nil
    then show ?thesis by (simp add: f)
  next
    case (Cons p qs)
    have j: "\<exists>s. ?j = 34 # s" using Cons by (cases qs; cases p) (auto simp: quote_str_def)
    have "parse_members nc g [] (?j @ 125 # r) = Some (ps, r)"
      using assms l f Cons by (subst parse_members_join) auto
    then show ?thesis using f j by auto
  qed
qed

text \<open>Values without parts need one unit of fuel.\<close>

lemma reads_backI:
  assumes "\<And>g r. num_end r \<Longrightarrow> parse_value nc (Suc g) (stringify v @ r) = Some (v, r)"
    and "stringify v \<noteq> []"
  shows "reads_back nc v"
  unfolding reads_back_def
proof (intro allI impI)
  fix f r
  assume "length (stringify v) \<le> f" "num_end r"
  with assms(2) obtain g where "f = Suc g" by (cases f) auto
  with assms(1) \<open>num_end r\<close> show "parse_value nc f (stringify v @ r) = Some (v, r)" by blast
qed

lemma reads_back_JNum:
  assumes "num_ok nc t"
  shows "reads_back nc (JNum t)"
proof (rule reads_backI)
  obtain c s where c: "t = c # s" "c = 45 \<or> is_udigit c"
    using assms parse_num_hd[of t] by (auto simp: num_ok_def neq_Nil_conv)
  then show "stringify (JNum t) \<noteq> []" using assms by (simp add: num_ok_finite)
  fix g r
  assume "num_end r"
  then have "parse_num (t @ r) = Some (t, r)" using assms by (simp add: num_ok_def parse_num_append)
  then show "parse_value nc (Suc g) (stringify (JNum t) @ r) = Some (JNum t, r)"
    using c assms num_ok_finite[OF assms] by (auto simp: skip_ws_def is_ws_def is_udigit_def num_ok_def)
qed

lemma reads_back_atoms:
  "reads_back nc JNull" "reads_back nc (JBool b)" "text_ok t \<Longrightarrow> reads_back nc (JStr t)"
  by (rule reads_backI; simp add: asc_def literal_def skip_ws_def is_ws_def quote_str_def text_ok_def
        parse_str_concat)+

lemma json_reads_back: "json_ok nc v \<Longrightarrow> reads_back nc v"
proof (induction v)
  case (JObj ps)
  then show ?case by (intro reads_back_JObj) (auto intro: snds.intros simp: prod_set_simps)
qed (auto intro: reads_back_JArr reads_back_JNum reads_back_atoms)

theorem json_roundtrip: "json_ok nc v \<Longrightarrow> json_parse nc (stringify v) = Some v"
  using reads_backD[OF json_reads_back, of nc v "2 * length (stringify v) + 2" "[]"]
  by (simp add: json_parse_def)

section \<open>The fuel is enough\<close>

lemma skip_ws_length: "length (skip_ws s) \<le> length s"
  by (simp add: skip_ws_def length_dropWhile_le)

lemma skip_ws_Cons_length: "skip_ws s = c # r \<Longrightarrow> length r < length s"
  using skip_ws_length[of s] by simp

lemma parse_str_length_aux: "parse_str s = Some (t, r) \<Longrightarrow> length s \<le> n \<Longrightarrow> length r < n"
proof (induction n arbitrary: s t rule: less_induct)
  case (less n)
  have step: "length q < n \<longrightarrow> length r < n" if "add_char u (parse_str q) = Some (t, r)" for u q
  proof -
    from that obtain t' where "parse_str q = Some (t', r)" by (auto simp: add_char_def)
    with less.IH[of "length q" q] show ?thesis by fastforce
  qed
  obtain c r0 where s: "s = c # r0" using less.prems by (cases s) auto
  show ?case using less.prems unfolding s
    by (auto split: if_splits list.splits option.splits
        dest!: parse_hex4_length low_escape_length step)
qed

lemma parse_str_length: "parse_str s = Some (t, r) \<Longrightarrow> length r < length s"
  using parse_str_length_aux by blast

lemma span_digits_length: "span_digits s = (a, b) \<Longrightarrow> length b \<le> length s"
  by (auto simp: span_digits_def length_dropWhile_le)

lemma parse_num_length: "parse_num s = Some (l, r) \<Longrightarrow> length r < length s"
proof -
  assume p: "parse_num s = Some (l, r)"
  obtain sg s1 :: utext where s1: "(sg, s1) = (case s of c # q \<Rightarrow> if c = 45 then ([45], q) else ([], s) | [] \<Rightarrow> ([], []))"
    by (metis surj_pair)
  have len1: "length s1 \<le> length s" using s1 by (cases s) (auto split: if_splits)
  from p obtain i s2 f s3 e where q: "parse_int s1 = Some (i, s2)" "parse_frac s2 = Some (f, s3)"
    "parse_exp s3 = Some (e, r)"
    unfolding parse_num_def s1[symmetric] by (auto split: option.splits)
  have "length s2 < length s1"
  proof (cases s1)
    case (Cons d s')
    then show ?thesis using q(1)
      by (auto simp: parse_int_def span_digits_def length_dropWhile_le less_Suc_eq_le split: if_splits)
  qed (use q(1) in \<open>simp add: parse_int_def\<close>)
  moreover have "length s3 \<le> length s2" using q(2)
    by (cases s2) (auto simp: parse_frac_def split: if_splits prod.splits dest!: span_digits_length)
  moreover have "length r \<le> length s3"
  proof (cases s3)
    case (Cons c s')
    have "length (snd (parse_sign s')) \<le> length s'" by (cases s') (auto simp: parse_sign_def)
    then show ?thesis using q(3) Cons
      by (auto simp: parse_exp_def split: if_splits prod.splits dest!: span_digits_length)
  qed (use q(3) in \<open>simp add: parse_exp_def\<close>)
  ultimately show ?thesis using len1 by linarith
qed

lemma literal_length: "w \<noteq> [] \<Longrightarrow> literal w v s = Some (u, r) \<Longrightarrow> length r < length s"
  by (cases s) (auto simp: literal_def asc_def split: if_splits)

text \<open>What a parser leaves is shorter than its input.\<close>

lemma parse_length:
  "parse_value nc f s = Some (v, r) \<Longrightarrow> length r < length s"
  "parse_elems nc f s = Some (vs, r) \<Longrightarrow> length r < length s"
  "parse_members nc f acc s = Some (ps, r) \<Longrightarrow> length r < length s"
proof (induction nc f s and nc f s and nc f acc s arbitrary: v r and vs r and ps r
    rule: parse_value_parse_elems_parse_members.induct)
  case (2 nc f s)
  from "2.prems" obtain c q where c: "skip_ws s = c # q" by (auto split: list.splits)
  have "length r < length (c # q)"
    using "2.prems" c "2.IH"(1)[OF c] "2.IH"(2)[OF c]
    by (auto split: list.splits if_splits dest!: parse_str_length parse_num_length literal_length[rotated]
        skip_ws_Cons_length intro: less_SucI)
  with c skip_ws_length[of s] show ?case by simp
next
  case (4 nc f s)
  then show ?case
    by (fastforce split: option.splits list.splits if_splits dest!: skip_ws_Cons_length)
next
  case (6 nc f acc s)
  then show ?case
    by (fastforce split: option.splits list.splits if_splits dest!: skip_ws_Cons_length parse_str_length)
qed auto

lemma parse_fuel_step:
  "(2 * length s + 1 \<le> f \<longrightarrow> parse_value nc (Suc f) s = parse_value nc f s) \<and>
   (2 * length s + 2 \<le> f \<longrightarrow> parse_elems nc (Suc f) s = parse_elems nc f s) \<and>
   (2 * length s + 2 \<le> f \<longrightarrow> (\<forall>acc. parse_members nc (Suc f) acc s = parse_members nc f acc s))"
proof (induction f arbitrary: s)
  case (Suc g)
  have val: "parse_value nc (Suc g) t = parse_value nc g t" if "2 * length t + 1 \<le> g" for t
    using Suc that by blast
  have els: "parse_elems nc (Suc g) t = parse_elems nc g t" if "2 * length t + 2 \<le> g" for t
    using Suc that by blast
  have mem: "parse_members nc (Suc g) acc t = parse_members nc g acc t" if "2 * length t + 2 \<le> g" for t acc
    using Suc that by blast
  have "parse_value nc (Suc (Suc g)) s = parse_value nc (Suc g) s" if "2 * length s + 1 \<le> Suc g"
  proof (cases "skip_ws s")
    case (Cons c r)
    then have "2 * length r + 2 \<le> g" using that skip_ws_Cons_length[OF Cons] by linarith
    then show ?thesis using els[of r] mem[of r "[]"]
      by (simp only: parse_value.simps(2) Cons list.case)
  qed simp
  moreover have "parse_elems nc (Suc (Suc g)) s = parse_elems nc (Suc g) s" if l: "2 * length s + 2 \<le> Suc g"
  proof (cases "parse_value nc g s")
    case (Some p)
    obtain v s1 where p: "p = (v, s1)" by (cases p)
    show ?thesis
    proof (cases "skip_ws s1")
      case (Cons c r)
      have "length s1 < length s" "length r < length s1"
        using Some p parse_length(1) skip_ws_Cons_length[OF Cons] by blast+
      then have "parse_elems nc (Suc g) r = parse_elems nc g r" using l by (intro els) linarith
      then show ?thesis using val[of s] l
        by (simp only: parse_elems.simps(2)[of nc _ s] Some p Cons option.case prod.case list.case)
    qed (use Some p val[of s] l in \<open>simp only: parse_elems.simps(2)[of nc _ s] option.case prod.case list.case\<close>)
  qed (use val[of s] l in \<open>simp only: parse_elems.simps(2)[of nc _ s] option.case\<close>)
  moreover have "parse_members nc (Suc (Suc g)) acc s = parse_members nc (Suc g) acc s"
    if l: "2 * length s + 2 \<le> Suc g" for acc
  proof -
    have v: "parse_value nc (Suc g) s2 = parse_value nc g s2"
      and m: "\<And>v s3 d r acc. parse_value nc g s2 = Some (v, s3) \<Longrightarrow> skip_ws s3 = d # r \<Longrightarrow>
        parse_members nc (Suc g) acc r = parse_members nc g acc r"
      if s2: "skip_ws s = q # s0" "parse_str s0 = Some (k, s1)" "skip_ws s1 = c # s2" for q s0 k s1 c s2
    proof -
      have "length s2 < length s"
        using s2 by (fastforce dest!: skip_ws_Cons_length parse_str_length)
      then show "parse_value nc (Suc g) s2 = parse_value nc g s2" using l by (intro val) linarith
      fix v s3 d r acc
      assume "parse_value nc g s2 = Some (v, s3)" "skip_ws s3 = d # r"
      then have "length r < length s2" using parse_length(1) skip_ws_Cons_length by fastforce
      with \<open>length s2 < length s\<close> show "parse_members nc (Suc g) acc r = parse_members nc g acc r"
        using l by (intro mem) linarith
    qed
    show ?thesis
      unfolding parse_members.simps(2)[of nc "Suc g" acc s] parse_members.simps(2)[of nc g acc s]
      by (rule list.case_cong_weak option.case_cong_weak refl | simp add: v m
          split: option.split list.split del: parse_value.simps parse_members.simps)+
  qed
  ultimately show ?case by blast
qed simp

lemma parse_value_fuel:
  "2 * length s + 2 \<le> f \<Longrightarrow> parse_value nc f s = parse_value nc (2 * length s + 2) s"
proof (induction f rule: dec_induct)
  case (step f)
  with parse_fuel_step[of s f nc] show ?case by (simp del: parse_value.simps)
qed simp

end
