(* ===== verification/Json_Wf.thy ===== *)
theory Json_Wf
  imports Json
begin

text \<open>
  What \<^verbatim>\<open>JSON.parse\<close> returns can be printed and parsed again: parsed objects are in enumeration
  order, parsed strings contain no split surrogate pair, parsed numbers are in converted form. The
  only hypothesis is on the number conversion (\<open>nc_ok\<close>): the converted text of a lexeme is a
  lexeme that converts to itself, or the value is not finite.
\<close>

section \<open>Objects in enumeration order\<close>

definition key_before :: "utext \<Rightarrow> utext \<Rightarrow> bool" where
  "key_before k k' \<longleftrightarrow> k \<noteq> k' \<and>
     (if is_index k' then is_index k \<and> udigits_val k < udigits_val k' else True)"

definition obj_ok :: "(utext \<times> json) list \<Rightarrow> bool" where
  "obj_ok m \<longleftrightarrow> sorted_wrt key_before (map fst m)"

lemma udigits_val_Cons: "udigits_val (c # s) = (c - 48) * 10 ^ length s + udigits_val s"
proof (induction s rule: rev_induct)
  case (snoc d s)
  have sn: "udigits_val (t @ [e]) = 10 * udigits_val t + (e - 48)" for t e by (simp add: udigits_val_def)
  have "udigits_val (c # s @ [d]) = 10 * udigits_val (c # s) + (d - 48)"
    using sn[of "c # s" d] by simp
  with snoc sn[of s d] show ?case by (simp add: algebra_simps)
qed (simp add: udigits_val_def)

lemma udigits_val_bound: "list_all is_udigit s \<Longrightarrow> udigits_val s < 10 ^ length s"
proof (induction s)
  case (Cons c s)
  then have "(c - 48) * 10 ^ length s \<le> 9 * 10 ^ length s" by (intro mult_le_mono1) (auto simp: is_udigit_def)
  moreover have "udigits_val s < 10 ^ length s" using Cons by simp
  ultimately show ?case unfolding udigits_val_Cons length_Cons power_Suc by linarith
qed (simp add: udigits_val_def)

text \<open>Numerals without leading zeros are determined by their value.\<close>

lemma udigits_val_lower: "is_udigit c \<Longrightarrow> c \<noteq> 48 \<Longrightarrow> 10 ^ length s \<le> udigits_val (c # s)"
proof -
  assume "is_udigit c" "c \<noteq> 48"
  then have "1 * 10 ^ length s \<le> (c - 48) * 10 ^ length s"
    by (intro mult_le_mono1) (auto simp: is_udigit_def)
  then show ?thesis unfolding udigits_val_Cons by linarith
qed

lemma udigits_same_length: "length s = length t \<Longrightarrow> list_all is_udigit s \<Longrightarrow> list_all is_udigit t \<Longrightarrow>
    udigits_val s = udigits_val t \<Longrightarrow> s = t"
proof (induction s t rule: list_induct2)
  case (Cons c s d t)
  have b: "udigits_val s < 10 ^ length t" "udigits_val t < 10 ^ length t"
    using Cons udigits_val_bound[of s] udigits_val_bound[of t] by auto
  have eq: "(c - 48) * 10 ^ length t + udigits_val s = (d - 48) * 10 ^ length t + udigits_val t"
    using Cons.prems(3) Cons.hyps by (simp add: udigits_val_Cons)
  then have "((c - 48) * 10 ^ length t + udigits_val s) div 10 ^ length t =
      ((d - 48) * 10 ^ length t + udigits_val t) div 10 ^ length t" by simp
  then have "c - 48 = d - 48" using b by simp
  moreover have "c = d" using calculation Cons.prems by (auto simp: is_udigit_def)
  ultimately show ?case using Cons eq by simp
qed simp

lemma is_index_inject: "is_index k \<Longrightarrow> is_index k' \<Longrightarrow> udigits_val k = udigits_val k' \<Longrightarrow> k = k'"
proof -
  have len: "length k \<le> length k'"
    if i: "is_index k" "is_index k'" "udigits_val k = udigits_val k'" for k k'
  proof (rule ccontr)
    assume l: "\<not> length k \<le> length k'"
    obtain c s where k: "k = c # s" using i by (cases k) (auto simp: is_index_def)
    have nz: "c \<noteq> 48" using i l k by (cases k') (auto simp: is_index_def)
    have "udigits_val k' < 10 ^ length k'" using that by (intro udigits_val_bound) (simp add: is_index_def)
    also have "(10::nat) ^ length k' \<le> 10 ^ length s" using l k by (intro power_increasing) auto
    also have "\<dots> \<le> udigits_val k" unfolding k using that nz k
      by (intro udigits_val_lower) (auto simp: is_index_def)
    finally show False using that by simp
  qed
  assume "is_index k" "is_index k'" "udigits_val k = udigits_val k'"
  then show ?thesis
    by (intro udigits_same_length le_antisym len) (auto simp: is_index_def)
qed

lemma key_before_trans: "key_before a b \<Longrightarrow> key_before b c \<Longrightarrow> a \<noteq> c \<Longrightarrow> key_before a c"
  by (auto simp: key_before_def split: if_splits)

lemma obj_set_keys: "fst ` set (obj_set k v m) = insert k (fst ` set m)"
  by (induction k v m rule: obj_set.induct) auto

lemma obj_set_ok: "obj_ok m \<Longrightarrow> obj_ok (obj_set k v m)"
proof (induction m)
  case (Cons p m)
  obtain k' v' where p: "p = (k', v')" by (cases p)
  have m: "obj_ok m" and kb: "\<forall>x\<in>set (map fst m). key_before k' x" using Cons.prems by (auto simp: obj_ok_def p)
  consider (same) "k = k'"
    | (front) "k \<noteq> k'" "is_index k \<and> \<not> (is_index k' \<and> udigits_val k' < udigits_val k)"
    | (later) "k \<noteq> k'" "\<not> (is_index k \<and> \<not> (is_index k' \<and> udigits_val k' < udigits_val k))" by blast
  then show ?case
  proof cases
    case front
    then have "key_before k k'" using is_index_inject[of k k']
      by (auto simp: key_before_def) (metis linorder_neqE_nat)
    moreover have "key_before k x" if "x \<in> set (map fst m)" for x
    proof -
      have "key_before k' x" using kb that by blast
      with front \<open>key_before k k'\<close> show ?thesis
        using is_index_inject[of k x] by (auto simp: key_before_def split: if_splits)
    qed
    ultimately show ?thesis using front Cons.prems by (auto simp: obj_ok_def p)
  next
    case later
    then have "key_before k' k" by (auto simp: key_before_def)
    then show ?thesis using later Cons.IH[OF m] kb obj_set_keys[of k v m] by (auto simp: obj_ok_def p)
  qed (use Cons.prems in \<open>simp add: obj_ok_def p\<close>)
qed (simp add: obj_ok_def)

lemma obj_set_snoc: "\<forall>x\<in>set (map fst m). key_before x k \<Longrightarrow> obj_set k v m = m @ [(k, v)]"
  by (induction m) (auto simp: key_before_def split: if_splits)

lemma obj_ok_rebuild: "obj_ok m \<Longrightarrow> foldl (\<lambda>acc p. obj_set (fst p) (snd p) acc) [] m = m"
proof (induction m rule: rev_induct)
  case (snoc p m)
  then have "obj_ok m" "\<forall>x\<in>set (map fst m). key_before x (fst p)"
    by (auto simp: obj_ok_def sorted_wrt_append)
  with snoc show ?case by (simp add: obj_set_snoc)
qed simp

section \<open>Strings\<close>

text \<open>Decoded text contains no surrogates: only escapes produce them.\<close>

definition decoded :: "utext \<Rightarrow> bool" where
  "decoded t \<longleftrightarrow> list_all scalar t"

lemma decoded_simps [simp]: "decoded []" "decoded (c # s) \<longleftrightarrow> scalar c \<and> decoded s"
  by (simp_all add: decoded_def)

lemma decoded_drop: "decoded s \<Longrightarrow> decoded (dropWhile P s)"
  by (auto simp: decoded_def list_all_iff dest: set_dropWhileD)

lemma decoded_skip_ws: "decoded s \<Longrightarrow> skip_ws s = c # r \<Longrightarrow> decoded r"
  using decoded_drop[of s is_ws] by (simp add: skip_ws_def)

lemma hex_val_bound: "hex_val u = Some n \<Longrightarrow> n < 16"
  by (auto simp: hex_val_def split: if_splits)

lemma parse_hex4_ok: "parse_hex4 s = Some (u, r) \<Longrightarrow> decoded s \<Longrightarrow> u < 65536 \<and> decoded r"
  by (induction s rule: parse_hex4.induct) (auto split: option.splits dest!: hex_val_bound)

lemma low_escape_ok: "low_escape s = Some (u, r) \<Longrightarrow> decoded s \<Longrightarrow> is_low u \<and> decoded r"
  by (induction s rule: low_escape.induct)
    (auto split: option.splits if_splits simp: is_low_def dest: parse_hex4_ok)

lemma simple_escape_ok: "simple_escape e = Some x \<Longrightarrow> x < 128"
  by (auto simp: simple_escape_def split: if_splits)

lemma parse_str_low:
  "parse_str s = Some (t, r) \<Longrightarrow> decoded s \<Longrightarrow> t \<noteq> [] \<Longrightarrow> is_low (hd t) \<Longrightarrow> low_escape s \<noteq> None"
  by (cases s) (auto simp: add_char_def is_low_def scalar_def is_surrogate_def
      split: if_splits list.splits option.splits dest!: simple_escape_ok dest: low_escape_ok)

lemma str_ok_Cons: "str_ok (u # t) \<longleftrightarrow> \<not> (t \<noteq> [] \<and> is_high u \<and> is_low (hd t)) \<and> str_ok t"
  by (cases t) auto

lemma text_ok_Cons: "text_ok (u # t) \<longleftrightarrow>
    u < 1114112 \<and> \<not> (t \<noteq> [] \<and> is_high u \<and> is_low (hd t)) \<and> text_ok t"
  by (auto simp: text_ok_def str_ok_Cons)

lemma parse_str_ok_aux:
  "parse_str s = Some (t, r) \<Longrightarrow> decoded s \<Longrightarrow> length s \<le> n \<Longrightarrow> text_ok t \<and> decoded r"
proof (induction n arbitrary: s t rule: less_induct)
  case (less n)
  have step: "text_ok t \<and> decoded r" if "add_char u (parse_str q) = Some (t, r)" "length q < n" "decoded q"
    "u < 1114112" "is_high u \<longrightarrow> low_escape q = None" for u q
  proof -
    from that(1) obtain t' where t': "parse_str q = Some (t', r)" "t = u # t'" by (auto simp: add_char_def)
    then have "text_ok t' \<and> decoded r" using less.IH[OF that(2)] that(3) by blast
    with t' that parse_str_low[OF t'(1) that(3)] show ?thesis by (auto simp: text_ok_Cons)
  qed
  obtain c r0 where s: "s = c # r0" using less.prems by (cases s) auto
  have d: "scalar c" "decoded r0" "length r0 < n" using less.prems s by auto
  show ?case
  proof (cases "c = 34 \<or> c \<noteq> 92")
    case True
    then show ?thesis using less.prems d step[of c r0]
      by (auto simp: s text_ok_def scalar_def is_high_def is_surrogate_def split: if_splits)
  next
    case False
    then obtain e r1 where r0: "r0 = e # r1" using less.prems by (cases r0) (auto simp: s)
    show ?thesis
    proof (cases "e = 117")
      case False
      then obtain x where "simple_escape e = Some x" "add_char x (parse_str r1) = Some (t, r)"
        using less.prems \<open>\<not> (c = 34 \<or> c \<noteq> 92)\<close> by (auto simp: s r0 split: option.splits)
      then show ?thesis using d simple_escape_ok[of e x]
        by (intro step[of x r1]) (auto simp: r0 is_high_def)
    next
      case True
      then obtain u r2 where h: "parse_hex4 r1 = Some (u, r2)" using less.prems \<open>\<not> (c = 34 \<or> c \<noteq> 92)\<close>
        by (auto simp: s r0 split: option.splits)
      note hl = parse_hex4_length[OF h] and ho = parse_hex4_ok[OF h]
      show ?thesis
      proof (cases "if 55296 \<le> u \<and> u \<le> 56319 then low_escape r2 else None")
        case None
        then have "add_char u (parse_str r2) = Some (t, r)"
          using less.prems True h \<open>\<not> (c = 34 \<or> c \<noteq> 92)\<close> by (auto simp: s r0)
        then show ?thesis using d hl ho None
          by (intro step[of u r2]) (auto simp: r0 is_high_def split: if_splits)
      next
        case (Some lr)
        obtain l r3 where lr: "lr = (l, r3)" by (cases lr)
        then have le: "low_escape r2 = Some (l, r3)" "is_high u" using Some by (auto simp: is_high_def split: if_splits)
        have "add_char (65536 + (u - 55296) * 1024 + (l - 56320)) (parse_str r3) = Some (t, r)"
          using less.prems True h Some lr \<open>\<not> (c = 34 \<or> c \<noteq> 92)\<close> by (auto simp: s r0)
        then show ?thesis using d hl ho low_escape_length[OF le(1)] low_escape_ok[OF le(1)] le(2)
          by (intro step[of "65536 + (u - 55296) * 1024 + (l - 56320)" r3]) (auto simp: r0 is_high_def is_low_def)
      qed
    qed
  qed
qed

lemma parse_str_ok: "parse_str s = Some (t, r) \<Longrightarrow> decoded s \<Longrightarrow> text_ok t \<and> decoded r"
  using parse_str_ok_aux by blast

section \<open>Numbers\<close>

definition nc_ok :: "(utext \<Rightarrow> utext) \<Rightarrow> bool" where
  "nc_ok nc \<longleftrightarrow> (\<forall>l. parse_num l = Some (l, []) \<longrightarrow> num_ok nc (nc l) \<or> \<not> num_finite (nc l))"

lemma span_digits_take:
  "span_digits s = (a, b) \<Longrightarrow> x = [] \<or> \<not> is_udigit (hd x) \<Longrightarrow> span_digits (a @ x) = (a, x)"
proof (induction s arbitrary: a)
  case Nil
  then show ?case by (cases x) (auto simp: span_digits_def)
next
  case (Cons c s)
  show ?case
  proof (cases "is_udigit c")
    case True
    with Cons obtain a' where "a = c # a'" "span_digits s = (a', b)" by (auto simp: span_digits_def)
    with Cons True show ?thesis by (auto simp: span_digits_def)
  next
    case False
    with Cons show ?thesis by (cases x) (auto simp: span_digits_def)
  qed
qed

lemma parse_exp_take: "parse_exp s = Some (a, b) \<Longrightarrow> parse_exp a = Some (a, []) \<and> (a = [] \<or> hd a \<in> {101, 69})"
proof (cases s)
  case (Cons e s')
  assume p: "parse_exp s = Some (a, b)"
  show ?thesis
  proof (cases "e = 101 \<or> e = 69")
    case True
    with p Cons obtain ds where ds: "span_digits (snd (parse_sign s')) = (ds, b)" "ds \<noteq> []"
      "a = e # fst (parse_sign s') @ ds"
      by (auto simp: parse_exp_def split: prod.splits if_splits)
    have "span_digits ds = (ds, [])" using span_digits_take[OF ds(1), of "[]"] by simp
    moreover have "\<forall>d\<in>set ds. is_udigit d" using ds(1) by (auto simp: span_digits_def dest: set_takeWhileD)
    then have "parse_sign (fst (parse_sign s') @ ds) = (fst (parse_sign s'), ds)"
      using ds(2) by (cases s'; cases ds) (auto simp: parse_sign_def is_udigit_def)
    ultimately show ?thesis using True ds by (auto simp: parse_exp_def)
  qed (use p Cons in \<open>auto simp: parse_exp_def\<close>)
qed (simp add: parse_exp_def)

lemma parse_frac_take:
  assumes "parse_frac s = Some (a, b)" and "x = [] \<or> hd x \<in> {101, 69}"
  shows "parse_frac (a @ x) = Some (a, x) \<and> (a = [] \<or> hd a = 46)"
proof (cases s)
  case (Cons e s')
  show ?thesis
  proof (cases "e = 46")
    case True
    with assms Cons obtain ds where ds: "span_digits s' = (ds, b)" "ds \<noteq> []" "a = 46 # ds"
      by (auto simp: parse_frac_def split: prod.splits if_splits)
    then have "span_digits (ds @ x) = (ds, x)" using assms by (intro span_digits_take) (auto simp: is_udigit_def)
    with ds show ?thesis by (simp add: parse_frac_def)
  qed (use assms Cons in \<open>cases x; auto simp: parse_frac_def\<close>)
qed (use assms in \<open>cases x; auto simp: parse_frac_def\<close>)

lemma parse_int_take:
  assumes "parse_int s = Some (a, b)" and "x = [] \<or> hd x \<in> {46, 101, 69}"
  shows "parse_int (a @ x) = Some (a, x) \<and> a \<noteq> [] \<and> hd a \<noteq> 45"
proof (cases s)
  case (Cons d s')
  show ?thesis
  proof (cases "d = 48")
    case False
    with assms Cons have d: "is_udigit d" "span_digits (d # s') = (a, b)"
      by (auto simp: parse_int_def split: if_splits)
    then obtain a' where a: "a = d # a'" by (auto simp: span_digits_def)
    have "span_digits (a @ x) = (a, x)" using d assms by (intro span_digits_take) (auto simp: is_udigit_def)
    with d False a show ?thesis by (auto simp: parse_int_def is_udigit_def)
  qed (use assms Cons in \<open>auto simp: parse_int_def\<close>)
qed (use assms in \<open>simp add: parse_int_def\<close>)

lemma parse_num_lexeme: "parse_num s = Some (l, r) \<Longrightarrow> parse_num l = Some (l, [])"
proof -
  assume p: "parse_num s = Some (l, r)"
  obtain sg s1 :: utext where s1: "(sg, s1) = (case s of c # q \<Rightarrow> if c = 45 then ([45], q) else ([], s) | [] \<Rightarrow> ([], []))"
    by (metis surj_pair)
  from p obtain i s2 f s3 e where q: "parse_int s1 = Some (i, s2)" "parse_frac s2 = Some (f, s3)"
    "parse_exp s3 = Some (e, r)" "l = sg @ i @ f @ e"
    unfolding parse_num_def s1[symmetric] by (auto split: option.splits)
  have e: "parse_exp e = Some (e, [])" "e = [] \<or> hd e \<in> {101, 69}" using parse_exp_take[OF q(3)] by auto
  have f: "parse_frac (f @ e) = Some (f, e)" "f = [] \<or> hd f = 46" using parse_frac_take[OF q(2) e(2)] by auto
  have "f @ e = [] \<or> hd (f @ e) \<in> {46, 101, 69}" using e(2) f(2) by (cases f) auto
  then have i: "parse_int (i @ f @ e) = Some (i, f @ e)" "i \<noteq> []" "hd i \<noteq> 45"
    using parse_int_take[OF q(1)] by auto
  have sg: "sg = [] \<or> sg = [45]" using s1 by (auto split: list.splits if_splits)
  have "(case l of c # q \<Rightarrow> if c = 45 then ([45], q) else ([], l) | [] \<Rightarrow> ([], [])) = (sg, i @ f @ e)"
    using sg i q(4) by (cases i) auto
  then show ?thesis unfolding parse_num_def using i f e q(4) by simp
qed

lemma parse_num_decoded: "parse_num s = Some (l, r) \<Longrightarrow> decoded s \<Longrightarrow> decoded r"
proof -
  assume p: "parse_num s = Some (l, r)" and d: "decoded s"
  have span: "decoded b" if "span_digits s = (a, b)" "decoded s" for s a b
    using that by (auto simp: span_digits_def decoded_drop)
  have sign: "decoded (snd (parse_sign s))" if "decoded s" for s
    using that by (cases s) (auto simp: parse_sign_def)
  have i: "decoded b" if "parse_int s = Some (a, b)" "decoded s" for s a b
    using that by (cases s) (auto simp: parse_int_def split: if_splits intro: span)
  have f: "decoded b" if "parse_frac s = Some (a, b)" "decoded s" for s a b
    using that by (cases s) (auto simp: parse_frac_def split: if_splits prod.splits intro: span)
  have e: "decoded b" if "parse_exp s = Some (a, b)" "decoded s" for s a b
    using that by (cases s) (auto simp: parse_exp_def split: if_splits prod.splits intro: span sign)
  obtain sg s1 :: utext where s1: "(sg, s1) = (case s of c # q \<Rightarrow> if c = 45 then ([45], q) else ([], s) | [] \<Rightarrow> ([], []))"
    by (metis surj_pair)
  then have "decoded s1" using d by (cases s) (auto split: if_splits)
  moreover from p obtain x1 s2 x2 s3 x3 where "parse_int s1 = Some (x1, s2)" "parse_frac s2 = Some (x2, s3)"
    "parse_exp s3 = Some (x3, r)"
    unfolding parse_num_def s1[symmetric] by (auto split: option.splits)
  ultimately show "decoded r" using i f e by blast
qed

section \<open>Values\<close>

text \<open>A number that is not finite prints as null; nothing else changes.\<close>

fun json_norm :: "json \<Rightarrow> json" where
  "json_norm (JNum t) = (if num_finite t then JNum t else JNull)"
| "json_norm (JArr vs) = JArr (map json_norm vs)"
| "json_norm (JObj ps) = JObj (map (\<lambda>(k, v). (k, json_norm v)) ps)"
| "json_norm v = v"

lemma stringify_norm [simp]: "stringify (json_norm v) = stringify v"
proof (induction v)
  case (JObj ps)
  then have "(\<lambda>(k, v). quote_str k @ [58] @ stringify v) (k, json_norm v) = quote_str k @ [58] @ stringify v"
    if "(k, v) \<in> set ps" for k v using that by (auto simp: prod_set_simps)
  then have "map ((\<lambda>(k, v). quote_str k @ [58] @ stringify v) \<circ> (\<lambda>(k, v). (k, json_norm v))) ps
      = map (\<lambda>(k, v). quote_str k @ [58] @ stringify v) ps"
    by (intro map_cong) auto
  then show ?case by (simp only: json_norm.simps stringify.simps map_map)
next
  case (JArr vs)
  then show ?case by (simp cong: map_cong)
qed auto

definition value_ok :: "(utext \<Rightarrow> utext) \<Rightarrow> json \<Rightarrow> bool" where
  "value_ok nc v \<longleftrightarrow> json_ok nc (json_norm v)"

definition members_ok :: "(utext \<Rightarrow> utext) \<Rightarrow> (utext \<times> json) list \<Rightarrow> bool" where
  "members_ok nc ps \<longleftrightarrow> obj_ok ps \<and> (\<forall>p\<in>set ps. text_ok (fst p) \<and> value_ok nc (snd p))"

lemma value_ok_simps [simp]:
  "value_ok nc JNull" "value_ok nc (JBool b)" "value_ok nc (JStr t) \<longleftrightarrow> text_ok t"
  "value_ok nc (JArr vs) \<longleftrightarrow> (\<forall>v\<in>set vs. value_ok nc v)"
  by (auto simp: value_ok_def)

lemma value_ok_JObj: "members_ok nc ps \<Longrightarrow> value_ok nc (JObj ps)"
proof -
  let ?qs = "map (\<lambda>(k, v). (k, json_norm v)) ps"
  assume m: "members_ok nc ps"
  have "map fst ?qs = map fst ps" by (simp add: split_def)
  then have "foldl (\<lambda>acc p. obj_set (fst p) (snd p) acc) [] ?qs = ?qs"
    using m by (intro obj_ok_rebuild) (simp only: obj_ok_def members_ok_def)
  moreover have "\<forall>p\<in>set ?qs. text_ok (fst p) \<and> json_ok nc (snd p)"
    using m by (auto simp: members_ok_def value_ok_def)
  ultimately show ?thesis by (simp only: value_ok_def json_norm.simps json_ok.simps)
qed

lemma value_ok_JNum: "nc_ok nc \<Longrightarrow> parse_num s = Some (l, r) \<Longrightarrow> value_ok nc (JNum (nc l))"
  using parse_num_lexeme[of s l r] by (auto simp: value_ok_def nc_ok_def)

lemma obj_set_set: "set (obj_set k v m) \<subseteq> insert (k, v) (set m)"
  by (induction k v m rule: obj_set.induct) auto

lemma members_ok_set: "members_ok nc m \<Longrightarrow> text_ok k \<Longrightarrow> value_ok nc v \<Longrightarrow> members_ok nc (obj_set k v m)"
  using obj_set_set[of k v m] by (auto simp: members_ok_def obj_set_ok)

lemma literal_ok: "literal w v s = Some (u, r) \<Longrightarrow> decoded s \<Longrightarrow> u = v \<and> decoded r"
  by (auto simp: literal_def decoded_def list_all_iff split: if_splits dest: in_set_dropD)

lemma parse_ok:
  assumes nc: "nc_ok nc"
  shows "parse_value nc f s = Some (v, r) \<Longrightarrow> decoded s \<Longrightarrow> value_ok nc v \<and> decoded r"
    and "parse_elems nc f s = Some (vs, r) \<Longrightarrow> decoded s \<Longrightarrow> (\<forall>v\<in>set vs. value_ok nc v) \<and> decoded r"
    and "parse_members nc f acc s = Some (ps, r) \<Longrightarrow> decoded s \<Longrightarrow> members_ok nc acc \<Longrightarrow>
      members_ok nc ps \<and> decoded r"
  using nc
proof (induction nc f s and nc f s and nc f acc s arbitrary: v r and vs r and ps r
    rule: parse_value_parse_elems_parse_members.induct)
  case (2 nc f s)
  from "2.prems" obtain c q where c: "skip_ws s = c # q" by (auto split: list.splits)
  have d: "decoded q" "decoded (c # q)"
    using "2.prems"(2) c decoded_drop[of s is_ws] by (auto simp: skip_ws_def)
  note pv = "2.prems"(1)[unfolded parse_value.simps(2) c list.case]
  consider "c = 123" | "c = 91" | "c = 34" | "c \<in> {116, 102, 110}" | "c \<notin> {123, 91, 34, 116, 102, 110}"
    by blast
  then show ?case
  proof cases
    case 1
    with pv obtain c' q' where c': "skip_ws q = c' # q'" by (auto split: list.splits)
    have "decoded q'" using decoded_skip_ws[OF d(1) c'] .
    moreover have "members_ok nc []" by (simp add: members_ok_def obj_ok_def)
    ultimately show ?thesis
      using pv 1 c' d "2.IH"(1)[OF c 1 c'] "2.prems"(3)
      by (auto split: if_splits intro: value_ok_JObj)
  next
    case 2
    with pv obtain c' q' where c': "skip_ws q = c' # q'" by (auto split: list.splits)
    have "decoded q'" using decoded_skip_ws[OF d(1) c'] .
    then show ?thesis
      using pv 2 c' d "2.IH"(2)[OF c _ 2 c'] "2.prems"(3) by (auto split: if_splits)
  next
    case 3
    then show ?thesis using pv d(1) by (auto dest: parse_str_ok)
  next
    case 4
    then show ?thesis using pv d(2) literal_ok[of _ _ "c # q" v r] by fastforce
  next
    case 5
    then obtain l where "parse_num (c # q) = Some (l, r)" "v = JNum (nc l)" using pv by auto
    then show ?thesis using d(2) "2.prems"(3) by (auto intro: value_ok_JNum parse_num_decoded)
  qed
next
  case (4 nc f s)
  then show ?case
    by (fastforce split: option.splits list.splits if_splits intro: decoded_skip_ws)
next
  case (6 nc f acc s)
  from "6.prems"(1) obtain q s0 k s1 c s2 v s3 d t where p: "skip_ws s = q # s0" "\<not> q \<noteq> 34"
    "parse_str s0 = Some (k, s1)" "skip_ws s1 = c # s2" "\<not> c \<noteq> 58" "parse_value nc f s2 = Some (v, s3)"
    "skip_ws s3 = d # t"
    by (auto simp only: parse_members.simps(2) split: option.splits list.splits if_splits prod.splits)
  have k: "text_ok k" "decoded s1" using parse_str_ok[OF p(3)] decoded_skip_ws[OF "6.prems"(2) p(1)] by auto
  then have v: "value_ok nc v" "decoded s3"
    using "6.IH"(1)[OF p(1-3) refl p(4,5)] p(6) decoded_skip_ws[OF _ p(4)] "6.prems"(4) by blast+
  have m: "members_ok nc (obj_set k v acc)" using "6.prems"(3) k(1) v(1) by (rule members_ok_set)
  have t: "decoded t" using decoded_skip_ws[OF v(2) p(7)] .
  show ?case
  proof (cases "d = 44")
    case True
    then show ?thesis
      using "6.prems"(1,4) m t p "6.IH"(2)[OF p(1-3) refl p(4-6) refl p(7) True] by simp
  next
    case False
    then show ?thesis using "6.prems"(1) m t p by (simp split: if_splits)
  qed
qed auto

theorem json_parse_ok: "nc_ok nc \<Longrightarrow> decoded s \<Longrightarrow> json_parse nc s = Some v \<Longrightarrow> json_ok nc (json_norm v)"
  by (auto simp: json_parse_def value_ok_def[symmetric] split: option.splits if_splits
      simp del: parse_value.simps dest: parse_ok(1))

end
