(* ===== verification/Stream_Types.thy ===== *)
theory Stream_Types
  imports Offsets Json_Wf
begin

text \<open>
  The data of the server's in-memory store: the interfaces of server/src/types.ts as records, the
  errors its operations throw, and the environment an operation runs in. An optional field is an
  option; the absent \<^verbatim>\<open>producers\<close> map is the empty map, which no operation distinguishes from it.
  Sequence numbers, epochs and sub-offsets are natural numbers: the HTTP layer admits only digit
  strings that are safe integers.
\<close>

text \<open>The environment of one synchronous operation: the clock (one reading per operation),
  \<^verbatim>\<open>new Date(s).getTime()\<close> (None is NaN; the accepted formats beyond ISO 8601 are up to the engine)
  and \<^verbatim>\<open>String(Number(s))\<close>.\<close>

record js_env =
  now :: int
  date_ms :: "string \<Rightarrow> int option"
  num_canon :: "utext \<Rightarrow> utext"

record stream_message =
  m_data :: bytes
  m_offset :: string
  m_timestamp :: int

record producer_state =
  ps_epoch :: nat
  ps_lastSeq :: nat
  ps_lastUpdated :: int

record closed_by =
  cb_producerId :: string
  cb_epoch :: "nat option"
  cb_seq :: "nat option"

record stream =
  s_path :: string
  contentType :: "string option"
  messages :: "stream_message list"
  currentOffset :: string
  lastSeq :: "string option"
  ttlSeconds :: "nat option"
  expiresAt :: "string option"
  createdAt :: int
  lastAccessedAt :: int
  producers :: "(string, producer_state) jsmap"
  closed :: bool
  closedBy :: "closed_by option"
  forkedFrom :: "string option"
  forkOffset :: "string option"
  forkSubOffset :: "nat option"
  refCount :: int
  softDeleted :: bool

datatype producer_validation_result =
    Accepted bool producer_state string
  | Duplicate "nat option"
  | StaleEpoch nat
  | InvalidEpochSeq
  | SequenceGap nat nat
  | StreamClosed

text \<open>A pending long-poll is named by a number: \<^verbatim>\<open>indexOf\<close> compares object identity.\<close>

record pending_long_poll =
  pl_id :: nat
  pl_path :: string
  pl_offset :: string

record wait_result =
  wr_messages :: "stream_message list"
  wr_timedOut :: bool
  wr_streamClosed :: "bool option"

text \<open>The store, with the timers that are armed and the results of the promises resolved so far,
  oldest first. A promise keeps its first result.\<close>

record store =
  streams :: "(string, stream) jsmap"
  pendingLongPolls :: "pending_long_poll list"
  timers :: "pending_long_poll list"
  resolved :: "(nat, wait_result) jsmap"
  next_poll :: nat

definition empty_store :: store where
  "empty_store = \<lparr>streams = [], pendingLongPolls = [], timers = [], resolved = [], next_poll = 0\<rparr>"

record append_options =
  ao_seq :: "string option"
  ao_contentType :: "string option"
  ao_producerId :: "string option"
  ao_producerEpoch :: "nat option"
  ao_producerSeq :: "nat option"
  ao_close :: bool

record append_result =
  ar_message :: "stream_message option"
  ar_producerResult :: "producer_validation_result option"
  ar_streamClosed :: bool

record create_options =
  co_contentType :: "string option"
  co_ttlSeconds :: "nat option"
  co_expiresAt :: "string option"
  co_initialData :: "bytes option"
  co_closed :: "bool option"
  co_forkedFrom :: "string option"
  co_forkOffset :: "string option"
  co_forkSubOffset :: "nat option"

text \<open>The errors thrown by the store, with what their messages are built from.\<close>

datatype store_error =
    Stream_not_found string
  | Stream_soft_deleted string
  | Active_forks string
  | Config_mismatch string
  | Source_not_found string
  | Source_soft_deleted string
  | Fork_content_type_mismatch
  | Invalid_fork_offset string
  | Sub_offset_no_data
  | Sub_offset_unparseable
  | Sub_offset_count
  | Sub_offset_length
  | Content_type_mismatch string string
  | Sequence_conflict string string
  | Invalid_JSON
  | Empty_arrays
  | Stored_JSON_unparseable
  | Stack_overflow

text \<open>An operation returns its result or the error it throws, and the state it leaves behind:
  changes made before a throw stay.\<close>

type_synonym 'a outcome = "store_error + 'a"

end
