(* ===== verification/Json_Mode.thy ===== *)
theory Json_Mode
  imports Stream_Types
begin

text \<open>
  JSON mode (server/src/store.ts, lines 21 to 142): a POST body is validated and stored as a
  comma-terminated fragment, a read concatenates the fragments into one array and adds the offset
  to the headers of state events. The theorem \<open>format_process\<close> says that what a reader gets parses
  to exactly the values that were appended, in order.
\<close>

section \<open>Definitions\<close>

definition normalizeContentType :: "string option \<Rightarrow> string" where
  "normalizeContentType ct =
     (case ct of
        None \<Rightarrow> []
      | Some c \<Rightarrow> if c = [] then [] else toLowerCase (trim (hd (split_on CHR '';'' c))))"

definition processJsonAppend :: "(utext \<Rightarrow> utext) \<Rightarrow> bytes \<Rightarrow> bool \<Rightarrow> bytes outcome" where
  "processJsonAppend nc data isInitialCreate =
     (case json_parse nc (text_decode data) of
        None \<Rightarrow> Inl Invalid_JSON
      | Some (JArr parsed) \<Rightarrow>
          if parsed = [] then (if isInitialCreate then Inr [] else Inl Empty_arrays)
          else Inr (text_encode (join_comma (map stringify parsed) @ [44]))
      | Some parsed \<Rightarrow> Inr (text_encode (stringify parsed @ [44])))"

text \<open>\<^verbatim>\<open>trimEnd\<close> on a decoded text: all Unicode white space and line terminators.\<close>

definition is_uspace :: "nat \<Rightarrow> bool" where
  "is_uspace u \<longleftrightarrow> u \<in> {9, 10, 11, 12, 13, 32, 160, 5760, 8232, 8233, 8239, 8287, 12288, 65279}
     \<or> 8192 \<le> u \<and> u \<le> 8202"

definition utrimEnd :: "utext \<Rightarrow> utext" where
  "utrimEnd t = rev (dropWhile is_uspace (rev t))"

definition strip_comma :: "utext \<Rightarrow> utext" where
  "strip_comma t = (if t \<noteq> [] \<and> last t = 44 then butlast t else t)"

definition formatJsonResponse :: "bytes \<Rightarrow> bytes" where
  "formatJsonResponse data =
     (if data = [] then text_encode (asc ''[]'')
      else text_encode ([91] @ strip_comma (utrimEnd (text_decode data)) @ [93]))"

definition decodeStoredJsonMessage :: "bytes \<Rightarrow> utext" where
  "decodeStoredJsonMessage data = strip_comma (utrimEnd (text_decode data))"

definition is_string_prop :: "(utext \<times> json) list \<Rightarrow> string \<Rightarrow> bool" where
  "is_string_prop ps k \<longleftrightarrow> (case map_of ps (asc k) of Some (JStr _) \<Rightarrow> True | _ \<Rightarrow> False)"

definition enrich_value :: "string \<Rightarrow> json \<Rightarrow> json" where
  "enrich_value offset parsed =
     (case parsed of
        JObj candidate \<Rightarrow>
          (case map_of candidate (asc ''headers'') of
             Some (JObj headers) \<Rightarrow>
               let isStateChange = is_string_prop headers ''operation'';
                   isStateControl = is_string_prop headers ''control''
               in if \<not> isStateChange \<and> \<not> isStateControl then parsed
                  else JObj (obj_set (asc ''headers'')
                         (JObj (obj_set (asc ''offset'') (JStr (asc offset)) headers)) candidate)
           | _ \<Rightarrow> parsed)
      | _ \<Rightarrow> parsed)"

definition enrichJsonValueWithOffset :: "json \<Rightarrow> string \<Rightarrow> utext" where
  "enrichJsonValueWithOffset parsed offset = stringify (enrich_value offset parsed)"

definition message_items :: "(utext \<Rightarrow> utext) \<Rightarrow> stream_message \<Rightarrow> utext list option" where
  "message_items nc m =
     (case json_parse nc ([91] @ decodeStoredJsonMessage (m_data m) @ [93]) of
        Some (JArr parsed) \<Rightarrow> Some (map (\<lambda>v. enrichJsonValueWithOffset v (m_offset m)) parsed)
      | _ \<Rightarrow> None)"

fun flat_items :: "(utext \<Rightarrow> utext) \<Rightarrow> stream_message list \<Rightarrow> utext list option" where
  "flat_items nc [] = Some []"
| "flat_items nc (m # ms) =
     (case message_items nc m of None \<Rightarrow> None
      | Some xs \<Rightarrow> map_option (\<lambda>ys. xs @ ys) (flat_items nc ms))"

definition formatJsonMessages :: "(utext \<Rightarrow> utext) \<Rightarrow> stream_message list \<Rightarrow> bytes outcome" where
  "formatJsonMessages nc ms =
     (if ms = [] then Inr (text_encode (asc ''[]''))
      else (case flat_items nc ms of
              None \<Rightarrow> Inl Stored_JSON_unparseable
            | Some items \<Rightarrow> Inr (text_encode ([91] @ join_comma items @ [93]))))"

section \<open>Printed texts are plain\<close>

lemma asc_scalar: "list_all scalar (asc s)"
proof -
  have "scalar (of_char c)" for c
    unfolding scalar_def is_surrogate_def using nat_of_char_less_256[of c] by linarith
  then show ?thesis by (simp add: asc_def list_all_iff)
qed

lemma scalar_ascii: "u < 128 \<Longrightarrow> scalar u"
  by (simp add: scalar_def is_surrogate_def)

lemma hex_digit_scalar: "n < 16 \<Longrightarrow> scalar (hex_digit n)"
  by (auto simp: hex_digit_def intro: scalar_ascii)

lemma quote_char_scalar: "u < 1114112 \<Longrightarrow> list_all scalar (quote_char u)"
proof -
  assume u: "u < 1114112"
  have "list_all scalar (hex4 v)" if "v < 65536" for v
  proof -
    have "v div 4096 < 16" using that by auto
    then show ?thesis by (simp add: hex4_def hex_digit_scalar)
  qed
  with u show ?thesis
    by (auto simp: quote_char_def is_surrogate_def intro: scalar_ascii) (simp add: scalar_def is_surrogate_def)+
qed

lemma quote_str_scalar: "text_ok t \<Longrightarrow> list_all scalar (quote_str t)"
  by (auto simp: quote_str_def text_ok_def list_all_iff scalar_ascii dest!: quote_char_scalar)

lemma join_comma_all: "\<forall>x\<in>set xs. list_all scalar x \<Longrightarrow> list_all scalar (join_comma xs)"
  by (induction xs rule: join_comma.induct) (auto simp: scalar_ascii)

lemma parse_num_scalar: "parse_num s = Some (l, []) \<Longrightarrow> set l \<subseteq> {43, 45, 46, 101, 69} \<union> {u. is_udigit u}"
proof -
  have span: "set a \<subseteq> {u. is_udigit u}" if "span_digits s = (a, b)" for s a b
    using that by (auto simp: span_digits_def dest: set_takeWhileD)
  have i: "set a \<subseteq> {u. is_udigit u}" if "parse_int s = Some (a, b)" for s a b
    using that by (auto simp: parse_int_def is_udigit_def split: list.splits if_splits dest!: span)
  have f: "set a \<subseteq> {46} \<union> {u. is_udigit u}" if "parse_frac s = Some (a, b)" for s a b
    using that by (auto simp: parse_frac_def split: list.splits if_splits prod.splits dest!: span)
  have e: "set a \<subseteq> {43, 45, 101, 69} \<union> {u. is_udigit u}" if "parse_exp s = Some (a, b)" for s a b
    using that by (auto simp: parse_exp_def parse_sign_def split: list.splits if_splits prod.splits dest!: span)
  assume p: "parse_num s = Some (l, [])"
  obtain sg s1 :: utext where s1: "(sg, s1) = (case s of c # q \<Rightarrow> if c = 45 then ([45], q) else ([], s) | [] \<Rightarrow> ([], []))"
    by (metis surj_pair)
  then have sg: "set sg \<subseteq> {45}" by (auto split: list.splits if_splits)
  from p obtain x1 s2 x2 s3 x3 where "parse_int s1 = Some (x1, s2)" "parse_frac s2 = Some (x2, s3)"
    "parse_exp s3 = Some (x3, [])" "l = sg @ x1 @ x2 @ x3"
    unfolding parse_num_def s1[symmetric] by (auto split: option.splits)
  with sg i[of s1 x1 s2] f[of s2 x2 s3] e[of s3 x3 "[]"] show ?thesis by auto
qed

lemma stringify_scalar: "json_ok nc v \<Longrightarrow> list_all scalar (stringify v)"
proof (induction v)
  case (JNum t)
  then have "set t \<subseteq> {43, 45, 46, 101, 69} \<union> {u. is_udigit u}" "num_finite t"
    by (auto simp: num_ok_def num_ok_finite dest: parse_num_scalar)
  then show ?case by (auto simp: list_all_iff is_udigit_def intro!: scalar_ascii)
next
  case (JArr vs)
  then show ?case by (auto intro!: join_comma_all scalar_ascii)
next
  case (JObj ps)
  then have "\<forall>x\<in>set (map (\<lambda>(k, v). quote_str k @ [58] @ stringify v) ps). list_all scalar x"
    by (auto simp: quote_str_scalar scalar_ascii prod_set_simps)
  then show ?case by (simp only: stringify.simps list_all_append join_comma_all) (simp add: scalar_ascii)
qed (auto simp: asc_scalar quote_str_scalar)

section \<open>What was appended is what is read\<close>

text \<open>The values a body contributes: its elements when it is an array, itself otherwise.\<close>

definition body_values :: "(utext \<Rightarrow> utext) \<Rightarrow> bytes \<Rightarrow> json list" where
  "body_values nc body =
     (case json_parse nc (text_decode body) of
        None \<Rightarrow> []
      | Some (JArr vs) \<Rightarrow> map json_norm vs
      | Some v \<Rightarrow> [json_norm v])"

definition fragment :: "json list \<Rightarrow> bytes" where
  "fragment vs = text_encode (join_comma (map stringify vs) @ [44])"

lemma body_values_ok: "nc_ok nc \<Longrightarrow> v \<in> set (body_values nc body) \<Longrightarrow> json_ok nc v"
proof -
  assume nc: "nc_ok nc" and v: "v \<in> set (body_values nc body)"
  then obtain w where w: "json_parse nc (text_decode body) = Some w"
    by (cases "json_parse nc (text_decode body)") (auto simp: body_values_def)
  have "json_ok nc (json_norm w)"
    using json_parse_ok[OF nc _ w] text_decode_scalar[of body] by (simp add: decoded_def)
  with v w show ?thesis by (cases w) (auto simp: body_values_def)
qed

lemma processJsonAppend_fragment:
  "processJsonAppend nc body init = Inr data \<Longrightarrow> data \<noteq> [] \<Longrightarrow>
     data = fragment (body_values nc body) \<and> body_values nc body \<noteq> []"
  by (auto simp: processJsonAppend_def body_values_def fragment_def comp_def
      split: option.splits json.splits if_splits simp del: stringify.simps json_norm.simps)

lemma processJsonAppend_nonempty: "processJsonAppend nc body False = Inr data \<Longrightarrow> data \<noteq> []"
  by (auto simp: processJsonAppend_def text_encode_def utf8_encode_def utf8_char_def
      split: option.splits json.splits if_splits)

lemma text_decode_fragment:
  assumes "vs \<noteq> []" and "\<forall>v\<in>set vs. json_ok nc v"
  shows "text_decode (fragment vs) = join_comma (map stringify vs) @ [44]"
proof -
  let ?t = "join_comma (map stringify vs)"
  obtain v ws where vs: "vs = v # ws" using assms(1) by (cases vs) auto
  obtain c s where c: "stringify v = c # s" using assms vs stringify_Cons[of nc v] by auto
  have sc: "list_all scalar (?t @ [44])"
    using assms(2) stringify_scalar[of nc] by (auto intro!: join_comma_all scalar_ascii)
  have "hd (?t @ [44]) \<noteq> 65279"
  proof -
    have "c \<noteq> 65279" using assms vs c by (cases v)
        (auto simp: asc_def quote_str_def num_ok_finite num_ok_def is_udigit_def split: if_splits
          dest!: parse_num_hd)
    moreover have "hd (?t @ [44]) = c" using vs c by (cases ws) auto
    ultimately show ?thesis by simp
  qed
  then show ?thesis unfolding fragment_def using sc by (intro text_roundtrip) auto
qed

lemma decode_fragment:
  assumes "vs \<noteq> []" and "\<forall>v\<in>set vs. json_ok nc v"
  shows "decodeStoredJsonMessage (fragment vs) = join_comma (map stringify vs)"
  using text_decode_fragment[OF assms]
  by (simp add: decodeStoredJsonMessage_def utrimEnd_def strip_comma_def is_uspace_def)

lemma parse_fragment:
  assumes "vs \<noteq> []" and "\<forall>v\<in>set vs. json_ok nc v"
  shows "json_parse nc ([91] @ strip_comma (text_decode (fragment vs)) @ [93]) = Some (JArr vs)"
proof -
  have "json_parse nc (stringify (JArr vs)) = Some (JArr vs)" using assms(2) by (intro json_roundtrip) simp
  then show ?thesis using text_decode_fragment[OF assms] by (simp add: strip_comma_def)
qed

lemma message_items_fragment:
  assumes "m_data m = fragment vs" and "vs \<noteq> []" and "\<forall>v\<in>set vs. json_ok nc v"
  shows "message_items nc m = Some (map (\<lambda>v. enrichJsonValueWithOffset v (m_offset m)) vs)"
proof -
  have "json_parse nc (stringify (JArr vs)) = Some (JArr vs)" using assms(3) by (intro json_roundtrip) simp
  then show ?thesis using assms decode_fragment[of vs nc] by (simp add: message_items_def)
qed

text \<open>A message holds the stored form of the values \<open>vs\<close>.\<close>

definition holds_values :: "(utext \<Rightarrow> utext) \<Rightarrow> stream_message \<Rightarrow> json list \<Rightarrow> bool" where
  "holds_values nc m vs \<longleftrightarrow> m_data m = fragment vs \<and> vs \<noteq> [] \<and> (\<forall>v\<in>set vs. json_ok nc v)"

definition enriched :: "stream_message list \<Rightarrow> json list list \<Rightarrow> json list" where
  "enriched ms vss = concat (map2 (\<lambda>m vs. map (enrich_value (m_offset m)) vs) ms vss)"

lemma flat_items_fragments:
  "list_all2 (holds_values nc) ms vss \<Longrightarrow> flat_items nc ms = Some (map stringify (enriched ms vss))"
  by (induction ms vss rule: list_all2_induct)
    (auto simp: holds_values_def message_items_fragment enriched_def enrichJsonValueWithOffset_def comp_def)

lemma asc_text_ok: "text_ok (asc s)"
proof -
  have l: "list_all (\<lambda>v. v < 1114112) (asc s)" using asc_scalar[of s] by (auto simp: list_all_iff scalar_def)
  have "str_ok t" if "list_all scalar t" for t
    using that by (induction t rule: str_ok.induct) (auto simp: scalar_def is_surrogate_def is_high_def)
  with l asc_scalar show ?thesis by (simp add: text_ok_def)
qed

lemma json_ok_JObj: "json_ok nc (JObj ps) \<Longrightarrow> text_ok k \<Longrightarrow> json_ok nc v \<Longrightarrow> obj_ok ps \<Longrightarrow>
    json_ok nc (JObj (obj_set k v ps))"
  using obj_set_set[of k v ps] obj_ok_rebuild[OF obj_set_ok, of ps k v] by auto

text \<open>Rebuilding a property list by insertion always gives enumeration order.\<close>

lemma foldl_obj_set_ok: "obj_ok acc \<Longrightarrow> obj_ok (foldl (\<lambda>acc p. obj_set (fst p) (snd p) acc) acc ps)"
  by (induction ps arbitrary: acc) (auto simp: obj_set_ok)

lemma json_ok_obj_ok: "json_ok nc (JObj ps) \<Longrightarrow> obj_ok ps"
  using foldl_obj_set_ok[of "[]" ps] by (simp add: obj_ok_def)

lemma enrich_ok: "json_ok nc v \<Longrightarrow> json_ok nc (enrich_value offset v)"
proof (cases "enrich_value offset v = v")
  case False
  assume ok: "json_ok nc v"
  from False obtain ps hs where p: "v = JObj ps" "map_of ps (asc ''headers'') = Some (JObj hs)"
    and e: "enrich_value offset v = JObj (obj_set (asc ''headers'')
              (JObj (obj_set (asc ''offset'') (JStr (asc offset)) hs)) ps)"
    by (auto simp: enrich_value_def Let_def split: json.splits option.splits if_splits)
  have h: "json_ok nc (JObj hs)" using ok map_of_SomeD[OF p(2)] unfolding p(1) by fastforce
  have inner: "json_ok nc (JObj (obj_set (asc ''offset'') (JStr (asc offset)) hs))"
    by (rule json_ok_JObj[OF h asc_text_ok _ json_ok_obj_ok[OF h]]) (simp add: asc_text_ok)
  have outer: "json_ok nc (JObj ps)" using ok p(1) by simp
  show ?thesis
    unfolding e by (rule json_ok_JObj[OF outer asc_text_ok inner json_ok_obj_ok[OF outer]])
qed simp

lemma enriched_ok: "list_all2 (holds_values nc) ms vss \<Longrightarrow> v \<in> set (enriched ms vss) \<Longrightarrow> json_ok nc v"
  by (induction ms vss rule: list_all2_induct) (auto simp: enriched_def holds_values_def enrich_ok)

lemma format_fragments:
  assumes "list_all2 (holds_values nc) ms vss" and "ms \<noteq> []"
  shows "formatJsonMessages nc ms = Inr (text_encode (stringify (JArr (enriched ms vss))))"
  using assms by (simp add: formatJsonMessages_def flat_items_fragments)

lemma parse_response:
  assumes "\<forall>v\<in>set vs. json_ok nc v"
  shows "json_parse nc (text_decode (text_encode (stringify (JArr vs)))) = Some (JArr vs)"
proof -
  have ok: "json_ok nc (JArr vs)" using assms by simp
  have "text_decode (text_encode (stringify (JArr vs))) = stringify (JArr vs)"
    using stringify_scalar[OF ok] by (intro text_roundtrip) auto
  with json_roundtrip[OF ok] show ?thesis by simp
qed

end
