(* ===== verification/Store_Base.thy ===== *)
theory Store_Base
  imports Json_Mode
begin

text \<open>
  Lifecycle of streams and pending long-polls in \<^verbatim>\<open>StreamStore\<close> (server/src/store.ts): expiry, soft
  and full deletion with the cascade to soft-deleted parents, and the resolution of waiting readers.
\<close>

section \<open>Pending long-polls\<close>

definition clear_timer :: "pending_long_poll \<Rightarrow> store \<Rightarrow> store" where
  "clear_timer q st = st\<lparr>timers := filter (\<lambda>t. pl_id t \<noteq> pl_id q) (timers st)\<rparr>"

definition resolve_promise :: "nat \<Rightarrow> wait_result \<Rightarrow> store \<Rightarrow> store" where
  "resolve_promise i r st =
     (if map_of (resolved st) i = None then st\<lparr>resolved := resolved st @ [(i, r)]\<rparr> else st)"

definition removePendingLongPoll :: "pending_long_poll \<Rightarrow> store \<Rightarrow> store" where
  "removePendingLongPoll q st = st\<lparr>pendingLongPolls := remove1 q (pendingLongPolls st)\<rparr>"

text \<open>The \<^verbatim>\<open>resolve\<close> callback of a pending long-poll, once it has looked up the current stream.\<close>

definition resolve_with :: "stream option \<Rightarrow> stream_message list \<Rightarrow> pending_long_poll \<Rightarrow> store \<Rightarrow> store" where
  "resolve_with cur msgs q st =
     resolve_promise (pl_id q)
       \<lparr>wr_messages = msgs, wr_timedOut = False,
        wr_streamClosed = (case cur of
            Some s \<Rightarrow> if closed s \<and> msgs = [] then Some True else None
          | None \<Rightarrow> None)\<rparr>
       (removePendingLongPoll q (clear_timer q st))"

text \<open>Both callers delete the path from the map just before, so that the callback finds no stream
  there and has no further effect.\<close>

definition cancelLongPollsForStream :: "string \<Rightarrow> store \<Rightarrow> store" where
  "cancelLongPollsForStream p st =
     (let toCancel = filter (\<lambda>q. pl_path q = p) (pendingLongPolls st);
          st1 = fold (\<lambda>q st. resolve_with (map_of (streams st) p) [] q (clear_timer q st)) toCancel st
      in st1\<lparr>pendingLongPolls := filter (\<lambda>q. pl_path q \<noteq> p) (pendingLongPolls st1)\<rparr>)"

lemma streams_poll_ops [simp]:
  "streams (clear_timer q st) = streams st"
  "streams (resolve_promise i r st) = streams st"
  "streams (removePendingLongPoll q st) = streams st"
  "streams (resolve_with cur msgs q st) = streams st"
  by (simp_all add: clear_timer_def resolve_promise_def removePendingLongPoll_def resolve_with_def)

lemma streams_fold_poll:
  "(\<And>q st. streams (f q st) = streams st) \<Longrightarrow> streams (fold f qs st) = streams st"
  by (induction qs arbitrary: st) auto

lemma streams_cancel [simp]: "streams (cancelLongPollsForStream p st) = streams st"
  by (simp add: cancelLongPollsForStream_def Let_def streams_fold_poll)

section \<open>Deletion\<close>

text \<open>\<^verbatim>\<open>deleteWithCascade\<close>: each recursive call removes one more stream from the map.\<close>

function deleteWithCascade :: "string \<Rightarrow> store \<Rightarrow> store" where
  "deleteWithCascade p st =
     (case map_of (streams st) p of
        None \<Rightarrow> st
      | Some stream \<Rightarrow>
          let st1 = cancelLongPollsForStream p (st\<lparr>streams := AList.delete p (streams st)\<rparr>)
          in if truthy (forkedFrom stream)
             then (case map_of (streams st1) (the (forkedFrom stream)) of
                     None \<Rightarrow> st1
                   | Some parent \<Rightarrow>
                       let rc = refCount parent - 1;
                           rc' = (if rc < 0 then 0 else rc);
                           st2 = st1\<lparr>streams := AList.update (the (forkedFrom stream))
                                        (parent\<lparr>refCount := rc'\<rparr>) (streams st1)\<rparr>
                       in if rc' = 0 \<and> softDeleted parent
                          then deleteWithCascade (the (forkedFrom stream)) st2
                          else st2)
             else st1)"
  by pat_completeness auto
termination
  by (relation "measure (\<lambda>(p, st). length (streams st))")
    (auto simp: length_update_present length_delete_less)

declare deleteWithCascade.simps [simp del]

text \<open>The state after the removal of one stream, and after the decrement of its source.\<close>

definition without :: "string \<Rightarrow> store \<Rightarrow> store" where
  "without p st = cancelLongPollsForStream p (st\<lparr>streams := AList.delete p (streams st)\<rparr>)"

definition drop_ref :: "string \<Rightarrow> stream \<Rightarrow> store \<Rightarrow> store" where
  "drop_ref q parent st = st\<lparr>streams := AList.update q
     (parent\<lparr>refCount := (if refCount parent - 1 < 0 then 0 else refCount parent - 1)\<rparr>) (streams st)\<rparr>"

lemma streams_without [simp]: "streams (without p st) = AList.delete p (streams st)"
  by (simp add: without_def)

lemma streams_drop_ref: "streams (drop_ref q parent st) = AList.update q
    (parent\<lparr>refCount := (if refCount parent - 1 < 0 then 0 else refCount parent - 1)\<rparr>) (streams st)"
  by (simp add: drop_ref_def)

lemma cascade_unfold:
  "map_of (streams st) p = Some s \<Longrightarrow>
     deleteWithCascade p st =
       (if truthy (forkedFrom s)
        then (case map_of (streams (without p st)) (the (forkedFrom s)) of
                None \<Rightarrow> without p st
              | Some parent \<Rightarrow>
                  if refCount parent - 1 \<le> 0 \<and> softDeleted parent
                  then deleteWithCascade (the (forkedFrom s)) (drop_ref (the (forkedFrom s)) parent (without p st))
                  else drop_ref (the (forkedFrom s)) parent (without p st))
        else without p st)"
  by (subst deleteWithCascade.simps) (auto simp: Let_def without_def drop_ref_def split: option.splits)

text \<open>Induction along the cascade: a relation between the states before and after.\<close>

lemma cascade_rule:
  assumes none: "\<And>p st. map_of (streams st) p = None \<Longrightarrow> Q p st st"
    and last: "\<And>p st s. map_of (streams st) p = Some s \<Longrightarrow> Q p st (without p st)"
    and dec: "\<And>p st s q parent. map_of (streams st) p = Some s \<Longrightarrow> forkedFrom s = Some q \<Longrightarrow>
      map_of (AList.delete p (streams st)) q = Some parent \<Longrightarrow> Q p st (drop_ref q parent (without p st))"
    and more: "\<And>p st s q parent st'. map_of (streams st) p = Some s \<Longrightarrow> forkedFrom s = Some q \<Longrightarrow>
      map_of (AList.delete p (streams st)) q = Some parent \<Longrightarrow> softDeleted parent \<Longrightarrow>
      Q q (drop_ref q parent (without p st)) st' \<Longrightarrow> Q p st st'"
  shows "Q p st (deleteWithCascade p st)"
proof (induction "length (streams st)" arbitrary: p st rule: less_induct)
  case less
  show ?case
  proof (cases "map_of (streams st) p")
    case None
    then show ?thesis using none by (simp add: deleteWithCascade.simps)
  next
    case (Some s)
    have len: "length (streams (drop_ref q parent (without p st))) < length (streams st)"
      if "map_of (AList.delete p (streams st)) q = Some parent" for q parent
      using that Some by (simp add: streams_drop_ref length_update_present length_delete_less)
    show ?thesis
      using last[OF Some] dec[OF Some] more[OF Some] less[OF len]
      by (auto simp: cascade_unfold[OF Some] truthy_def split: option.splits)
  qed
qed

definition delete_stream :: "string \<Rightarrow> store \<Rightarrow> bool \<times> store" where
  "delete_stream p st =
     (case map_of (streams st) p of
        None \<Rightarrow> (False, st)
      | Some stream \<Rightarrow>
          if softDeleted stream then (True, st)
          else if refCount stream > 0
          then (True, st\<lparr>streams := AList.update p (stream\<lparr>softDeleted := True\<rparr>) (streams st)\<rparr>)
          else (True, deleteWithCascade p st))"

section \<open>Expiry\<close>

definition isExpired :: "js_env \<Rightarrow> stream \<Rightarrow> bool" where
  "isExpired env s \<longleftrightarrow>
     (truthy (expiresAt s) \<and>
        (case date_ms env (the (expiresAt s)) of None \<Rightarrow> True | Some expiryTime \<Rightarrow> now env \<ge> expiryTime))
     \<or> (case ttlSeconds s of None \<Rightarrow> False | Some ttl \<Rightarrow> now env \<ge> lastAccessedAt s + int ttl * 1000)"

definition getIfNotExpired :: "js_env \<Rightarrow> string \<Rightarrow> store \<Rightarrow> stream option \<times> store" where
  "getIfNotExpired env p st =
     (case map_of (streams st) p of
        None \<Rightarrow> (None, st)
      | Some s \<Rightarrow>
          if isExpired env s then
            (if refCount s > 0
             then (let s' = s\<lparr>softDeleted := True\<rparr>
                   in (Some s', st\<lparr>streams := AList.update p s' (streams st)\<rparr>))
             else (None, snd (delete_stream p st)))
          else (Some s, st))"

definition touchAccess :: "js_env \<Rightarrow> string \<Rightarrow> store \<Rightarrow> store" where
  "touchAccess env p st =
     (case map_of (streams st) p of
        None \<Rightarrow> st
      | Some s \<Rightarrow> st\<lparr>streams := AList.update p (s\<lparr>lastAccessedAt := now env\<rparr>) (streams st)\<rparr>)"

text \<open>\<^verbatim>\<open>get\<close> repeats the body of \<^verbatim>\<open>getIfNotExpired\<close>.\<close>

definition get_stream :: "js_env \<Rightarrow> string \<Rightarrow> store \<Rightarrow> stream option \<times> store" where
  "get_stream env p st =
     (case map_of (streams st) p of
        None \<Rightarrow> (None, st)
      | Some s \<Rightarrow>
          if isExpired env s then
            (if refCount s > 0
             then (let s' = s\<lparr>softDeleted := True\<rparr>
                   in (Some s', st\<lparr>streams := AList.update p s' (streams st)\<rparr>))
             else (None, snd (delete_stream p st)))
          else (Some s, st))"

definition has_stream :: "js_env \<Rightarrow> string \<Rightarrow> store \<Rightarrow> bool \<times> store" where
  "has_stream env p st =
     (case get_stream env p st of
        (None, st') \<Rightarrow> (False, st')
      | (Some s, st') \<Rightarrow> (\<not> softDeleted s, st'))"

definition getCurrentOffset :: "js_env \<Rightarrow> string \<Rightarrow> store \<Rightarrow> string option \<times> store" where
  "getCurrentOffset env p st = (case getIfNotExpired env p st of (s, st') \<Rightarrow> (map_option currentOffset s, st'))"

definition getProducerEpoch :: "js_env \<Rightarrow> string \<Rightarrow> string \<Rightarrow> store \<Rightarrow> nat option \<times> store" where
  "getProducerEpoch env p producerId st =
     (case getIfNotExpired env p st of
        (None, st') \<Rightarrow> (None, st')
      | (Some s, st') \<Rightarrow> (map_option ps_epoch (map_of (producers s) producerId), st'))"

definition list_streams :: "store \<Rightarrow> string list" where
  "list_streams st = map fst (streams st)"

section \<open>Waking and cancelling readers\<close>

definition poll_resolve :: "js_env \<Rightarrow> stream_message list \<Rightarrow> pending_long_poll \<Rightarrow> store \<Rightarrow> store" where
  "poll_resolve env msgs q st =
     (let st1 = removePendingLongPoll q (clear_timer q st);
          (cur, st2) = getIfNotExpired env (pl_path q) st1
      in resolve_promise (pl_id q)
           \<lparr>wr_messages = msgs, wr_timedOut = False,
            wr_streamClosed = (case cur of
                Some s \<Rightarrow> if closed s \<and> msgs = [] then Some True else None
              | None \<Rightarrow> None)\<rparr> st2)"

definition notifyLongPollsClosed :: "js_env \<Rightarrow> string \<Rightarrow> store \<Rightarrow> store" where
  "notifyLongPollsClosed env p st =
     (let toNotify = filter (\<lambda>q. pl_path q = p) (pendingLongPolls st)
      in fold (poll_resolve env []) toNotify st)"

text \<open>The timeout of a pending long-poll fires: it is enabled while its timer is armed.\<close>

definition fire_timeout :: "js_env \<Rightarrow> pending_long_poll \<Rightarrow> store \<Rightarrow> store" where
  "fire_timeout env q st =
     (if q \<in> set (timers st) then
        (let st1 = removePendingLongPoll q (clear_timer q st);
             (cur, st2) = getIfNotExpired env (pl_path q) st1
         in resolve_promise (pl_id q)
              \<lparr>wr_messages = [], wr_timedOut = True,
               wr_streamClosed = Some (case cur of Some s \<Rightarrow> closed s | None \<Rightarrow> False)\<rparr> st2)
      else st)"

text \<open>
  The loop of \<^verbatim>\<open>cancelAllWaits\<close> and \<^verbatim>\<open>clear\<close> iterates over the array it shrinks: \<open>arr\<close> is the array
  the iterator reads at index \<open>i\<close> and \<open>same\<close> tells whether it still is \<^verbatim>\<open>this.pendingLongPolls\<close>,
  from which each resolved poll splices itself out. Expiry of the polled stream assigns a fresh
  array to \<^verbatim>\<open>this.pendingLongPolls\<close>, after which the iterated one no longer changes.
\<close>

definition expires_fully :: "js_env \<Rightarrow> string \<Rightarrow> store \<Rightarrow> bool" where
  "expires_fully env p st \<longleftrightarrow> (case map_of (streams st) p of
      None \<Rightarrow> False
    | Some s \<Rightarrow> isExpired env s \<and> \<not> refCount s > 0 \<and> \<not> softDeleted s)"

function cancel_loop :: "js_env \<Rightarrow> nat \<Rightarrow> pending_long_poll list \<Rightarrow> bool \<Rightarrow> store \<Rightarrow> store" where
  "cancel_loop env i arr same st =
     (if i < length arr then
        (let q = arr ! i
         in cancel_loop env (Suc i) (if same then remove1 q arr else arr)
              (same \<and> \<not> expires_fully env (pl_path q) st)
              (poll_resolve env [] q (clear_timer q st)))
      else st)"
  by pat_completeness auto
termination
  by (relation "measure (\<lambda>(env, i, arr, same, st). length arr - i)")
    (auto simp: length_remove1)

declare cancel_loop.simps [simp del]

definition cancelAllWaits :: "js_env \<Rightarrow> store \<Rightarrow> store" where
  "cancelAllWaits env st = (cancel_loop env 0 (pendingLongPolls st) True st)\<lparr>pendingLongPolls := []\<rparr>"

definition clear_store :: "js_env \<Rightarrow> store \<Rightarrow> store" where
  "clear_store env st =
     (cancel_loop env 0 (pendingLongPolls st) True st)\<lparr>pendingLongPolls := [], streams := []\<rparr>"

end
