(* ===== verification/Store_Read.thy ===== *)
theory Store_Read
  imports Store_Base
begin

text \<open>
  Reading: \<^verbatim>\<open>StreamStore.read\<close> and its helpers, \<^verbatim>\<open>formatResponse\<close>, \<^verbatim>\<open>waitForMessages\<close> and
  \<^verbatim>\<open>notifyLongPolls\<close> (server/src/store.ts). A forked stream shares the messages of its source up to
  the fork offset: \<^verbatim>\<open>readForkedMessages\<close> walks the chain of sources. The reference definition is the
  relation \<open>content\<close>, the whole logical content of a stream, and every read is a suffix of it.
\<close>

section \<open>Definitions\<close>

text \<open>\<^verbatim>\<open>a < b\<close> on optional strings: a comparison with undefined is false.\<close>

definition js_less :: "string option \<Rightarrow> string option \<Rightarrow> bool" where
  "js_less a b \<longleftrightarrow> (case (a, b) of (Some s, Some t) \<Rightarrow> s < t | _ \<Rightarrow> False)"

lemma js_less_simps [simp]:
  "js_less (Some s) (Some t) \<longleftrightarrow> s < t" "\<not> js_less None b" "\<not> js_less a None"
  by (auto simp: js_less_def split: option.splits)

fun find_offset_from :: "nat \<Rightarrow> stream_message list \<Rightarrow> string \<Rightarrow> int" where
  "find_offset_from i [] offset = -1"
| "find_offset_from i (m # ms) offset =
     (if m_offset m > offset then int i else find_offset_from (Suc i) ms offset)"

definition findOffsetIndex :: "stream \<Rightarrow> string \<Rightarrow> int" where
  "findOffsetIndex stream offset = find_offset_from 0 (messages stream) offset"

definition readOwnMessages :: "stream \<Rightarrow> string \<Rightarrow> stream_message list" where
  "readOwnMessages stream offset =
     (let offsetIndex = findOffsetIndex stream offset
      in if offsetIndex = -1 then [] else drop (nat offsetIndex) (messages stream))"

text \<open>The loop of \<^verbatim>\<open>readForkedMessages\<close> over a source's own messages, with its \<^verbatim>\<open>continue\<close> and
  \<^verbatim>\<open>break\<close>.\<close>

fun own_capped :: "string option \<Rightarrow> string option \<Rightarrow> stream_message list \<Rightarrow> stream_message list" where
  "own_capped offset cap [] = []"
| "own_capped offset cap (m # ms) =
     (if truthy offset \<and> m_offset m \<le> the offset then own_capped offset cap ms
      else if js_less cap (Some (m_offset m)) then []
      else m # own_capped offset cap ms)"

text \<open>Nothing in the code bounds the walk along the sources: None is a recursion that never ends
  (the engine throws a RangeError).\<close>

partial_function (option) readForkedMessages ::
  "(string, stream) jsmap \<Rightarrow> string \<Rightarrow> string option \<Rightarrow> string option \<Rightarrow> stream_message list option"
where [code]:
  "readForkedMessages ss sourcePath offset capOffset =
     (case map_of ss sourcePath of
        None \<Rightarrow> Some []
      | Some source \<Rightarrow>
          Option.bind
            (if truthy (forkedFrom source) \<and> (\<not> truthy offset \<or> js_less offset (forkOffset source))
             then readForkedMessages ss (the (forkedFrom source)) offset
                    (if js_less (forkOffset source) capOffset then forkOffset source else capOffset)
             else Some [])
            (\<lambda>inherited. Some (inherited @ own_capped offset capOffset (messages source))))"

record read_result =
  rr_messages :: "stream_message list"
  rr_upToDate :: bool

definition chain_result :: "stream_message list option \<Rightarrow> (stream_message list \<Rightarrow> read_result) \<Rightarrow> read_result outcome" where
  "chain_result r f = (case r of None \<Rightarrow> Inl Stack_overflow | Some ms \<Rightarrow> Inr (f ms))"

definition readFromFork :: "(string, stream) jsmap \<Rightarrow> stream \<Rightarrow> string \<Rightarrow> read_result outcome" where
  "readFromFork ss stream offset =
     chain_result
       (if js_less (Some offset) (forkOffset stream)
        then readForkedMessages ss (the (forkedFrom stream)) (Some offset) (forkOffset stream)
        else Some [])
       (\<lambda>inherited. \<lparr>rr_messages = inherited @ readOwnMessages stream offset, rr_upToDate = True\<rparr>)"

definition read_messages :: "(string, stream) jsmap \<Rightarrow> stream \<Rightarrow> string option \<Rightarrow> read_result outcome" where
  "read_messages ss stream offset =
     (if \<not> truthy offset \<or> offset = Some ''-1'' then
        (if truthy (forkedFrom stream)
         then chain_result (readForkedMessages ss (the (forkedFrom stream)) None (forkOffset stream))
                (\<lambda>inherited. \<lparr>rr_messages = inherited @ messages stream, rr_upToDate = True\<rparr>)
         else Inr \<lparr>rr_messages = messages stream, rr_upToDate = True\<rparr>)
      else if truthy (forkedFrom stream) then readFromFork ss stream (the offset)
      else (let offsetIndex = findOffsetIndex stream (the offset)
            in if offsetIndex = -1 then Inr \<lparr>rr_messages = [], rr_upToDate = True\<rparr>
               else Inr \<lparr>rr_messages = drop (nat offsetIndex) (messages stream), rr_upToDate = True\<rparr>))"

definition read :: "js_env \<Rightarrow> string \<Rightarrow> string option \<Rightarrow> store \<Rightarrow> read_result outcome \<times> store" where
  "read env p offset st =
     (case getIfNotExpired env p st of
        (None, st') \<Rightarrow> (Inl (Stream_not_found p), st')
      | (Some stream, st') \<Rightarrow> (read_messages (streams st') stream offset, st'))"

definition formatResponse :: "js_env \<Rightarrow> string \<Rightarrow> stream_message list \<Rightarrow> store \<Rightarrow> bytes outcome \<times> store" where
  "formatResponse env p ms st =
     (case getIfNotExpired env p st of
        (None, st') \<Rightarrow> (Inl (Stream_not_found p), st')
      | (Some stream, st') \<Rightarrow>
          (if normalizeContentType (contentType stream) = ''application/json''
           then formatJsonMessages (num_canon env) ms
           else Inr (concat (map m_data ms)), st'))"

text \<open>The promise of \<^verbatim>\<open>waitForMessages\<close>: answered at once, or pending under a number. A long-poll
  that is pushed has its timer armed.\<close>

datatype wait_outcome = Immediate wait_result | Pending nat

definition waitForMessages :: "js_env \<Rightarrow> string \<Rightarrow> string \<Rightarrow> store \<Rightarrow> wait_outcome outcome \<times> store" where
  "waitForMessages env p offset st =
     (case getIfNotExpired env p st of
        (None, st') \<Rightarrow> (Inl (Stream_not_found p), st')
      | (Some stream, st') \<Rightarrow>
          if truthy (forkedFrom stream) \<and> js_less (Some offset) (forkOffset stream) then
            (case read env p (Some offset) st' of
               (Inl e, st'') \<Rightarrow> (Inl e, st'')
             | (Inr r, st'') \<Rightarrow>
                 (Inr (Immediate \<lparr>wr_messages = rr_messages r, wr_timedOut = False, wr_streamClosed = None\<rparr>), st''))
          else
            (case read env p (Some offset) st' of
               (Inl e, st'') \<Rightarrow> (Inl e, st'')
             | (Inr r, st'') \<Rightarrow>
                 if rr_messages r \<noteq> [] then
                   (Inr (Immediate \<lparr>wr_messages = rr_messages r, wr_timedOut = False, wr_streamClosed = None\<rparr>), st'')
                 else if closed stream \<and> offset = currentOffset stream then
                   (Inr (Immediate \<lparr>wr_messages = [], wr_timedOut = False, wr_streamClosed = Some True\<rparr>), st'')
                 else
                   (let pending = \<lparr>pl_id = next_poll st'', pl_path = p, pl_offset = offset\<rparr>
                    in (Inr (Pending (next_poll st'')),
                        st''\<lparr>pendingLongPolls := pendingLongPolls st'' @ [pending],
                             timers := timers st'' @ [pending],
                             next_poll := Suc (next_poll st'')\<rparr>))))"

text \<open>An exception of \<^verbatim>\<open>read\<close> leaves the loop, and the polls after it unnotified.\<close>

fun notify_loop :: "js_env \<Rightarrow> string \<Rightarrow> pending_long_poll list \<Rightarrow> store \<Rightarrow> unit outcome \<times> store" where
  "notify_loop env p [] st = (Inr (), st)"
| "notify_loop env p (q # qs) st =
     (case read env p (Some (pl_offset q)) st of
        (Inl e, st') \<Rightarrow> (Inl e, st')
      | (Inr r, st') \<Rightarrow>
          notify_loop env p qs
            (if rr_messages r \<noteq> [] then poll_resolve env (rr_messages r) q st' else st'))"

definition notifyLongPolls :: "js_env \<Rightarrow> string \<Rightarrow> store \<Rightarrow> unit outcome \<times> store" where
  "notifyLongPolls env p st =
     notify_loop env p (filter (\<lambda>q. pl_path q = p) (pendingLongPolls st)) st"

end
