(* ===== verification/Store_Write.thy ===== *)
theory Store_Write
  imports Store_Read
begin

text \<open>
  Writing: \<^verbatim>\<open>appendToStream\<close>, producer validation, \<^verbatim>\<open>append\<close>, the two ways to close a stream and
  \<^verbatim>\<open>create\<close> with its forks (server/src/store.ts). The asynchronous wrappers \<^verbatim>\<open>appendWithProducer\<close>
  and \<^verbatim>\<open>closeStreamWithProducer\<close> hold the producer lock around the synchronous body given here.
\<close>

section \<open>Appending to a stream object\<close>

text \<open>The message (None for an empty array in a create), and the changed stream object.\<close>

definition appendToStream ::
  "js_env \<Rightarrow> stream \<Rightarrow> bytes \<Rightarrow> bool \<Rightarrow> (stream_message option \<times> stream) outcome" where
  "appendToStream env stream data isInitialCreate =
     (let isJSON = (normalizeContentType (contentType stream) = ''application/json'')
      in case (if isJSON then processJsonAppend (num_canon env) data isInitialCreate else Inr data) of
           Inl e \<Rightarrow> Inl e
         | Inr processedData \<Rightarrow>
             if isJSON \<and> processedData = [] then Inr (None, stream)
             else (let newOffset = advance_offset (currentOffset stream) (length processedData);
                       message = \<lparr>m_data = processedData, m_offset = newOffset, m_timestamp = now env\<rparr>
                   in Inr (Some message,
                           stream\<lparr>messages := messages stream @ [message], currentOffset := newOffset\<rparr>)))"

section \<open>Producers\<close>

definition PRODUCER_STATE_TTL_MS :: int where
  "PRODUCER_STATE_TTL_MS = 7 * 24 * 60 * 60 * 1000"

definition cleanupExpiredProducers :: "js_env \<Rightarrow> stream \<Rightarrow> stream" where
  "cleanupExpiredProducers env stream =
     stream\<lparr>producers := filter (\<lambda>(id, state). \<not> now env - ps_lastUpdated state > PRODUCER_STATE_TTL_MS)
                          (producers stream)\<rparr>"

text \<open>The decision of \<^verbatim>\<open>validateProducer\<close> on the producer's state after the clean-up, and the
  whole method, which returns the cleaned stream.\<close>

definition producer_decision ::
  "int \<Rightarrow> producer_state option \<Rightarrow> string \<Rightarrow> nat \<Rightarrow> nat \<Rightarrow> producer_validation_result" where
  "producer_decision t st producerId epoch seq =
     (case st of
        None \<Rightarrow>
          if seq \<noteq> 0 then SequenceGap 0 seq
          else Accepted True \<lparr>ps_epoch = epoch, ps_lastSeq = 0, ps_lastUpdated = t\<rparr> producerId
      | Some state \<Rightarrow>
          if epoch < ps_epoch state then StaleEpoch (ps_epoch state)
          else if epoch > ps_epoch state then
            (if seq \<noteq> 0 then InvalidEpochSeq
             else Accepted True \<lparr>ps_epoch = epoch, ps_lastSeq = 0, ps_lastUpdated = t\<rparr> producerId)
          else if seq \<le> ps_lastSeq state then Duplicate (Some (ps_lastSeq state))
          else if seq = ps_lastSeq state + 1 then
            Accepted False \<lparr>ps_epoch = epoch, ps_lastSeq = seq, ps_lastUpdated = t\<rparr> producerId
          else SequenceGap (ps_lastSeq state + 1) seq)"

definition validateProducer ::
  "js_env \<Rightarrow> stream \<Rightarrow> string \<Rightarrow> nat \<Rightarrow> nat \<Rightarrow> producer_validation_result \<times> stream" where
  "validateProducer env stream producerId epoch seq =
     (let stream' = cleanupExpiredProducers env stream
      in (producer_decision (now env) (map_of (producers stream') producerId) producerId epoch seq, stream'))"

definition commitProducerState :: "stream \<Rightarrow> producer_validation_result \<Rightarrow> stream" where
  "commitProducerState stream result =
     (case result of
        Accepted isNew proposedState producerId \<Rightarrow>
          stream\<lparr>producers := AList.update producerId proposedState (producers stream)\<rparr>
      | _ \<Rightarrow> stream)"

definition is_accepted :: "producer_validation_result \<Rightarrow> bool" where
  "is_accepted r \<longleftrightarrow> (case r of Accepted _ _ _ \<Rightarrow> True | _ \<Rightarrow> False)"

section \<open>Append\<close>

definition put_stream :: "string \<Rightarrow> stream \<Rightarrow> store \<Rightarrow> store" where
  "put_stream p s st = st\<lparr>streams := AList.update p s (streams st)\<rparr>"

text \<open>The producer headers of a request, when all three are present.\<close>

definition producer_headers :: "append_options \<Rightarrow> (string \<times> nat \<times> nat) option" where
  "producer_headers opts =
     (case (ao_producerId opts, ao_producerEpoch opts, ao_producerSeq opts) of
        (Some i, Some e, Some s) \<Rightarrow> Some (i, e, s)
      | _ \<Rightarrow> None)"

text \<open>\<^verbatim>\<open>append\<close> before anything is written (lines 721 to 797): an error, an early result, or the
  producer decision to go on with. The stream comes back with its producers cleaned up.\<close>

datatype append_verdict =
    Reject store_error
  | Early append_result
  | Proceed "producer_validation_result option"

definition is_closing_duplicate :: "stream \<Rightarrow> append_options \<Rightarrow> bool" where
  "is_closing_duplicate stream opts \<longleftrightarrow>
     truthy (ao_producerId opts) \<and>
     (case closedBy stream of
        None \<Rightarrow> False
      | Some c \<Rightarrow> Some (cb_producerId c) = ao_producerId opts
                  \<and> cb_epoch c = ao_producerEpoch opts \<and> cb_seq c = ao_producerSeq opts)"

definition seq_check :: "append_options \<Rightarrow> producer_validation_result option \<Rightarrow> stream \<Rightarrow> append_verdict" where
  "seq_check opts producerResult stream =
     (case (ao_seq opts, lastSeq stream) of
        (Some sq, Some l) \<Rightarrow> if sq \<le> l then Reject (Sequence_conflict sq l) else Proceed producerResult
      | _ \<Rightarrow> Proceed producerResult)"

definition append_check :: "js_env \<Rightarrow> string \<Rightarrow> append_options \<Rightarrow> stream \<Rightarrow> append_verdict \<times> stream" where
  "append_check env p opts stream =
     (if softDeleted stream then (Reject (Stream_soft_deleted p), stream)
      else if closed stream then
        (Early \<lparr>ar_message = None,
                ar_producerResult = (if is_closing_duplicate stream opts
                                     then Some (Duplicate (ao_producerSeq opts)) else None),
                ar_streamClosed = True\<rparr>, stream)
      else if truthy (ao_contentType opts) \<and> truthy (contentType stream)
              \<and> normalizeContentType (ao_contentType opts) \<noteq> normalizeContentType (contentType stream)
      then (Reject (Content_type_mismatch (the (contentType stream)) (the (ao_contentType opts))), stream)
      else
        (case producer_headers opts of
           None \<Rightarrow> (seq_check opts None stream, stream)
         | Some (i, e, s) \<Rightarrow>
             (let (r, stream1) = validateProducer env stream i e s
              in if \<not> is_accepted r
                 then (Early \<lparr>ar_message = None, ar_producerResult = Some r, ar_streamClosed = False\<rparr>, stream1)
                 else (seq_check opts (Some r) stream1, stream1))))"

text \<open>The state mutation after a successful append (lines 803 to 825).\<close>

definition append_commit :: "append_options \<Rightarrow> producer_validation_result option \<Rightarrow> stream \<Rightarrow> stream" where
  "append_commit opts producerResult stream =
     (let s1 = (case producerResult of None \<Rightarrow> stream | Some r \<Rightarrow> commitProducerState stream r);
          s2 = (case ao_seq opts of None \<Rightarrow> s1 | Some sq \<Rightarrow> s1\<lparr>lastSeq := Some sq\<rparr>);
          s3 = (if ao_close opts then
                  s2\<lparr>closed := True,
                     closedBy := (case ao_producerId opts of
                         None \<Rightarrow> closedBy s2
                       | Some i \<Rightarrow> Some \<lparr>cb_producerId = i, cb_epoch = ao_producerEpoch opts,
                                          cb_seq = ao_producerSeq opts\<rparr>)\<rparr>
                else s2)
      in s3)"

text \<open>The return type \<^verbatim>\<open>StreamMessage | AppendResult\<close>.\<close>

datatype append_return = Message "stream_message option" | Result append_result

definition append :: "js_env \<Rightarrow> string \<Rightarrow> bytes \<Rightarrow> append_options \<Rightarrow> store \<Rightarrow> append_return outcome \<times> store" where
  "append env p data opts st =
     (case getIfNotExpired env p st of
        (None, st1) \<Rightarrow> (Inl (Stream_not_found p), st1)
      | (Some stream, st1) \<Rightarrow>
          (case append_check env p opts stream of
             (Reject e, stream1) \<Rightarrow> (Inl e, put_stream p stream1 st1)
           | (Early r, stream1) \<Rightarrow> (Inr (Result r), put_stream p stream1 st1)
           | (Proceed producerResult, stream1) \<Rightarrow>
               (case appendToStream env stream1 data False of
                  Inl e \<Rightarrow> (Inl e, put_stream p stream1 st1)
                | Inr (message, stream2) \<Rightarrow>
                    (let st2 = put_stream p (append_commit opts producerResult stream2) st1
                     in case notifyLongPolls env p st2 of
                          (Inl e, st3) \<Rightarrow> (Inl e, st3)
                        | (Inr _, st3) \<Rightarrow>
                            (let st4 = (if ao_close opts then notifyLongPollsClosed env p st3 else st3)
                             in (Inr (if producerResult \<noteq> None \<or> ao_close opts
                                      then Result \<lparr>ar_message = message, ar_producerResult = producerResult,
                                                   ar_streamClosed = ao_close opts\<rparr>
                                      else Message message), st4))))))"

text \<open>The body of \<^verbatim>\<open>appendWithProducer\<close>, run under the producer lock when there is a producer.\<close>

definition appendWithProducer ::
  "js_env \<Rightarrow> string \<Rightarrow> bytes \<Rightarrow> append_options \<Rightarrow> store \<Rightarrow> append_result outcome \<times> store" where
  "appendWithProducer env p data opts st =
     (case append env p data opts st of
        (Inl e, st') \<Rightarrow> (Inl e, st')
      | (Inr (Result r), st') \<Rightarrow> (Inr r, st')
      | (Inr (Message m), st') \<Rightarrow>
          (Inr \<lparr>ar_message = m, ar_producerResult = None, ar_streamClosed = False\<rparr>, st'))"

section \<open>Close\<close>

record close_result =
  cr_finalOffset :: string
  cr_alreadyClosed :: bool
  cr_producerResult :: "producer_validation_result option"

text \<open>None is the \<^verbatim>\<open>null\<close> the callers turn into 404.\<close>

definition closeStream :: "js_env \<Rightarrow> string \<Rightarrow> store \<Rightarrow> close_result option outcome \<times> store" where
  "closeStream env p st =
     (case getIfNotExpired env p st of
        (None, st1) \<Rightarrow> (Inr None, st1)
      | (Some stream, st1) \<Rightarrow>
          if softDeleted stream then (Inl (Stream_soft_deleted p), st1)
          else
            (let alreadyClosed = closed stream;
                 st2 = put_stream p (stream\<lparr>closed := True\<rparr>) st1
             in (Inr (Some \<lparr>cr_finalOffset = currentOffset stream, cr_alreadyClosed = alreadyClosed,
                            cr_producerResult = None\<rparr>),
                 notifyLongPollsClosed env p st2)))"

definition closeStreamWithProducer ::
  "js_env \<Rightarrow> string \<Rightarrow> string \<Rightarrow> nat \<Rightarrow> nat \<Rightarrow> store \<Rightarrow> close_result option \<times> store" where
  "closeStreamWithProducer env p producerId producerEpoch producerSeq st =
     (case getIfNotExpired env p st of
        (None, st1) \<Rightarrow> (None, st1)
      | (Some stream, st1) \<Rightarrow>
          if closed stream then
            (Some \<lparr>cr_finalOffset = currentOffset stream, cr_alreadyClosed = True,
                   cr_producerResult = Some
                     (if closedBy stream = Some \<lparr>cb_producerId = producerId, cb_epoch = Some producerEpoch,
                                                 cb_seq = Some producerSeq\<rparr>
                      then Duplicate (Some producerSeq) else StreamClosed)\<rparr>, st1)
          else
            (let (producerResult, stream1) = validateProducer env stream producerId producerEpoch producerSeq
             in if \<not> is_accepted producerResult then
                  (Some \<lparr>cr_finalOffset = currentOffset stream1, cr_alreadyClosed = closed stream1,
                         cr_producerResult = Some producerResult\<rparr>, put_stream p stream1 st1)
                else
                  (let stream2 = (commitProducerState stream1 producerResult)
                         \<lparr>closed := True,
                          closedBy := Some \<lparr>cb_producerId = producerId, cb_epoch = Some producerEpoch,
                                            cb_seq = Some producerSeq\<rparr>\<rparr>
                   in (Some \<lparr>cr_finalOffset = currentOffset stream2, cr_alreadyClosed = False,
                             cr_producerResult = Some producerResult\<rparr>,
                       notifyLongPollsClosed env p (put_stream p stream2 st1)))))"

section \<open>Create and fork\<close>

definition resolveForkExpiry :: "create_options \<Rightarrow> stream \<Rightarrow> nat option \<times> string option" where
  "resolveForkExpiry opts sourceMeta =
     (if co_ttlSeconds opts \<noteq> None then (co_ttlSeconds opts, None)
      else if truthy (co_expiresAt opts) then (None, co_expiresAt opts)
      else if ttlSeconds sourceMeta \<noteq> None then (ttlSeconds sourceMeta, None)
      else if truthy (expiresAt sourceMeta) then (None, expiresAt sourceMeta)
      else (None, None))"

definition resolveForkSubOffset ::
  "js_env \<Rightarrow> (string, stream) jsmap \<Rightarrow> stream \<Rightarrow> string \<Rightarrow> nat \<Rightarrow> bool \<Rightarrow> bytes outcome" where
  "resolveForkSubOffset env ss sourceStream forkOff subOffset isJSON =
     (case (if truthy (forkedFrom sourceStream)
            then map_option (\<lambda>ms. ms @ readOwnMessages sourceStream forkOff)
                   (readForkedMessages ss (the (forkedFrom sourceStream)) (Some forkOff) (forkOffset sourceStream))
            else Some (readOwnMessages sourceStream forkOff)) of
        None \<Rightarrow> Inl Stack_overflow
      | Some [] \<Rightarrow> Inl Sub_offset_no_data
      | Some (first # _) \<Rightarrow>
          if isJSON then
            (case json_parse (num_canon env) ([91] @ strip_comma (text_decode (m_data first)) @ [93]) of
               Some (JArr vals) \<Rightarrow>
                 if subOffset > length vals then Inl Sub_offset_count
                 else Inr (text_encode (join_comma (map stringify (take subOffset vals)) @ [44]))
             | _ \<Rightarrow> Inl Sub_offset_unparseable)
          else if subOffset > length (m_data first) then Inl Sub_offset_length
          else Inr (take subOffset (m_data first)))"

text \<open>The comparison with an existing stream of the same path (lines 262 to 305).\<close>

definition type_or_default :: "string option \<Rightarrow> string" where
  "type_or_default ct = (let n = normalizeContentType ct in if n = [] then ''application/octet-stream'' else n)"

definition or_zero :: "nat option \<Rightarrow> nat" where
  "or_zero n = (case n of None \<Rightarrow> 0 | Some k \<Rightarrow> k)"

definition config_matches :: "create_options \<Rightarrow> stream \<Rightarrow> bool" where
  "config_matches opts existingRaw \<longleftrightarrow>
     type_or_default (co_contentType opts) = type_or_default (contentType existingRaw)
     \<and> co_ttlSeconds opts = ttlSeconds existingRaw
     \<and> co_expiresAt opts = expiresAt existingRaw
     \<and> (co_closed opts = Some True) = closed existingRaw
     \<and> co_forkedFrom opts = forkedFrom existingRaw
     \<and> (co_forkOffset opts = None \<or> co_forkOffset opts = forkOffset existingRaw)
     \<and> or_zero (co_forkSubOffset opts) = or_zero (forkSubOffset existingRaw)"

text \<open>The fork part (lines 312 to 377): the source, the fork offset and the prefix to materialise.\<close>

definition resolve_fork ::
  "js_env \<Rightarrow> (string, stream) jsmap \<Rightarrow> create_options \<Rightarrow> (stream \<times> string \<times> bytes option) outcome" where
  "resolve_fork env ss opts =
     (case map_of ss (the (co_forkedFrom opts)) of
        None \<Rightarrow> Inl (Source_not_found (the (co_forkedFrom opts)))
      | Some sourceStream \<Rightarrow>
          if softDeleted sourceStream then Inl (Source_soft_deleted (the (co_forkedFrom opts)))
          else if isExpired env sourceStream then Inl (Source_not_found (the (co_forkedFrom opts)))
          else if truthy (co_contentType opts) \<and> trim (the (co_contentType opts)) \<noteq> []
                  \<and> normalizeContentType (co_contentType opts) \<noteq> normalizeContentType (contentType sourceStream)
          then Inl Fork_content_type_mismatch
          else
            (let forkOff = (if truthy (co_forkOffset opts) then the (co_forkOffset opts)
                            else currentOffset sourceStream)
             in if forkOff < ZERO_OFFSET \<or> currentOffset sourceStream < forkOff
                then Inl (Invalid_fork_offset forkOff)
                else if or_zero (co_forkSubOffset opts) > 0 then
                  (case resolveForkSubOffset env ss sourceStream forkOff (or_zero (co_forkSubOffset opts))
                          (normalizeContentType (contentType sourceStream) = ''application/json'') of
                     Inl e \<Rightarrow> Inl e
                   | Inr prefix \<Rightarrow> Inr (sourceStream, forkOff, Some prefix))
                else Inr (sourceStream, forkOff, None)))"

text \<open>The stream object before the initial data (lines 379 to 437); \<open>fork\<close> is the result of
  \<open>resolve_fork\<close>, None for a plain create.\<close>

definition new_stream ::
  "js_env \<Rightarrow> string \<Rightarrow> create_options \<Rightarrow> (stream \<times> string \<times> bytes option) option \<Rightarrow> stream" where
  "new_stream env p opts fork =
     (let ct = (if \<not> truthy (co_contentType opts) \<or> trim (the (co_contentType opts)) = []
                then (case fork of Some (source, _) \<Rightarrow> contentType source | None \<Rightarrow> co_contentType opts)
                else co_contentType opts);
          (ttl, expires) = (case fork of
              Some (source, _) \<Rightarrow> resolveForkExpiry opts source
            | None \<Rightarrow> (co_ttlSeconds opts, co_expiresAt opts));
          base = (case fork of Some (_, forkOff, _) \<Rightarrow> forkOff | None \<Rightarrow> ZERO_OFFSET);
          s = \<lparr>s_path = p, contentType = ct, messages = [], currentOffset = base, lastSeq = None,
               ttlSeconds = ttl, expiresAt = expires, createdAt = now env, lastAccessedAt = now env,
               producers = [], closed = (co_closed opts = Some True), closedBy = None,
               forkedFrom = (if fork = None then None else co_forkedFrom opts),
               forkOffset = map_option (\<lambda>(_, forkOff, _). forkOff) fork,
               forkSubOffset = None, refCount = 0, softDeleted = False\<rparr>
      in case fork of
           Some (_, _, Some prefix) \<Rightarrow>
             if prefix = [] then s
             else (let newOffset = advance_offset (currentOffset s) (length prefix)
                   in s\<lparr>messages := [\<lparr>m_data = prefix, m_offset = newOffset, m_timestamp = now env\<rparr>],
                        currentOffset := newOffset, forkSubOffset := co_forkSubOffset opts\<rparr>)
         | _ \<Rightarrow> s)"

text \<open>The rest of the method, once the path is free: take the reference on the source, append the
  initial data (rolling the reference back when that throws) and install the stream.\<close>

definition add_ref :: "string option \<Rightarrow> int \<Rightarrow> store \<Rightarrow> store" where
  "add_ref src d st =
     (case src of
        None \<Rightarrow> st
      | Some q \<Rightarrow> (case map_of (streams st) q of
                     None \<Rightarrow> st
                   | Some s \<Rightarrow> put_stream q (s\<lparr>refCount := refCount s + d\<rparr>) st))"

definition create_new :: "js_env \<Rightarrow> string \<Rightarrow> create_options \<Rightarrow> store \<Rightarrow> stream outcome \<times> store" where
  "create_new env p opts st =
     (let isFork = truthy (co_forkedFrom opts);
          src = (if isFork then co_forkedFrom opts else None)
      in case (if isFork then (case resolve_fork env (streams st) opts of Inl e \<Rightarrow> Inl e | Inr f \<Rightarrow> Inr (Some f))
               else Inr None) of
           Inl e \<Rightarrow> (Inl e, st)
         | Inr fork \<Rightarrow>
             (let st1 = add_ref src 1 st;
                  stream = new_stream env p opts fork
              in case co_initialData opts of
                   None \<Rightarrow> (Inr stream, put_stream p stream st1)
                 | Some data \<Rightarrow>
                     if data = [] then (Inr stream, put_stream p stream st1)
                     else (case appendToStream env stream data True of
                             Inl e \<Rightarrow> (Inl e, add_ref src (-1) st1)
                           | Inr (_, stream') \<Rightarrow> (Inr stream', put_stream p stream' st1))))"

definition create :: "js_env \<Rightarrow> string \<Rightarrow> create_options \<Rightarrow> store \<Rightarrow> stream outcome \<times> store" where
  "create env p opts st =
     (case map_of (streams st) p of
        None \<Rightarrow> create_new env p opts st
      | Some existingRaw \<Rightarrow>
          if isExpired env existingRaw then
            create_new env p opts
              (cancelLongPollsForStream p (st\<lparr>streams := AList.delete p (streams st)\<rparr>))
          else if softDeleted existingRaw then (Inl (Active_forks p), st)
          else if config_matches opts existingRaw then (Inr existingRaw, st)
          else (Inl (Config_mismatch p), st))"

end
