(* ===== verification/Store_Content.thy ===== *)
theory Store_Content
  imports Store_Write
begin

text \<open>
  The abstract content of a stream and the refinement of the read path: whatever the chain of
  forks, \<^verbatim>\<open>read\<close> returns the messages of the logical content after the requested offset. The
  relation \<open>content\<close> is the specification of a fork in the protocol: the source's content up to the
  fork offset, then the fork's own messages.
\<close>

section \<open>Well-formed streams\<close>

definition base_offset :: "stream \<Rightarrow> string" where
  "base_offset s = (case forkOffset s of None \<Rightarrow> ZERO_OFFSET | Some fo \<Rightarrow> fo)"

text \<open>The offsets of a stream's own messages are canonical and increase strictly from its base, and
  the tail is the last of them.\<close>

definition offsets_ok :: "stream \<Rightarrow> bool" where
  "offsets_ok s \<longleftrightarrow>
     canonical (base_offset s) \<and> list_all (\<lambda>m. canonical (m_offset m)) (messages s)
     \<and> sorted_wrt (<) (base_offset s # map m_offset (messages s))
     \<and> currentOffset s = last (base_offset s # map m_offset (messages s))"

definition stream_ok :: "string \<Rightarrow> stream \<Rightarrow> bool" where
  "stream_ok p s \<longleftrightarrow>
     s_path s = p \<and> offsets_ok s \<and> (forkedFrom s = None \<longleftrightarrow> forkOffset s = None)
     \<and> forkedFrom s \<noteq> Some [] \<and> distinct (map fst (producers s))"

definition streams_ok :: "(string, stream) jsmap \<Rightarrow> bool" where
  "streams_ok ss \<longleftrightarrow> list_all (\<lambda>(p, s). stream_ok p s) ss"

lemma streams_okD: "streams_ok ss \<Longrightarrow> map_of ss p = Some s \<Longrightarrow> stream_ok p s"
  by (auto simp: streams_ok_def list_all_iff dest!: map_of_SomeD)

lemma canonical_offset_pos: "canonical s \<Longrightarrow> s \<noteq> []"
  by (auto simp: canonical_def off_eq)

lemma canonical_not_start: "canonical s \<Longrightarrow> s \<noteq> ''-1''"
  by (auto simp: canonical_def off_eq numeral_eq_Suc)

lemma offsets_ok_sorted: "offsets_ok s \<Longrightarrow> sorted_wrt (<) (map m_offset (messages s))"
  by (simp add: offsets_ok_def)

lemma offsets_ok_base: "offsets_ok s \<Longrightarrow> m \<in> set (messages s) \<Longrightarrow> base_offset s < m_offset m"
  by (simp add: offsets_ok_def)

lemma sorted_wrt_less_last: "sorted_wrt (<) (x # xs) \<Longrightarrow> (x :: 'a :: order) \<le> last (x # xs)"
  by (induction xs arbitrary: x) (auto intro: less_imp_le)

lemma sorted_last_max: "sorted_wrt (<) xs \<Longrightarrow> x \<in> set xs \<Longrightarrow> (x :: 'a :: order) \<le> last xs"
  by (induction xs) (auto intro: less_imp_le split: if_splits)

lemma offsets_ok_tail: "offsets_ok s \<Longrightarrow> m \<in> set (messages s) \<Longrightarrow> m_offset m \<le> currentOffset s"
  unfolding offsets_ok_def by (metis image_eqI list.set_intros(2) list.set_map sorted_last_max)

lemma offsets_ok_base_tail: "offsets_ok s \<Longrightarrow> base_offset s \<le> currentOffset s"
  unfolding offsets_ok_def by (metis sorted_wrt_less_last)

lemma offsets_ok_tail_canonical: "offsets_ok s \<Longrightarrow> canonical (currentOffset s)"
proof -
  assume ok: "offsets_ok s"
  then have "currentOffset s \<in> set (base_offset s # map m_offset (messages s))"
    by (metis last_in_set list.distinct(1) offsets_ok_def)
  with ok show ?thesis by (auto simp: offsets_ok_def list_all_iff)
qed

section \<open>Reading the own messages\<close>

lemma find_offset_none: "find_offset_from i ms offset = -1 \<longleftrightarrow> (\<forall>m\<in>set ms. m_offset m \<le> offset)"
proof (induction ms arbitrary: i)
  case (Cons m ms)
  then show ?case by (auto simp: not_less)
qed simp

lemma find_offset_drop:
  "sorted_wrt (<) (map m_offset ms) \<Longrightarrow> find_offset_from i ms offset \<noteq> -1 \<Longrightarrow>
     i \<le> nat (find_offset_from i ms offset)
     \<and> drop (nat (find_offset_from i ms offset) - i) ms = filter (\<lambda>m. offset < m_offset m) ms"
proof (induction ms arbitrary: i)
  case (Cons m ms)
  show ?case
  proof (cases "m_offset m > offset")
    case True
    then have "filter (\<lambda>m. offset < m_offset m) ms = ms"
      using Cons.prems by (auto intro!: filter_True intro: less_trans)
    with True show ?thesis by simp
  next
    case False
    with Cons.IH[of "Suc i"] Cons.prems show ?thesis
      by (cases "nat (find_offset_from (Suc i) ms offset)") (auto simp: Suc_diff_le)
  qed
qed simp

lemma readOwnMessages_eq:
  assumes "offsets_ok s"
  shows "readOwnMessages s offset = filter (\<lambda>m. offset < m_offset m) (messages s)"
proof (cases "find_offset_from 0 (messages s) offset = -1")
  case True
  then show ?thesis
    using find_offset_none[of 0 "messages s" offset]
    by (auto simp: readOwnMessages_def findOffsetIndex_def intro!: filter_False[symmetric])
next
  case False
  with find_offset_drop[OF offsets_ok_sorted[OF assms], of 0 offset] show ?thesis
    by (simp add: readOwnMessages_def findOffsetIndex_def)
qed

text \<open>The messages strictly after an offset and up to a cap, when these are given.\<close>

definition in_range :: "string option \<Rightarrow> string option \<Rightarrow> stream_message \<Rightarrow> bool" where
  "in_range offset cap m \<longleftrightarrow> (truthy offset \<longrightarrow> the offset < m_offset m) \<and> \<not> js_less cap (Some (m_offset m))"

lemma own_capped_eq:
  "sorted_wrt (<) (map m_offset ms) \<Longrightarrow> own_capped offset (Some cap) ms = filter (in_range offset (Some cap)) ms"
proof (induction ms)
  case (Cons m ms)
  have "filter (in_range offset (Some cap)) ms = []" if "cap < m_offset m"
    using Cons.prems that by (auto simp: in_range_def intro!: filter_False) (meson less_trans)+
  moreover have "in_range offset (Some cap) m \<longleftrightarrow>
      \<not> (truthy offset \<and> m_offset m \<le> the offset) \<and> \<not> cap < m_offset m"
    by (auto simp: in_range_def)
  ultimately show ?case using Cons by auto
qed simp

section \<open>The logical content\<close>

inductive content :: "(string, stream) jsmap \<Rightarrow> string \<Rightarrow> stream_message list \<Rightarrow> bool"
  for ss :: "(string, stream) jsmap" where
  content_root: "map_of ss p = Some s \<Longrightarrow> forkedFrom s = None \<Longrightarrow> content ss p (messages s)"
| content_fork: "map_of ss p = Some s \<Longrightarrow> forkedFrom s = Some q \<Longrightarrow> forkOffset s = Some fo \<Longrightarrow>
    content ss q ms \<Longrightarrow> content ss p (filter (\<lambda>m. m_offset m \<le> fo) ms @ messages s)"

inductive_cases contentE: "content ss p ms"

lemma content_present: "content ss p ms \<Longrightarrow> \<exists>s. map_of ss p = Some s"
  by (auto elim: contentE)

lemma content_unique: "content ss p ms \<Longrightarrow> content ss p ms' \<Longrightarrow> ms' = ms"
proof (induction arbitrary: ms' rule: content.induct)
  case (content_root p s)
  from content_root.prems content_root.hyps show ?case by (cases rule: content.cases) auto
next
  case (content_fork p s q fo ms)
  from content_fork.prems obtain ms0 where "ms' = filter (\<lambda>m. m_offset m \<le> fo) ms0 @ messages s"
    "content ss q ms0"
    using content_fork.hyps by (cases rule: content.cases) auto
  with content_fork.IH show ?case by blast
qed

lemma filter_cap_min:
  "filter (in_range offset (if js_less (Some fo) (Some cap) then Some fo else Some cap)) ms =
     filter (in_range offset (Some cap)) (filter (\<lambda>m. m_offset m \<le> fo) ms)"
  by (induction ms) (auto simp: in_range_def)

lemma filter_before_offset:
  "truthy offset \<Longrightarrow> fo \<le> the offset \<Longrightarrow> filter (in_range offset cap) (filter (\<lambda>m. m_offset m \<le> fo) ms) = []"
  by (induction ms) (auto simp: in_range_def)

lemma readForkedMessages_eq:
  "content ss p ms \<Longrightarrow> streams_ok ss \<Longrightarrow>
     readForkedMessages ss p offset (Some cap) = Some (filter (in_range offset (Some cap)) ms)"
proof (induction arbitrary: cap rule: content.induct)
  case (content_root p s)
  then show ?case
    using streams_okD[of ss p s]
    by (subst readForkedMessages.simps)
      (simp add: own_capped_eq offsets_ok_sorted stream_ok_def)
next
  case (content_fork p s q fo ms)
  have s: "stream_ok p s" using content_fork streams_okD by blast
  have q: "q \<noteq> []" using s content_fork by (auto simp: stream_ok_def)
  have own: "own_capped offset (Some cap) (messages s) = filter (in_range offset (Some cap)) (messages s)"
    using s by (simp add: own_capped_eq offsets_ok_sorted stream_ok_def)
  have inh: "readForkedMessages ss q offset (if js_less (Some fo) (Some cap) then Some fo else Some cap)
      = Some (filter (in_range offset (Some cap)) (filter (\<lambda>m. m_offset m \<le> fo) ms))"
    using content_fork.IH[OF content_fork.prems, of fo] content_fork.IH[OF content_fork.prems, of cap]
      filter_cap_min[of offset fo cap ms] by (auto split: if_splits)
  have skip: "filter (in_range offset (Some cap)) (filter (\<lambda>m. m_offset m \<le> fo) ms) = []"
    if "\<not> (\<not> truthy offset \<or> js_less offset (Some fo))"
    by (rule filter_before_offset) (use that in \<open>auto simp: truthy_def\<close>)
  show ?case
    by (subst readForkedMessages.simps)
      (use content_fork(1-3) q own inh skip in \<open>auto simp del: filter_filter\<close>)
qed

section \<open>Reads are suffixes of the content\<close>

definition after_offset :: "string option \<Rightarrow> stream_message list \<Rightarrow> stream_message list" where
  "after_offset offset ms =
     (if \<not> truthy offset \<or> offset = Some ''-1'' then ms else filter (\<lambda>m. the offset < m_offset m) ms)"

lemma in_range_None: "in_range None (Some cap) = (\<lambda>m. m_offset m \<le> cap)"
  by (auto simp: in_range_def not_less)

lemma in_range_Some: "o' \<noteq> [] \<Longrightarrow> in_range (Some o') (Some cap) = (\<lambda>m. o' < m_offset m \<and> m_offset m \<le> cap)"
  by (auto simp: in_range_def not_less)

lemma read_messages_eq:
  assumes "streams_ok ss" "map_of ss p = Some s" "content ss p ms"
  shows "read_messages ss s offset = Inr \<lparr>rr_messages = after_offset offset ms, rr_upToDate = True\<rparr>"
  using assms(3)
proof (cases rule: content.cases)
  case (content_root s')
  have ok: "offsets_ok s" using assms streams_okD by (auto simp: stream_ok_def)
  have "drop (nat (findOffsetIndex s x)) (messages s) = filter (\<lambda>m. x < m_offset m) (messages s)"
    if "findOffsetIndex s x \<noteq> -1" for x
    using that readOwnMessages_eq[OF ok, of x] by (simp add: readOwnMessages_def)
  moreover have "filter (\<lambda>m. x < m_offset m) (messages s) = []" if "findOffsetIndex s x = -1" for x
    using that readOwnMessages_eq[OF ok, of x] by (simp add: readOwnMessages_def)
  ultimately show ?thesis using content_root assms by (auto simp: read_messages_def after_offset_def Let_def)
next
  case (content_fork s' q fo qs)
  have s: "s' = s" and ok: "stream_ok p s" using content_fork assms streams_okD by auto
  note inh = readForkedMessages_eq[OF content_fork(5) assms(1), of _ fo]
  have q: "truthy (Some q)" using ok content_fork s by (auto simp: stream_ok_def)
  have own: "readOwnMessages s x = filter (\<lambda>m. x < m_offset m) (messages s)" for x
    using ok readOwnMessages_eq by (simp add: stream_ok_def)
  have skip: "filter (\<lambda>m. m_offset m \<le> fo \<and> x < m_offset m) qs = []" if "\<not> x < fo" for x
    using that by (auto simp: filter_empty_conv)
  show ?thesis
  proof (cases "\<not> truthy offset \<or> offset = Some ''-1''")
    case True
    then show ?thesis using content_fork(1-4) s q own inh
      by (auto simp: read_messages_def after_offset_def chain_result_def in_range_None)
  next
    case False
    then obtain x where x: "offset = Some x" "x \<noteq> []" "x \<noteq> ''-1''" by (cases offset) auto
    have "filter (in_range (Some x) (Some fo)) qs = filter (\<lambda>m. m_offset m \<le> fo \<and> x < m_offset m) qs"
      using x by (auto simp: in_range_Some intro: filter_cong)
    with x skip[of x] content_fork(1-4) s q own inh show ?thesis
      by (auto simp: read_messages_def readFromFork_def after_offset_def chain_result_def)
  qed
qed

lemma read_eq:
  assumes "streams_ok (streams st)" "map_of (streams st) p = Some s" "content (streams st) p ms"
    "\<not> isExpired env s"
  shows "read env p offset st = (Inr \<lparr>rr_messages = after_offset offset ms, rr_upToDate = True\<rparr>, st)"
  using assms read_messages_eq[OF assms(1-3)] by (simp add: read_def getIfNotExpired_def)

end
