(* ===== verification/Store_Inv.thy ===== *)
theory Store_Inv
  imports Store_Content
begin

text \<open>
  The invariant of the store and its preservation by the elementary changes the operations are made
  of: changing a stream in place, deleting one with the cascade to its sources, adding one. The
  reference count of a stream bounds the number of its forks (and equals it with the flag
  \<open>exact\<close>), a fork's source is present and its tail is not before the fork offset, every chain of
  sources ends, and a soft-deleted stream still has a fork. A stream of JSON type holds fragments.
\<close>

section \<open>The invariant\<close>

definition is_json :: "stream \<Rightarrow> bool" where
  "is_json s \<longleftrightarrow> normalizeContentType (contentType s) = ''application/json''"

definition json_stream :: "(utext \<Rightarrow> utext) \<Rightarrow> stream \<Rightarrow> bool" where
  "json_stream nc s \<longleftrightarrow> (is_json s \<longrightarrow> (\<forall>m\<in>set (messages s). \<exists>vs. holds_values nc m vs))"

definition forks_of :: "string \<Rightarrow> (string, stream) jsmap \<Rightarrow> nat" where
  "forks_of q ss = count_vals (\<lambda>s. forkedFrom s = Some q) ss"

definition links_ok :: "(string, stream) jsmap \<Rightarrow> bool" where
  "links_ok ss \<longleftrightarrow> (\<forall>p s q. map_of ss p = Some s \<longrightarrow> forkedFrom s = Some q \<longrightarrow>
     (\<exists>src. map_of ss q = Some src \<and> is_json src = is_json s \<and> the (forkOffset s) \<le> currentOffset src))"

definition grounded :: "(string, stream) jsmap \<Rightarrow> bool" where
  "grounded ss \<longleftrightarrow> (\<forall>p s. map_of ss p = Some s \<longrightarrow> (\<exists>ms. content ss p ms))"

text \<open>The streams of \<open>X\<close> are those whose last fork has just gone: they may be soft-deleted with no
  reference until the cascade reaches them.\<close>

definition refs_ok :: "bool \<Rightarrow> string set \<Rightarrow> (string, stream) jsmap \<Rightarrow> bool" where
  "refs_ok exact X ss \<longleftrightarrow> (\<forall>q s. map_of ss q = Some s \<longrightarrow>
     int (forks_of q ss) \<le> refCount s \<and> (exact \<longrightarrow> refCount s = int (forks_of q ss))
     \<and> (softDeleted s \<and> q \<notin> X \<longrightarrow> refCount s > 0))"

definition inv_upto :: "bool \<Rightarrow> (utext \<Rightarrow> utext) \<Rightarrow> string set \<Rightarrow> (string, stream) jsmap \<Rightarrow> bool" where
  "inv_upto exact nc X ss \<longleftrightarrow>
     distinct (map fst ss) \<and> streams_ok ss \<and> (\<forall>p s. map_of ss p = Some s \<longrightarrow> json_stream nc s)
     \<and> links_ok ss \<and> grounded ss \<and> refs_ok exact X ss"

definition store_inv :: "bool \<Rightarrow> (utext \<Rightarrow> utext) \<Rightarrow> store \<Rightarrow> bool" where
  "store_inv exact nc st \<longleftrightarrow> inv_upto exact nc {} (streams st)"

lemma inv_uptoD:
  assumes "inv_upto exact nc X ss"
  shows "distinct (map fst ss)" "streams_ok ss" "map_of ss p = Some s \<Longrightarrow> json_stream nc s"
    "links_ok ss" "grounded ss" "refs_ok exact X ss"
  using assms by (auto simp: inv_upto_def)

lemma streams_ok_iff: "distinct (map fst ss) \<Longrightarrow> streams_ok ss \<longleftrightarrow> (\<forall>p s. map_of ss p = Some s \<longrightarrow> stream_ok p s)"
  by (auto simp: streams_ok_def list_all_iff dest: map_of_SomeD)

lemma store_inv_empty: "store_inv exact nc empty_store"
  by (simp add: store_inv_def empty_store_def inv_upto_def streams_ok_def links_ok_def grounded_def refs_ok_def)

section \<open>Content under changes of the map\<close>

text \<open>Extending one stream: every other content is untouched, whatever forks it has.\<close>

lemma content_extend:
  assumes p: "map_of ss p = Some s" and links: "links_ok ss"
    and s': "forkedFrom s' = forkedFrom s" "forkOffset s' = forkOffset s" "messages s' = messages s @ new"
    and new: "\<forall>m\<in>set new. currentOffset s < m_offset m"
  shows "content ss q ms \<Longrightarrow> content (AList.update p s' ss) q (if q = p then ms @ new else ms)"
proof (induction rule: content.induct)
  case (content_root q t)
  show ?case
  proof (cases "q = p")
    case True
    then show ?thesis using content_root p s' content.content_root[of "AList.update p s' ss" p s'] by simp
  next
    case False
    then show ?thesis using content_root content.content_root[of "AList.update p s' ss" q t] by simp
  qed
next
  case (content_fork q t r fo ms)
  obtain src where src: "map_of ss r = Some src" "fo \<le> currentOffset src"
    using links content_fork unfolding links_ok_def by (metis option.sel)
  have flt: "filter (\<lambda>m. m_offset m \<le> fo) (if r = p then ms @ new else ms) = filter (\<lambda>m. m_offset m \<le> fo) ms"
    using src p new by (auto simp: filter_empty_conv)
  let ?t = "if q = p then s' else t"
  have t: "forkedFrom ?t = Some r" "forkOffset ?t = Some fo"
    "messages ?t = messages t @ (if q = p then new else [])"
    using content_fork(1-3) p s' by auto
  have "content (AList.update p s' ss) q
      (filter (\<lambda>m. m_offset m \<le> fo) (if r = p then ms @ new else ms) @ messages ?t)"
    by (rule content.content_fork[OF _ t(1,2) content_fork.IH]) (use content_fork(1) in simp)
  then show ?case unfolding flt t(3) by (cases "q = p") simp_all
qed

lemma content_same:
  assumes "map_of ss p = Some s" "links_ok ss" "content ss q ms"
    and "forkedFrom s' = forkedFrom s" "forkOffset s' = forkOffset s" "messages s' = messages s"
  shows "content (AList.update p s' ss) q ms"
  using content_extend[OF assms(1,2,4,5) _ _ assms(3), of "[]"] assms(6) by (cases "q = p") simp_all

text \<open>Removing a stream nobody was forked from, or adding one, touches no other content.\<close>

lemma content_agree:
  assumes "\<forall>q s. q \<in> Q \<longrightarrow> map_of ss q = Some s \<longrightarrow>
      map_of ss' q = Some s \<and> (\<forall>r. forkedFrom s = Some r \<longrightarrow> r \<in> Q)"
  shows "content ss q ms \<Longrightarrow> q \<in> Q \<Longrightarrow> content ss' q ms"
proof (induction rule: content.induct)
  case (content_root p s)
  then show ?case using assms content.content_root by blast
next
  case (content_fork p s r fo ms)
  then show ?case using assms content.content_fork by blast
qed

lemma no_forks: "distinct (map fst ss) \<Longrightarrow> forks_of p ss = 0 \<longleftrightarrow> (\<forall>q s. map_of ss q = Some s \<longrightarrow> forkedFrom s \<noteq> Some p)"
  by (simp add: forks_of_def count_vals_zero)

lemma content_delete:
  assumes "distinct (map fst ss)" "forks_of p ss = 0" "content ss q ms" "q \<noteq> p"
  shows "content (AList.delete p ss) q ms"
  by (rule content_agree[where Q = "- {p}", OF _ assms(3)]) (use assms in \<open>auto simp: no_forks\<close>)

lemma content_insert:
  assumes "map_of ss p = None" "links_ok ss" "content ss q ms"
  shows "content (AList.update p s ss) q ms"
proof -
  have "q \<noteq> p" using content_present[OF assms(3)] assms(1) by auto
  moreover have "forkedFrom t \<noteq> Some p" if "map_of ss r = Some t" for r t
    using that assms(1,2) unfolding links_ok_def by fastforce
  ultimately show ?thesis by (intro content_agree[where Q = "- {p}", OF _ assms(3)]) auto
qed

section \<open>Changing a stream in place\<close>

lemma forks_of_update:
  "map_of ss p = Some s \<Longrightarrow> distinct (map fst ss) \<Longrightarrow> forkedFrom s' = forkedFrom s \<Longrightarrow>
     forks_of q (AList.update p s' ss) = forks_of q ss"
  using count_vals_update_present[of ss p s "\<lambda>s. forkedFrom s = Some q" s'] by (auto simp: forks_of_def split: if_splits)

text \<open>What an operation may do to a live stream: extend its messages past the tail and change the
  fields no other stream depends on.\<close>

definition in_place :: "stream \<Rightarrow> stream \<Rightarrow> stream_message list \<Rightarrow> bool" where
  "in_place s s' new \<longleftrightarrow>
     forkedFrom s' = forkedFrom s \<and> forkOffset s' = forkOffset s \<and> contentType s' = contentType s
     \<and> refCount s' = refCount s \<and> messages s' = messages s @ new
     \<and> (\<forall>m\<in>set new. currentOffset s < m_offset m) \<and> currentOffset s \<le> currentOffset s'"

lemma links_ok_update:
  assumes "links_ok ss" "map_of ss p = Some s"
    and "forkedFrom s' = forkedFrom s" "forkOffset s' = forkOffset s" "is_json s' = is_json s"
    and "currentOffset s \<le> currentOffset s'"
  shows "links_ok (AList.update p s' ss)"
  unfolding links_ok_def
proof (intro allI impI)
  fix q t r assume q: "map_of (AList.update p s' ss) q = Some t" and r: "forkedFrom t = Some r"
  let ?t = "if q = p then s else t"
  have "map_of ss q = Some ?t" "forkedFrom ?t = Some r" "is_json ?t = is_json t" "forkOffset ?t = forkOffset t"
    using q r assms by (auto split: if_splits)
  then obtain src where src: "map_of ss r = Some src" "is_json src = is_json t" "the (forkOffset t) \<le> currentOffset src"
    using assms(1) unfolding links_ok_def by metis
  show "\<exists>src. map_of (AList.update p s' ss) r = Some src \<and> is_json src = is_json t
          \<and> the (forkOffset t) \<le> currentOffset src"
    by (rule exI[of _ "if r = p then s' else src"]) (use src assms in \<open>auto intro: order_trans\<close>)
qed

lemma links_ok_in_place:
  "links_ok ss \<Longrightarrow> map_of ss p = Some s \<Longrightarrow> in_place s s' new \<Longrightarrow> links_ok (AList.update p s' ss)"
  by (rule links_ok_update) (auto simp: in_place_def is_json_def)

lemma links_ok_refCount:
  "links_ok ss \<Longrightarrow> map_of ss p = Some s \<Longrightarrow> links_ok (AList.update p (s\<lparr>refCount := n\<rparr>) ss)"
  by (rule links_ok_update) (auto simp: is_json_def)

lemma grounded_in_place:
  assumes "grounded ss" "links_ok ss" "map_of ss p = Some s" "in_place s s' new"
  shows "grounded (AList.update p s' ss)"
  unfolding grounded_def
proof (intro allI impI)
  fix q t assume q: "map_of (AList.update p s' ss) q = Some t"
  then obtain u where "map_of ss q = Some u" using assms(3) by (cases "q = p") auto
  then obtain ms where "content ss q ms" using assms(1) unfolding grounded_def by blast
  from content_extend[OF assms(3,2) _ _ _ _ this, of s' new] assms(4)
  show "\<exists>ms. content (AList.update p s' ss) q ms" unfolding in_place_def by blast
qed

lemma inv_in_place:
  assumes inv: "inv_upto exact nc {} ss" and p: "map_of ss p = Some s"
    and s': "in_place s s' new" "stream_ok p s'" "json_stream nc s'"
    and sd: "softDeleted s' \<Longrightarrow> softDeleted s \<or> refCount s > 0"
  shows "inv_upto exact nc {} (AList.update p s' ss)"
proof -
  note i = inv_uptoD[OF inv]
  have d: "distinct (map fst (AList.update p s' ss))" using i(1) by simp
  have ff: "forkedFrom s' = forkedFrom s" using s' by (simp add: in_place_def)
  have "refs_ok exact {} (AList.update p s' ss)"
    using i(6) s'(1) sd p unfolding refs_ok_def
    by (auto simp: forks_of_update[OF p i(1) ff] in_place_def)
  moreover have "streams_ok (AList.update p s' ss)"
    using i(1,2) s'(2) by (simp add: streams_ok_iff)
  ultimately show ?thesis
    using d i(3) s'(3) links_ok_in_place[OF i(4) p s'(1)] grounded_in_place[OF i(5,4) p s'(1)]
    by (simp add: inv_upto_def)
qed

section \<open>Deleting with the cascade\<close>

lemma streams_ok_delete: "streams_ok ss \<Longrightarrow> streams_ok (AList.delete p ss)"
  by (auto simp: streams_ok_def list_all_iff AList.delete_eq)

lemma forks_of_delete:
  "map_of ss p = Some s \<Longrightarrow> distinct (map fst ss) \<Longrightarrow>
     int (forks_of q (AList.delete p ss)) = int (forks_of q ss) - (if forkedFrom s = Some q then 1 else 0)"
  using count_vals_delete[of ss p s "\<lambda>s. forkedFrom s = Some q"] by (auto simp: forks_of_def split: if_splits)

text \<open>The map after the deletion of a stream without forks and the decrement of its source.\<close>

definition drop_stream :: "string \<Rightarrow> stream \<Rightarrow> (string, stream) jsmap \<Rightarrow> (string, stream) jsmap" where
  "drop_stream p s ss =
     (case forkedFrom s of
        None \<Rightarrow> AList.delete p ss
      | Some q \<Rightarrow> (case map_of ss q of
           None \<Rightarrow> AList.delete p ss
         | Some src \<Rightarrow> AList.update q (src\<lparr>refCount := refCount src - 1\<rparr>) (AList.delete p ss)))"

lemma map_of_drop:
  assumes "\<forall>q. forkedFrom s = Some q \<longrightarrow> q \<noteq> p"
  shows "map_of (drop_stream p s ss) q =
    (if q = p then None
     else map_option (\<lambda>t. if forkedFrom s = Some q then t\<lparr>refCount := refCount t - 1\<rparr> else t) (map_of ss q))"
  using assms by (cases "map_of ss q") (auto simp: drop_stream_def split: option.splits)

lemma forks_of_drop:
  assumes "map_of ss p = Some s" "distinct (map fst ss)" "\<forall>q. forkedFrom s = Some q \<longrightarrow> q \<noteq> p"
  shows "int (forks_of q (drop_stream p s ss)) = int (forks_of q ss) - (if forkedFrom s = Some q then 1 else 0)"
proof -
  have "forks_of q (AList.update r (src\<lparr>refCount := n\<rparr>) (AList.delete p ss)) = forks_of q (AList.delete p ss)"
    if "map_of ss r = Some src" "r \<noteq> p" for r src n
    by (rule forks_of_update) (use that assms in auto)
  then show ?thesis using assms forks_of_delete[OF assms(1,2), of q]
    by (auto simp: drop_stream_def split: option.splits)
qed

lemma content_drop:
  assumes "inv_upto exact nc X ss" "map_of ss p = Some s" "forks_of p ss = 0" "content ss q ms" "q \<noteq> p"
  shows "content (drop_stream p s ss) q ms"
proof -
  note i = inv_uptoD[OF assms(1)]
  have del: "content (AList.delete p ss) q ms" by (rule content_delete) (use i assms in auto)
  have lk: "links_ok (AList.delete p ss)"
    using i(4) assms(3) i(1) unfolding links_ok_def by (auto simp: no_forks)
  show ?thesis
  proof (cases "forkedFrom s")
    case (Some r)
    show ?thesis
    proof (cases "map_of ss r")
      case (Some src)
      have "r \<noteq> p" using \<open>forkedFrom s = Some r\<close> i(1) assms(2,3) by (auto simp: no_forks)
      then have "map_of (AList.delete p ss) r = Some src" using Some by simp
      from content_same[OF this lk del, of "src\<lparr>refCount := refCount src - 1\<rparr>"]
      show ?thesis using Some \<open>forkedFrom s = Some r\<close> by (simp add: drop_stream_def)
    qed (use Some del in \<open>simp add: drop_stream_def\<close>)
  qed (use del in \<open>simp add: drop_stream_def\<close>)
qed

lemma drop_source:
  "inv_upto exact nc X ss \<Longrightarrow> map_of ss p = Some s \<Longrightarrow> forks_of p ss = 0 \<Longrightarrow> forkedFrom s = Some q \<Longrightarrow>
     q \<noteq> p \<and> q \<noteq> [] \<and> (\<exists>src. map_of ss q = Some src)"
  using inv_uptoD(1,2,4)[of exact nc X ss] streams_okD[of ss p s] unfolding links_ok_def stream_ok_def
  by (fastforce simp: no_forks)

lemma refCount_irrelevant:
  "stream_ok q (u\<lparr>refCount := n\<rparr>) \<longleftrightarrow> stream_ok q u" "json_stream nc (u\<lparr>refCount := n\<rparr>) \<longleftrightarrow> json_stream nc u"
  by (simp_all add: stream_ok_def offsets_ok_def base_offset_def json_stream_def is_json_def)

lemma distinct_drop: "distinct (map fst ss) \<Longrightarrow> distinct (map fst (drop_stream p s ss))"
  by (simp add: drop_stream_def split: option.splits)

lemma inv_drop:
  assumes inv: "inv_upto exact nc {p} ss" and p: "map_of ss p = Some s" and rc: "refCount s = 0"
  shows "inv_upto exact nc (set_option (forkedFrom s)) (drop_stream p s ss)"
proof -
  note i = inv_uptoD[OF inv]
  have nf: "forks_of p ss = 0" using i(6) p rc unfolding refs_ok_def by fastforce
  have ne: "\<forall>q. forkedFrom s = Some q \<longrightarrow> q \<noteq> p" using drop_source[OF inv p nf] by blast
  note m = map_of_drop[OF ne, of ss]
  have old: "\<exists>u. map_of ss q = Some u \<and> q \<noteq> p \<and> t = (if forkedFrom s = Some q then u\<lparr>refCount := refCount u - 1\<rparr> else u)"
    if "map_of (drop_stream p s ss) q = Some t" for q t
    using that by (cases "q = p"; cases "map_of ss q") (simp_all add: m)
  have d: "distinct (map fst (drop_stream p s ss))" using i(1) by (rule distinct_drop)
  have "stream_ok q t \<and> json_stream nc t" if t: "map_of (drop_stream p s ss) q = Some t" for q t
  proof -
    obtain u where "map_of ss q = Some u" and u: "t = u \<or> t = u\<lparr>refCount := refCount u - 1\<rparr>"
      using old[OF t] by metis
    then have "stream_ok q u" "json_stream nc u" using streams_okD[OF i(2)] i(3) by simp_all
    then show ?thesis using u by (auto simp only: refCount_irrelevant)
  qed
  moreover have "links_ok (drop_stream p s ss)" unfolding links_ok_def
  proof (intro allI impI)
    fix q t r assume q: "map_of (drop_stream p s ss) q = Some t" and r: "forkedFrom t = Some r"
    obtain u where u: "map_of ss q = Some u" "forkedFrom u = Some r" "is_json u = is_json t" "forkOffset u = forkOffset t"
      using old[OF q] r by (auto simp: is_json_def split: if_splits)
    then obtain src where "map_of ss r = Some src" "is_json src = is_json t" "the (forkOffset t) \<le> currentOffset src"
      using i(4) unfolding links_ok_def by metis
    moreover have "r \<noteq> p" using nf u i(1) by (auto simp: no_forks)
    ultimately show "\<exists>src. map_of (drop_stream p s ss) r = Some src \<and> is_json src = is_json t
        \<and> the (forkOffset t) \<le> currentOffset src"
      by (auto simp: m is_json_def)
  qed
  moreover have "grounded (drop_stream p s ss)" unfolding grounded_def
  proof (intro allI impI)
    fix q t assume "map_of (drop_stream p s ss) q = Some t"
    from old[OF this] obtain u where "map_of ss q = Some u" "q \<noteq> p" by blast
    then obtain ms where "content ss q ms" using i(5) unfolding grounded_def by blast
    then show "\<exists>ms. content (drop_stream p s ss) q ms" using content_drop[OF inv p nf] \<open>q \<noteq> p\<close> by blast
  qed
  moreover have "refs_ok exact (set_option (forkedFrom s)) (drop_stream p s ss)"
    unfolding refs_ok_def
  proof (intro allI impI, goal_cases)
    case (1 q t)
    obtain u where u: "map_of ss q = Some u" "q \<noteq> p"
        "t = (if forkedFrom s = Some q then u\<lparr>refCount := refCount u - 1\<rparr> else u)" using old[OF 1] by blast
    have "int (forks_of q ss) \<le> refCount u" "exact \<longrightarrow> refCount u = int (forks_of q ss)"
      "softDeleted u \<longrightarrow> 0 < refCount u"
      using i(6) u(1,2) unfolding refs_ok_def by simp_all
    with u(3) show ?case by (cases "forkedFrom s = Some q") (simp_all add: forks_of_drop[OF p i(1) ne])
  qed
  ultimately show ?thesis using d by (simp add: inv_upto_def streams_ok_iff)
qed

lemma inv_upto_weaken:
  "inv_upto exact nc {q} ss \<Longrightarrow> map_of ss q = Some s \<Longrightarrow> softDeleted s \<longrightarrow> refCount s > 0 \<Longrightarrow> inv_upto exact nc {} ss"
  unfolding inv_upto_def refs_ok_def by (metis empty_iff option.inject singletonD)

text \<open>One round of the cascade, on the map alone.\<close>

lemma cascade_step:
  assumes inv: "inv_upto exact nc {p} (streams st)" and p: "map_of (streams st) p = Some s" and rc: "refCount s = 0"
  obtains st' where "streams st' = drop_stream p s (streams st)"
    and "deleteWithCascade p st =
      (case forkedFrom s of
         Some q \<Rightarrow> if softDeleted (the (map_of (streams st') q)) \<and> refCount (the (map_of (streams st') q)) = 0
                   then deleteWithCascade q st' else st'
       | None \<Rightarrow> st')"
proof (cases "forkedFrom s")
  case None
  with p show ?thesis by (intro that) (auto simp: deleteWithCascade.simps[of p] drop_stream_def)
next
  case (Some q)
  let ?ss = "streams st"
  have nf: "forks_of p ?ss = 0" using inv_uptoD(6)[OF inv] p rc unfolding refs_ok_def by fastforce
  obtain src where src: "map_of ?ss q = Some src" "q \<noteq> p" "q \<noteq> []" using drop_source[OF inv p nf Some] by blast
  have "\<not> forks_of q ?ss = 0" using no_forks[OF inv_uptoD(1)[OF inv]] p Some by blast
  then have pos: "refCount src > 0" using inv_uptoD(6)[OF inv] src unfolding refs_ok_def by fastforce
  let ?st = "cancelLongPollsForStream p (st\<lparr>streams := AList.delete p ?ss\<rparr>)
      \<lparr>streams := AList.update q (src\<lparr>refCount := refCount src - 1\<rparr>) (AList.delete p ?ss)\<rparr>"
  show ?thesis
  proof (rule that[of ?st])
    show "streams ?st = drop_stream p s ?ss" using Some src by (simp add: drop_stream_def)
  qed (use p src pos Some in \<open>auto simp: deleteWithCascade.simps[of p st] Let_def\<close>)
qed

lemma inv_cascade:
  "inv_upto exact nc {p} (streams st) \<Longrightarrow> map_of (streams st) p = Some s \<Longrightarrow> refCount s = 0 \<Longrightarrow>
     inv_upto exact nc {} (streams (deleteWithCascade p st))"
proof (induction "length (streams st)" arbitrary: p st s rule: less_induct)
  case less
  obtain st' where st': "streams st' = drop_stream p s (streams st)"
    and eq: "deleteWithCascade p st =
      (case forkedFrom s of
         Some q \<Rightarrow> if softDeleted (the (map_of (streams st') q)) \<and> refCount (the (map_of (streams st') q)) = 0
                   then deleteWithCascade q st' else st'
       | None \<Rightarrow> st')"
    using cascade_step[OF less.prems] by blast
  note inv' = inv_drop[OF less.prems, folded st']
  show ?case
  proof (cases "forkedFrom s")
    case None
    with inv' eq show ?thesis by simp
  next
    case (Some q)
    have nf: "forks_of p (streams st) = 0"
      using inv_uptoD(6)[OF less.prems(1)] less.prems(2,3) unfolding refs_ok_def by fastforce
    obtain src where src: "map_of (streams st) q = Some src" "q \<noteq> p"
      using drop_source[OF less.prems(1,2) nf Some] by blast
    then obtain t where t: "map_of (streams st') q = Some t" using Some by (simp add: st' drop_stream_def)
    have len: "length (streams st') < length (streams st)"
      using less.prems(2) src Some
      by (auto simp: st' drop_stream_def length_update_present length_delete_less)
    have "0 \<le> refCount t" using inv_uptoD(6)[OF inv'] t unfolding refs_ok_def by fastforce
    then show ?thesis
      using less.hyps[OF len, of q t] inv_upto_weaken[of exact nc q _ t] inv' eq Some t by auto
  qed
qed

text \<open>Expiry and deletion leave the streams that survive them as they were, up to the reference
  count and the soft-delete mark.\<close>

definition survive :: "(string, stream) jsmap \<Rightarrow> (string, stream) jsmap \<Rightarrow> bool" where
  "survive ss ss' \<longleftrightarrow> (\<forall>q s'. map_of ss' q = Some s' \<longrightarrow>
     (\<exists>s. map_of ss q = Some s \<and> s' = s\<lparr>refCount := refCount s', softDeleted := softDeleted s'\<rparr>))"

lemma survive_refl [simp, intro]: "survive ss ss"
  by (simp add: survive_def)

lemma survive_trans [trans]:
  assumes "survive ss ss'" "survive ss' ss''"
  shows "survive ss ss''"
  unfolding survive_def
proof (intro allI impI)
  fix q s2 assume "map_of ss'' q = Some s2"
  then obtain s1 where s1: "map_of ss' q = Some s1" "s2 = s1\<lparr>refCount := refCount s2, softDeleted := softDeleted s2\<rparr>"
    using assms(2) unfolding survive_def by blast
  then obtain s where s: "map_of ss q = Some s" "s1 = s\<lparr>refCount := refCount s1, softDeleted := softDeleted s1\<rparr>"
    using assms(1) unfolding survive_def by blast
  have "s2 = s\<lparr>refCount := refCount s2, softDeleted := softDeleted s2\<rparr>"
    by (subst s1(2), subst s(2)) simp
  with s(1) show "\<exists>s. map_of ss q = Some s \<and> s2 = s\<lparr>refCount := refCount s2, softDeleted := softDeleted s2\<rparr>"
    by blast
qed

lemma survive_delete: "survive ss (AList.delete p ss)"
  by (simp add: survive_def)

lemma survive_update:
  "map_of ss p = Some s \<Longrightarrow> survive ss (AList.update p (s\<lparr>refCount := n\<rparr>) ss)"
  "map_of ss p = Some s \<Longrightarrow> survive ss (AList.update p (s\<lparr>softDeleted := b\<rparr>) ss)"
  by (simp_all add: survive_def)

lemma survive_cascade: "survive (streams st) (streams (deleteWithCascade p st))"
proof (rule cascade_rule)
  fix p q parent and st :: store assume q: "map_of (AList.delete p (streams st)) q = Some parent"
  show dec: "survive (streams st) (streams (drop_ref q parent (without p st)))"
    using survive_trans[OF survive_delete survive_update(1)[OF q]] by (simp add: streams_drop_ref)
  fix st' assume "survive (streams (drop_ref q parent (without p st))) (streams st')"
  with dec show "survive (streams st) (streams st')" by (rule survive_trans)
qed (simp_all add: survive_delete)

lemma survive_fields:
  assumes "s' = s\<lparr>refCount := n, softDeleted := b\<rparr>"
  shows "forkedFrom s' = forkedFrom s" "forkOffset s' = forkOffset s" "messages s' = messages s"
    "currentOffset s' = currentOffset s" "contentType s' = contentType s" "closed s' = closed s"
    "producers s' = producers s" "lastSeq s' = lastSeq s" "closedBy s' = closedBy s"
  using assms by simp_all

lemma surviveE:
  assumes "survive ss ss'" "map_of ss' q = Some s'"
  obtains s n b where "map_of ss q = Some s" "s' = s\<lparr>refCount := n, softDeleted := b\<rparr>"
  using assms unfolding survive_def by blast

lemma content_survive:
  assumes "survive ss ss'"
  shows "content ss' q ms \<Longrightarrow> content ss q ms"
proof (induction rule: content.induct)
  case (content_root p s)
  from assms content_root(1) obtain u n b where u: "map_of ss p = Some u" "s = u\<lparr>refCount := n, softDeleted := b\<rparr>"
    by (rule surviveE)
  show ?case using content_root(2) content.content_root[OF u(1)] by (simp add: survive_fields[OF u(2)])
next
  case (content_fork p s r fo ms)
  from assms content_fork(1) obtain u n b where u: "map_of ss p = Some u" "s = u\<lparr>refCount := n, softDeleted := b\<rparr>"
    by (rule surviveE)
  show ?case
    using content_fork(2,3,5) content.content_fork[OF u(1)] by (simp add: survive_fields[OF u(2)])
qed

text \<open>Forks keep their content: whatever is left in the map reads as before.\<close>

lemma survive_content:
  assumes "survive ss ss'" "grounded ss'" "content ss q ms" "map_of ss' q = Some s"
  shows "content ss' q ms"
  using assms content_survive content_unique unfolding grounded_def by metis

section \<open>Adding a stream\<close>

definition add_stream :: "string \<Rightarrow> stream \<Rightarrow> (string, stream) jsmap \<Rightarrow> (string, stream) jsmap" where
  "add_stream p s ss = AList.update p s
     (case forkedFrom s of
        None \<Rightarrow> ss
      | Some q \<Rightarrow> (case map_of ss q of None \<Rightarrow> ss | Some src \<Rightarrow> AList.update q (src\<lparr>refCount := refCount src + 1\<rparr>) ss))"

definition linkable :: "stream \<Rightarrow> (string, stream) jsmap \<Rightarrow> bool" where
  "linkable s ss \<longleftrightarrow> (\<forall>q. forkedFrom s = Some q \<longrightarrow>
     (\<exists>src. map_of ss q = Some src \<and> is_json src = is_json s \<and> the (forkOffset s) \<le> currentOffset src))"

lemma map_of_add:
  assumes "map_of ss p = None" "linkable s ss"
  shows "map_of (add_stream p s ss) q =
    (if q = p then Some s
     else map_option (\<lambda>t. if forkedFrom s = Some q then t\<lparr>refCount := refCount t + 1\<rparr> else t) (map_of ss q))"
  using assms by (cases "map_of ss q") (auto simp: add_stream_def linkable_def split: option.splits)

lemma forks_of_add:
  assumes "map_of ss p = None" "linkable s ss" "distinct (map fst ss)"
  shows "forks_of q (add_stream p s ss) = forks_of q ss + (if forkedFrom s = Some q then 1 else 0)"
proof (cases "forkedFrom s")
  case None
  then show ?thesis using assms by (simp add: add_stream_def forks_of_def count_vals_update_absent)
next
  case (Some r)
  obtain src where src: "map_of ss r = Some src" using Some assms(2) unfolding linkable_def by blast
  then have "r \<noteq> p" using assms(1) by auto
  let ?ss = "AList.update r (src\<lparr>refCount := refCount src + 1\<rparr>) ss"
  have "forks_of q ?ss = forks_of q ss" by (rule forks_of_update[OF src assms(3)]) simp
  moreover have "map_of ?ss p = None" using \<open>r \<noteq> p\<close> assms(1) by simp
  ultimately show ?thesis
    using Some src by (simp add: add_stream_def forks_of_def count_vals_update_absent)
qed

lemma content_add:
  assumes "map_of ss p = None" "linkable s ss" "links_ok ss" "content ss q ms"
  shows "content (add_stream p s ss) q ms"
proof (cases "forkedFrom s")
  case None
  then show ?thesis using content_insert[OF assms(1,3,4)] by (simp add: add_stream_def)
next
  case (Some r)
  obtain src where src: "map_of ss r = Some src" using Some assms(2) unfolding linkable_def by blast
  let ?src = "src\<lparr>refCount := refCount src + 1\<rparr>"
  let ?ss = "AList.update r ?src ss"
  have "links_ok ?ss" by (rule links_ok_refCount) (use assms src in auto)
  moreover have "map_of ?ss p = None" using src assms(1) by auto
  moreover have "content ?ss q ms" using content_same[OF src assms(3,4), of ?src] by simp
  ultimately show ?thesis using content_insert[of ?ss p] Some src by (simp add: add_stream_def)
qed

lemma content_new:
  assumes "map_of ss p = None" "linkable s ss" "links_ok ss" "stream_ok p s"
  shows "forkedFrom s = None \<Longrightarrow> content (add_stream p s ss) p (messages s)"
    and "forkedFrom s = Some q \<Longrightarrow> content ss q ms \<Longrightarrow>
      content (add_stream p s ss) p (filter (\<lambda>m. m_offset m \<le> the (forkOffset s)) ms @ messages s)"
proof -
  have p: "map_of (add_stream p s ss) p = Some s" by (simp add: map_of_add[OF assms(1,2)])
  then show "forkedFrom s = None \<Longrightarrow> content (add_stream p s ss) p (messages s)" by (rule content_root)
  assume q: "forkedFrom s = Some q" and "content ss q ms"
  then have "content (add_stream p s ss) q ms" using content_add assms by blast
  moreover obtain fo where "forkOffset s = Some fo" using q assms(4) by (auto simp: stream_ok_def)
  ultimately show "content (add_stream p s ss) p (filter (\<lambda>m. m_offset m \<le> the (forkOffset s)) ms @ messages s)"
    using content_fork[OF p q] by simp
qed

lemma add_cases:
  assumes "map_of ss p = None" "linkable s ss" "map_of (add_stream p s ss) q = Some t"
  obtains "q = p" "t = s"
  | u where "q \<noteq> p" "map_of ss q = Some u" "t = (if forkedFrom s = Some q then u\<lparr>refCount := refCount u + 1\<rparr> else u)"
  using assms(3) by (cases "q = p"; cases "map_of ss q") (auto simp: map_of_add[OF assms(1,2)])

lemma links_ok_add:
  assumes p: "map_of ss p = None" and link: "linkable s ss" and links: "links_ok ss"
  shows "links_ok (add_stream p s ss)"
  unfolding links_ok_def
proof (intro allI impI)
  fix q t r assume q: "map_of (add_stream p s ss) q = Some t" and r: "forkedFrom t = Some r"
  from p link q have "\<exists>src. map_of ss r = Some src \<and> is_json src = is_json t \<and> the (forkOffset t) \<le> currentOffset src"
  proof (cases rule: add_cases)
    case 1
    then show ?thesis using r link by (simp add: linkable_def)
  next
    case (2 u)
    then have "forkedFrom u = Some r" "is_json u = is_json t" "forkOffset u = forkOffset t"
      using r by (auto simp: is_json_def split: if_splits)
    then show ?thesis using 2(2) links unfolding links_ok_def by metis
  qed
  then obtain src where "map_of ss r = Some src" "is_json src = is_json t" "the (forkOffset t) \<le> currentOffset src"
    by blast
  then show "\<exists>src. map_of (add_stream p s ss) r = Some src \<and> is_json src = is_json t
      \<and> the (forkOffset t) \<le> currentOffset src"
    using p by (intro exI[of _ "if forkedFrom s = Some r then src\<lparr>refCount := refCount src + 1\<rparr> else src"])
      (auto simp: map_of_add[OF p link] is_json_def)
qed

lemma grounded_add:
  assumes p: "map_of ss p = None" and link: "linkable s ss" and links: "links_ok ss" and g: "grounded ss"
    and s: "stream_ok p s"
  shows "grounded (add_stream p s ss)"
  unfolding grounded_def
proof (intro allI impI)
  fix q t assume "map_of (add_stream p s ss) q = Some t"
  with p link show "\<exists>ms. content (add_stream p s ss) q ms"
  proof (cases rule: add_cases)
    case 1
    then show ?thesis using content_new[OF p link links s] g link unfolding linkable_def grounded_def
      by (cases "forkedFrom s") blast+
  next
    case (2 u)
    then show ?thesis using g content_add[OF p link links] unfolding grounded_def by blast
  qed
qed

lemma refs_ok_add:
  assumes p: "map_of ss p = None" and link: "linkable s ss" and links: "links_ok ss" and d: "distinct (map fst ss)"
    and s: "refCount s = 0" "\<not> softDeleted s" and refs: "refs_ok exact {} ss"
  shows "refs_ok exact {} (add_stream p s ss)"
  unfolding refs_ok_def
proof (intro allI impI, goal_cases)
  case (1 q t)
  note f = forks_of_add[OF p link d, of q]
  from p link 1 show ?case
  proof (cases rule: add_cases)
    case 1
    have "forks_of p ss = 0" using d links p unfolding links_ok_def by (fastforce simp: no_forks)
    moreover have "forkedFrom s \<noteq> Some p" using link p unfolding linkable_def by auto
    ultimately show ?thesis using 1 s f by simp
  next
    case (2 u)
    have "int (forks_of q ss) \<le> refCount u" "exact \<longrightarrow> refCount u = int (forks_of q ss)"
      "softDeleted u \<longrightarrow> 0 < refCount u"
      using refs 2(2) unfolding refs_ok_def by simp_all
    with 2(3) f show ?thesis by (cases "forkedFrom s = Some q") simp_all
  qed
qed

lemma inv_add:
  assumes inv: "inv_upto exact nc {} ss" and p: "map_of ss p = None" and link: "linkable s ss"
    and s: "stream_ok p s" "json_stream nc s" "refCount s = 0" "\<not> softDeleted s"
  shows "inv_upto exact nc {} (add_stream p s ss)"
proof -
  note i = inv_uptoD[OF inv]
  have d: "distinct (map fst (add_stream p s ss))"
    using i(1) by (auto simp: add_stream_def split: option.splits)
  have "stream_ok q t \<and> json_stream nc t" if t: "map_of (add_stream p s ss) q = Some t" for q t
    using p link t
  proof (cases rule: add_cases)
    case (2 u)
    then have "stream_ok q u" "json_stream nc u" using streams_okD[OF i(2)] i(3) by simp_all
    then show ?thesis using 2(3) by (auto simp only: refCount_irrelevant split: if_splits)
  qed (use s in simp)
  with d show ?thesis
    using links_ok_add[OF p link i(4)] grounded_add[OF p link i(4,5) s(1)] refs_ok_add[OF p link i(4,1) s(3,4) i(6)]
    by (simp add: inv_upto_def streams_ok_iff)
qed

end
