(* ===== verification/Store_Ops.thy ===== *)
theory Store_Ops
  imports Store_Inv
begin

text \<open>
  Every operation of the store keeps the invariant. Expiry, deletion, reads and the wake-up of
  readers only drop streams or mark them (relation \<open>quiet\<close>); an accepted append, a close and a
  create change exactly one stream, and the lemmas below say how.
\<close>

section \<open>Quiet operations\<close>

definition quiet :: "bool \<Rightarrow> (utext \<Rightarrow> utext) \<Rightarrow> store \<Rightarrow> store \<Rightarrow> bool" where
  "quiet exact nc st st' \<longleftrightarrow>
     survive (streams st) (streams st') \<and> (store_inv exact nc st \<longrightarrow> store_inv exact nc st')"

lemma quiet_refl [simp, intro]: "streams st' = streams st \<Longrightarrow> quiet exact nc st st'"
  by (simp add: quiet_def store_inv_def)

lemma quiet_trans [trans]: "quiet exact nc st st' \<Longrightarrow> quiet exact nc st' st'' \<Longrightarrow> quiet exact nc st st''"
  by (auto simp: quiet_def intro: survive_trans)

lemma quiet_cong: "streams st1 = streams st2 \<Longrightarrow> quiet exact nc st st1 \<Longrightarrow> quiet exact nc st st2"
  by (simp add: quiet_def store_inv_def)

lemma quiet_content:
  "quiet exact nc st st' \<Longrightarrow> store_inv exact nc st \<Longrightarrow> content (streams st) q ms \<Longrightarrow>
     map_of (streams st') q = Some s \<Longrightarrow> content (streams st') q ms"
  using survive_content inv_uptoD(5) unfolding quiet_def store_inv_def by blast

lemma inv_refs:
  "store_inv exact nc st \<Longrightarrow> map_of (streams st) p = Some s \<Longrightarrow>
     0 \<le> refCount s \<and> (softDeleted s \<longrightarrow> refCount s > 0)"
  unfolding store_inv_def inv_upto_def refs_ok_def by fastforce

lemma inv_stream: "store_inv exact nc st \<Longrightarrow> map_of (streams st) p = Some s \<Longrightarrow> stream_ok p s \<and> json_stream nc s"
  unfolding store_inv_def using inv_uptoD(2,3) streams_okD by blast

lemma inv_weaken_soft: "inv_upto exact nc {} ss \<Longrightarrow> inv_upto exact nc X ss"
  unfolding inv_upto_def refs_ok_def by simp

lemma soft_delete_quiet:
  assumes "map_of (streams st) p = Some s" "refCount s > 0"
  shows "quiet exact nc st (st\<lparr>streams := AList.update p (s\<lparr>softDeleted := True\<rparr>) (streams st)\<rparr>)"
proof -
  have "inv_upto exact nc {} (AList.update p (s\<lparr>softDeleted := True\<rparr>) (streams st))"
    if inv: "inv_upto exact nc {} (streams st)"
  proof (rule inv_in_place[OF inv assms(1), of _ "[]"])
    have "stream_ok p s" "json_stream nc s" using inv_uptoD(2,3)[OF inv] assms(1) streams_okD by auto
    then show "stream_ok p (s\<lparr>softDeleted := True\<rparr>)" "json_stream nc (s\<lparr>softDeleted := True\<rparr>)"
      by (simp_all add: stream_ok_def offsets_ok_def base_offset_def json_stream_def is_json_def)
  qed (use assms(2) in \<open>simp_all add: in_place_def\<close>)
  then show ?thesis using survive_update(2)[OF assms(1)] by (simp add: quiet_def store_inv_def)
qed

lemma cascade_quiet:
  assumes "map_of (streams st) p = Some s" "\<not> refCount s > 0"
  shows "quiet exact nc st (deleteWithCascade p st)"
proof -
  have "store_inv exact nc (deleteWithCascade p st)" if inv: "store_inv exact nc st"
    using inv_cascade[of exact nc p st s] inv_weaken_soft[of exact nc "streams st" "{p}"] inv
      inv_refs[OF inv assms(1)] assms by (simp add: store_inv_def)
  then show ?thesis using survive_cascade by (simp add: quiet_def)
qed

lemma delete_quiet: "quiet exact nc st (snd (delete_stream p st))"
  by (auto simp: delete_stream_def soft_delete_quiet cascade_quiet split: option.splits)

lemma getIfNotExpired_quiet: "getIfNotExpired env p st = (r, st') \<Longrightarrow> quiet exact nc st st'"
  by (auto simp: getIfNotExpired_def Let_def soft_delete_quiet delete_quiet split: option.splits if_splits)

lemma get_stream_eq: "get_stream = getIfNotExpired"
  by (intro ext) (simp add: get_stream_def getIfNotExpired_def)

lemma getIfNotExpired_live:
  "getIfNotExpired env p st = (Some s, st') \<Longrightarrow> \<not> softDeleted s \<Longrightarrow>
     st' = st \<and> map_of (streams st) p = Some s \<and> \<not> isExpired env s"
  by (auto simp: getIfNotExpired_def Let_def split: option.splits if_splits)

lemma getIfNotExpired_same:
  "map_of (streams st) p = Some s \<Longrightarrow> \<not> isExpired env s \<Longrightarrow> getIfNotExpired env p st = (Some s, st)"
  by (simp add: getIfNotExpired_def)

lemma getIfNotExpired_present:
  "getIfNotExpired env p st = (Some s, st') \<Longrightarrow> map_of (streams st') p = Some s"
  by (auto simp: getIfNotExpired_def Let_def split: option.splits if_splits)

lemma read_quiet: "read env p offset st = (r, st') \<Longrightarrow> quiet exact nc st st'"
  using getIfNotExpired_quiet by (fastforce simp: read_def split: prod.splits option.splits)

lemma poll_resolve_quiet: "quiet exact nc st (poll_resolve env msgs q st)"
proof -
  obtain cur st2 where g: "getIfNotExpired env (pl_path q) (removePendingLongPoll q (clear_timer q st)) = (cur, st2)"
    by fastforce
  have "quiet exact nc st (removePendingLongPoll q (clear_timer q st))" by (rule quiet_refl) simp
  also have "quiet exact nc \<dots> st2" by (rule getIfNotExpired_quiet[OF g])
  finally show ?thesis by (rule quiet_cong[rotated]) (simp add: poll_resolve_def g)
qed

lemma quiet_fold: "(\<And>x st. quiet exact nc st (f x st)) \<Longrightarrow> quiet exact nc st (fold f xs st)"
  by (induction xs arbitrary: st) (auto intro: quiet_trans)

lemma notify_closed_quiet: "quiet exact nc st (notifyLongPollsClosed env p st)"
  unfolding notifyLongPollsClosed_def Let_def by (rule quiet_fold) (rule poll_resolve_quiet)

lemma notify_loop_quiet: "notify_loop env p qs st = (r, st') \<Longrightarrow> quiet exact nc st st'"
proof (induction qs arbitrary: st)
  case (Cons q qs)
  obtain rd st1 where rd: "read env p (Some (pl_offset q)) st = (rd, st1)" by fastforce
  have q1: "quiet exact nc st st1" by (rule read_quiet[OF rd])
  show ?case
  proof (cases rd)
    case (Inl e)
    then show ?thesis using Cons.prems rd q1 by simp
  next
    case (Inr x)
    then have "quiet exact nc st (if rr_messages x \<noteq> [] then poll_resolve env (rr_messages x) q st1 else st1)"
      using q1 quiet_trans[OF q1 poll_resolve_quiet] by simp
    moreover have "notify_loop env p qs
        (if rr_messages x \<noteq> [] then poll_resolve env (rr_messages x) q st1 else st1) = (r, st')"
      using Cons.prems rd Inr by simp
    ultimately show ?thesis by (rule quiet_trans[OF _ Cons.IH])
  qed
qed simp

lemma notifyLongPolls_quiet: "notifyLongPolls env p st = (r, st') \<Longrightarrow> quiet exact nc st st'"
  unfolding notifyLongPolls_def by (rule notify_loop_quiet)

lemma fire_timeout_quiet: "quiet exact nc st (fire_timeout env q st)"
proof -
  obtain cur st2 where g: "getIfNotExpired env (pl_path q) (removePendingLongPoll q (clear_timer q st)) = (cur, st2)"
    by fastforce
  have "quiet exact nc st (removePendingLongPoll q (clear_timer q st))" by (rule quiet_refl) simp
  also have "quiet exact nc \<dots> st2" by (rule getIfNotExpired_quiet[OF g])
  finally have "quiet exact nc st st2" .
  then have "quiet exact nc st (fire_timeout env q st)" if "q \<in> set (timers st)"
    by (rule quiet_cong[rotated]) (use that in \<open>simp add: fire_timeout_def g\<close>)
  then show ?thesis by (cases "q \<in> set (timers st)") (auto simp: fire_timeout_def)
qed

lemma formatResponse_quiet: "formatResponse env p ms st = (r, st') \<Longrightarrow> quiet exact nc st st'"
  using getIfNotExpired_quiet by (fastforce simp: formatResponse_def split: prod.splits option.splits)

section \<open>Pushing a message\<close>

definition push_message :: "stream_message \<Rightarrow> stream \<Rightarrow> stream" where
  "push_message m s = s\<lparr>messages := messages s @ [m], currentOffset := m_offset m\<rparr>"

definition room :: "stream \<Rightarrow> nat \<Rightarrow> bool" where
  "room s len \<longleftrightarrow> off_val (currentOffset s) + FRAME_OVERHEAD + len < MAX_OFFSET"

lemma push_offsets_ok:
  assumes ok: "offsets_ok s" and m: "m_offset m = advance_offset (currentOffset s) len" and r: "room s len"
  shows "offsets_ok (push_message m s) \<and> currentOffset s < m_offset m"
proof -
  have adv: "canonical (m_offset m)" "currentOffset s < m_offset m"
    using advance_canonical[OF offsets_ok_tail_canonical[OF ok]] r unfolding m room_def by auto
  have le: "x < m_offset m" if "x \<in> set (base_offset s # map m_offset (messages s))" for x
    using that ok adv(2) sorted_last_max[of "base_offset s # map m_offset (messages s)" x]
    unfolding offsets_ok_def by (metis le_less_trans)
  have b: "base_offset (push_message m s) = base_offset s" by (simp add: base_offset_def push_message_def)
  have "sorted_wrt (<) ((base_offset s # map m_offset (messages s)) @ [m_offset m])"
    unfolding sorted_wrt_append using ok le by (simp add: offsets_ok_def)
  then show ?thesis using ok adv unfolding offsets_ok_def b by (simp add: push_message_def)
qed

lemma push_in_place:
  assumes "stream_ok p s" and "m_offset m = advance_offset (currentOffset s) len" and "room s len"
  shows "stream_ok p (push_message m s) \<and> in_place s (push_message m s) [m]"
  using assms push_offsets_ok[of s m len]
  by (auto simp: stream_ok_def in_place_def push_message_def)

text \<open>The bytes a body occupies in the stream.\<close>

definition stored_length :: "js_env \<Rightarrow> stream \<Rightarrow> bytes \<Rightarrow> bool \<Rightarrow> nat" where
  "stored_length env s data init =
     (if is_json s then (case processJsonAppend (num_canon env) data init of Inl _ \<Rightarrow> 0 | Inr d \<Rightarrow> length d)
      else length data)"

lemma appendToStream_cases:
  assumes "appendToStream env s data init = Inr (msg, s')"
  obtains "msg = None" "s' = s" "is_json s" "init"
  | m where "msg = Some m" "s' = push_message m s" "m_timestamp m = now env"
      "m_offset m = advance_offset (currentOffset s) (stored_length env s data init)"
      "if is_json s then m_data m = fragment (body_values (num_canon env) data) \<and> body_values (num_canon env) data \<noteq> []
       else m_data m = data"
proof (cases "is_json s")
  case True
  then obtain d where d: "processJsonAppend (num_canon env) data init = Inr d"
    using assms by (auto simp: appendToStream_def is_json_def Let_def split: sum.splits)
  show ?thesis
  proof (cases "d = []")
    case True
    then have "init" using d processJsonAppend_nonempty by (cases init) auto
    then show ?thesis using assms True d \<open>is_json s\<close> that(1) by (auto simp: appendToStream_def is_json_def Let_def)
  next
    case False
    then show ?thesis using assms d \<open>is_json s\<close> processJsonAppend_fragment[OF d False]
      by (intro that(2)[of "the msg"])
        (auto simp: appendToStream_def is_json_def Let_def push_message_def stored_length_def)
  qed
next
  case False
  then show ?thesis using assms
    by (intro that(2)[of "the msg"])
      (auto simp: appendToStream_def is_json_def Let_def push_message_def stored_length_def)
qed

lemma appendToStream_ok:
  assumes "appendToStream env s data init = Inr (msg, s')" and "stream_ok p s" "json_stream nc s"
    and "nc = num_canon env" "nc_ok nc" and "room s (stored_length env s data init)"
  shows "stream_ok p s' \<and> json_stream nc s' \<and> in_place s s' (case msg of None \<Rightarrow> [] | Some m \<Rightarrow> [m])"
  using assms(1)
proof (cases rule: appendToStream_cases)
  case 1
  then show ?thesis using assms by (simp add: in_place_def)
next
  case (2 m)
  have "holds_values nc m (body_values nc data)" if "is_json s"
    using that 2 assms(4,5) body_values_ok[of nc _ data] by (simp add: holds_values_def)
  then have "json_stream nc s'"
    using assms(3) 2(2) by (auto simp: json_stream_def is_json_def push_message_def)
  then show ?thesis using push_in_place[OF assms(2) 2(4) assms(6)] 2 by simp
qed

section \<open>Appending\<close>

lemma poll_resolve_live:
  "map_of (streams st) (pl_path q) = Some s \<Longrightarrow> \<not> isExpired env s \<Longrightarrow>
     streams (poll_resolve env msgs q st) = streams st"
  by (simp add: poll_resolve_def getIfNotExpired_def)

lemma read_live:
  "map_of (streams st) p = Some s \<Longrightarrow> \<not> isExpired env s \<Longrightarrow>
     read env p offset st = (read_messages (streams st) s offset, st)"
  by (simp add: read_def getIfNotExpired_def)

lemma notify_loop_live:
  "map_of (streams st) p = Some s \<Longrightarrow> \<not> isExpired env s \<Longrightarrow> \<forall>q\<in>set qs. pl_path q = p \<Longrightarrow>
     streams (snd (notify_loop env p qs st)) = streams st"
proof (induction qs arbitrary: st)
  case (Cons q qs)
  show ?case
  proof (cases "read_messages (streams st) s (Some (pl_offset q))")
    case (Inl e)
    then show ?thesis using Cons.prems by (simp add: read_live)
  next
    case (Inr r)
    let ?st = "if rr_messages r \<noteq> [] then poll_resolve env (rr_messages r) q st else st"
    have "streams ?st = streams st" using Cons.prems poll_resolve_live by simp
    then show ?thesis using Cons.IH[of ?st] Cons.prems Inr by (simp add: read_live split del: if_split)
  qed
qed simp

lemma notifyLongPolls_live:
  "map_of (streams st) p = Some s \<Longrightarrow> \<not> isExpired env s \<Longrightarrow> streams (snd (notifyLongPolls env p st)) = streams st"
  by (simp add: notifyLongPolls_def notify_loop_live)

lemma read_messages_error: "read_messages ss s offset = Inl e \<Longrightarrow> e = Stack_overflow"
  by (auto simp: read_messages_def readFromFork_def chain_result_def Let_def split: if_splits option.splits)

lemma notify_loop_result:
  "map_of (streams st) p = Some s \<Longrightarrow> \<not> isExpired env s \<Longrightarrow> \<forall>q\<in>set qs. pl_path q = p \<Longrightarrow>
     notify_loop env p qs st = (nr, st') \<Longrightarrow> nr = Inr () \<or> nr = Inl Stack_overflow"
proof (induction qs arbitrary: st)
  case (Cons q qs)
  show ?case
  proof (cases "read_messages (streams st) s (Some (pl_offset q))")
    case (Inl e)
    then show ?thesis using Cons.prems read_messages_error by (auto simp: read_live)
  next
    case (Inr r)
    let ?st = "if rr_messages r \<noteq> [] then poll_resolve env (rr_messages r) q st else st"
    have "streams ?st = streams st" using Cons.prems poll_resolve_live by simp
    then show ?thesis using Cons.IH[of ?st] Cons.prems Inr by (simp add: read_live split del: if_split)
  qed
qed simp

lemma notifyLongPolls_result:
  "map_of (streams st) p = Some s \<Longrightarrow> \<not> isExpired env s \<Longrightarrow> notifyLongPolls env p st = (nr, st') \<Longrightarrow>
     nr = Inr () \<or> nr = Inl Stack_overflow"
  by (rule notify_loop_result[of st p s env "filter (\<lambda>q. pl_path q = p) (pendingLongPolls st)"])
    (simp_all add: notifyLongPolls_def)

lemma fold_poll_live:
  "map_of (streams st) p = Some s \<Longrightarrow> \<not> isExpired env s \<Longrightarrow> \<forall>q\<in>set qs. pl_path q = p \<Longrightarrow>
     streams (fold (poll_resolve env []) qs st) = streams st"
  by (induction qs arbitrary: st) (auto simp: poll_resolve_live)

lemma notify_closed_live:
  "map_of (streams st) p = Some s \<Longrightarrow> \<not> isExpired env s \<Longrightarrow> streams (notifyLongPollsClosed env p st) = streams st"
  by (simp add: notifyLongPollsClosed_def fold_poll_live)

end
