(* ===== verification/Store_Append.thy ===== *)
theory Store_Append
  imports Store_Ops
begin

text \<open>
  The effect of \<^verbatim>\<open>append\<close>, \<^verbatim>\<open>closeStream\<close> and \<^verbatim>\<open>closeStreamWithProducer\<close>: on every branch, which
  stream changes and how, and that the invariant is kept.
\<close>

section \<open>The checks before the write\<close>

lemma cleanup_fields [simp]:
  "forkedFrom (cleanupExpiredProducers env s) = forkedFrom s" "forkOffset (cleanupExpiredProducers env s) = forkOffset s"
  "messages (cleanupExpiredProducers env s) = messages s" "currentOffset (cleanupExpiredProducers env s) = currentOffset s"
  "contentType (cleanupExpiredProducers env s) = contentType s" "closed (cleanupExpiredProducers env s) = closed s"
  "refCount (cleanupExpiredProducers env s) = refCount s" "softDeleted (cleanupExpiredProducers env s) = softDeleted s"
  "s_path (cleanupExpiredProducers env s) = s_path s" "lastSeq (cleanupExpiredProducers env s) = lastSeq s"
  "closedBy (cleanupExpiredProducers env s) = closedBy s"
  "isExpired env' (cleanupExpiredProducers env s) = isExpired env' s"
  by (simp_all add: cleanupExpiredProducers_def isExpired_def split: option.splits)

lemma distinct_cleanup: "distinct (map fst (producers s)) \<Longrightarrow> distinct (map fst (producers (cleanupExpiredProducers env s)))"
  by (simp add: cleanupExpiredProducers_def distinct_map_filter)

text \<open>The checks only clean up producers.\<close>

lemma append_check_stream:
  "append_check env p opts s = (c, s1) \<Longrightarrow> s1 = s \<or> s1 = cleanupExpiredProducers env s"
  by (auto simp: append_check_def validateProducer_def Let_def split: if_splits option.splits prod.splits)

lemma append_check_proceed:
  "append_check env p opts s = (Proceed pr, s1) \<Longrightarrow>
     \<not> softDeleted s \<and> \<not> closed s \<and> (pr \<noteq> None \<longrightarrow> is_accepted (the pr))
     \<and> (case (ao_seq opts, lastSeq s) of (Some sq, Some l) \<Rightarrow> l < sq | _ \<Rightarrow> True)"
  by (auto simp: append_check_def validateProducer_def seq_check_def Let_def
      split: if_splits option.splits prod.splits)

lemma clean_in_place:
  "s1 = s \<or> s1 = cleanupExpiredProducers env s \<Longrightarrow> stream_ok p s \<Longrightarrow> json_stream nc s \<Longrightarrow>
     stream_ok p s1 \<and> json_stream nc s1 \<and> in_place s s1 [] \<and> softDeleted s1 = softDeleted s"
  by (auto simp: stream_ok_def offsets_ok_def base_offset_def json_stream_def is_json_def in_place_def distinct_cleanup)

lemma in_place_trans: "in_place s s1 xs \<Longrightarrow> in_place s1 s2 ys \<Longrightarrow> in_place s s2 (xs @ ys)"
  by (auto simp: in_place_def intro: le_less_trans order_trans)

lemma commit_in_place:
  "stream_ok p s \<Longrightarrow> json_stream nc s \<Longrightarrow>
     stream_ok p (append_commit opts pr s) \<and> json_stream nc (append_commit opts pr s)
     \<and> in_place s (append_commit opts pr s) [] \<and> softDeleted (append_commit opts pr s) = softDeleted s"
  by (auto simp: append_commit_def commitProducerState_def stream_ok_def offsets_ok_def base_offset_def
      json_stream_def is_json_def in_place_def Let_def split: option.splits producer_validation_result.splits)

lemma commit_fields [simp]:
  "isExpired env (append_commit opts pr s) = isExpired env s" "messages (append_commit opts pr s) = messages s"
  "currentOffset (append_commit opts pr s) = currentOffset s"
  "closed (append_commit opts pr s) = (ao_close opts \<or> closed s)"
  by (simp_all add: append_commit_def commitProducerState_def isExpired_def Let_def
      split: option.splits producer_validation_result.splits)

lemma push_fields [simp]:
  "isExpired env (push_message m s) = isExpired env s" "messages (push_message m s) = messages s @ [m]"
  "currentOffset (push_message m s) = m_offset m" "closed (push_message m s) = closed s"
  "softDeleted (push_message m s) = softDeleted s" "contentType (push_message m s) = contentType s"
  "producers (push_message m s) = producers s" "lastSeq (push_message m s) = lastSeq s"
  by (simp_all add: push_message_def isExpired_def split: option.splits)

section \<open>The branches of append\<close>

text \<open>An append that stores a message.\<close>

definition stores :: "js_env \<Rightarrow> string \<Rightarrow> bytes \<Rightarrow> append_options \<Rightarrow> store \<Rightarrow> stream \<Rightarrow>
    producer_validation_result option \<Rightarrow> stream \<Rightarrow> stream_message \<Rightarrow> bool" where
  "stores env p data opts st s pr s1 m \<longleftrightarrow>
     map_of (streams st) p = Some s \<and> \<not> isExpired env s \<and> append_check env p opts s = (Proceed pr, s1)
     \<and> appendToStream env s1 data False = Inr (Some m, push_message m s1)"

lemma append_stored:
  assumes "stores env p data opts st s pr s1 m"
  shows "streams (snd (append env p data opts st)) =
      AList.update p (append_commit opts pr (push_message m s1)) (streams st)
    \<and> (fst (append env p data opts st) = Inr (Message (Some m)) \<or> fst (append env p data opts st) = Inl Stack_overflow
       \<or> fst (append env p data opts st) =
            Inr (Result \<lparr>ar_message = Some m, ar_producerResult = pr, ar_streamClosed = ao_close opts\<rparr>))"
proof -
  note live = assms[unfolded stores_def]
  let ?s = "append_commit opts pr (push_message m s1)"
  let ?st2 = "put_stream p ?s st"
  have st2: "map_of (streams ?st2) p = Some ?s" "\<not> isExpired env ?s"
    using live append_check_stream[of env p opts s] by (auto simp: put_stream_def)
  obtain nr st3 where n: "notifyLongPolls env p ?st2 = (nr, st3)" by fastforce
  have s3: "streams st3 = streams ?st2" using notifyLongPolls_live[OF st2] n by simp
  then have s4: "streams (notifyLongPollsClosed env p st3) = streams st3"
    using notify_closed_live[of st3 p ?s env] st2 by simp
  have nr: "nr = Inr () \<or> nr = Inl Stack_overflow" using notifyLongPolls_result[OF st2, of nr st3] n by simp
  have g: "getIfNotExpired env p st = (Some s, st)" using live by (simp add: getIfNotExpired_same)
  show ?thesis using nr
  proof
    assume "nr = Inr ()"
    then show ?thesis using live g n s3 s4
      by (cases "pr \<noteq> None \<or> ao_close opts") (simp_all add: append_def Let_def put_stream_def)
  next
    assume "nr = Inl Stack_overflow"
    then show ?thesis using live g n s3 by (simp add: append_def Let_def put_stream_def)
  qed
qed

lemma append_cases:
  assumes "append env p data opts st = (r, st')"
  obtains (absent) "getIfNotExpired env p st = (None, st')" "r = Inl (Stream_not_found p)"
  | (soft) s st1 where "getIfNotExpired env p st = (Some s, st1)" "softDeleted s" "r = Inl (Stream_soft_deleted p)"
      "st' = put_stream p s st1"
  | (refused) s s1 where "map_of (streams st) p = Some s" "\<not> isExpired env s" "\<not> softDeleted s"
      "s1 = s \<or> s1 = cleanupExpiredProducers env s" "st' = put_stream p s1 st"
      "\<forall>x. r \<noteq> Inr (Message x)" "\<forall>x. r = Inr (Result x) \<longrightarrow> ar_message x = None"
  | (stored) s pr s1 m where "stores env p data opts st s pr s1 m"
      "streams st' = AList.update p (append_commit opts pr (push_message m s1)) (streams st)"
      "r = Inr (Message (Some m)) \<or> r = Inl Stack_overflow
       \<or> r = Inr (Result \<lparr>ar_message = Some m, ar_producerResult = pr, ar_streamClosed = ao_close opts\<rparr>)"
proof -
  obtain cur st1 where g: "getIfNotExpired env p st = (cur, st1)" by fastforce
  show thesis
  proof (cases cur)
    case None
    then show ?thesis using assms g absent by (simp add: append_def)
  next
    case (Some s)
    show ?thesis
    proof (cases "softDeleted s")
      case True
      then show ?thesis using assms g Some soft[of s st1] by (simp add: append_def append_check_def)
    next
      case False
      note live = getIfNotExpired_live[OF g[unfolded Some] False]
      obtain c s1 where c: "append_check env p opts s = (c, s1)" by fastforce
      note refused' = refused[OF conjunct1[OF conjunct2[OF live]] conjunct2[OF conjunct2[OF live]] False
          append_check_stream[OF c]]
      show ?thesis
      proof (cases c)
        case (Reject e)
        then show ?thesis using assms g Some c live by (intro refused') (auto simp: append_def)
      next
        case (Early x)
        then have "ar_message x = None"
          using c by (auto simp: append_check_def seq_check_def Let_def split: if_splits option.splits prod.splits)
        then show ?thesis using assms g Some c live Early by (intro refused') (auto simp: append_def)
      next
        case (Proceed pr)
        show ?thesis
        proof (cases "appendToStream env s1 data False")
          case (Inl e)
          then show ?thesis using assms g Some c live Proceed by (intro refused') (auto simp: append_def)
        next
          case (Inr ms)
          then obtain m where m: "appendToStream env s1 data False = Inr (Some m, push_message m s1)"
            using appendToStream_cases[of env s1 data False "fst ms" "snd ms"] by (metis prod.collapse)
          have "stores env p data opts st s pr s1 m" using live c Proceed m by (simp add: stores_def)
          then show ?thesis using append_stored[of env p data opts st s pr s1 m] assms by (intro stored) auto
        qed
      qed
    qed
  qed
qed

lemma in_place_survivor:
  assumes inv: "store_inv exact nc st" and p: "map_of (streams st) p = Some s"
    and s': "stream_ok p s' \<and> json_stream nc s' \<and> in_place s s' new \<and> softDeleted s' = softDeleted s"
    and st': "streams st' = AList.update p s' (streams st)"
  shows "store_inv exact nc st'"
  using inv_in_place[of exact nc "streams st" p s s' new] assms by (simp add: store_inv_def)

text \<open>The space an append needs: below the width of the offset format.\<close>

definition append_room :: "js_env \<Rightarrow> string \<Rightarrow> bytes \<Rightarrow> store \<Rightarrow> bool" where
  "append_room env p data st \<longleftrightarrow>
     (case map_of (streams st) p of None \<Rightarrow> True | Some s \<Rightarrow> room s (stored_length env s data False))"

lemma stored_in_place:
  assumes inv: "store_inv exact nc st" and s: "stores env p data opts st s pr s1 m"
    and nc: "num_canon env = nc" "nc_ok nc" and rm: "append_room env p data st"
  shows "stream_ok p (append_commit opts pr (push_message m s1)) \<and> json_stream nc (append_commit opts pr (push_message m s1))
    \<and> in_place s (append_commit opts pr (push_message m s1)) [m]
    \<and> softDeleted (append_commit opts pr (push_message m s1)) = softDeleted s"
proof -
  note a = s[unfolded stores_def]
  have s1: "s1 = s \<or> s1 = cleanupExpiredProducers env s" using a append_check_stream by blast
  have p: "map_of (streams st) p = Some s" and ap: "appendToStream env s1 data False = Inr (Some m, push_message m s1)"
    using a by auto
  note ok = inv_stream[OF inv p]
  note ok1 = clean_in_place[OF s1 conjunct1[OF ok] conjunct2[OF ok]]
  have "stored_length env s1 data False = stored_length env s data False" "room s1 = room s"
    using s1 by (auto simp: stored_length_def is_json_def room_def fun_eq_iff)
  then have r: "room s1 (stored_length env s1 data False)" using p rm by (simp add: append_room_def)
  have 2: "stream_ok p (push_message m s1) \<and> json_stream nc (push_message m s1) \<and> in_place s1 (push_message m s1) [m]"
    using appendToStream_ok[OF ap conjunct1[OF ok1] conjunct1[OF conjunct2[OF ok1]] nc(1)[symmetric] nc(2) r]
    by simp
  note c = commit_in_place[of p "push_message m s1" nc opts pr]
  show ?thesis using in_place_trans[of s s1 "[]" "push_message m s1" "[m]"]
      in_place_trans[of s "push_message m s1" "[m]" "append_commit opts pr (push_message m s1)" "[]"] ok1 2 c
    by auto
qed

lemma inv_append:
  assumes inv: "store_inv exact nc st" and nc: "num_canon env = nc" "nc_ok nc" and rm: "append_room env p data st"
    and a: "append env p data opts st = (r, st')"
  shows "store_inv exact nc st'"
  using a
proof (cases rule: append_cases)
  case absent
  then show ?thesis using getIfNotExpired_quiet[of env p st None st' exact nc] inv by (simp add: quiet_def)
next
  case (soft s st1)
  then have "streams st' = streams st1"
    using getIfNotExpired_present[of env p st s st1] by (simp add: put_stream_def put_same)
  then show ?thesis using getIfNotExpired_quiet[OF soft(1), of exact nc] inv by (simp add: quiet_def store_inv_def)
next
  case (refused s s1)
  have ok: "stream_ok p s1 \<and> json_stream nc s1 \<and> in_place s s1 [] \<and> softDeleted s1 = softDeleted s"
    using clean_in_place[OF refused(4), of p nc] inv_stream[OF inv refused(1)] by simp
  show ?thesis by (rule in_place_survivor[OF inv refused(1) ok]) (use refused in \<open>simp add: put_stream_def\<close>)
next
  case (stored s pr s1 m)
  show ?thesis
    by (rule in_place_survivor[OF inv _ stored_in_place[OF inv stored(1) nc rm] stored(2)])
      (use stored(1) in \<open>simp add: stores_def\<close>)
qed

text \<open>A stored message is the new end of its stream's content; no other stream's content changes,
  not even that of a fork of this stream.\<close>

lemma append_content:
  assumes inv: "store_inv exact nc st" and s: "stores env p data opts st s pr s1 m"
    and nc: "num_canon env = nc" "nc_ok nc" and rm: "append_room env p data st"
    and st': "streams st' = AList.update p (append_commit opts pr (push_message m s1)) (streams st)"
    and c: "content (streams st) q ms"
  shows "content (streams st') q (if q = p then ms @ [m] else ms)"
proof -
  note ip = stored_in_place[OF inv s nc rm]
  show ?thesis unfolding st'
    by (rule content_extend[OF _ inv_uptoD(4)[OF inv[unfolded store_inv_def]] _ _ _ _ c])
      (use s ip in \<open>auto simp: stores_def in_place_def\<close>)
qed

section \<open>Closing\<close>

lemma close_in_place:
  assumes "stream_ok p s" "json_stream nc s"
  shows "stream_ok p (s\<lparr>closed := True\<rparr>) \<and> json_stream nc (s\<lparr>closed := True\<rparr>) \<and> in_place s (s\<lparr>closed := True\<rparr>) []
    \<and> softDeleted (s\<lparr>closed := True\<rparr>) = softDeleted s"
  using assms by (simp add: stream_ok_def offsets_ok_def base_offset_def json_stream_def is_json_def in_place_def)

lemma closeStream_live:
  assumes "map_of (streams st) p = Some s" "\<not> isExpired env s" "\<not> softDeleted s"
  shows "fst (closeStream env p st) = Inr (Some \<lparr>cr_finalOffset = currentOffset s, cr_alreadyClosed = closed s,
        cr_producerResult = None\<rparr>)
    \<and> streams (snd (closeStream env p st)) = AList.update p (s\<lparr>closed := True\<rparr>) (streams st)"
proof -
  have e: "\<not> isExpired env (s\<lparr>closed := True\<rparr>)" using assms(2) by (simp add: isExpired_def split: option.splits)
  have "streams (notifyLongPollsClosed env p (put_stream p (s\<lparr>closed := True\<rparr>) st)) =
      streams (put_stream p (s\<lparr>closed := True\<rparr>) st)"
    by (rule notify_closed_live[OF _ e]) (simp add: put_stream_def)
  then show ?thesis using assms by (simp add: closeStream_def getIfNotExpired_same Let_def put_stream_def)
qed

lemma inv_closeStream:
  assumes inv: "store_inv exact nc st"
  shows "store_inv exact nc (snd (closeStream env p st))"
proof -
  obtain cur st1 where g: "getIfNotExpired env p st = (cur, st1)" by fastforce
  have q: "store_inv exact nc st1" using getIfNotExpired_quiet[OF g] inv unfolding quiet_def by blast
  show ?thesis
  proof (cases "\<exists>s. cur = Some s \<and> \<not> softDeleted s")
    case True
    then obtain s where s: "cur = Some s" "\<not> softDeleted s" by blast
    note l = getIfNotExpired_live[OF g[unfolded s(1)] s(2)]
    have p: "map_of (streams st) p = Some s" and ex: "\<not> isExpired env s" using l by auto
    have ok: "stream_ok p s" "json_stream nc s" using inv_stream[OF inv p] by auto
    show ?thesis
      by (rule in_place_survivor[OF inv p close_in_place[OF ok]]) (use closeStream_live[OF p ex s(2)] in simp)
  qed (use g q in \<open>auto simp: closeStream_def split: option.splits\<close>)
qed

lemma csp_in_place:
  assumes "stream_ok p s" "json_stream nc s" and "s1 = s \<or> s1 = cleanupExpiredProducers env s"
    and s2: "s2 = (commitProducerState s1 r)\<lparr>closed := True, closedBy := cb\<rparr>"
  shows "stream_ok p s2 \<and> json_stream nc s2 \<and> in_place s s2 [] \<and> softDeleted s2 = softDeleted s"
proof -
  note 1 = clean_in_place[OF assms(3,1,2)]
  have f: "s_path s2 = s_path s1" "messages s2 = messages s1" "currentOffset s2 = currentOffset s1"
    "forkedFrom s2 = forkedFrom s1" "forkOffset s2 = forkOffset s1" "contentType s2 = contentType s1"
    "refCount s2 = refCount s1" "softDeleted s2 = softDeleted s1"
    by (cases r; simp add: s2 commitProducerState_def)+
  have d: "distinct (map fst (producers s2))"
    using 1 by (cases r) (simp_all add: s2 commitProducerState_def stream_ok_def)
  have "stream_ok p s2" "json_stream nc s2"
    using 1 d by (simp_all add: stream_ok_def offsets_ok_def base_offset_def json_stream_def is_json_def f)
  moreover have "in_place s1 s2 []" by (simp add: in_place_def f)
  then have "in_place s s2 []" using in_place_trans[of s s1 "[]" s2 "[]"] 1 by simp
  ultimately show ?thesis using 1 f by simp
qed

text \<open>This method has no guard for soft-deleted streams: an expired stream that still has forks is
  marked and then closed.\<close>

lemma inv_closeStreamWithProducer:
  assumes inv: "store_inv exact nc st"
  shows "store_inv exact nc (snd (closeStreamWithProducer env p i e n st))"
proof -
  obtain cur st1 where g: "getIfNotExpired env p st = (cur, st1)" by fastforce
  have inv1: "store_inv exact nc st1" using getIfNotExpired_quiet[OF g] inv unfolding quiet_def by blast
  show ?thesis
  proof (cases cur)
    case (Some s)
    note p = getIfNotExpired_present[OF g[unfolded Some]]
    note ok = inv_stream[OF inv1 p]
    obtain r s1 where v: "validateProducer env s i e n = (r, s1)" by fastforce
    then have s1: "s1 = s \<or> s1 = cleanupExpiredProducers env s" by (simp add: validateProducer_def Let_def)
    have put: "store_inv exact nc (put_stream p s1 st1)"
      by (rule in_place_survivor[OF inv1 p clean_in_place[OF s1 conjunct1[OF ok] conjunct2[OF ok]]])
        (simp add: put_stream_def)
    let ?s2 = "(commitProducerState s1 r)\<lparr>closed := True, closedBy :=
        Some \<lparr>cb_producerId = i, cb_epoch = Some e, cb_seq = Some n\<rparr>\<rparr>"
    have "store_inv exact nc (put_stream p ?s2 st1)"
      by (rule in_place_survivor[OF inv1 p csp_in_place[OF conjunct1[OF ok] conjunct2[OF ok] s1 refl]])
        (simp add: put_stream_def)
    then have "store_inv exact nc (notifyLongPollsClosed env p (put_stream p ?s2 st1))"
      using notify_closed_quiet unfolding quiet_def by blast
    with put inv1 show ?thesis using g Some v by (simp add: closeStreamWithProducer_def Let_def)
  qed (use g inv1 in \<open>simp add: closeStreamWithProducer_def\<close>)
qed

end
