(* ===== verification/Store_Create.thy ===== *)
theory Store_Create
  imports Store_Append
begin

text \<open>
  The effect of \<^verbatim>\<open>create\<close>: a new stream, plain or forked, with its sub-offset prefix and initial
  data. A fork starts with the source's content up to the fork offset, and the reference it takes
  on the source is given back when the initial data is rejected.
\<close>

section \<open>Sub-offsets\<close>

lemma content_json:
  "content ss q ms \<Longrightarrow> inv_upto exact nc X ss \<Longrightarrow> map_of ss q = Some s \<Longrightarrow> is_json s \<Longrightarrow>
     \<forall>m\<in>set ms. \<exists>vs. holds_values nc m vs"
proof (induction arbitrary: s rule: content.induct)
  case (content_root p s')
  then show ?case using inv_uptoD(3)[OF content_root.prems(1), of p s] by (simp add: json_stream_def)
next
  case (content_fork p t q fo ms)
  then have "t = s" by simp
  obtain src where "map_of ss q = Some src" "is_json src"
    using inv_uptoD(4)[OF content_fork.prems(1)] content_fork(1,2) content_fork.prems(3) \<open>t = s\<close>
    unfolding links_ok_def by metis
  then have "\<forall>m\<in>set ms. \<exists>vs. holds_values nc m vs" using content_fork.IH content_fork.prems(1) by blast
  moreover have "json_stream nc t" using inv_uptoD(3)[OF content_fork.prems(1) content_fork(1)] .
  ultimately show ?case using content_fork.prems(3) \<open>t = s\<close> by (auto simp: json_stream_def)
qed

lemma sub_offset_messages:
  assumes "streams_ok ss" "map_of ss q = Some s" "content ss q ms" "fo \<noteq> []"
  shows "(if truthy (forkedFrom s)
          then map_option (\<lambda>ms. ms @ readOwnMessages s fo)
                 (readForkedMessages ss (the (forkedFrom s)) (Some fo) (forkOffset s))
          else Some (readOwnMessages s fo)) = Some (filter (\<lambda>m. fo < m_offset m) ms)"
  using assms(3)
proof (cases rule: content.cases)
  case (content_root s')
  then show ?thesis using assms readOwnMessages_eq streams_okD[OF assms(1,2)] by (simp add: stream_ok_def)
next
  case (content_fork s' r cap qs)
  have ok: "stream_ok q s" using streams_okD[OF assms(1,2)] .
  have r: "truthy (Some r)" using ok content_fork assms(2) by (auto simp: stream_ok_def)
  have "filter (in_range (Some fo) (Some cap)) qs = filter (\<lambda>m. m_offset m \<le> cap \<and> fo < m_offset m) qs"
    using assms(4) by (auto simp: in_range_Some intro: filter_cong)
  then show ?thesis
    using content_fork assms(2) r readForkedMessages_eq[OF content_fork(5) assms(1), of "Some fo" cap]
      readOwnMessages_eq[of s fo] ok by (auto simp: stream_ok_def)
qed

text \<open>A resolved sub-offset is a non-empty prefix of the first message after the fork offset: of its
  values in JSON mode, of its bytes otherwise.\<close>

lemma resolveForkSubOffset_ok:
  assumes inv: "inv_upto exact nc X ss" and s: "map_of ss q = Some s" and c: "content ss q ms"
    and fo: "fo \<noteq> []" and n: "0 < n" and nc: "num_canon env = nc"
    and r: "resolveForkSubOffset env ss s fo n (is_json s) = Inr prefix"
  obtains m rest where "filter (\<lambda>m. fo < m_offset m) ms = m # rest"
    and "\<not> is_json s \<Longrightarrow> prefix = take n (m_data m) \<and> n \<le> length (m_data m)"
    and "is_json s \<Longrightarrow> \<exists>vs. holds_values nc m vs \<and> n \<le> length vs \<and> prefix = fragment (take n vs)"
proof -
  note sub = sub_offset_messages[OF inv_uptoD(2)[OF inv] s c fo]
  obtain m rest where m: "filter (\<lambda>m. fo < m_offset m) ms = m # rest"
    using r unfolding resolveForkSubOffset_def sub by (auto split: list.splits)
  have mem: "m \<in> set ms" using m by (metis filter_is_subset list.set_intros(1) subsetD)
  show thesis
  proof (rule that[OF m])
    assume "\<not> is_json s"
    then show "prefix = take n (m_data m) \<and> n \<le> length (m_data m)"
      using r unfolding resolveForkSubOffset_def sub m by (auto split: if_splits)
  next
    assume j: "is_json s"
    then obtain vs where vs: "holds_values nc m vs" using content_json[OF c inv s] mem by blast
    have "json_parse (num_canon env) ([91] @ strip_comma (text_decode (m_data m)) @ [93]) = Some (JArr vs)"
      using vs parse_fragment[of vs nc] unfolding holds_values_def nc by metis
    then show "\<exists>vs. holds_values nc m vs \<and> n \<le> length vs \<and> prefix = fragment (take n vs)"
      using r j vs unfolding resolveForkSubOffset_def sub m
      by (auto simp: fragment_def split: if_splits)
  qed
qed

lemma holds_values_take: "holds_values nc m vs \<Longrightarrow> 0 < n \<Longrightarrow> m_data m' = fragment (take n vs) \<Longrightarrow> holds_values nc m' (take n vs)"
  by (auto simp: holds_values_def dest: in_set_takeD)

section \<open>The stream object\<close>

lemma is_json_iff: "normalizeContentType (contentType s) = ''application/json'' \<longleftrightarrow> is_json s"
  by (simp add: is_json_def)

lemma resolve_fork_ok:
  assumes "resolve_fork env ss opts = Inr (src, fo, prefix)"
  shows "map_of ss (the (co_forkedFrom opts)) = Some src" "\<not> softDeleted src" "\<not> isExpired env src"
    "fo \<le> currentOffset src" "ZERO_OFFSET \<le> fo"
    "fo = (if truthy (co_forkOffset opts) then the (co_forkOffset opts) else currentOffset src)"
    "\<not> (truthy (co_contentType opts) \<and> trim (the (co_contentType opts)) \<noteq> []
       \<and> normalizeContentType (co_contentType opts) \<noteq> normalizeContentType (contentType src))"
    "\<And>x. prefix = Some x \<Longrightarrow> 0 < or_zero (co_forkSubOffset opts)
       \<and> resolveForkSubOffset env ss src fo (or_zero (co_forkSubOffset opts)) (is_json src) = Inr x"
    "prefix = None \<longleftrightarrow> or_zero (co_forkSubOffset opts) = 0"
  using assms by (auto simp: resolve_fork_def Let_def is_json_iff not_less split: option.splits if_splits sum.splits)

lemma new_stream_plain:
  assumes "fork = None"
  shows "forkedFrom (new_stream env p opts fork) = None" "messages (new_stream env p opts fork) = []"
    "refCount (new_stream env p opts fork) = 0" "\<not> softDeleted (new_stream env p opts fork)"
    "stream_ok p (new_stream env p opts fork)" "json_stream nc (new_stream env p opts fork)"
  using assms by (simp_all add: new_stream_def Let_def stream_ok_def offsets_ok_def base_offset_def json_stream_def)

text \<open>The fork's first own message: the materialised prefix.\<close>

definition prefix_messages :: "js_env \<Rightarrow> string \<Rightarrow> bytes option \<Rightarrow> stream_message list" where
  "prefix_messages env fo prefix =
     (case prefix of
        None \<Rightarrow> []
      | Some x \<Rightarrow> if x = [] then []
                  else [\<lparr>m_data = x, m_offset = advance_offset fo (length x), m_timestamp = now env\<rparr>])"

lemma new_stream_fork:
  "forkedFrom (new_stream env p opts (Some (src, fo, prefix))) = co_forkedFrom opts"
  "forkOffset (new_stream env p opts (Some (src, fo, prefix))) = Some fo"
  "messages (new_stream env p opts (Some (src, fo, prefix))) = prefix_messages env fo prefix"
  "currentOffset (new_stream env p opts (Some (src, fo, prefix))) =
     last (fo # map m_offset (prefix_messages env fo prefix))"
  "refCount (new_stream env p opts (Some (src, fo, prefix))) = 0"
  "\<not> softDeleted (new_stream env p opts (Some (src, fo, prefix)))"
  "s_path (new_stream env p opts (Some (src, fo, prefix))) = p"
  "producers (new_stream env p opts (Some (src, fo, prefix))) = []"
  "contentType (new_stream env p opts (Some (src, fo, prefix))) =
     (if \<not> truthy (co_contentType opts) \<or> trim (the (co_contentType opts)) = []
      then contentType src else co_contentType opts)"
  by (auto simp: new_stream_def Let_def prefix_messages_def split: option.splits prod.splits)

lemma prefix_offsets:
  assumes "canonical fo" and "\<And>x. prefix = Some x \<Longrightarrow> off_val fo + FRAME_OVERHEAD + length x < MAX_OFFSET"
  shows "list_all (\<lambda>m. canonical (m_offset m) \<and> fo < m_offset m) (prefix_messages env fo prefix)"
  using assms advance_canonical[of fo] by (auto simp: prefix_messages_def split: option.splits)

text \<open>What a request to create must leave room for.\<close>

definition fork_result :: "js_env \<Rightarrow> create_options \<Rightarrow> (string, stream) jsmap \<Rightarrow>
    (stream \<times> string \<times> bytes option) option outcome" where
  "fork_result env opts ss =
     (if truthy (co_forkedFrom opts)
      then (case resolve_fork env ss opts of Inl e \<Rightarrow> Inl e | Inr f \<Rightarrow> Inr (Some f)) else Inr None)"

definition create_room :: "js_env \<Rightarrow> string \<Rightarrow> create_options \<Rightarrow> (string, stream) jsmap \<Rightarrow> bool" where
  "create_room env p opts ss \<longleftrightarrow>
     (truthy (co_forkOffset opts) \<longrightarrow> canonical (the (co_forkOffset opts)))
     \<and> (case fork_result env opts ss of
          Inl _ \<Rightarrow> True
        | Inr fork \<Rightarrow>
            (case fork of
               Some (_, fo, Some prefix) \<Rightarrow> off_val fo + FRAME_OVERHEAD + length prefix < MAX_OFFSET
             | _ \<Rightarrow> True)
            \<and> (case co_initialData opts of
                 None \<Rightarrow> True
               | Some data \<Rightarrow> (let s = new_stream env p opts fork in room s (stored_length env s data True))))"

lemma new_fork_ok:
  assumes inv: "inv_upto exact nc {} ss" and nc: "num_canon env = nc"
    and ff: "truthy (co_forkedFrom opts)" and r: "resolve_fork env ss opts = Inr (src, fo, prefix)"
    and rm: "create_room env p opts ss"
  defines "s \<equiv> new_stream env p opts (Some (src, fo, prefix))"
  shows "stream_ok p s" "json_stream nc s" "linkable s ss"
proof -
  note rf = resolve_fork_ok[OF r]
  have src: "stream_ok (the (co_forkedFrom opts)) src" using streams_okD[OF inv_uptoD(2)[OF inv] rf(1)] .
  have fo: "canonical fo"
    using rm rf(6) src offsets_ok_tail_canonical by (auto simp: create_room_def stream_ok_def)
  have j: "is_json s = is_json src"
    using rf(7) by (auto simp: s_def is_json_def new_stream_fork)
  have p: "list_all (\<lambda>m. canonical (m_offset m) \<and> fo < m_offset m) (prefix_messages env fo prefix)"
    by (rule prefix_offsets[OF fo]) (use rm ff r in \<open>auto simp: create_room_def fork_result_def\<close>)
  have "offsets_ok s"
    using fo p by (auto simp: s_def offsets_ok_def base_offset_def new_stream_fork list_all_iff prefix_messages_def
        split: option.splits)
  moreover have "co_forkedFrom opts \<noteq> None" "co_forkedFrom opts \<noteq> Some []" using ff by (auto simp: truthy_def)
  ultimately show "stream_ok p s" by (simp add: s_def stream_ok_def new_stream_fork)
  show "linkable s ss" using rf(1,4) j ff by (auto simp: linkable_def s_def new_stream_fork)
  obtain ms where c: "content ss (the (co_forkedFrom opts)) ms"
    using inv_uptoD(5)[OF inv] rf(1) unfolding grounded_def by blast
  show "json_stream nc s" unfolding json_stream_def
  proof (intro impI ballI)
    fix m assume js: "is_json s" and m: "m \<in> set (messages s)"
    then obtain x where x: "prefix = Some x" "m_data m = x"
      by (auto simp: s_def new_stream_fork prefix_messages_def split: option.splits if_splits)
    let ?n = "or_zero (co_forkSubOffset opts)"
    obtain vs m0 where "holds_values nc m0 vs" "x = fragment (take ?n vs)"
      using resolveForkSubOffset_ok[OF inv rf(1) c canonical_offset_pos[OF fo] _ nc] rf(8)[OF x(1)] js j
      by metis
    then show "\<exists>vs. holds_values nc m vs" using holds_values_take[of nc m0 vs ?n m] rf(8)[OF x(1)] x(2) by blast
  qed
qed

section \<open>The branches of create\<close>

lemma new_stream_ok:
  assumes inv: "inv_upto exact nc {} ss" and nc: "num_canon env = nc"
    and f: "fork_result env opts ss = Inr fork" and rm: "create_room env p opts ss"
  shows "stream_ok p (new_stream env p opts fork)" "json_stream nc (new_stream env p opts fork)"
    "linkable (new_stream env p opts fork) ss" "refCount (new_stream env p opts fork) = 0"
    "\<not> softDeleted (new_stream env p opts fork)"
    "forkedFrom (new_stream env p opts fork) = (if truthy (co_forkedFrom opts) then co_forkedFrom opts else None)"
proof -
  have "stream_ok p (new_stream env p opts fork) \<and> json_stream nc (new_stream env p opts fork)
      \<and> linkable (new_stream env p opts fork) ss \<and> refCount (new_stream env p opts fork) = 0
      \<and> \<not> softDeleted (new_stream env p opts fork)
      \<and> forkedFrom (new_stream env p opts fork) = (if truthy (co_forkedFrom opts) then co_forkedFrom opts else None)"
  proof (cases fork)
    case None
    then have "\<not> truthy (co_forkedFrom opts)" using f by (auto simp: fork_result_def split: if_splits sum.splits)
    then show ?thesis using new_stream_plain[OF None] by (simp add: linkable_def)
  next
    case (Some x)
    obtain src fo prefix where x: "x = (src, fo, prefix)" by (cases x)
    then have "truthy (co_forkedFrom opts)" "resolve_fork env ss opts = Inr (src, fo, prefix)"
      using f Some by (auto simp: fork_result_def split: if_splits sum.splits)
    from new_fork_ok[OF inv nc this rm] this show ?thesis unfolding Some x by (simp add: new_stream_fork)
  qed
  then show "stream_ok p (new_stream env p opts fork)" "json_stream nc (new_stream env p opts fork)"
    "linkable (new_stream env p opts fork) ss" "refCount (new_stream env p opts fork) = 0"
    "\<not> softDeleted (new_stream env p opts fork)"
    "forkedFrom (new_stream env p opts fork) = (if truthy (co_forkedFrom opts) then co_forkedFrom opts else None)"
    by auto
qed

lemma add_ref_undo: "streams (add_ref src (-1) (add_ref src 1 st)) = streams st"
  by (auto simp: add_ref_def put_stream_def put_same split: option.splits)

lemma add_ref_put:
  assumes "forkedFrom s = src"
  shows "streams (put_stream p s (add_ref src 1 st)) = add_stream p s (streams st)"
  using assms by (auto simp: add_ref_def put_stream_def add_stream_def split: option.splits)

text \<open>A successful create installs one stream; its own messages are the materialised prefix and the
  initial data.\<close>

definition first_messages :: "stream_message list \<Rightarrow> stream_message option \<Rightarrow> stream_message list" where
  "first_messages pre m = pre @ (case m of None \<Rightarrow> [] | Some x \<Rightarrow> [x])"

lemma create_new_cases:
  assumes inv: "inv_upto exact nc {} (streams st)" and nc: "num_canon env = nc" "nc_ok nc"
    and rm: "create_room env p opts (streams st)" and c: "create_new env p opts st = (r, st')"
  obtains (failed) e where "r = Inl e" "streams st' = streams st"
  | (created) s fork m where "r = Inr s" "streams st' = add_stream p s (streams st)"
      "stream_ok p s" "json_stream nc s" "linkable s (streams st)" "refCount s = 0" "\<not> softDeleted s"
      "fork_result env opts (streams st) = Inr fork"
      "in_place (new_stream env p opts fork) s (first_messages [] m)"
proof (cases "fork_result env opts (streams st)")
  case (Inl e)
  then show ?thesis using c failed by (auto simp: create_new_def fork_result_def Let_def split: if_splits sum.splits)
next
  case (Inr fork)
  let ?src = "if truthy (co_forkedFrom opts) then co_forkedFrom opts else None"
  let ?s = "new_stream env p opts fork"
  note ok = new_stream_ok[OF inv nc(1) Inr rm]
  have eq: "create_new env p opts st =
      (case co_initialData opts of
         None \<Rightarrow> (Inr ?s, put_stream p ?s (add_ref ?src 1 st))
       | Some data \<Rightarrow>
           if data = [] then (Inr ?s, put_stream p ?s (add_ref ?src 1 st))
           else (case appendToStream env ?s data True of
                   Inl e \<Rightarrow> (Inl e, add_ref ?src (-1) (add_ref ?src 1 st))
                 | Inr (_, s') \<Rightarrow> (Inr s', put_stream p s' (add_ref ?src 1 st))))"
    using Inr unfolding create_new_def fork_result_def Let_def by simp
  show ?thesis
  proof (cases "co_initialData opts = None \<or> co_initialData opts = Some []")
    case True
    then have "r = Inr ?s" "st' = put_stream p ?s (add_ref ?src 1 st)" using c unfolding eq by auto
    then show ?thesis
      using created[of ?s fork None] ok add_ref_put[OF ok(6)] Inr by (simp add: in_place_def first_messages_def)
  next
    case False
    then obtain data where data: "co_initialData opts = Some data" "data \<noteq> []" by auto
    show ?thesis
    proof (cases "appendToStream env ?s data True")
      case (Inl e)
      then show ?thesis using c data add_ref_undo[of ?src st] unfolding eq by (intro failed[of e]) auto
    next
      case (Inr ms)
      obtain m s' where m: "ms = (m, s')" by (cases ms)
      have rm': "room ?s (stored_length env ?s data True)"
        using rm data \<open>fork_result env opts (streams st) = Inr fork\<close> by (simp add: create_room_def Let_def)
      note a = appendToStream_ok[OF Inr[unfolded m] ok(1,2) nc(1)[symmetric] nc(2) rm']
      have f: "forkedFrom s' = ?src" "refCount s' = 0" "is_json s' = is_json ?s" "forkOffset s' = forkOffset ?s"
        using a ok by (auto simp: in_place_def is_json_def)
      have sd: "\<not> softDeleted s'"
        using appendToStream_cases[OF Inr[unfolded m]] ok(5) by (metis push_fields(5))
      have "linkable s' (streams st)" using ok(3) f ok(6) by (simp add: linkable_def)
      then show ?thesis
        using c data Inr m a f sd add_ref_put[OF f(1)] \<open>fork_result env opts (streams st) = Inr fork\<close> unfolding eq
        by (intro created[of s' fork m]) (auto simp: first_messages_def)
    qed
  qed
qed

text \<open>An expired stream in the way is dropped without the cascade: that is harmless only when it has
  no forks, and exact counts need that it is not a fork itself.\<close>

definition create_guard :: "bool \<Rightarrow> js_env \<Rightarrow> string \<Rightarrow> create_options \<Rightarrow> store \<Rightarrow> bool" where
  "create_guard exact env p opts st \<longleftrightarrow>
     (case map_of (streams st) p of
        None \<Rightarrow> create_room env p opts (streams st)
      | Some s \<Rightarrow> isExpired env s \<longrightarrow>
          \<not> refCount s > 0 \<and> (exact \<longrightarrow> forkedFrom s = None) \<and> create_room env p opts (AList.delete p (streams st)))"

lemma inv_forget:
  assumes inv: "inv_upto exact nc {} ss" and p: "map_of ss p = Some s" and rc: "\<not> refCount s > 0"
    and ex: "exact \<longrightarrow> forkedFrom s = None"
  shows "inv_upto exact nc {} (AList.delete p ss)"
proof -
  note i = inv_uptoD[OF inv]
  have nf: "forks_of p ss = 0" using i(6) p rc unfolding refs_ok_def by fastforce
  have "links_ok (AList.delete p ss)" using i(4) nf i(1) unfolding links_ok_def by (auto simp: no_forks)
  moreover have "grounded (AList.delete p ss)"
    using i(5) content_delete[OF i(1) nf] unfolding grounded_def by (metis map_of_delete_if option.distinct(1))
  moreover have "refs_ok exact {} (AList.delete p ss)"
    unfolding refs_ok_def
  proof (intro allI impI, goal_cases)
    case (1 q t)
    then have q: "map_of ss q = Some t" by (simp split: if_splits)
    have "int (forks_of q ss) \<le> refCount t" "exact \<longrightarrow> refCount t = int (forks_of q ss)"
      "softDeleted t \<longrightarrow> 0 < refCount t"
      using i(6) q unfolding refs_ok_def by simp_all
    then show ?case using ex by (auto simp: forks_of_delete[OF p i(1)])
  qed
  ultimately show ?thesis using i(1,2,3) by (simp add: inv_upto_def streams_ok_delete)
qed

lemma inv_create:
  assumes inv: "store_inv exact nc st" and nc: "num_canon env = nc" "nc_ok nc"
    and g: "create_guard exact env p opts st" and c: "create env p opts st = (r, st')"
  shows "store_inv exact nc st'"
proof -
  have new: "store_inv exact nc st'"
    if i: "inv_upto exact nc {} (streams st0)" and "map_of (streams st0) p = None"
      and "create_room env p opts (streams st0)" and cn: "create_new env p opts st0 = (r, st')" for st0
    using create_new_cases[OF i nc that(3) cn] inv_add[OF i that(2)] i by (metis store_inv_def)
  show ?thesis
  proof (cases "map_of (streams st) p")
    case None
    then show ?thesis using c g inv new[of st] by (simp add: create_def create_guard_def store_inv_def)
  next
    case (Some s)
    show ?thesis
    proof (cases "isExpired env s")
      case True
      let ?st = "cancelLongPollsForStream p (st\<lparr>streams := AList.delete p (streams st)\<rparr>)"
      have "inv_upto exact nc {} (AList.delete p (streams st))"
        using inv_forget[OF inv[unfolded store_inv_def] Some] g Some True by (simp add: create_guard_def)
      then show ?thesis using c g Some True new[of ?st] by (simp add: create_def create_guard_def)
    next
      case False
      then have "st' = st" using c Some by (simp add: create_def split: if_splits)
      then show ?thesis using inv by simp
    qed
  qed
qed

end
