(* ===== verification/Store_Machine.thy ===== *)
theory Store_Machine
  imports Store_Create
begin

text \<open>
  The store as a state machine: the calls the server makes on \<^verbatim>\<open>StreamStore\<close>, in any order and at
  any time, and the states they reach. A step is allowed when the offsets stay within the width of
  their format and a create does not overwrite an expired stream that is still linked to others.
\<close>

section \<open>The remaining quiet operations\<close>

lemma touch_in_place: "stream_ok p s \<Longrightarrow> json_stream nc s \<Longrightarrow>
    stream_ok p (s\<lparr>lastAccessedAt := t\<rparr>) \<and> json_stream nc (s\<lparr>lastAccessedAt := t\<rparr>)
    \<and> in_place s (s\<lparr>lastAccessedAt := t\<rparr>) [] \<and> softDeleted (s\<lparr>lastAccessedAt := t\<rparr>) = softDeleted s"
  by (simp add: stream_ok_def offsets_ok_def base_offset_def json_stream_def is_json_def in_place_def)

lemma inv_touchAccess:
  assumes inv: "store_inv exact nc st"
  shows "store_inv exact nc (touchAccess env p st)"
proof (cases "map_of (streams st) p")
  case (Some s)
  note ok = inv_stream[OF inv Some]
  show ?thesis
    by (rule in_place_survivor[OF inv Some touch_in_place[OF conjunct1[OF ok] conjunct2[OF ok], of "now env"]])
      (simp add: touchAccess_def Some)
qed (use inv in \<open>simp add: touchAccess_def\<close>)

lemma wait_quiet: "waitForMessages env p offset st = (r, st') \<Longrightarrow> quiet exact nc st st'"
proof -
  assume w: "waitForMessages env p offset st = (r, st')"
  obtain cur st1 where g: "getIfNotExpired env p st = (cur, st1)" by fastforce
  obtain rd st2 where rd: "read env p (Some offset) st1 = (rd, st2)" by fastforce
  have 1: "quiet exact nc st st1" by (rule getIfNotExpired_quiet[OF g])
  have 2: "quiet exact nc st st2" by (rule quiet_trans[OF 1 read_quiet[OF rd]])
  have "streams st' = streams st1 \<or> streams st' = streams st2"
    using w g rd by (auto simp: waitForMessages_def Let_def split: option.splits if_splits sum.splits)
  then show ?thesis using 1 2 quiet_cong by metis
qed

lemma cancel_loop_quiet: "quiet exact nc st (cancel_loop env i arr same st)"
proof (induction env i arr same st rule: cancel_loop.induct)
  case (1 env i arr same st)
  show ?case
  proof (cases "i < length arr")
    case True
    let ?q = "arr ! i"
    have "quiet exact nc st (clear_timer ?q st)" by (rule quiet_refl) simp
    also have "quiet exact nc \<dots> (poll_resolve env [] ?q (clear_timer ?q st))" by (rule poll_resolve_quiet)
    also note 1[OF True refl]
    finally show ?thesis using True by (subst cancel_loop.simps) (simp add: Let_def)
  qed (simp add: cancel_loop.simps)
qed

lemma cancelAllWaits_quiet: "quiet exact nc st (cancelAllWaits env st)"
  by (rule quiet_cong[OF _ cancel_loop_quiet[of exact nc st env 0 "pendingLongPolls st" True]])
    (simp add: cancelAllWaits_def)

section \<open>Steps\<close>

datatype store_op =
    Create string create_options
  | Append string bytes append_options
  | CloseStream string
  | CloseWithProducer string string nat nat
  | Delete string
  | Get string
  | Read string "string option"
  | TouchAccess string
  | WaitForMessages string string
  | FireTimeout pending_long_poll
  | CancelAllWaits
  | Clear

fun exec :: "js_env \<Rightarrow> store_op \<Rightarrow> store \<Rightarrow> store" where
  "exec env (Create p opts) st = snd (create env p opts st)"
| "exec env (Append p data opts) st = snd (append env p data opts st)"
| "exec env (CloseStream p) st = snd (closeStream env p st)"
| "exec env (CloseWithProducer p i e n) st = snd (closeStreamWithProducer env p i e n st)"
| "exec env (Delete p) st = snd (delete_stream p st)"
| "exec env (Get p) st = snd (get_stream env p st)"
| "exec env (Read p offset) st = snd (read env p offset st)"
| "exec env (TouchAccess p) st = touchAccess env p st"
| "exec env (WaitForMessages p offset) st = snd (waitForMessages env p offset st)"
| "exec env (FireTimeout q) st = fire_timeout env q st"
| "exec env CancelAllWaits st = cancelAllWaits env st"
| "exec env Clear st = clear_store env st"

fun allowed :: "bool \<Rightarrow> js_env \<Rightarrow> store_op \<Rightarrow> store \<Rightarrow> bool" where
  "allowed exact env (Create p opts) st = create_guard exact env p opts st"
| "allowed exact env (Append p data opts) st = append_room env p data st"
| "allowed exact env _ st = True"

inductive reachable :: "bool \<Rightarrow> (utext \<Rightarrow> utext) \<Rightarrow> store \<Rightarrow> bool" for exact nc where
  reach_empty: "reachable exact nc empty_store"
| reach_step: "reachable exact nc st \<Longrightarrow> num_canon env = nc \<Longrightarrow> allowed exact env op st \<Longrightarrow>
    reachable exact nc (exec env op st)"

lemma inv_exec:
  assumes inv: "store_inv exact nc st" and nc: "num_canon env = nc" "nc_ok nc" and a: "allowed exact env op st"
  shows "store_inv exact nc (exec env op st)"
proof -
  have q: "store_inv exact nc st'" if "quiet exact nc st st'" for st' using that inv by (simp add: quiet_def)
  show ?thesis
  proof (cases op)
    case (Create p opts)
    then show ?thesis using inv_create[OF inv nc, of p opts "fst (create env p opts st)"] a by simp
  next
    case (Append p data opts)
    then show ?thesis using inv_append[OF inv nc, of p data opts "fst (append env p data opts st)"] a by simp
  next
    case (Get p)
    then show ?thesis
      using q getIfNotExpired_quiet[of env p st "fst (get_stream env p st)"] by (simp add: get_stream_eq)
  next
    case (Read p offset)
    then show ?thesis using q read_quiet[of env p offset st "fst (read env p offset st)"] by simp
  next
    case (WaitForMessages p offset)
    then show ?thesis using q wait_quiet[of env p offset st "fst (waitForMessages env p offset st)"] by simp
  next
    case Clear
    then show ?thesis
      by (simp add: clear_store_def store_inv_def inv_upto_def streams_ok_def links_ok_def grounded_def refs_ok_def)
  qed (use inv q in \<open>auto simp: inv_closeStream inv_closeStreamWithProducer inv_touchAccess delete_quiet
      fire_timeout_quiet cancelAllWaits_quiet\<close>)
qed

lemma reachable_store_inv: "reachable exact nc st \<Longrightarrow> nc_ok nc \<Longrightarrow> store_inv exact nc st"
  by (induction rule: reachable.induct) (simp_all add: store_inv_empty inv_exec)

text \<open>The content of a stream as a function: by the invariant it exists and is unique.\<close>

lemma reachable_content:
  "reachable exact nc st \<Longrightarrow> nc_ok nc \<Longrightarrow> map_of (streams st) p = Some s \<Longrightarrow> \<exists>ms. content (streams st) p ms"
  using inv_uptoD(5)[of exact nc "{}" "streams st"] reachable_store_inv
  unfolding store_inv_def grounded_def by blast

end
