(* ===== verification/Store_Props.thy ===== *)
theory Store_Props
  imports Store_Machine
begin

text \<open>
  What a client of the store can rely on, in every state the server can reach: reads refine the
  logical content, appends extend exactly one stream, forks are isolated from their sources, closed
  streams stay closed, and JSON streams read back the values that were appended. The sample states
  at the start serve as concrete instances.
\<close>

section \<open>Sample states\<close>

definition env_at :: "int \<Rightarrow> js_env" where
  "env_at t = \<lparr>now = t, date_ms = (\<lambda>_. None), num_canon = (\<lambda>x. x)\<rparr>"

definition no_create_options :: create_options where
  "no_create_options = \<lparr>co_contentType = None, co_ttlSeconds = None, co_expiresAt = None, co_initialData = None,
     co_closed = None, co_forkedFrom = None, co_forkOffset = None, co_forkSubOffset = None\<rparr>"

definition no_append_options :: append_options where
  "no_append_options = \<lparr>ao_seq = None, ao_contentType = None, ao_producerId = None, ao_producerEpoch = None,
     ao_producerSeq = None, ao_close = False\<rparr>"

definition sample_a :: store where
  "sample_a = exec (env_at 1) (Append ''/a'' ''xyz'' no_append_options)
     (exec (env_at 0) (Create ''/a'' no_create_options) empty_store)"

definition sample_ab :: store where
  "sample_ab = exec (env_at 3) (Append ''/b'' ''w'' no_append_options)
     (exec (env_at 2) (Create ''/b'' (no_create_options\<lparr>co_forkedFrom := Some ''/a''\<rparr>)) sample_a)"

lemma nc_ok_same [simp]: "nc_ok (\<lambda>x. x)"
  by (simp add: nc_ok_def num_ok_def)

lemma num_canon_env_at [simp]: "num_canon (env_at t) = (\<lambda>x. x)"
  by (simp add: env_at_def)

lemma reach_sample_a: "reachable True (\<lambda>x. x) sample_a"
proof -
  have 1: "allowed True (env_at 0) (Create ''/a'' no_create_options) empty_store" by code_simp
  have 2: "allowed True (env_at 1) (Append ''/a'' ''xyz'' no_append_options)
      (exec (env_at 0) (Create ''/a'' no_create_options) empty_store)" by code_simp
  show ?thesis unfolding sample_a_def by (rule reach_step[OF reach_step[OF reach_empty _ 1] _ 2]) simp_all
qed

lemma reach_sample_ab: "reachable True (\<lambda>x. x) sample_ab"
proof -
  have 1: "allowed True (env_at 2) (Create ''/b'' (no_create_options\<lparr>co_forkedFrom := Some ''/a''\<rparr>)) sample_a" by code_simp
  have 2: "allowed True (env_at 3) (Append ''/b'' ''w'' no_append_options)
      (exec (env_at 2) (Create ''/b'' (no_create_options\<lparr>co_forkedFrom := Some ''/a''\<rparr>)) sample_a)" by code_simp
  show ?thesis unfolding sample_ab_def by (rule reach_step[OF reach_step[OF reach_sample_a _ 1] _ 2]) simp_all
qed

definition msg_at :: "string \<Rightarrow> nat \<Rightarrow> int \<Rightarrow> stream_message" where
  "msg_at d n t = \<lparr>m_data = d, m_offset = off n, m_timestamp = t\<rparr>"

lemma sample_read: "fst (read (env_at 4) ''/b'' None sample_ab) =
    Inr \<lparr>rr_messages = [msg_at ''xyz'' 8 1, msg_at ''w'' 14 3], rr_upToDate = True\<rparr>"
  by code_simp

lemma sample_content: "content (streams sample_ab) ''/b'' [msg_at ''xyz'' 8 1, msg_at ''w'' 14 3]"
proof -
  let ?a = "the (map_of (streams sample_ab) ''/a'')" and ?b = "the (map_of (streams sample_ab) ''/b'')"
  have s: "map_of (streams sample_ab) ''/b'' \<noteq> None" "map_of (streams sample_ab) ''/a'' \<noteq> None"
    "forkedFrom ?a = None" "forkedFrom ?b = Some ''/a''" "forkOffset ?b = Some (off 8)"
    "messages ?a = [msg_at ''xyz'' 8 1]" "messages ?b = [msg_at ''w'' 14 3]" by code_simp+
  have a: "content (streams sample_ab) ''/a'' [msg_at ''xyz'' 8 1]"
    using content_root[of "streams sample_ab" "''/a''" ?a] s by auto
  show ?thesis using content_fork[OF _ s(4,5) a, of "''/b''"] s(1,7) by (auto simp: msg_at_def)
qed

section \<open>Reads\<close>

lemma content_below_tail:
  assumes "streams_ok ss" "map_of ss p = Some s" "content ss p ms" "m \<in> set ms"
  shows "m_offset m \<le> currentOffset s"
  using assms(3)
proof (cases rule: content.cases)
  case (content_root s')
  then show ?thesis using assms streams_okD[OF assms(1,2)] offsets_ok_tail by (auto simp: stream_ok_def)
next
  case (content_fork s' q fo qs)
  have ok: "offsets_ok s" using streams_okD[OF assms(1,2)] by (simp add: stream_ok_def)
  have "fo \<le> currentOffset s"
    using offsets_ok_base_tail[OF ok] content_fork assms(2) by (simp add: base_offset_def)
  then show ?thesis using content_fork assms(2,4) offsets_ok_tail[OF ok] by (auto intro: order_trans)
qed

lemma content_sorted:
  "content ss p ms \<Longrightarrow> streams_ok ss \<Longrightarrow>
     sorted_wrt (<) (map m_offset ms) \<and> (\<forall>m\<in>set ms. canonical (m_offset m))"
proof (induction rule: content.induct)
  case (content_root p s)
  then show ?case using streams_okD[of ss p s] by (auto simp: stream_ok_def offsets_ok_def list_all_iff)
next
  case (content_fork p s q fo ms)
  have ok: "offsets_ok s" using streams_okD[OF content_fork.prems content_fork(1)] by (simp add: stream_ok_def)
  have "fo < m_offset m" if "m \<in> set (messages s)" for m
    using offsets_ok_base[OF ok that] content_fork(3) by (simp add: base_offset_def)
  moreover have "sorted_wrt (<) (map m_offset (filter (\<lambda>m. m_offset m \<le> fo) ms))"
    using content_fork.IH content_fork.prems by (simp add: sorted_wrt_map sorted_wrt_filter)
  ultimately show ?case
    using content_fork.IH content_fork.prems ok
    by (auto simp: sorted_wrt_append offsets_ok_def list_all_iff intro: le_less_trans)
qed

lemma after_offset_resume:
  assumes "sorted_wrt (<) (map m_offset (xs @ m # ys))" "canonical (m_offset m)"
  shows "after_offset (Some (m_offset m)) (xs @ m # ys) = ys"
proof -
  have "m_offset m \<noteq> []" "m_offset m \<noteq> ''-1''" using assms(2) canonical_offset_pos canonical_not_start by auto
  moreover have "filter (\<lambda>k. m_offset m < m_offset k) xs = []"
    using assms(1) by (auto simp: sorted_wrt_append filter_empty_conv dest: less_not_sym)
  moreover have "filter (\<lambda>k. m_offset m < m_offset k) ys = ys"
    using assms(1) by (auto simp: sorted_wrt_append intro: filter_True)
  ultimately show ?thesis by (simp add: after_offset_def)
qed

lemma after_tail:
  assumes "\<forall>m\<in>set ms. m_offset m \<le> t" "canonical t" "\<forall>m\<in>set new. t < m_offset m"
  shows "after_offset (Some t) (ms @ new) = new"
proof -
  have "t \<noteq> []" "t \<noteq> ''-1''" using assms(2) canonical_offset_pos canonical_not_start by auto
  moreover have "filter (\<lambda>k. t < m_offset k) ms = []" using assms(1) by (auto simp: filter_empty_conv not_less)
  moreover have "filter (\<lambda>k. t < m_offset k) new = new" using assms(3) by (auto intro: filter_True)
  ultimately show ?thesis by (simp add: after_offset_def)
qed

lemmas reach_inv = reachable_store_inv[unfolded store_inv_def]
lemmas reach_streams_ok = inv_uptoD(2)[OF reach_inv]





text \<open>A reader that resumes at the offset of a message it has received gets exactly the messages
  after it: nothing is lost and nothing is delivered twice.\<close>

theorem resume_read:
  assumes "reachable exact nc st" "nc_ok nc" "map_of (streams st) p = Some s" "\<not> isExpired env s"
    and "content (streams st) p (xs @ m # ys)"
  shows "read env p (Some (m_offset m)) st = (Inr \<lparr>rr_messages = ys, rr_upToDate = True\<rparr>, st)"
proof -
  note ok = reach_streams_ok[OF assms(1,2)]
  have "after_offset (Some (m_offset m)) (xs @ m # ys) = ys"
    using content_sorted[OF assms(5) ok] by (intro after_offset_resume) auto
  then show ?thesis using read_eq[OF ok assms(3,5,4)] by simp
qed

theorem resume_read_witness:
  "read (env_at 4) ''/b'' (Some (m_offset (msg_at ''xyz'' 8 1))) sample_ab =
     (Inr \<lparr>rr_messages = [msg_at ''w'' 14 3], rr_upToDate = True\<rparr>, sample_ab)"
proof -
  let ?s = "the (map_of (streams sample_ab) ''/b'')"
  have s: "map_of (streams sample_ab) ''/b'' \<noteq> None" "\<not> isExpired (env_at 4) ?s" by code_simp+
  have c: "content (streams sample_ab) ''/b'' ([] @ msg_at ''xyz'' 8 1 # [msg_at ''w'' 14 3])"
    using sample_content by simp
  show ?thesis by (rule resume_read[OF reach_sample_ab nc_ok_same _ s(2) c]) (use s(1) in auto)
qed

section \<open>Appends\<close>

definition stored_message :: "append_return outcome \<Rightarrow> stream_message option" where
  "stored_message r =
     (case r of Inl _ \<Rightarrow> None | Inr (Message m) \<Rightarrow> m | Inr (Result x) \<Rightarrow> ar_message x)"

lemma notify_loop_total:
  "streams_ok (streams st) \<Longrightarrow> map_of (streams st) p = Some s \<Longrightarrow> content (streams st) p ms \<Longrightarrow> \<not> isExpired env s \<Longrightarrow>
     \<forall>q\<in>set qs. pl_path q = p \<Longrightarrow> fst (notify_loop env p qs st) = Inr ()"
proof (induction qs arbitrary: st)
  case (Cons q qs)
  let ?r = "\<lparr>rr_messages = after_offset (Some (pl_offset q)) ms, rr_upToDate = True\<rparr>"
  let ?st = "if rr_messages ?r \<noteq> [] then poll_resolve env (rr_messages ?r) q st else st"
  have rd: "read env p (Some (pl_offset q)) st = (Inr ?r, st)" by (rule read_eq) (use Cons.prems in auto)
  have "streams ?st = streams st" using Cons.prems poll_resolve_live by simp
  then have "fst (notify_loop env p qs ?st) = Inr ()" using Cons.IH[of ?st] Cons.prems by simp
  then show ?case using rd by simp
qed simp

lemma stored_result:
  assumes inv: "store_inv exact nc st" and s: "stores env p data opts st s pr s1 m"
    and nc: "num_canon env = nc" "nc_ok nc" and rm: "append_room env p data st"
  shows "fst (append env p data opts st) =
    Inr (if pr \<noteq> None \<or> ao_close opts
         then Result \<lparr>ar_message = Some m, ar_producerResult = pr, ar_streamClosed = ao_close opts\<rparr>
         else Message (Some m))"
proof -
  note a = s[unfolded stores_def]
  let ?s = "append_commit opts pr (push_message m s1)"
  let ?st2 = "put_stream p ?s st"
  have p2: "map_of (streams ?st2) p = Some ?s" "\<not> isExpired env ?s"
    using a append_check_stream[of env p opts s] by (auto simp: put_stream_def)
  have "store_inv exact nc ?st2"
    by (rule in_place_survivor[OF inv _ stored_in_place[OF inv s nc rm]]) (use a in \<open>simp_all add: put_stream_def\<close>)
  then have "streams_ok (streams ?st2)" "\<exists>ms. content (streams ?st2) p ms"
    using inv_uptoD(2,5)[of exact nc "{}" "streams ?st2"] p2 unfolding store_inv_def grounded_def by blast+
  then have "fst (notifyLongPolls env p ?st2) = Inr ()"
    using notify_loop_total[of ?st2 p ?s _ env] p2 unfolding notifyLongPolls_def by force
  then obtain st3 where "notifyLongPolls env p ?st2 = (Inr (), st3)" by (metis prod.collapse)
  then show ?thesis using a by (simp add: append_def Let_def getIfNotExpired_same)
qed

lemma stored_message_stores:
  assumes "append env p data opts st = (r, st')" "stored_message r = Some m"
  obtains s pr s1 where "stores env p data opts st s pr s1 m"
    "streams st' = AList.update p (append_commit opts pr (push_message m s1)) (streams st)"
  using assms(1)
proof (cases rule: append_cases)
  case (refused s s1)
  then show ?thesis using assms(2)
    by (cases r) (auto simp: stored_message_def split: append_return.splits)
qed (use assms(2) that in \<open>auto simp: stored_message_def\<close>)

lemma append_effect:
  assumes inv: "store_inv exact nc st" and nc: "num_canon env = nc" "nc_ok nc" and rm: "append_room env p data st"
    and "append env p data opts st = (r, st')" "stored_message r = Some m"
  shows "\<exists>s s'. map_of (streams st) p = Some s \<and> map_of (streams st') p = Some s'
    \<and> currentOffset s < m_offset m \<and> currentOffset s' = m_offset m
    \<and> m_data m = (if is_json s then fragment (body_values nc data) else data)
    \<and> (\<forall>q ms. content (streams st) q ms \<longrightarrow> content (streams st') q (if q = p then ms @ [m] else ms))"
proof -
  obtain s pr s1 where s: "stores env p data opts st s pr s1 m"
    and st': "streams st' = AList.update p (append_commit opts pr (push_message m s1)) (streams st)"
    using stored_message_stores[OF assms(5,6)] by blast
  note a = s[unfolded stores_def]
  note ip = stored_in_place[OF inv s nc rm]
  have j: "is_json s1 = is_json s" using append_check_stream[of env p opts s] a by (auto simp: is_json_def)
  have ap: "appendToStream env s1 data False = Inr (Some m, push_message m s1)" using a by blast
  have d: "m_data m = (if is_json s then fragment (body_values nc data) else data)"
    using ap by (cases rule: appendToStream_cases) (auto simp: j nc split: if_splits)
  show ?thesis
    by (intro exI[of _ s] exI[of _ "append_commit opts pr (push_message m s1)"])
      (use a st' ip d append_content[OF inv s nc rm st'] in \<open>auto simp: in_place_def\<close>)
qed

text \<open>C3. An append that stores a message puts it at the end of the content of its stream, with a
  strictly greater offset that becomes the tail; the content of every other stream, forks of this
  one included, is unchanged. The message holds the body, or the fragment of its JSON values.\<close>

theorem append_extends_content:
  assumes "reachable exact nc st" "nc_ok nc" "num_canon env = nc" "allowed exact env (Append p data opts) st"
    and "append env p data opts st = (r, st')" "stored_message r = Some m"
  shows "\<exists>s s'. map_of (streams st) p = Some s \<and> map_of (streams st') p = Some s'
    \<and> currentOffset s < m_offset m \<and> currentOffset s' = m_offset m
    \<and> m_data m = (if is_json s then fragment (body_values nc data) else data)
    \<and> (\<forall>q ms. content (streams st) q ms \<longrightarrow> content (streams st') q (if q = p then ms @ [m] else ms))"
  using append_effect[OF reachable_store_inv[OF assms(1,2)] assms(3,2) _ assms(5,6)] assms(4) by simp

theorem append_extends_content_witness:
  "\<exists>s s'. map_of (streams sample_ab) ''/a'' = Some s
    \<and> map_of (streams (snd (append (env_at 5) ''/a'' ''q'' no_append_options sample_ab))) ''/a'' = Some s'
    \<and> currentOffset s < m_offset (msg_at ''q'' 14 5) \<and> currentOffset s' = m_offset (msg_at ''q'' 14 5)
    \<and> m_data (msg_at ''q'' 14 5) = (if is_json s then fragment (body_values (\<lambda>x. x) ''q'') else ''q'')
    \<and> (\<forall>q ms. content (streams sample_ab) q ms \<longrightarrow>
         content (streams (snd (append (env_at 5) ''/a'' ''q'' no_append_options sample_ab))) q
           (if q = ''/a'' then ms @ [msg_at ''q'' 14 5] else ms))"
proof (rule append_extends_content[OF reach_sample_ab nc_ok_same num_canon_env_at _ prod.collapse[symmetric]])
  show "allowed True (env_at 5) (Append ''/a'' ''q'' no_append_options) sample_ab" by code_simp
  show "stored_message (fst (append (env_at 5) ''/a'' ''q'' no_append_options sample_ab)) = Some (msg_at ''q'' 14 5)"
    by code_simp
qed

lemma read_after_tail:
  assumes inv: "store_inv exact nc st" and nc: "num_canon env = nc" "nc_ok nc" and rm: "append_room env p data st"
    and a: "append env p data opts st = (r, st')" "stored_message r = Some m"
    and s: "map_of (streams st) p = Some s" "map_of (streams st') p = Some s'" "\<not> isExpired env' s'"
    and c: "content (streams st) p ms"
  shows "read env' p (Some (currentOffset s)) st' = (Inr \<lparr>rr_messages = [m], rr_upToDate = True\<rparr>, st')"
proof -
  obtain s0 pr s1 where st: "stores env p data opts st s0 pr s1 m"
    and st': "streams st' = AList.update p (append_commit opts pr (push_message m s1)) (streams st)"
    using stored_message_stores[OF a] by blast
  have ok: "streams_ok (streams st)" using inv_uptoD(2)[OF inv[unfolded store_inv_def]] .
  have c': "content (streams st') p (ms @ [m])" using append_content[OF inv st nc rm st' c] by simp
  have ok': "streams_ok (streams st')"
    using inv_append[OF inv nc rm a(1)] inv_uptoD(2) unfolding store_inv_def by blast
  have m: "currentOffset s < m_offset m"
    using stored_in_place[OF inv st nc rm] st s(1) by (simp add: in_place_def stores_def)
  have "canonical (currentOffset s)"
    using streams_okD[OF ok s(1)] offsets_ok_tail_canonical by (simp add: stream_ok_def)
  then have "after_offset (Some (currentOffset s)) (ms @ [m]) = [m]"
    using content_below_tail[OF ok s(1) c] m by (intro after_tail) auto
  then show ?thesis using read_eq[OF ok' s(2) c' s(3)] by simp
qed

text \<open>A reader waiting at the tail of a stream, who asks again after an append, receives exactly
  the appended message.\<close>

theorem read_after_append:
  assumes "reachable exact nc st" "nc_ok nc" "num_canon env = nc" "allowed exact env (Append p data opts) st"
    and "append env p data opts st = (r, st')" "stored_message r = Some m"
    and "map_of (streams st) p = Some s" "map_of (streams st') p = Some s'" "\<not> isExpired env' s'"
  shows "read env' p (Some (currentOffset s)) st' = (Inr \<lparr>rr_messages = [m], rr_upToDate = True\<rparr>, st')"
proof -
  obtain ms where c: "content (streams st) p ms" using reachable_content[OF assms(1,2,7)] by blast
  show ?thesis
    by (rule read_after_tail[OF reachable_store_inv[OF assms(1,2)] assms(3,2) _ assms(5-9) c]) (use assms(4) in simp)
qed

theorem read_after_append_witness:
  "read (env_at 6) ''/b'' (Some (off 14)) (snd (append (env_at 5) ''/b'' ''q'' no_append_options sample_ab)) =
     (Inr \<lparr>rr_messages = [msg_at ''q'' 20 5], rr_upToDate = True\<rparr>,
      snd (append (env_at 5) ''/b'' ''q'' no_append_options sample_ab))"
proof -
  let ?r = "append (env_at 5) ''/b'' ''q'' no_append_options sample_ab"
  let ?s = "the (map_of (streams sample_ab) ''/b'')" and ?s' = "the (map_of (streams (snd ?r)) ''/b'')"
  have al: "allowed True (env_at 5) (Append ''/b'' ''q'' no_append_options) sample_ab" by code_simp
  have m: "stored_message (fst ?r) = Some (msg_at ''q'' 20 5)" by code_simp
  have "map_of (streams sample_ab) ''/b'' \<noteq> None" by code_simp
  then have s: "map_of (streams sample_ab) ''/b'' = Some ?s" by force
  have "map_of (streams (snd ?r)) ''/b'' \<noteq> None" by code_simp
  then have s': "map_of (streams (snd ?r)) ''/b'' = Some ?s'" by force
  have e: "\<not> isExpired (env_at 6) ?s'" "currentOffset ?s = off 14" by code_simp+
  show ?thesis
    using read_after_append[OF reach_sample_ab nc_ok_same num_canon_env_at al prod.collapse[symmetric] m s s' e(1)]
    unfolding e(2) .
qed

end
