(* ===== verification/Producers.thy ===== *)
theory Producers
  imports Store_Write
begin

text \<open>
  The contract of idempotent producers (Kafka-style epochs and sequence numbers) as a locale,
  interpreted on the decision of \<^verbatim>\<open>StreamStore.validateProducer\<close> (server/src/store.ts) and on the pure
  function \<^verbatim>\<open>validateProducer\<close> of server-cloudflare/src/producer.ts. From the contract: whatever
  requests arrive, in whatever order and however often, the accepted ones form a gap-free sequence
  without repetition.
\<close>

section \<open>The contract\<close>

text \<open>The request that comes next for a producer: the first of a new producer or epoch, or the
  successor of the last one.\<close>

definition next_ok :: "producer_state option \<Rightarrow> nat \<Rightarrow> nat \<Rightarrow> bool" where
  "next_ok st e n \<longleftrightarrow>
     (case st of
        None \<Rightarrow> n = 0
      | Some s \<Rightarrow> ps_epoch s < e \<and> n = 0 \<or> e = ps_epoch s \<and> n = ps_lastSeq s + 1)"

text \<open>The accepted requests of a run, the state being committed after each of them.\<close>

fun accepted_log :: "(int \<Rightarrow> producer_state option \<Rightarrow> string \<Rightarrow> nat \<Rightarrow> nat \<Rightarrow> producer_validation_result) \<Rightarrow>
    string \<Rightarrow> producer_state option \<Rightarrow> (int \<times> nat \<times> nat) list \<Rightarrow> (nat \<times> nat) list" where
  "accepted_log decide i st [] = []"
| "accepted_log decide i st ((t, e, n) # reqs) =
     (case decide t st i e n of
        Accepted _ s _ \<Rightarrow> (e, n) # accepted_log decide i (Some s) reqs
      | _ \<Rightarrow> accepted_log decide i st reqs)"

fun follows :: "(nat \<times> nat) option \<Rightarrow> (nat \<times> nat) list \<Rightarrow> bool" where
  "follows prev [] \<longleftrightarrow> True"
| "follows prev ((e, n) # log) \<longleftrightarrow>
     (case prev of None \<Rightarrow> n = 0 | Some (e0, n0) \<Rightarrow> e0 < e \<and> n = 0 \<or> e = e0 \<and> n = n0 + 1)
     \<and> follows (Some (e, n)) log"

lemma follows_after:
  "follows (Some (e0, n0)) log \<Longrightarrow> (e, n) \<in> set log \<Longrightarrow> e0 < e \<or> e = e0 \<and> n0 < n"
proof (induction log arbitrary: e0 n0)
  case (Cons a log)
  obtain e1 n1 where a: "a = (e1, n1)" by (cases a)
  with Cons.prems have "e0 < e1 \<or> e1 = e0 \<and> n1 = n0 + 1" "follows (Some (e1, n1)) log" by auto
  with Cons.IH[of e1 n1] Cons.prems(2) a show ?case by auto
qed simp

lemma follows_distinct: "follows prev log \<Longrightarrow> distinct log"
proof (induction log arbitrary: prev)
  case (Cons a log)
  obtain e n where a: "a = (e, n)" by (cases a)
  with Cons.prems have "follows (Some (e, n)) log" by simp
  with Cons.IH follows_after[of e n log e n] a show ?case by auto
qed simp

lemma follows_gapless:
  "follows prev log \<Longrightarrow> (e, Suc n) \<in> set log \<Longrightarrow> prev \<noteq> Some (e, n) \<Longrightarrow> (e, n) \<in> set log"
proof (induction log arbitrary: prev)
  case (Cons a log)
  obtain e1 n1 where a: "a = (e1, n1)" by (cases a)
  with Cons show ?case by (cases "(e1, n1) = (e, n)") (auto split: option.splits)
qed simp

locale producer_validator =
  fixes decide :: "int \<Rightarrow> producer_state option \<Rightarrow> string \<Rightarrow> nat \<Rightarrow> nat \<Rightarrow> producer_validation_result"
  assumes accepted_next: "decide t st i e n = Accepted b s i' \<Longrightarrow>
      next_ok st e n \<and> i' = i \<and> s = \<lparr>ps_epoch = e, ps_lastSeq = n, ps_lastUpdated = t\<rparr>"
    and next_accepted: "next_ok st e n \<Longrightarrow> is_accepted (decide t st i e n)"
    and retry_duplicate: "ps_epoch s = e \<Longrightarrow> n \<le> ps_lastSeq s \<Longrightarrow>
      decide t (Some s) i e n = Duplicate (Some (ps_lastSeq s))"
    and older_stale: "e < ps_epoch s \<Longrightarrow> decide t (Some s) i e n = StaleEpoch (ps_epoch s)"
begin

definition last_pair :: "producer_state option \<Rightarrow> (nat \<times> nat) option" where
  "last_pair st = map_option (\<lambda>s. (ps_epoch s, ps_lastSeq s)) st"

lemma log_follows: "follows (last_pair st) (accepted_log decide i st reqs)"
proof (induction reqs arbitrary: st)
  case (Cons r reqs)
  obtain t e n where r: "r = (t, e, n)" by (cases r)
  show ?case
  proof (cases "decide t st i e n")
    case (Accepted b s i')
    note a = accepted_next[OF this]
    have "follows (last_pair (Some s)) (accepted_log decide i (Some s) reqs)" by (rule Cons.IH)
    then show ?thesis using Accepted a r by (auto simp: last_pair_def next_ok_def split: option.splits)
  qed (use Cons.IH r in auto)
qed simp

text \<open>Retries change nothing: a request already in the log is not accepted again.\<close>

lemma log_distinct: "distinct (accepted_log decide i None reqs)"
  using log_follows[of None] by (rule follows_distinct)

lemma log_gapless:
  "(e, Suc n) \<in> set (accepted_log decide i None reqs) \<Longrightarrow> (e, n) \<in> set (accepted_log decide i None reqs)"
  using log_follows[of None] by (rule follows_gapless) (simp_all add: last_pair_def)

lemma accepted_iff_next: "is_accepted (decide t st i e n) \<longleftrightarrow> next_ok st e n"
proof
  assume "is_accepted (decide t st i e n)"
  then show "next_ok st e n"
    using accepted_next by (cases "decide t st i e n") (auto simp: is_accepted_def)
qed (rule next_accepted)

end

section \<open>The reference server\<close>

interpretation srv: producer_validator producer_decision
proof
  show "next_ok st e n \<and> i' = i \<and> s = \<lparr>ps_epoch = e, ps_lastSeq = n, ps_lastUpdated = t\<rparr>"
    if "producer_decision t st i e n = Accepted b s i'" for t st i e n b s i'
    using that by (auto simp: producer_decision_def next_ok_def split: option.splits if_splits)
  show "is_accepted (producer_decision t st i e n)" if "next_ok st e n" for st e n t i
    using that by (auto simp: producer_decision_def next_ok_def is_accepted_def split: option.splits)
qed (simp_all add: producer_decision_def)

section \<open>The Cloudflare server\<close>

text \<open>\<^verbatim>\<open>validateProducer\<close> of server-cloudflare/src/producer.ts, ported there as a pure function of the
  stored state.\<close>

definition cf_validateProducer ::
  "producer_state option \<Rightarrow> string \<Rightarrow> nat \<Rightarrow> nat \<Rightarrow> int \<Rightarrow> producer_validation_result" where
  "cf_validateProducer state producerId epoch seq t =
     (case state of
        None \<Rightarrow>
          if seq \<noteq> 0 then SequenceGap 0 seq
          else Accepted True \<lparr>ps_epoch = epoch, ps_lastSeq = 0, ps_lastUpdated = t\<rparr> producerId
      | Some st \<Rightarrow>
          if epoch < ps_epoch st then StaleEpoch (ps_epoch st)
          else if epoch > ps_epoch st then
            (if seq \<noteq> 0 then InvalidEpochSeq
             else Accepted True \<lparr>ps_epoch = epoch, ps_lastSeq = 0, ps_lastUpdated = t\<rparr> producerId)
          else if seq \<le> ps_lastSeq st then Duplicate (Some (ps_lastSeq st))
          else if seq = ps_lastSeq st + 1
          then Accepted False \<lparr>ps_epoch = epoch, ps_lastSeq = seq, ps_lastUpdated = t\<rparr> producerId
          else SequenceGap (ps_lastSeq st + 1) seq)"

lemma cf_decision: "cf_validateProducer st i e n t = producer_decision t st i e n"
  by (simp add: cf_validateProducer_def producer_decision_def)

interpretation cf: producer_validator "\<lambda>t st i e n. cf_validateProducer st i e n t"
  unfolding cf_decision by (rule srv.producer_validator_axioms)

section \<open>Properties\<close>


text \<open>A request is accepted exactly when it is the first of a new producer or epoch or the
  successor of the last accepted one; a retry is answered as a duplicate and an older epoch as
  stale.\<close>

theorem producer_decision_complete:
  "is_accepted (producer_decision t st i e n) = next_ok st e n
   \<and> (st = Some s \<and> e = ps_epoch s \<and> n \<le> ps_lastSeq s \<longrightarrow>
        producer_decision t st i e n = Duplicate (Some (ps_lastSeq s)))
   \<and> (st = Some s \<and> e < ps_epoch s \<longrightarrow> producer_decision t st i e n = StaleEpoch (ps_epoch s))"
  using srv.accepted_iff_next srv.retry_duplicate srv.older_stale by blast

theorem producer_decision_complete_witness:
  "producer_decision 5 (Some \<lparr>ps_epoch = 2, ps_lastSeq = 3, ps_lastUpdated = 0\<rparr>) ''w'' 2 3 = Duplicate (Some 3)
   \<and> producer_decision 5 (Some \<lparr>ps_epoch = 2, ps_lastSeq = 3, ps_lastUpdated = 0\<rparr>) ''w'' 1 9 = StaleEpoch 2"
  using producer_decision_complete[of 5 "Some \<lparr>ps_epoch = 2, ps_lastSeq = 3, ps_lastUpdated = 0\<rparr>" "''w''" 2 3
      "\<lparr>ps_epoch = 2, ps_lastSeq = 3, ps_lastUpdated = 0\<rparr>"]
    producer_decision_complete[of 5 "Some \<lparr>ps_epoch = 2, ps_lastSeq = 3, ps_lastUpdated = 0\<rparr>" "''w''" 1 9
      "\<lparr>ps_epoch = 2, ps_lastSeq = 3, ps_lastUpdated = 0\<rparr>"]
  by simp

end
