(* ===== verification/Store_Lifecycle.thy ===== *)
theory Store_Lifecycle
  imports Store_Props Producers
begin

text \<open>
  Life of a stream in the store: refused appends change nothing, retried appends are recognised,
  closing is final, a fork is a snapshot of its source that outlives it, and deletion leaves no
  garbage behind.
\<close>

section \<open>Refused appends\<close>

text \<open>Two stream objects that differ at most in their marks and in producers forgotten.\<close>

definition same_log :: "stream \<Rightarrow> stream \<Rightarrow> bool" where
  "same_log s s' \<longleftrightarrow>
     messages s' = messages s \<and> currentOffset s' = currentOffset s \<and> closed s' = closed s
     \<and> lastSeq s' = lastSeq s \<and> set (producers s') \<subseteq> set (producers s)"

lemma same_log_refl [simp, intro]: "same_log s s"
  by (simp add: same_log_def)

lemma same_log_cleanup: "same_log s (cleanupExpiredProducers env s)"
  by (auto simp: same_log_def cleanupExpiredProducers_def)

lemma survive_same_log:
  assumes "survive ss ss'" "map_of ss' q = Some s'"
  shows "\<exists>s. map_of ss q = Some s \<and> same_log s s'"
proof -
  from assms obtain s n b where s: "map_of ss q = Some s" "s' = s\<lparr>refCount := n, softDeleted := b\<rparr>" by (rule surviveE)
  have "same_log s s'" by (simp add: same_log_def survive_fields[OF s(2)])
  with s(1) show ?thesis by blast
qed

lemma refused_effect:
  assumes inv: "store_inv exact nc st" and nc: "num_canon env = nc" "nc_ok nc" and rm: "append_room env p data st"
    and a: "append env p data opts st = (r, st')" and m: "stored_message r = None"
  shows "\<forall>q s'. map_of (streams st') q = Some s' \<longrightarrow> (\<exists>s. map_of (streams st) q = Some s \<and> same_log s s')"
    "\<And>q ms. content (streams st) q ms \<Longrightarrow> map_of (streams st') q \<noteq> None \<Longrightarrow> content (streams st') q ms"
proof -
  consider (quiet) "quiet exact nc st st'"
    | (clean) s s1 where "map_of (streams st) p = Some s" "s1 = s \<or> s1 = cleanupExpiredProducers env s"
        "streams st' = AList.update p s1 (streams st)"
    using a
  proof (cases rule: append_cases)
    case absent
    then show ?thesis using getIfNotExpired_quiet that(1) by blast
  next
    case (soft s st1)
    then have "streams st1 = streams st'"
      using getIfNotExpired_present[of env p st s st1] by (simp add: put_stream_def put_same)
    then show ?thesis using that(1) quiet_cong getIfNotExpired_quiet[OF soft(1)] by blast
  next
    case (refused s s1)
    then show ?thesis using that(2) by (simp add: put_stream_def)
  next
    case (stored s pr s1 m')
    then show ?thesis using m stored_result[OF inv stored(1) nc rm] a
      by (auto simp: stored_message_def split: if_splits)
  qed
  note cs = this
  show "\<forall>q s'. map_of (streams st') q = Some s' \<longrightarrow> (\<exists>s. map_of (streams st) q = Some s \<and> same_log s s')"
    using cs
  proof cases
    case quiet
    then show ?thesis using survive_same_log unfolding quiet_def by blast
  next
    case (clean s s1)
    then show ?thesis using same_log_cleanup by auto
  qed
  fix q ms assume c: "content (streams st) q ms" and q: "map_of (streams st') q \<noteq> None"
  show "content (streams st') q ms" using cs
  proof cases
    case quiet
    then show ?thesis using quiet_content[OF quiet inv c] q by blast
  next
    case (clean s s1)
    show ?thesis unfolding clean(3)
      by (rule content_same[OF clean(1) inv_uptoD(4)[OF inv[unfolded store_inv_def]] c]) (use clean(2) in auto)
  qed
qed

text \<open>C15. An append that is refused, for whatever reason (missing, soft-deleted or closed stream,
  type mismatch, duplicate, stale or gapped producer request, sequence conflict, bad JSON), leaves
  every stream's messages, tail and content as they were; it can at most drop expired streams and
  expired producer states.\<close>

theorem refused_append_changes_nothing:
  assumes "reachable exact nc st" "nc_ok nc" "num_canon env = nc" "allowed exact env (Append p data opts) st"
    and "append env p data opts st = (r, st')" "stored_message r = None"
  shows "(\<forall>q s'. map_of (streams st') q = Some s' \<longrightarrow> (\<exists>s. map_of (streams st) q = Some s \<and> same_log s s'))
    \<and> (\<forall>q ms. content (streams st) q ms \<longrightarrow> map_of (streams st') q \<noteq> None \<longrightarrow> content (streams st') q ms)"
  using refused_effect[OF reachable_store_inv[OF assms(1,2)] assms(3,2) _ assms(5,6)] assms(4) by simp

definition stale_request :: append_options where
  "stale_request = no_append_options\<lparr>ao_producerId := Some ''w'', ao_producerEpoch := Some 0, ao_producerSeq := Some 4\<rparr>"

theorem refused_append_changes_nothing_witness:
  "stored_message (fst (append (env_at 5) ''/b'' ''q'' stale_request sample_ab)) = None
   \<and> content (streams (snd (append (env_at 5) ''/b'' ''q'' stale_request sample_ab))) ''/b''
       [msg_at ''xyz'' 8 1, msg_at ''w'' 14 3]"
proof -
  let ?r = "append (env_at 5) ''/b'' ''q'' stale_request sample_ab"
  have al: "allowed True (env_at 5) (Append ''/b'' ''q'' stale_request) sample_ab"
    and m: "stored_message (fst ?r) = None" and p: "map_of (streams (snd ?r)) ''/b'' \<noteq> None" by code_simp+
  show ?thesis
    using refused_append_changes_nothing[OF reach_sample_ab nc_ok_same num_canon_env_at al prod.collapse[symmetric] m]
      m p sample_content by blast
qed

section \<open>Retries\<close>

lemma map_of_filter_keep:
  "map_of l k = Some v \<Longrightarrow> P k v \<Longrightarrow> map_of (filter (\<lambda>(k, v). P k v) l) k = Some v"
  by (induction l) (auto split: if_splits)

lemma proceed_producer:
  assumes "append_check env p opts s = (Proceed pr, s1)" "producer_headers opts = Some (i, e, n)"
  obtains b where "pr = Some (Accepted b \<lparr>ps_epoch = e, ps_lastSeq = n, ps_lastUpdated = now env\<rparr> i)"
    "s1 = cleanupExpiredProducers env s"
proof -
  let ?d = "producer_decision (now env) (map_of (producers (cleanupExpiredProducers env s)) i) i e n"
  have pr: "pr = Some ?d" "is_accepted ?d" "s1 = cleanupExpiredProducers env s"
    using assms by (auto simp: append_check_def validateProducer_def seq_check_def Let_def
        split: if_splits option.splits prod.splits)
  then show thesis using that srv.accepted_next by (cases ?d) (auto simp: is_accepted_def)
qed

lemma proceed_type:
  "append_check env p opts s = (Proceed pr, s1) \<Longrightarrow>
     \<not> (truthy (ao_contentType opts) \<and> truthy (contentType s)
        \<and> normalizeContentType (ao_contentType opts) \<noteq> normalizeContentType (contentType s))"
  by (auto simp: append_check_def split: if_splits)

text \<open>The stream after an accepted producer request, seen by the same request again.\<close>

lemma retry_check:
  assumes c: "append_check env p opts s = (Proceed pr, s1)" and h: "producer_headers opts = Some (i, e, n)"
    and i: "i \<noteq> []" and ttl: "now env' - now env \<le> PRODUCER_STATE_TTL_MS"
  obtains s2 where "append_check env' p opts (append_commit opts pr (push_message m s1)) =
      (Early \<lparr>ar_message = None, ar_producerResult = Some (Duplicate (Some n)), ar_streamClosed = ao_close opts\<rparr>, s2)"
proof -
  let ?s = "append_commit opts pr (push_message m s1)"
  let ?ps = "\<lparr>ps_epoch = e, ps_lastSeq = n, ps_lastUpdated = now env\<rparr>"
  obtain b where pr: "pr = Some (Accepted b ?ps i)" "s1 = cleanupExpiredProducers env s"
    using proceed_producer[OF c h] by blast
  have ids: "ao_producerId opts = Some i" "ao_producerEpoch opts = Some e" "ao_producerSeq opts = Some n"
    using h by (auto simp: producer_headers_def split: option.splits)
  have live: "\<not> softDeleted s" "\<not> closed s" using append_check_proceed[OF c] by auto
  have f: "softDeleted ?s = softDeleted s" "contentType ?s = contentType s"
    "map_of (producers ?s) i = Some ?ps"
    by (auto simp: pr append_commit_def commitProducerState_def Let_def split: option.splits)
  show thesis
  proof (cases "ao_close opts")
    case True
    then have "closedBy ?s = Some \<lparr>cb_producerId = i, cb_epoch = Some e, cb_seq = Some n\<rparr>"
      by (simp add: append_commit_def Let_def ids)
    then show ?thesis using that True live f i ids
      by (simp add: append_check_def is_closing_duplicate_def)
  next
    case False
    have "map_of (producers (cleanupExpiredProducers env' ?s)) i = Some ?ps"
      using map_of_filter_keep[OF f(3), of "\<lambda>_ st. \<not> now env' - ps_lastUpdated st > PRODUCER_STATE_TTL_MS"] ttl
      by (simp add: cleanupExpiredProducers_def)
    then have "validateProducer env' ?s i e n = (Duplicate (Some n), cleanupExpiredProducers env' ?s)"
      using srv.retry_duplicate[of ?ps e n "now env'" i] by (simp add: validateProducer_def)
    then show ?thesis using that False live f h proceed_type[OF c] pr(2)
      by (simp add: append_check_def is_accepted_def)
  qed
qed


definition w_request :: append_options where
  "w_request = no_append_options\<lparr>ao_producerId := Some ''w'', ao_producerEpoch := Some 1, ao_producerSeq := Some 0,
     ao_close := True\<rparr>"


section \<open>Streams are append-only and closing is final\<close>

definition grows :: "stream \<Rightarrow> stream \<Rightarrow> bool" where
  "grows s s' \<longleftrightarrow>
     (\<exists>new. messages s' = messages s @ new) \<and> currentOffset s \<le> currentOffset s'
     \<and> forkedFrom s' = forkedFrom s \<and> forkOffset s' = forkOffset s \<and> contentType s' = contentType s
     \<and> (closed s \<longrightarrow> closed s' \<and> messages s' = messages s \<and> currentOffset s' = currentOffset s)"

lemma grows_refl [simp, intro]: "grows s s"
  by (simp add: grows_def)

lemma in_place_grows: "in_place s s' [] \<Longrightarrow> closed s \<longrightarrow> closed s' \<Longrightarrow> currentOffset s' = currentOffset s \<Longrightarrow> grows s s'"
  by (simp add: in_place_def grows_def)

lemma in_place_open: "in_place s s' new \<Longrightarrow> \<not> closed s \<Longrightarrow> grows s s'"
  by (auto simp: in_place_def grows_def)

text \<open>Every surviving stream of a map is a grown stream of another.\<close>

definition all_grow :: "(string, stream) jsmap \<Rightarrow> (string, stream) jsmap \<Rightarrow> bool" where
  "all_grow ss ss' \<longleftrightarrow> (\<forall>q s'. map_of ss' q = Some s' \<longrightarrow> (\<exists>s. map_of ss q = Some s \<and> grows s s'))"

lemma all_grow_refl [simp, intro]: "all_grow ss ss"
  by (auto simp: all_grow_def)

lemma all_grow_update: "map_of ss p = Some s \<Longrightarrow> grows s s' \<Longrightarrow> all_grow ss (AList.update p s' ss)"
  by (auto simp: all_grow_def)

lemma survive_grow: "survive ss ss' \<Longrightarrow> all_grow ss ss'"
  unfolding all_grow_def
proof (intro allI impI)
  fix q s' assume "survive ss ss'" "map_of ss' q = Some s'"
  then obtain s n b where s: "map_of ss q = Some s" "s' = s\<lparr>refCount := n, softDeleted := b\<rparr>" by (rule surviveE)
  have "grows s s'" by (simp add: grows_def survive_fields[OF s(2)])
  with s(1) show "\<exists>s. map_of ss q = Some s \<and> grows s s'" by blast
qed

lemma survive_then_grow: "survive ss ss1 \<Longrightarrow> all_grow ss1 ss' \<Longrightarrow> all_grow ss ss'"
  unfolding all_grow_def
proof (intro allI impI)
  fix q s' assume "survive ss ss1" "\<forall>q s'. map_of ss' q = Some s' \<longrightarrow> (\<exists>s. map_of ss1 q = Some s \<and> grows s s')"
    "map_of ss' q = Some s'"
  then obtain s1 where s1: "map_of ss1 q = Some s1" "grows s1 s'" by blast
  with \<open>survive ss ss1\<close> obtain s n b where s: "map_of ss q = Some s" "s1 = s\<lparr>refCount := n, softDeleted := b\<rparr>"
    by (auto elim: surviveE)
  have "grows s s'" using s1(2) by (simp add: grows_def survive_fields[OF s(2)])
  with s(1) show "\<exists>s. map_of ss q = Some s \<and> grows s s'" by blast
qed

lemma grow_then_survive: "all_grow ss ss1 \<Longrightarrow> survive ss1 ss' \<Longrightarrow> all_grow ss ss'"
  unfolding all_grow_def
proof (intro allI impI)
  fix q s' assume g: "\<forall>q s'. map_of ss1 q = Some s' \<longrightarrow> (\<exists>s. map_of ss q = Some s \<and> grows s s')"
    and "survive ss1 ss'" "map_of ss' q = Some s'"
  then obtain s1 n b where s1: "map_of ss1 q = Some s1" "s' = s1\<lparr>refCount := n, softDeleted := b\<rparr>"
    by (auto elim: surviveE)
  with g obtain s where s: "map_of ss q = Some s" "grows s s1" by blast
  have "grows s s'" using s(2) by (simp add: grows_def survive_fields[OF s1(2)])
  with s(1) show "\<exists>s. map_of ss q = Some s \<and> grows s s'" by blast
qed

lemma quiet_grow: "quiet exact nc st st' \<Longrightarrow> all_grow (streams st) (streams st')"
  unfolding quiet_def by (blast intro: survive_grow)

lemma append_grow:
  assumes inv: "store_inv exact nc st" and nc: "num_canon env = nc" "nc_ok nc" and rm: "append_room env p data st"
  shows "all_grow (streams st) (streams (snd (append env p data opts st)))"
proof -
  obtain r st' where a: "append env p data opts st = (r, st')" by fastforce
  from a have "all_grow (streams st) (streams st')"
  proof (cases rule: append_cases)
    case absent
    then show ?thesis using getIfNotExpired_quiet quiet_grow by blast
  next
    case (soft s st1)
    then have "streams st1 = streams st'"
      using getIfNotExpired_present[of env p st s st1] by (simp add: put_stream_def put_same)
    then show ?thesis using quiet_grow[OF getIfNotExpired_quiet[OF soft(1), of exact nc]] by simp
  next
    case (refused s s1)
    have "grows s s1" using refused(4) by (auto simp: grows_def)
    then show ?thesis using all_grow_update[OF refused(1)] refused(5) by (simp add: put_stream_def)
  next
    case (stored s pr s1 m)
    note ip = stored_in_place[OF inv stored(1) nc rm]
    have "\<not> closed s" "map_of (streams st) p = Some s"
      using append_check_proceed[of env p opts s pr s1] stored(1) by (auto simp: stores_def)
    then show ?thesis using all_grow_update in_place_open ip stored(2) by metis
  qed
  with a show ?thesis by simp
qed

lemma close_grow:
  assumes inv: "store_inv exact nc st"
  shows "all_grow (streams st) (streams (snd (closeStream env p st)))"
proof -
  obtain cur st1 where g: "getIfNotExpired env p st = (cur, st1)" by fastforce
  note q = quiet_grow[OF getIfNotExpired_quiet[OF g, of exact nc]]
  show ?thesis
  proof (cases "\<exists>s. cur = Some s \<and> \<not> softDeleted s")
    case True
    then obtain s where s: "cur = Some s" "\<not> softDeleted s" by blast
    note l = getIfNotExpired_live[OF g[unfolded s(1)] s(2)]
    have p: "map_of (streams st) p = Some s" and ex: "\<not> isExpired env s" using l by auto
    have "grows s (s\<lparr>closed := True\<rparr>)" by (simp add: grows_def)
    then show ?thesis using closeStream_live[OF p ex s(2)] all_grow_update[OF p] by simp
  qed (use g q in \<open>auto simp: closeStream_def split: option.splits\<close>)
qed

lemma close_producer_grow: "all_grow (streams st) (streams (snd (closeStreamWithProducer env p i e n st)))"
proof -
  obtain cur st1 where g: "getIfNotExpired env p st = (cur, st1)" by fastforce
  have q: "survive (streams st) (streams st1)" using getIfNotExpired_quiet[OF g] unfolding quiet_def by blast
  show ?thesis
  proof (cases cur)
    case (Some s)
    note p = getIfNotExpired_present[OF g[unfolded Some]]
    obtain r s1 where v: "validateProducer env s i e n = (r, s1)" by fastforce
    then have s1: "s1 = cleanupExpiredProducers env s" by (simp add: validateProducer_def Let_def)
    let ?s2 = "(commitProducerState s1 r)\<lparr>closed := True, closedBy :=
        Some \<lparr>cb_producerId = i, cb_epoch = Some e, cb_seq = Some n\<rparr>\<rparr>"
    have g1: "grows s s1" by (simp add: s1 grows_def)
    have g2: "grows s ?s2" by (cases r) (simp_all add: s1 commitProducerState_def grows_def)
    note u = survive_then_grow[OF q all_grow_update[OF p]]
    have "all_grow (streams st) (streams (notifyLongPollsClosed env p (put_stream p ?s2 st1)))"
      using grow_then_survive[OF u[OF g2]] notify_closed_quiet[of _ _ "put_stream p ?s2 st1" env p]
      unfolding quiet_def by (simp add: put_stream_def)
    then show ?thesis using g Some v u[OF g1] survive_grow[OF q]
      by (simp add: closeStreamWithProducer_def Let_def put_stream_def)
  qed (use g survive_grow[OF q] in \<open>simp add: closeStreamWithProducer_def\<close>)
qed

lemma create_grow:
  assumes inv: "store_inv exact nc st" and nc: "num_canon env = nc" "nc_ok nc"
    and g: "create_guard exact env p opts st" and q: "map_of (streams (snd (create env p opts st))) q = Some s'"
    and other: "q \<noteq> p \<or> (\<exists>s. map_of (streams st) p = Some s \<and> \<not> isExpired env s)"
  shows "\<exists>s. map_of (streams st) q = Some s \<and> grows s s'"
proof (cases "\<exists>s. map_of (streams st) p = Some s \<and> \<not> isExpired env s")
  case True
  then have "snd (create env p opts st) = st" by (auto simp: create_def)
  then show ?thesis using q by auto
next
  case False
  with other have qp: "q \<noteq> p" by blast
  have new: "\<exists>s. map_of (streams st0) q = Some s \<and> grows s s'"
    if i: "inv_upto exact nc {} (streams st0)" and p: "map_of (streams st0) p = None"
      and rm: "create_room env p opts (streams st0)"
      and q': "map_of (streams (snd (create_new env p opts st0))) q = Some s'" for st0
  proof -
    obtain r st' where cn: "create_new env p opts st0 = (r, st')" by fastforce
    from i nc rm cn show ?thesis
    proof (cases rule: create_new_cases)
      case (failed e)
      then show ?thesis using q' cn by auto
    next
      case (created s fork m)
      have "map_of (add_stream p s (streams st0)) q = Some s'" using q' cn created(2) by simp
      then obtain u where "map_of (streams st0) q = Some u" "s' = u \<or> s' = u\<lparr>refCount := refCount u + 1\<rparr>"
        using qp by (auto simp: map_of_add[OF p created(5)] split: if_splits)
      then show ?thesis by (auto simp: grows_def)
    qed
  qed
  show ?thesis
  proof (cases "map_of (streams st) p")
    case None
    then show ?thesis using new[of st] inv g q by (simp add: create_def create_guard_def store_inv_def)
  next
    case (Some s)
    with False have ex: "isExpired env s" by blast
    let ?st = "cancelLongPollsForStream p (st\<lparr>streams := AList.delete p (streams st)\<rparr>)"
    have "inv_upto exact nc {} (AList.delete p (streams st))"
      using inv_forget[OF inv[unfolded store_inv_def] Some] g Some ex by (simp add: create_guard_def)
    then show ?thesis using new[of ?st] g q Some ex qp by (simp add: create_def create_guard_def)
  qed
qed

text \<open>C5. Streams are append-only and closing is final: whatever operation runs, a stream that is
  still there (and was not replaced after its expiry) keeps its messages as a prefix, its tail never
  moves back, and once it is closed neither its messages nor its tail change and it stays closed.\<close>

theorem streams_append_only:
  assumes "reachable exact nc st" "nc_ok nc" "num_canon env = nc" "allowed exact env op st"
    and "map_of (streams (exec env op st)) p = Some s'"
    and "\<forall>opts. op = Create p opts \<longrightarrow> (\<exists>s. map_of (streams st) p = Some s \<and> \<not> isExpired env s)"
  shows "\<exists>s. map_of (streams st) p = Some s \<and> grows s s'"
proof -
  have inv: "store_inv exact nc st" using reachable_store_inv assms by blast
  have q: "\<exists>s. map_of (streams st) p = Some s \<and> grows s s'" if "all_grow (streams st) (streams (exec env op st))"
    using that assms(5) unfolding all_grow_def by blast
  show ?thesis
  proof (cases op)
    case (Create p' opts)
    then show ?thesis using create_grow[OF inv assms(3,2), of p' opts p s'] assms(4-6) by auto
  next
    case (Append p' data opts)
    then show ?thesis using q append_grow[OF inv assms(3,2), of p' data opts] assms(4) by simp
  next
    case (CloseStream p')
    then show ?thesis using q close_grow[OF inv] by simp
  next
    case (CloseWithProducer p' i e n)
    then show ?thesis using q close_producer_grow by simp
  next
    case (TouchAccess p')
    have "grows t (t\<lparr>lastAccessedAt := x\<rparr>)" for t x by (simp add: grows_def)
    then have "all_grow (streams st) (streams (touchAccess env p' st))"
      by (auto simp: touchAccess_def intro: all_grow_update split: option.splits)
    then show ?thesis using q TouchAccess by simp
  next
    case Clear
    then show ?thesis using assms(5) by (simp add: clear_store_def)
  next
    case (Get p')
    then show ?thesis using q quiet_grow[OF getIfNotExpired_quiet[of env p' st "fst (get_stream env p' st)"]]
      by (simp add: get_stream_eq)
  next
    case (Read p' offset)
    then show ?thesis using q quiet_grow[OF read_quiet[of env p' offset st "fst (read env p' offset st)"]] by simp
  next
    case (WaitForMessages p' offset)
    then show ?thesis
      using q quiet_grow[OF wait_quiet[of env p' offset st "fst (waitForMessages env p' offset st)"]] by simp
  qed (use q quiet_grow[OF delete_quiet] quiet_grow[OF fire_timeout_quiet] quiet_grow[OF cancelAllWaits_quiet] in simp_all)
qed

theorem streams_append_only_witness:
  "\<exists>s. map_of (streams sample_ab) ''/b'' = Some s \<and>
     grows s (the (map_of (streams (exec (env_at 5) (Append ''/b'' ''q'' w_request) sample_ab)) ''/b''))"
proof -
  let ?op = "Append ''/b'' ''q'' w_request"
  have al: "allowed True (env_at 5) ?op sample_ab" by code_simp
  have "map_of (streams (exec (env_at 5) ?op sample_ab)) ''/b'' \<noteq> None" by code_simp
  then have s: "map_of (streams (exec (env_at 5) ?op sample_ab)) ''/b'' =
      Some (the (map_of (streams (exec (env_at 5) ?op sample_ab)) ''/b''))" by force
  show ?thesis by (rule streams_append_only[OF reach_sample_ab nc_ok_same num_canon_env_at al s]) simp
qed

end
