(* ===== verification/Store_Forks.thy ===== *)
theory Store_Forks
  imports Store_Lifecycle
begin

text \<open>
  Forks and deletion: a fork is a snapshot of its source at the fork offset, deleting or expiring a
  stream never changes what another live stream reads, and a soft-deleted stream is kept exactly as
  long as some fork needs it.
\<close>

section \<open>Forks are snapshots\<close>

lemma create_fork_content:
  assumes inv: "store_inv exact nc st" and nc: "num_canon env = nc" "nc_ok nc"
    and rm: "create_room env p opts (streams st)" and p: "map_of (streams st) p = None"
    and c: "create env p opts st = (Inr s, st')" and ff: "co_forkedFrom opts = Some q" "q \<noteq> []"
  obtains src fo where "map_of (streams st) q = Some src"
    and "fo = (if truthy (co_forkOffset opts) then the (co_forkOffset opts) else currentOffset src)"
    and "forkOffset s = Some fo" "fo \<le> currentOffset src" "map_of (streams st') p = Some s"
    and "\<forall>ms. content (streams st) q ms \<longrightarrow> content (streams st') p (filter (\<lambda>m. m_offset m \<le> fo) ms @ messages s)"
    and "\<forall>r ms. content (streams st) r ms \<longrightarrow> content (streams st') r ms"
proof -
  have i: "inv_upto exact nc {} (streams st)" using inv by (simp add: store_inv_def)
  have cn: "create_new env p opts st = (Inr s, st')" using c p by (simp add: create_def)
  from i nc rm cn show thesis
  proof (cases rule: create_new_cases)
    case (created s0 fork m)
    then have s: "s0 = s" by simp
    obtain src fo prefix where f: "fork = Some (src, fo, prefix)" "resolve_fork env (streams st) opts = Inr (src, fo, prefix)"
      using created(8) ff by (auto simp: fork_result_def split: sum.splits)
    note rf = resolve_fork_ok[OF f(2)]
    have s_ff: "forkedFrom s = Some q" and s_fo: "forkOffset s = Some fo"
      using created(9) ff unfolding s f(1) by (simp_all add: in_place_def new_stream_fork)
    note links = inv_uptoD(4)[OF i]
    note cnew = content_new(2)[OF p created(5)[unfolded s] links created(3)[unfolded s] s_ff]
    show thesis
    proof (rule that[of src fo])
      show "map_of (streams st) q = Some src" using rf(1) ff by simp
      show "fo = (if truthy (co_forkOffset opts) then the (co_forkOffset opts) else currentOffset src)" by (rule rf(6))
      show "map_of (streams st') p = Some s"
        using created(2) unfolding s by (simp add: map_of_add[OF p created(5)[unfolded s]])
      show "\<forall>ms. content (streams st) q ms \<longrightarrow> content (streams st') p (filter (\<lambda>m. m_offset m \<le> fo) ms @ messages s)"
        using cnew s_fo created(2) unfolding s by simp
      show "\<forall>r ms. content (streams st) r ms \<longrightarrow> content (streams st') r ms"
        using content_add[OF p created(5)[unfolded s] links] created(2) unfolding s by simp
    qed (use s_fo rf(4) in auto)
  qed simp
qed

text \<open>C6. A fork is a snapshot: a new stream forked from another starts with the source's content up
  to the fork offset (all of it by default), followed by its own messages, and creating it changes
  no other stream's content.\<close>

theorem fork_is_snapshot:
  assumes "reachable exact nc st" "nc_ok nc" "num_canon env = nc" "allowed exact env (Create p opts) st"
    and "map_of (streams st) p = None" "co_forkedFrom opts = Some q" "q \<noteq> []"
    and "create env p opts st = (Inr s, st')" "content (streams st) q ms"
  shows "\<exists>src. map_of (streams st) q = Some src
    \<and> content (streams st') p
        ((if truthy (co_forkOffset opts) then filter (\<lambda>m. m_offset m \<le> the (co_forkOffset opts)) ms else ms) @ messages s)
    \<and> forkOffset s = Some (if truthy (co_forkOffset opts) then the (co_forkOffset opts) else currentOffset src)
    \<and> the (forkOffset s) \<le> currentOffset src
    \<and> (\<forall>r rs. content (streams st) r rs \<longrightarrow> content (streams st') r rs)"
proof -
  have inv: "store_inv exact nc st" using reachable_store_inv assms by blast
  have rm: "create_room env p opts (streams st)" using assms(4,5) by (simp add: create_guard_def)
  obtain src fo where f: "map_of (streams st) q = Some src"
    "fo = (if truthy (co_forkOffset opts) then the (co_forkOffset opts) else currentOffset src)"
    "forkOffset s = Some fo" "fo \<le> currentOffset src"
    "\<forall>ms. content (streams st) q ms \<longrightarrow> content (streams st') p (filter (\<lambda>m. m_offset m \<le> fo) ms @ messages s)"
    "\<forall>r ms. content (streams st) r ms \<longrightarrow> content (streams st') r ms"
    using create_fork_content[OF inv assms(3,2) rm assms(5,8,6,7)] by metis
  have "filter (\<lambda>m. m_offset m \<le> currentOffset src) ms = ms"
    using content_below_tail[OF reach_streams_ok[OF assms(1,2)] f(1) assms(9)] by (simp add: filter_id_conv)
  then show ?thesis using f assms(9) by auto
qed

definition fork_request :: create_options where
  "fork_request = no_create_options\<lparr>co_forkedFrom := Some ''/b'', co_forkOffset := Some (off 8), co_initialData := Some ''z''\<rparr>"

theorem fork_is_snapshot_witness:
  "\<exists>src. map_of (streams sample_ab) ''/b'' = Some src
    \<and> content (streams (snd (create (env_at 5) ''/c'' fork_request sample_ab))) ''/c''
        [msg_at ''xyz'' 8 1, msg_at ''z'' 14 5]"
proof -
  let ?r = "create (env_at 5) ''/c'' fork_request sample_ab"
  let ?s = "the (map_of (streams (snd ?r)) ''/c'')"
  have r: "?r = (Inr ?s, snd ?r)" "messages ?s = [msg_at ''z'' 14 5]" by code_simp+
  have al: "allowed True (env_at 5) (Create ''/c'' fork_request) sample_ab"
    and o: "map_of (streams sample_ab) ''/c'' = None" "co_forkedFrom fork_request = Some ''/b''"
      "co_forkOffset fork_request = Some (off 8)"
    by code_simp+
  note b = sample_content
  have flt: "filter (\<lambda>m. m_offset m \<le> off 8) [msg_at ''xyz'' 8 1, msg_at ''w'' 14 3] = [msg_at ''xyz'' 8 1]"
    "truthy (Some (off 8))" by code_simp+
  from fork_is_snapshot[OF reach_sample_ab nc_ok_same num_canon_env_at al o(1,2) _ r(1) b]
  show ?thesis using r(2) o(3) flt by auto
qed

section \<open>Deletion\<close>

lemma cascade_keeps:
  "map_of (streams st) q = Some t \<Longrightarrow> \<not> softDeleted t \<Longrightarrow> q \<noteq> p \<Longrightarrow>
     \<exists>t'. map_of (streams (deleteWithCascade p st)) q = Some t' \<and> \<not> softDeleted t'"
proof -
  let ?live = "\<lambda>st. \<exists>t. map_of (streams st) q = Some t \<and> \<not> softDeleted t"
  have "q \<noteq> p \<longrightarrow> ?live st \<longrightarrow> ?live (deleteWithCascade p st)"
    by (rule cascade_rule[where Q = "\<lambda>p st st'. q \<noteq> p \<longrightarrow> ?live st \<longrightarrow> ?live st'"])
      (auto simp: streams_drop_ref split: if_splits)
  then show "map_of (streams st) q = Some t \<Longrightarrow> \<not> softDeleted t \<Longrightarrow> q \<noteq> p \<Longrightarrow>
     \<exists>t'. map_of (streams (deleteWithCascade p st)) q = Some t' \<and> \<not> softDeleted t'" by blast
qed

lemma delete_keeps:
  "map_of (streams st) q = Some t \<Longrightarrow> \<not> softDeleted t \<Longrightarrow> q \<noteq> p \<Longrightarrow>
     \<exists>t'. map_of (streams (snd (delete_stream p st))) q = Some t' \<and> \<not> softDeleted t'"
  by (auto simp: delete_stream_def cascade_keeps split: option.splits)

lemma cascade_removes: "map_of (streams (deleteWithCascade p st)) p = None"
proof -
  have keep: "map_of (streams st) p = None \<Longrightarrow> map_of (streams (deleteWithCascade q st)) p = None" for q st
    using survive_cascade[of st q] unfolding survive_def by (metis not_Some_eq)
  show ?thesis
  proof (cases "map_of (streams st) p")
    case (Some s)
    have "map_of (streams (drop_ref q parent (without p st))) p = None"
      if "map_of (streams (without p st)) q = Some parent" for q parent
      using that by (auto simp: streams_drop_ref split: if_splits)
    then show ?thesis
      unfolding cascade_unfold[OF Some] by (auto simp: keep split: option.splits)
  qed (simp add: keep)
qed

text \<open>C7. Deleting a stream never affects another live stream: it stays, and its content is the same,
  even when it is a fork of the deleted one. The deleted path is gone, or is kept soft-deleted while
  forks need it; it then refuses appends and cannot be created anew.\<close>

theorem delete_keeps_others:
  assumes "reachable exact nc st" "nc_ok nc" "delete_stream p st = (b, st')"
    and "map_of (streams st) q = Some t" "\<not> softDeleted t" "q \<noteq> p" "content (streams st) q ms"
  shows "content (streams st') q ms
    \<and> (b \<longleftrightarrow> map_of (streams st) p \<noteq> None)
    \<and> (map_of (streams st') p = None \<or> (\<exists>s. map_of (streams st') p = Some s \<and> softDeleted s \<and> refCount s > 0))"
proof -
  have inv: "store_inv exact nc st" using reachable_store_inv assms by blast
  obtain t' where "map_of (streams st') q = Some t'" using delete_keeps[OF assms(4-6), of] assms(3) by auto
  then have c: "content (streams st') q ms"
    using quiet_content[OF delete_quiet[of exact nc st p] inv assms(7)] assms(3) by simp
  have "softDeleted s \<longrightarrow> refCount s > 0" if "map_of (streams st) p = Some s" for s
    using inv_refs[OF inv that] by blast
  then have "map_of (streams st') p = None \<or> (\<exists>s. map_of (streams st') p = Some s \<and> softDeleted s \<and> refCount s > 0)"
    using assms(3) by (auto simp: delete_stream_def cascade_removes split: option.splits if_splits)
  moreover have "b \<longleftrightarrow> map_of (streams st) p \<noteq> None"
    using assms(3) by (auto simp: delete_stream_def split: option.splits if_splits)
  ultimately show ?thesis using c by blast
qed

theorem delete_keeps_others_witness:
  "content (streams (snd (delete_stream ''/a'' sample_ab))) ''/b'' [msg_at ''xyz'' 8 1, msg_at ''w'' 14 3]"
proof -
  let ?b = "the (map_of (streams sample_ab) ''/b'')"
  have s: "map_of (streams sample_ab) ''/b'' \<noteq> None" "\<not> softDeleted ?b" by code_simp+
  have bs: "map_of (streams sample_ab) ''/b'' = Some ?b" using s(1) by force
  show ?thesis
    using delete_keeps_others[OF reach_sample_ab nc_ok_same prod.collapse[symmetric] bs s(2) _ sample_content, of "''/a''"] by simp
qed



end
