(* ===== verification/Store_Json.thy ===== *)
theory Store_Json
  imports Store_Props
begin

text \<open>
  JSON streams end to end: the body of a read of a JSON stream, through any chain of forks, is one
  valid JSON array, whose elements are the values of the messages after the requested offset, in
  order, state events carrying the offset of their message in their headers.
\<close>

definition message_values :: "(utext \<Rightarrow> utext) \<Rightarrow> stream_message \<Rightarrow> json list" where
  "message_values nc m =
     (case json_parse nc ([91] @ strip_comma (text_decode (m_data m)) @ [93]) of Some (JArr vs) \<Rightarrow> vs | _ \<Rightarrow> [])"

definition response_values :: "(utext \<Rightarrow> utext) \<Rightarrow> stream_message list \<Rightarrow> json list" where
  "response_values nc ms = concat (map (\<lambda>m. map (enrich_value (m_offset m)) (message_values nc m)) ms)"

lemma message_values_eq: "holds_values nc m vs \<Longrightarrow> message_values nc m = vs"
  using parse_fragment[of vs nc] by (simp add: message_values_def holds_values_def)

lemma holds_all:
  "\<forall>m\<in>set ms. \<exists>vs. holds_values nc m vs \<Longrightarrow> list_all2 (holds_values nc) ms (map (message_values nc) ms)"
  by (induction ms) (auto simp: message_values_eq)

lemma enriched_response: "enriched ms (map (message_values nc) ms) = response_values nc ms"
  by (induction ms) (auto simp: enriched_def response_values_def)

lemma format_response_parse:
  assumes "\<forall>m\<in>set ms. \<exists>vs. holds_values nc m vs"
  shows "\<exists>body. formatJsonMessages nc ms = Inr body
    \<and> json_parse nc (text_decode body) = Some (JArr (response_values nc ms))"
proof (cases "ms = []")
  case True
  have "json_parse nc (text_decode (text_encode (stringify (JArr [])))) = Some (JArr [])"
    by (rule parse_response) simp
  then show ?thesis using True by (simp add: formatJsonMessages_def response_values_def asc_def)
next
  case False
  note h = holds_all[OF assms]
  have "\<forall>v\<in>set (response_values nc ms). json_ok nc v"
    using enriched_ok[OF h] by (simp add: enriched_response)
  then show ?thesis using format_fragments[OF h False] parse_response by (auto simp: enriched_response)
qed

text \<open>C16. A read of a JSON stream formats to one JSON array that parses to exactly the values of the
  messages after the requested offset, in order.\<close>

theorem json_read_is_array:
  assumes "reachable exact nc st" "nc_ok nc" "num_canon env = nc"
    and "map_of (streams st) p = Some s" "\<not> isExpired env s" "is_json s" "content (streams st) p ms"
    and "read env p offset st = (Inr r, st1)" "formatResponse env p (rr_messages r) st1 = (resp, st2)"
  shows "st2 = st \<and> (\<exists>body. resp = Inr body
    \<and> json_parse nc (text_decode body) = Some (JArr (response_values nc (after_offset offset ms))))"
proof -
  have ok: "streams_ok (streams st)" using reach_streams_ok[OF assms(1,2)] .
  have r: "r = \<lparr>rr_messages = after_offset offset ms, rr_upToDate = True\<rparr>" "st1 = st"
    using read_eq[OF ok assms(4,7,5), of offset] assms(8) by auto
  have "set (after_offset offset ms) \<subseteq> set ms" by (auto simp: after_offset_def)
  then have "\<forall>m\<in>set (after_offset offset ms). \<exists>vs. holds_values nc m vs"
    using content_json[OF assms(7) reach_inv[OF assms(1,2)] assms(4,6)] by blast
  from format_response_parse[OF this] show ?thesis
    using assms(3,6,9) r getIfNotExpired_same[OF assms(4,5)] by (auto simp: formatResponse_def is_json_def)
qed

definition json_create :: create_options where
  "json_create = no_create_options\<lparr>co_contentType := Some ''application/json'', co_initialData := Some ''[1, true]''\<rparr>"

definition sample_j :: store where
  "sample_j = exec (env_at 0) (Create ''/j'' json_create) empty_store"

lemma reach_sample_j: "reachable True (\<lambda>x. x) sample_j"
proof -
  have "allowed True (env_at 0) (Create ''/j'' json_create) empty_store" by code_simp
  then show ?thesis unfolding sample_j_def by (rule reach_step[OF reach_empty num_canon_env_at])
qed

theorem json_read_is_array_witness:
  "\<exists>body. fst (formatResponse (env_at 2) ''/j'' [msg_at ''1,true,'' 12 0] sample_j) = Inr body
    \<and> json_parse (\<lambda>x. x) (text_decode body) = Some (JArr [JNum [49], JBool True])"
proof -
  let ?s = "the (map_of (streams sample_j) ''/j'')"
  have n: "map_of (streams sample_j) ''/j'' \<noteq> None" by code_simp
  then have s: "map_of (streams sample_j) ''/j'' = Some ?s" by force
  have e: "\<not> isExpired (env_at 2) ?s" "is_json ?s" "forkedFrom ?s = None" "messages ?s = [msg_at ''1,true,'' 12 0]"
    by code_simp+
  have c: "content (streams sample_j) ''/j'' [msg_at ''1,true,'' 12 0]" using content_root[OF s e(3)] e(4) by simp
  have r: "read (env_at 2) ''/j'' None sample_j =
      (Inr \<lparr>rr_messages = [msg_at ''1,true,'' 12 0], rr_upToDate = True\<rparr>, sample_j)" by code_simp
  have v: "response_values (\<lambda>x. x) (after_offset None [msg_at ''1,true,'' 12 0]) = [JNum [49], JBool True]" by code_simp
  show ?thesis
    using json_read_is_array[OF reach_sample_j nc_ok_same num_canon_env_at s e(1,2) c r prod.collapse[symmetric]] v
    by auto
qed



end
