(* ===== verification/Store_Polls.thy ===== *)
theory Store_Polls
  imports Store_Props
begin

text \<open>
  Waiting readers: every long-poll the store has issued is either answered or has its timer armed,
  and is answered at most once, whatever operations run in between (appends, closes, deletions and
  expiries with their cascades, the shutdown loop). An append wakes every reader of its stream that
  waits before the new message, with exactly the messages after its offset.
\<close>

section \<open>The invariant of waiting readers\<close>

text \<open>The numbers in \<open>X\<close> are those of readers being answered just now, between the disarming of their
  timer and the resolution of their promise.\<close>

definition polls_upto :: "nat set \<Rightarrow> store \<Rightarrow> bool" where
  "polls_upto X st \<longleftrightarrow>
     distinct (map pl_id (pendingLongPolls st)) \<and> distinct (map pl_id (timers st)) \<and> distinct (map fst (resolved st))
     \<and> set (pendingLongPolls st) \<subseteq> set (timers st)
     \<and> pl_id ` set (timers st) \<inter> fst ` set (resolved st) = {}
     \<and> X \<inter> (pl_id ` set (timers st) \<union> fst ` set (resolved st)) = {}
     \<and> pl_id ` set (timers st) \<union> fst ` set (resolved st) \<union> X = {..<next_poll st}"

definition poll_inv :: "store \<Rightarrow> bool" where
  "poll_inv st \<longleftrightarrow> polls_upto {} st"

text \<open>A long-poll that has been issued: its number determines it among the armed ones.\<close>

definition known :: "pending_long_poll \<Rightarrow> store \<Rightarrow> bool" where
  "known q st \<longleftrightarrow> pl_id q < next_poll st \<and> (\<forall>t\<in>set (timers st). pl_id t = pl_id q \<longrightarrow> t = q)"

text \<open>What every operation that issues no new long-poll does to the waiting readers.\<close>

definition poll_step :: "nat set \<Rightarrow> store \<Rightarrow> store \<Rightarrow> bool" where
  "poll_step X st st' \<longleftrightarrow> (polls_upto X st \<longrightarrow>
     polls_upto X st' \<and> next_poll st' = next_poll st \<and> set (timers st') \<subseteq> set (timers st)
     \<and> (\<exists>xs. resolved st' = resolved st @ xs))"

lemma poll_step_refl [simp, intro]: "poll_step X st st"
  by (simp add: poll_step_def)

lemma poll_step_trans [trans]: "poll_step X st st1 \<Longrightarrow> poll_step X st1 st2 \<Longrightarrow> poll_step X st st2"
  by (fastforce simp: poll_step_def)

lemma poll_step_known: "poll_step X st st' \<Longrightarrow> polls_upto X st \<Longrightarrow> known q st \<Longrightarrow> known q st'"
  by (auto simp: poll_step_def known_def)

lemma known_timer: "polls_upto X st \<Longrightarrow> q \<in> set (timers st) \<Longrightarrow> known q st \<and> pl_id q \<notin> X"
  unfolding known_def polls_upto_def
  by (auto simp: distinct_map dest: inj_onD)

lemma known_pending: "polls_upto X st \<Longrightarrow> q \<in> set (pendingLongPolls st) \<Longrightarrow> known q st \<and> pl_id q \<notin> X"
  by (rule known_timer) (auto simp: polls_upto_def)

lemma polls_upto_streams [simp]: "polls_upto X (st\<lparr>streams := ss\<rparr>) = polls_upto X st"
  by (simp add: polls_upto_def)

lemma poll_step_streams [simp]: "poll_step X st (st\<lparr>streams := ss\<rparr>)"
  by (simp add: poll_step_def)

text \<open>Answering in two halves: disarm the timer and leave the pending list, then resolve.\<close>

definition disarm :: "pending_long_poll \<Rightarrow> store \<Rightarrow> store" where
  "disarm q st = removePendingLongPoll q (clear_timer q st)"

lemma clear_timer_idem [simp]: "clear_timer q (clear_timer q st) = clear_timer q st"
  by (simp add: clear_timer_def)

lemma disarm_fields:
  "timers (disarm q st) = filter (\<lambda>t. pl_id t \<noteq> pl_id q) (timers st)" "next_poll (disarm q st) = next_poll st"
  "pendingLongPolls (disarm q st) = remove1 q (pendingLongPolls st)" "resolved (disarm q st) = resolved st"
  "streams (disarm q st) = streams st"
  by (simp_all add: disarm_def clear_timer_def removePendingLongPoll_def)

lemma disarm_polls:
  assumes inv: "polls_upto X st" and k: "known q st"
  shows "polls_upto (X \<union> ({pl_id q} - fst ` set (resolved st))) (disarm q st)"
proof -
  let ?T = "pl_id ` set (timers st)" and ?R = "fst ` set (resolved st)"
  have i: "distinct (map pl_id (pendingLongPolls st))" "distinct (map pl_id (timers st))" "distinct (map fst (resolved st))"
    "set (pendingLongPolls st) \<subseteq> set (timers st)" "?T \<inter> ?R = {}" "X \<inter> (?T \<union> ?R) = {}" "?T \<union> ?R \<union> X = {..<next_poll st}"
    using inv by (auto simp: polls_upto_def)
  have p: "pl_id x \<noteq> pl_id q" if "x \<in> set (remove1 q (pendingLongPolls st))" for x
  proof
    assume "pl_id x = pl_id q"
    then have "x = q" using k i(4) that by (auto simp: known_def dest: set_remove1_subset[THEN subsetD])
    with that i(1) show False by (auto simp: distinct_map set_remove1_eq)
  qed
  have d: "distinct (map pl_id (remove1 q (pendingLongPolls st)))"
    using i(1) by (auto simp: distinct_map intro: inj_on_subset dest: set_remove1_subset[THEN subsetD])
  have s: "set (remove1 q (pendingLongPolls st)) \<subseteq> set (filter (\<lambda>t. pl_id t \<noteq> pl_id q) (timers st))"
    using p i(4) by (auto dest: set_remove1_subset[THEN subsetD])
  have T: "pl_id ` set (filter (\<lambda>t. pl_id t \<noteq> pl_id q) (timers st)) = ?T - {pl_id q}" by auto
  have "pl_id q < next_poll st" using k by (simp add: known_def)
  then have "(?T - {pl_id q}) \<union> ?R \<union> (X \<union> ({pl_id q} - ?R)) = {..<next_poll st}" using i(7) by auto
  moreover have "(X \<union> ({pl_id q} - ?R)) \<inter> ((?T - {pl_id q}) \<union> ?R) = {}" using i(6) by auto
  ultimately show ?thesis
    unfolding polls_upto_def disarm_fields T using d s i(2,3,5) by (auto simp: distinct_map_filter)
qed

lemma resolve_polls:
  assumes "polls_upto (X \<union> ({i} - fst ` set (resolved st0))) st" and "i \<notin> X"
    and "fst ` set (resolved st0) \<subseteq> fst ` set (resolved st)"
  shows "polls_upto X (resolve_promise i r st)"
proof (cases "i \<in> fst ` set (resolved st)")
  case True
  then have "i \<in> fst ` set (resolved st0)" using assms(1) by (auto simp: polls_upto_def)
  then have "X \<union> ({i} - fst ` set (resolved st0)) = X" by auto
  moreover have "resolve_promise i r st = st" using True by (auto simp: resolve_promise_def map_of_eq_None_iff)
  ultimately show ?thesis using assms(1) by simp
next
  case False
  then have "X \<union> ({i} - fst ` set (resolved st0)) = insert i X" using assms(3) by auto
  moreover have "resolve_promise i r st = st\<lparr>resolved := resolved st @ [(i, r)]\<rparr>"
    using False by (auto simp: resolve_promise_def map_of_eq_None_iff)
  ultimately show ?thesis using assms(1,2) False by (auto simp: polls_upto_def)
qed

text \<open>A whole answer, with some step in between that sees the reader as being answered.\<close>

lemma answer_step:
  assumes k: "known q st" and q: "pl_id q \<notin> X"
    and mid: "\<And>Y. poll_step Y (disarm q st) st2"
  shows "poll_step X st (resolve_promise (pl_id q) r st2)"
  unfolding poll_step_def
proof (intro impI)
  assume inv: "polls_upto X st"
  let ?Y = "X \<union> ({pl_id q} - fst ` set (resolved st))"
  have m: "polls_upto ?Y st2" "next_poll st2 = next_poll st" "set (timers st2) \<subseteq> set (timers st)"
    "\<exists>xs. resolved st2 = resolved st @ xs"
    using mid[of ?Y] disarm_polls[OF inv k] by (auto simp: poll_step_def disarm_fields)
  have "polls_upto X (resolve_promise (pl_id q) r st2)"
    by (rule resolve_polls[OF m(1) q]) (use m(4) in auto)
  then show "polls_upto X (resolve_promise (pl_id q) r st2)
      \<and> next_poll (resolve_promise (pl_id q) r st2) = next_poll st
      \<and> set (timers (resolve_promise (pl_id q) r st2)) \<subseteq> set (timers st)
      \<and> (\<exists>xs. resolved (resolve_promise (pl_id q) r st2) = resolved st @ xs)"
    using m by (auto simp: resolve_promise_def)
qed

section \<open>The operations\<close>

lemma fold_step:
  "(\<And>q st. q \<in> set qs \<Longrightarrow> known q st \<Longrightarrow> poll_step X st (f q st)) \<Longrightarrow> (\<And>q. q \<in> set qs \<Longrightarrow> known q st) \<Longrightarrow>
     poll_step X st (fold f qs st)"
proof (induction qs arbitrary: st)
  case (Cons q qs)
  show ?case
  proof (cases "polls_upto X st")
    case True
    have 1: "poll_step X st (f q st)" using Cons.prems by simp
    have "poll_step X (f q st) (fold f qs (f q st))"
      by (rule Cons.IH) (use Cons.prems poll_step_known[OF 1 True] in auto)
    with 1 show ?thesis by (simp add: poll_step_trans)
  qed (simp add: poll_step_def)
qed simp

lemma poll_step_shrink:
  "poll_step X st (st\<lparr>pendingLongPolls := filter P (pendingLongPolls st)\<rparr>)"
  "poll_step X st (st\<lparr>pendingLongPolls := []\<rparr>)"
  by (auto simp: poll_step_def polls_upto_def distinct_map_filter)

lemma poll_step_if: "(polls_upto X st \<Longrightarrow> poll_step X st st') \<Longrightarrow> poll_step X st st'"
  by (auto simp: poll_step_def)

lemma cancel_step: "poll_step X st (cancelLongPollsForStream p st)"
proof (rule poll_step_if)
  assume inv: "polls_upto X st"
  let ?qs = "filter (\<lambda>q. pl_path q = p) (pendingLongPolls st)"
  let ?f = "\<lambda>q st. resolve_with (map_of (streams st) p) [] q (clear_timer q st)"
  have q: "known q st" "pl_id q \<notin> X" if "q \<in> set ?qs" for q using known_pending[OF inv, of q] that by auto
  have "poll_step X st (fold ?f ?qs st)"
  proof (rule fold_step)
    fix q st assume "q \<in> set ?qs" "known q st"
    then show "poll_step X st (?f q st)"
      using answer_step[of q st X "disarm q st"] q(2)[of q] by (simp add: resolve_with_def disarm_def)
  qed (use q in auto)
  also have "poll_step X (fold ?f ?qs st)
      ((fold ?f ?qs st)\<lparr>pendingLongPolls := filter (\<lambda>q. pl_path q \<noteq> p) (pendingLongPolls (fold ?f ?qs st))\<rparr>)"
    by (rule poll_step_shrink)
  finally show "poll_step X st (cancelLongPollsForStream p st)"
    by (simp add: cancelLongPollsForStream_def Let_def)
qed

lemma cascade_poll_step: "poll_step X st (deleteWithCascade p st)"
proof (rule cascade_rule)
  fix p st
  show w: "poll_step X st (without p st)"
    unfolding without_def by (rule poll_step_trans[OF poll_step_streams cancel_step])
  fix q parent
  show dec: "poll_step X st (drop_ref q parent (without p st))"
    unfolding drop_ref_def by (rule poll_step_trans[OF w poll_step_streams])
  fix st' assume "poll_step X (drop_ref q parent (without p st)) st'"
  with dec show "poll_step X st st'" by (rule poll_step_trans)
qed simp

lemma delete_poll_step: "poll_step X st (snd (delete_stream p st))"
  by (auto simp: delete_stream_def cascade_poll_step split: option.splits)

lemma get_poll_step: "getIfNotExpired env p st = (r, st') \<Longrightarrow> poll_step X st st'"
  by (auto simp: getIfNotExpired_def Let_def delete_poll_step split: option.splits if_splits)

lemma read_poll_step: "read env p offset st = (r, st') \<Longrightarrow> poll_step X st st'"
  using get_poll_step by (fastforce simp: read_def split: prod.splits option.splits)

lemma poll_resolve_step: "known q st \<Longrightarrow> pl_id q \<notin> X \<Longrightarrow> poll_step X st (poll_resolve env msgs q st)"
proof -
  assume "known q st" "pl_id q \<notin> X"
  obtain cur st2 where g: "getIfNotExpired env (pl_path q) (disarm q st) = (cur, st2)" by fastforce
  show ?thesis
    using answer_step[OF \<open>known q st\<close> \<open>pl_id q \<notin> X\<close> get_poll_step[OF g]] g
    by (simp add: poll_resolve_def disarm_def)
qed

lemma fire_timeout_step: "poll_step X st (fire_timeout env q st)"
proof (rule poll_step_if)
  assume inv: "polls_upto X st"
  obtain cur st2 where g: "getIfNotExpired env (pl_path q) (disarm q st) = (cur, st2)" by fastforce
  show "poll_step X st (fire_timeout env q st)"
  proof (cases "q \<in> set (timers st)")
    case True
    note k = known_timer[OF inv True]
    show ?thesis
      using answer_step[OF conjunct1[OF k] conjunct2[OF k] get_poll_step[OF g]] g True
      by (simp add: fire_timeout_def disarm_def)
  qed (simp add: fire_timeout_def)
qed

lemma notify_closed_step: "poll_step X st (notifyLongPollsClosed env p st)"
proof (rule poll_step_if)
  assume inv: "polls_upto X st"
  show "poll_step X st (notifyLongPollsClosed env p st)"
    unfolding notifyLongPollsClosed_def Let_def
    by (rule fold_step) (use known_pending[OF inv] in \<open>auto intro: poll_resolve_step\<close>)
qed

lemma notify_loop_step:
  "notify_loop env p qs st = (r, st') \<Longrightarrow> (\<And>q. q \<in> set qs \<Longrightarrow> known q st \<and> pl_id q \<notin> X) \<Longrightarrow> poll_step X st st'"
proof (induction qs arbitrary: st)
  case (Cons q qs)
  obtain rd st1 where rd: "read env p (Some (pl_offset q)) st = (rd, st1)" by fastforce
  have 1: "poll_step X st st1" by (rule read_poll_step[OF rd])
  show ?case
  proof (cases "polls_upto X st")
    case inv: True
    show ?thesis
    proof (cases rd)
      case (Inl e)
      then show ?thesis using Cons.prems rd 1 by simp
    next
      case (Inr x)
      let ?st = "if rr_messages x \<noteq> [] then poll_resolve env (rr_messages x) q st1 else st1"
      have k1: "known q' st1" "pl_id q' \<notin> X" if "q' \<in> set (q # qs)" for q'
        using Cons.prems(2) that poll_step_known[OF 1 inv] by auto
      have 2: "poll_step X st1 ?st" using poll_resolve_step k1 by simp
      have "polls_upto X st1" using 1 inv by (simp add: poll_step_def)
      then have "known q' ?st \<and> pl_id q' \<notin> X" if "q' \<in> set qs" for q'
        using k1[of q'] that poll_step_known[OF 2] by auto
      then have "poll_step X ?st st'" using Cons.IH[of ?st] Cons.prems(1) rd Inr by simp
      with 1 2 show ?thesis by (blast intro: poll_step_trans)
    qed
  qed (simp add: poll_step_def)
qed simp

lemma notifyLongPolls_step: "notifyLongPolls env p st = (r, st') \<Longrightarrow> poll_step X st st'"
  by (rule poll_step_if, rule notify_loop_step[of env p "filter (\<lambda>q. pl_path q = p) (pendingLongPolls st)"])
    (auto simp: notifyLongPolls_def known_pending)

lemma put_step: "poll_step X st st' \<Longrightarrow> poll_step X st (put_stream p s st')"
  unfolding put_stream_def by (rule poll_step_trans[OF _ poll_step_streams])

lemma append_poll_step: "poll_step X st (snd (append env p data opts st))"
proof -
  obtain cur st1 where g: "getIfNotExpired env p st = (cur, st1)" by fastforce
  note 1 = get_poll_step[OF g, of X]
  have n: "poll_step X st st3" if "notifyLongPolls env p (put_stream p s st1) = (nr, st3)" for s nr st3
    by (rule poll_step_trans[OF put_step[OF 1] notifyLongPolls_step[OF that]])
  have c: "poll_step X st (notifyLongPollsClosed env p st3)"
    if "notifyLongPolls env p (put_stream p s st1) = (nr, st3)" for s nr st3
    by (rule poll_step_trans[OF n[OF that] notify_closed_step])
  show ?thesis using 1 put_step[OF 1] n c
    by (auto simp: append_def g Let_def split: option.splits prod.splits append_verdict.splits sum.splits)
qed

lemma close_poll_step: "poll_step X st (snd (closeStream env p st))"
proof -
  obtain cur st1 where g: "getIfNotExpired env p st = (cur, st1)" by fastforce
  note 1 = get_poll_step[OF g, of X]
  show ?thesis using 1 poll_step_trans[OF put_step[OF 1] notify_closed_step]
    by (auto simp: closeStream_def g Let_def split: option.splits)
qed

lemma close_producer_poll_step: "poll_step X st (snd (closeStreamWithProducer env p i e n st))"
proof -
  obtain cur st1 where g: "getIfNotExpired env p st = (cur, st1)" by fastforce
  note 1 = get_poll_step[OF g, of X]
  show ?thesis using 1 put_step[OF 1] poll_step_trans[OF put_step[OF 1] notify_closed_step]
    by (auto simp: closeStreamWithProducer_def g Let_def split: option.splits prod.splits)
qed

lemma create_poll_step: "poll_step X st (snd (create env p opts st))"
proof -
  have a: "poll_step X st' (add_ref src d st')" for st' src d
    by (auto simp: add_ref_def put_step split: option.splits)
  have new: "poll_step X st' (snd (create_new env p opts st'))" for st'
    using a[of st'] poll_step_trans[OF a a] put_step[OF a[of st']]
    by (auto simp: create_new_def Let_def split: option.splits sum.splits prod.splits)
  have "poll_step X st (cancelLongPollsForStream p (st\<lparr>streams := AList.delete p (streams st)\<rparr>))"
    by (rule poll_step_trans[OF poll_step_streams cancel_step])
  from poll_step_trans[OF this new] new[of st] show ?thesis
    by (auto simp: create_def split: option.splits)
qed

lemma cancel_loop_step:
  "(\<And>q. q \<in> set arr \<Longrightarrow> known q st \<and> pl_id q \<notin> X) \<Longrightarrow> poll_step X st (cancel_loop env i arr same st)"
proof (induction env i arr same st rule: cancel_loop.induct)
  case (1 env i arr same st)
  show ?case
  proof (cases "i < length arr \<and> polls_upto X st")
    case True
    let ?q = "arr ! i" and ?arr = "if same then remove1 (arr ! i) arr else arr"
    have r: "poll_resolve env [] ?q (clear_timer ?q st) = poll_resolve env [] ?q st" by (simp add: poll_resolve_def)
    have k: "known ?q st" "pl_id ?q \<notin> X" using "1.prems"[of ?q] True by auto
    note s1 = poll_resolve_step[OF k, of env "[]"]
    have "known q (poll_resolve env [] ?q st) \<and> pl_id q \<notin> X" if "q \<in> set ?arr" for q
    proof -
      have "q \<in> set arr" using that set_remove1_subset[of "arr ! i" arr] by (auto split: if_splits)
      then show ?thesis using "1.prems" poll_step_known[OF s1] True by blast
    qed
    then have "poll_step X (poll_resolve env [] ?q st)
        (cancel_loop env (Suc i) ?arr (same \<and> \<not> expires_fully env (pl_path ?q) st) (poll_resolve env [] ?q st))"
      using "1.IH"[OF conjunct1[OF True] refl] unfolding r by blast
    with s1 have "poll_step X st
        (cancel_loop env (Suc i) ?arr (same \<and> \<not> expires_fully env (pl_path ?q) st) (poll_resolve env [] ?q st))"
      by (rule poll_step_trans)
    then show ?thesis using True by (subst cancel_loop.simps) (simp add: Let_def r)
  next
    case False
    then show ?thesis by (cases "i < length arr") (auto simp: poll_step_def cancel_loop.simps)
  qed
qed

lemma cancel_all_step:
  "poll_step X st ((cancel_loop env 0 (pendingLongPolls st) True st)\<lparr>pendingLongPolls := []\<rparr>)"
proof (rule poll_step_if)
  assume inv: "polls_upto X st"
  have "poll_step X st (cancel_loop env 0 (pendingLongPolls st) True st)"
    by (rule cancel_loop_step) (use known_pending[OF inv] in auto)
  also have "poll_step X \<dots> ((cancel_loop env 0 (pendingLongPolls st) True st)\<lparr>pendingLongPolls := []\<rparr>)"
    by (rule poll_step_shrink)
  finally show "poll_step X st ((cancel_loop env 0 (pendingLongPolls st) True st)\<lparr>pendingLongPolls := []\<rparr>)" .
qed

text \<open>A long-poll that has to wait is issued under the next number, with its timer armed.\<close>

definition issue :: "string \<Rightarrow> string \<Rightarrow> store \<Rightarrow> store" where
  "issue p offset st =
     (let pending = \<lparr>pl_id = next_poll st, pl_path = p, pl_offset = offset\<rparr>
      in st\<lparr>pendingLongPolls := pendingLongPolls st @ [pending], timers := timers st @ [pending],
            next_poll := Suc (next_poll st)\<rparr>)"

lemma wait_cases:
  obtains st1 where "poll_step {} st st1"
    "snd (waitForMessages env p offset st) = st1 \<or> snd (waitForMessages env p offset st) = issue p offset st1"
proof -
  obtain cur st1 where g: "getIfNotExpired env p st = (cur, st1)" by fastforce
  obtain rd st2 where rd: "read env p (Some offset) st1 = (rd, st2)" by fastforce
  have 1: "poll_step {} st st1" by (rule get_poll_step[OF g])
  have 2: "poll_step {} st st2" by (rule poll_step_trans[OF 1 read_poll_step[OF rd]])
  have "snd (waitForMessages env p offset st) \<in> {st1, st2, issue p offset st2}"
    by (auto simp: waitForMessages_def g rd issue_def Let_def split: option.splits sum.splits)
  with 1 2 that show thesis by blast
qed

lemma issue_inv:
  assumes inv: "poll_inv st"
  shows "poll_inv (issue p offset st)"
proof -
  have t: "pl_id t < next_poll st" if "t \<in> set (timers st)" for t
    using known_timer[of "{}" st t] inv that by (simp add: poll_inv_def known_def)
  have "set (pendingLongPolls st) \<subseteq> set (timers st)" using inv by (simp add: poll_inv_def polls_upto_def)
  with t have "next_poll st \<notin> pl_id ` set (timers st)" "next_poll st \<notin> pl_id ` set (pendingLongPolls st)"
    by (auto dest!: t)
  moreover have "next_poll st \<notin> fst ` set (resolved st)" using inv unfolding poll_inv_def polls_upto_def by blast
  ultimately show ?thesis using inv by (auto simp: poll_inv_def polls_upto_def issue_def Let_def lessThan_Suc)
qed

lemma exec_polls:
  "poll_inv st \<Longrightarrow> poll_inv (exec env op st) \<and> (\<exists>xs. resolved (exec env op st) = resolved st @ xs)"
proof -
  assume inv: "poll_inv st"
  have step: "poll_inv st' \<and> (\<exists>xs. resolved st' = resolved st @ xs)" if "poll_step {} st st'" for st'
    using that inv by (simp add: poll_step_def poll_inv_def)
  show ?thesis
  proof (cases op)
    case (Get p)
    then show ?thesis using step get_poll_step[of env p st "fst (get_stream env p st)"] by (simp add: get_stream_eq)
  next
    case (Read p offset)
    then show ?thesis using step read_poll_step[of env p offset st "fst (read env p offset st)"] by simp
  next
    case (WaitForMessages p offset)
    obtain st1 where 1: "poll_step {} st st1"
      "snd (waitForMessages env p offset st) = st1 \<or> snd (waitForMessages env p offset st) = issue p offset st1"
      by (rule wait_cases)
    then show ?thesis
      using step[OF 1(1)] issue_inv[of st1] WaitForMessages by (auto simp: issue_def Let_def)
  next
    case (TouchAccess p)
    then show ?thesis using step by (simp add: touchAccess_def split: option.splits)
  next
    case Clear
    have "poll_step {} st (clear_store env st)"
      using poll_step_trans[OF cancel_all_step[of "{}" st env] poll_step_streams[of _ _ "[]"]]
      by (simp add: clear_store_def)
    then show ?thesis using step Clear by simp
  next
    case CancelAllWaits
    then show ?thesis using step[OF cancel_all_step[of "{}" st env]] by (simp add: cancelAllWaits_def)
  qed (use step append_poll_step create_poll_step close_poll_step close_producer_poll_step delete_poll_step
      fire_timeout_step in simp_all)
qed

lemma reachable_polls: "reachable exact nc st \<Longrightarrow> poll_inv st"
proof (induction rule: reachable.induct)
  case reach_empty
  show ?case by (simp add: poll_inv_def polls_upto_def empty_store_def)
qed (simp add: exec_polls)

section \<open>Properties\<close>

lemma resolve_resolves: "map_of (resolved (resolve_promise i r st)) i \<noteq> None"
  by (auto simp: resolve_promise_def map_add_def split: option.splits)

lemma fire_resolves: "q \<in> set (timers st) \<Longrightarrow> map_of (resolved (fire_timeout env q st)) (pl_id q) \<noteq> None"
  using resolve_resolves by (auto simp: fire_timeout_def split: prod.splits simp del: not_None_eq)


definition sample_wait :: store where
  "sample_wait = exec (env_at 4) (WaitForMessages ''/b'' (off 14)) sample_ab"

lemma reach_sample_wait: "reachable True (\<lambda>x. x) sample_wait"
  unfolding sample_wait_def by (rule reach_step[OF reach_sample_ab num_canon_env_at]) simp


text \<open>The answers an append gives.\<close>

definition wake :: "stream_message list \<Rightarrow> pending_long_poll \<Rightarrow> store \<Rightarrow> store" where
  "wake ms q st =
     (if after_offset (Some (pl_offset q)) ms \<noteq> []
      then resolve_promise (pl_id q) \<lparr>wr_messages = after_offset (Some (pl_offset q)) ms, wr_timedOut = False,
             wr_streamClosed = None\<rparr> (disarm q st)
      else st)"

lemma streams_wake [simp]: "streams (wake ms q st) = streams st"
  by (simp add: wake_def disarm_fields)

lemma resolved_wake:
  "map_of (resolved (wake ms q st)) i =
     (if i = pl_id q \<and> after_offset (Some (pl_offset q)) ms \<noteq> [] \<and> map_of (resolved st) i = None
      then Some \<lparr>wr_messages = after_offset (Some (pl_offset q)) ms, wr_timedOut = False, wr_streamClosed = None\<rparr>
      else map_of (resolved st) i)"
  by (auto simp: wake_def resolve_promise_def disarm_fields map_add_def split: option.splits)

lemma notify_loop_wakes:
  "streams_ok (streams st) \<Longrightarrow> map_of (streams st) p = Some s \<Longrightarrow> content (streams st) p ms \<Longrightarrow> \<not> isExpired env s \<Longrightarrow>
     \<forall>q\<in>set qs. pl_path q = p \<Longrightarrow> notify_loop env p qs st = (Inr (), fold (wake ms) qs st)"
proof (induction qs arbitrary: st)
  case (Cons q qs)
  let ?m = "after_offset (Some (pl_offset q)) ms"
  have rd: "read env p (Some (pl_offset q)) st = (Inr \<lparr>rr_messages = ?m, rr_upToDate = True\<rparr>, st)"
    by (rule read_eq) (use Cons.prems in auto)
  have "(if ?m \<noteq> [] then poll_resolve env ?m q st else st) = wake ms q st"
    using Cons.prems by (simp add: poll_resolve_def wake_def disarm_def getIfNotExpired_def)
  then have "notify_loop env p (q # qs) st = notify_loop env p qs (wake ms q st)"
    using rd by (cases "?m = []") simp_all
  then show ?case using Cons.IH[of "wake ms q st"] Cons.prems by simp
qed simp

lemma fold_wake_other:
  "i \<notin> pl_id ` set qs \<Longrightarrow> map_of (resolved (fold (wake ms) qs st)) i = map_of (resolved st) i"
  by (induction qs arbitrary: st) (auto simp: resolved_wake)

lemma fold_wake_answer:
  "distinct (map pl_id qs) \<Longrightarrow> q \<in> set qs \<Longrightarrow> map_of (resolved st) (pl_id q) = None \<Longrightarrow>
     after_offset (Some (pl_offset q)) ms \<noteq> [] \<Longrightarrow>
     map_of (resolved (fold (wake ms) qs st)) (pl_id q) =
       Some \<lparr>wr_messages = after_offset (Some (pl_offset q)) ms, wr_timedOut = False, wr_streamClosed = None\<rparr>"
proof (induction qs arbitrary: st)
  case (Cons x qs)
  show ?case
  proof (cases "x = q")
    case True
    then show ?thesis using Cons.prems fold_wake_other[of "pl_id q" qs ms "wake ms q st"] by (simp add: resolved_wake)
  next
    case False
    then have "pl_id x \<noteq> pl_id q" using Cons.prems by auto
    then show ?thesis using Cons.IH[of "wake ms x st"] Cons.prems False by (auto simp: resolved_wake)
  qed
qed simp

text \<open>C14. An append wakes the readers that wait for it: every long-poll pending on the stream at an
  offset before the new message is answered at once, with exactly the messages after its offset,
  the last of which is the new one, even when the append also closes the stream.\<close>

theorem append_wakes_readers:
  assumes "reachable exact nc st" "nc_ok nc" "num_canon env = nc" "allowed exact env (Append p data opts) st"
    and "append env p data opts st = (r, st')" "stored_message r = Some m"
    and "q \<in> set (pendingLongPolls st)" "pl_path q = p" "pl_offset q < m_offset m" "pl_offset q \<noteq> []"
    and "content (streams st) p ms"
  shows "map_of (resolved st') (pl_id q) =
    Some \<lparr>wr_messages = after_offset (Some (pl_offset q)) (ms @ [m]), wr_timedOut = False, wr_streamClosed = None\<rparr>
    \<and> last (after_offset (Some (pl_offset q)) (ms @ [m])) = m"
proof -
  have inv: "store_inv exact nc st" using reachable_store_inv assms by blast
  have pinv: "poll_inv st" by (rule reachable_polls[OF assms(1)])
  have rm: "append_room env p data st" using assms(4) by simp
  obtain s pr s1 where s: "stores env p data opts st s pr s1 m"
    using stored_message_stores[OF assms(5,6)] by blast
  note a = s[unfolded stores_def]
  let ?s = "append_commit opts pr (push_message m s1)"
  let ?st2 = "put_stream p ?s st"
  let ?qs = "filter (\<lambda>q. pl_path q = p) (pendingLongPolls st)"
  let ?st3 = "fold (wake (ms @ [m])) ?qs ?st2"
  have p2: "map_of (streams ?st2) p = Some ?s" "\<not> isExpired env ?s"
    using a append_check_stream[of env p opts s] by (auto simp: put_stream_def)
  have inv2: "store_inv exact nc ?st2"
    by (rule in_place_survivor[OF inv _ stored_in_place[OF inv s assms(3,2) rm]]) (use a in \<open>simp_all add: put_stream_def\<close>)
  have c2: "content (streams ?st2) p (ms @ [m])"
    using append_content[OF inv s assms(3,2) rm _ assms(11), of ?st2] by (simp add: put_stream_def)
  have n: "notifyLongPolls env p ?st2 = (Inr (), ?st3)"
    using notify_loop_wakes[OF inv_uptoD(2)[OF inv2[unfolded store_inv_def]] p2(1) c2 p2(2), of ?qs]
    by (simp add: notifyLongPolls_def put_stream_def)
  have st': "st' = (if ao_close opts then notifyLongPollsClosed env p ?st3 else ?st3)"
    using assms(5) a n by (simp add: append_def Let_def getIfNotExpired_same split: if_splits)
  have un: "map_of (resolved ?st2) (pl_id q) = None" "distinct (map pl_id ?qs)"
    using pinv assms(7) unfolding poll_inv_def polls_upto_def
    by (auto simp: map_of_eq_None_iff put_stream_def distinct_map_filter)
  have l: "last (after_offset (Some (pl_offset q)) (ms @ [m])) = m" "after_offset (Some (pl_offset q)) (ms @ [m]) \<noteq> []"
    using assms(9,10) by (simp_all add: after_offset_def)
  have ans: "map_of (resolved ?st3) (pl_id q) =
      Some \<lparr>wr_messages = after_offset (Some (pl_offset q)) (ms @ [m]), wr_timedOut = False, wr_streamClosed = None\<rparr>"
    by (rule fold_wake_answer) (use un l assms(7,8) in auto)
  have "poll_step {} st ?st3" using put_step[of "{}" st st p ?s] notifyLongPolls_step[OF n, of "{}"] poll_step_trans by blast
  then have "polls_upto {} ?st3" using pinv by (simp add: poll_step_def poll_inv_def)
  then have "\<exists>xs. resolved (notifyLongPollsClosed env p ?st3) = resolved ?st3 @ xs"
    using notify_closed_step[of "{}" ?st3 env p] by (simp add: poll_step_def)
  moreover have "distinct (map fst (resolved (notifyLongPollsClosed env p ?st3)))"
    using notify_closed_step[of "{}" ?st3 env p] \<open>polls_upto {} ?st3\<close> by (simp add: poll_step_def polls_upto_def)
  ultimately have "map_of (resolved (notifyLongPollsClosed env p ?st3)) (pl_id q) = map_of (resolved ?st3) (pl_id q)"
    using ans map_of_SomeD[OF ans] by (auto simp: map_of_eq_Some_iff)
  then show ?thesis using ans l(1) st' by simp
qed

theorem append_wakes_readers_witness:
  "map_of (resolved (snd (append (env_at 5) ''/b'' ''q'' (no_append_options\<lparr>ao_close := True\<rparr>) sample_wait))) 0 =
     Some \<lparr>wr_messages = [msg_at ''q'' 20 5], wr_timedOut = False, wr_streamClosed = None\<rparr>"
proof -
  let ?o = "no_append_options\<lparr>ao_close := True\<rparr>"
  let ?r = "append (env_at 5) ''/b'' ''q'' ?o sample_wait"
  let ?q = "hd (pendingLongPolls sample_wait)"
  have "streams sample_wait = streams sample_ab" by code_simp
  then have b: "content (streams sample_wait) ''/b'' [msg_at ''xyz'' 8 1, msg_at ''w'' 14 3]" using sample_content by simp
  have al: "allowed True (env_at 5) (Append ''/b'' ''q'' ?o) sample_wait"
    and m: "stored_message (fst ?r) = Some (msg_at ''q'' 20 5)" by code_simp+
  have q: "pendingLongPolls sample_wait \<noteq> []" "pl_path ?q = ''/b''" "pl_offset ?q < m_offset (msg_at ''q'' 20 5)"
    "pl_offset ?q \<noteq> []" "pl_id ?q = 0"
    "after_offset (Some (pl_offset ?q)) ([msg_at ''xyz'' 8 1, msg_at ''w'' 14 3] @ [msg_at ''q'' 20 5]) = [msg_at ''q'' 20 5]"
    by code_simp+
  show ?thesis
    using append_wakes_readers[OF reach_sample_wait nc_ok_same num_canon_env_at al prod.collapse[symmetric] m
        hd_in_set[OF q(1)] q(2-4) b] q(5,6) by simp
qed

end
