(* ===== verification/Store_Findings.thy ===== *)
theory Store_Findings
  imports Store_Props
begin

text \<open>
  Behaviours of the store that depart from what its comments say, each on a concrete run: what
  happens when a create replaces an expired stream that others were forked from (outside the guard
  of \<open>allowed\<close>), the shutdown loop, and the missing soft-delete check of one of the two closes.
\<close>

section \<open>Replacing an expired source\<close>

text \<open>A cycle of sources makes the walk along them endless.\<close>

lemma cyclic_read_diverges:
  assumes "map_of ss a = Some s" "forkedFrom s = Some b" "b \<noteq> []"
    and "map_of ss b = Some t" "forkedFrom t = Some a" "a \<noteq> []"
  shows "readForkedMessages ss a None cap = None"
proof (rule ccontr)
  assume "readForkedMessages ss a None cap \<noteq> None"
  then obtain ms where "readForkedMessages ss a None cap = Some ms" by blast
  moreover have "ss' = ss \<longrightarrow> p \<in> {a, b} \<longrightarrow> o' = None \<longrightarrow> False"
    if "readForkedMessages ss' p o' cap' = Some ms" for ss' p o' cap' ms
    by (rule readForkedMessages.raw_induct[OF _ that, where P = "\<lambda>ss' p o' cap' ms. ss' = ss \<longrightarrow> p \<in> {a, b} \<longrightarrow> o' = None \<longrightarrow> False"])
      (use assms in \<open>fastforce simp: truthy_def split: option.splits Option.bind_splits if_splits\<close>)
  ultimately show False by blast
qed

definition ttl_options :: "nat \<Rightarrow> create_options" where
  "ttl_options n = no_create_options\<lparr>co_ttlSeconds := Some n, co_initialData := Some ''x''\<rparr>"

text \<open>A stream with a short life, a fork of it that outlives it.\<close>

definition expired_source :: store where
  "expired_source =
     exec (env_at 1) (Create ''/b'' (no_create_options\<lparr>co_forkedFrom := Some ''/a'', co_ttlSeconds := Some 1000\<rparr>))
       (exec (env_at 0) (Create ''/a'' (ttl_options 1)) empty_store)"

lemma reach_expired_source: "reachable True (\<lambda>x. x) expired_source"
proof -
  have 1: "allowed True (env_at 0) (Create ''/a'' (ttl_options 1)) empty_store" by code_simp
  have 2: "allowed True (env_at 1) (Create ''/b'' (no_create_options\<lparr>co_forkedFrom := Some ''/a'', co_ttlSeconds := Some 1000\<rparr>))
      (exec (env_at 0) (Create ''/a'' (ttl_options 1)) empty_store)" by code_simp
  show ?thesis unfolding expired_source_def by (rule reach_step[OF reach_step[OF reach_empty _ 1] _ 2]) simp_all
qed

text \<open>A create on the path of an expired stream that still has forks is not refused (the comment
  promises that a path cannot be reused while forks are active): the source is dropped, and its
  live fork loses the messages it inherited.\<close>

theorem create_over_expired_loses_data:
  "reachable True (\<lambda>x. x) expired_source
   \<and> fst (read (env_at 2000) ''/b'' None expired_source) =
       Inr \<lparr>rr_messages = [msg_at ''x'' 6 0], rr_upToDate = True\<rparr>
   \<and> fst (read (env_at 2000) ''/b'' None (snd (create (env_at 2000) ''/a'' no_create_options expired_source))) =
       Inr \<lparr>rr_messages = [], rr_upToDate = True\<rparr>"
proof -
  have 1: "fst (read (env_at 2000) ''/b'' None expired_source) =
      Inr \<lparr>rr_messages = [msg_at ''x'' 6 0], rr_upToDate = True\<rparr>" by code_simp
  have 2: "fst (read (env_at 2000) ''/b'' None (snd (create (env_at 2000) ''/a'' no_create_options expired_source))) =
      Inr \<lparr>rr_messages = [], rr_upToDate = True\<rparr>" by code_simp
  show ?thesis using reach_expired_source 1 2 by blast
qed

definition cyclic_sources :: store where
  "cyclic_sources =
     snd (create (env_at 2000) ''/a'' (no_create_options\<lparr>co_forkedFrom := Some ''/b''\<rparr>) expired_source)"

text \<open>When the expired source is created anew as a fork of its own fork, the two streams are each
  other's source, and a read of either never ends: the engine's stack overflows.\<close>

theorem create_over_expired_cycle:
  "fst (create (env_at 2000) ''/a'' (no_create_options\<lparr>co_forkedFrom := Some ''/b''\<rparr>) expired_source) =
     Inr (the (map_of (streams cyclic_sources) ''/a''))
   \<and> fst (read (env_at 2001) ''/b'' None cyclic_sources) = Inl Stack_overflow"
proof -
  let ?a = "the (map_of (streams cyclic_sources) ''/a'')" and ?b = "the (map_of (streams cyclic_sources) ''/b'')"
  have 1: "fst (create (env_at 2000) ''/a'' (no_create_options\<lparr>co_forkedFrom := Some ''/b''\<rparr>) expired_source) = Inr ?a"
    by code_simp
  have s: "map_of (streams cyclic_sources) ''/a'' \<noteq> None" "map_of (streams cyclic_sources) ''/b'' \<noteq> None"
    "forkedFrom ?a = Some ''/b''" "forkedFrom ?b = Some ''/a''" "\<not> isExpired (env_at 2001) ?b" by code_simp+
  obtain sa where a: "map_of (streams cyclic_sources) ''/a'' = Some sa" using s(1) by blast
  obtain sb where b: "map_of (streams cyclic_sources) ''/b'' = Some sb" using s(2) by blast
  have f: "forkedFrom sa = Some ''/b''" "forkedFrom sb = Some ''/a''" "\<not> isExpired (env_at 2001) sb"
    using s(3-5) a b by simp_all
  have "readForkedMessages (streams cyclic_sources) ''/a'' None (forkOffset sb) = None"
    by (rule cyclic_read_diverges[OF a f(1) _ b f(2)]) simp_all
  then have "fst (read (env_at 2001) ''/b'' None cyclic_sources) = Inl Stack_overflow"
    using f(2,3) by (simp add: read_def getIfNotExpired_def b read_messages_def chain_result_def)
  with 1 show ?thesis by blast
qed

section \<open>Shutdown\<close>

definition two_waiters :: store where
  "two_waiters = exec (env_at 4) (WaitForMessages ''/b'' (off 14))
     (exec (env_at 4) (WaitForMessages ''/b'' (off 14)) sample_ab)"

text \<open>The shutdown loop removes each poll it resolves from the array it iterates over, and so
  skips every other one: of two waiting readers the second is not answered by \<^verbatim>\<open>cancelAllWaits\<close>
  and stays blocked until its own timeout.\<close>

theorem cancelAllWaits_skips:
  "map pl_id (pendingLongPolls two_waiters) = [0, 1]
   \<and> map_of (resolved (cancelAllWaits (env_at 5) two_waiters)) 0 \<noteq> None
   \<and> map_of (resolved (cancelAllWaits (env_at 5) two_waiters)) 1 = None
   \<and> pendingLongPolls (cancelAllWaits (env_at 5) two_waiters) = []"
  by code_simp

section \<open>Closing a soft-deleted stream\<close>

definition soft_deleted_store :: store where
  "soft_deleted_store = exec (env_at 5) (Delete ''/a'') sample_ab"

text \<open>Of the two ways to close a stream only one checks for deletion: on a soft-deleted stream
  \<^verbatim>\<open>closeStream\<close> throws (410), \<^verbatim>\<open>closeStreamWithProducer\<close> closes it and reports success (204).\<close>

theorem close_with_producer_on_deleted:
  "fst (closeStream (env_at 6) ''/a'' soft_deleted_store) = Inl (Stream_soft_deleted ''/a'')
   \<and> map_option cr_producerResult (fst (closeStreamWithProducer (env_at 6) ''/a'' ''w'' 0 0 soft_deleted_store)) =
       Some (Some (Accepted True \<lparr>ps_epoch = 0, ps_lastSeq = 0, ps_lastUpdated = 6\<rparr> ''w''))
   \<and> map_option closed (map_of (streams (snd (closeStreamWithProducer (env_at 6) ''/a'' ''w'' 0 0 soft_deleted_store))) ''/a'')
       = Some True"
  by code_simp

section \<open>Repeating the creation of a fork\<close>

definition json_source :: store where
  "json_source = exec (env_at 0) (Create ''/j'' (no_create_options\<lparr>co_contentType := Some ''application/json''\<rparr>)) empty_store"

text \<open>Creating a fork is not idempotent when it inherits its content type: the same request,
  with no content type, is refused as a conflict the second time.\<close>

theorem fork_create_not_idempotent:
  "(case create (env_at 1) ''/f'' (no_create_options\<lparr>co_forkedFrom := Some ''/j''\<rparr>) json_source of
      (Inr s, st) \<Rightarrow> contentType s = Some ''application/json''
        \<and> fst (create (env_at 2) ''/f'' (no_create_options\<lparr>co_forkedFrom := Some ''/j''\<rparr>) st) = Inl (Config_mismatch ''/f'')
    | _ \<Rightarrow> False)"
  by code_simp

end
