(* ===== verification/Glob.thy ===== *)
theory Glob
  imports Js_Prelude
begin

text \<open>
  Glob patterns of subscriptions: server/src/glob.ts. The matcher works with indices into the two
  segment arrays, backtracking over \<^verbatim>\<open>**\<close>; \<open>glob_rel\<close> is the meaning its header comment
  gives to patterns, and the equivalence of the two is the property of this component.
\<close>

section \<open>Slashes\<close>

text \<open>\<^verbatim>\<open>replace(/^\/+/, "")\<close> and \<^verbatim>\<open>replace(/\/+$/, "")\<close>.\<close>

definition strip_leading :: "string \<Rightarrow> string" where
  "strip_leading p = dropWhile (\<lambda>c. c = CHR ''/'') p"

definition strip_trailing :: "string \<Rightarrow> string" where
  "strip_trailing p = rev (dropWhile (\<lambda>c. c = CHR ''/'') (rev p))"

definition splitPath :: "string \<Rightarrow> string list" where
  "splitPath p = filter (\<lambda>s. 0 < length s) (split_on CHR ''/'' (strip_trailing (strip_leading p)))"

section \<open>The matcher\<close>

text \<open>\<^verbatim>\<open>replace(/%2[Aa]/g, "*")\<close>.\<close>

fun decode_star :: "string \<Rightarrow> string" where
  "decode_star (a # b # c # s) =
     (if a = CHR ''%'' \<and> b = CHR ''2'' \<and> (c = CHR ''A'' \<or> c = CHR ''a'') then CHR ''*'' # decode_star s
      else a # decode_star (b # c # s))"
| "decode_star s = s"

text \<open>The loop that skips trailing \<^verbatim>\<open>**\<close>.\<close>

function skip_trailing :: "string list \<Rightarrow> nat \<Rightarrow> nat" where
  "skip_trailing pat i =
     (if i < length pat \<and> pat ! i = ''**'' then skip_trailing pat (i + 1) else i)"
  by auto
termination by (relation "measure (\<lambda>(pat, i). length pat - i)") auto

function matchParts :: "string list \<Rightarrow> nat \<Rightarrow> string list \<Rightarrow> nat \<Rightarrow> bool" where
  "matchParts pat i path si =
     (if i < length pat \<and> si < length path then
        let seg = pat ! i in
        if seg = ''**'' then list_ex (\<lambda>k. matchParts pat (i + 1) path k) [si..<length path + 1]
        else if seg = ''*'' then matchParts pat (i + 1) path (si + 1)
        else if decode_star seg \<noteq> path ! si then False
        else matchParts pat (i + 1) path (si + 1)
      else
        let i' = skip_trailing pat i in i' = length pat \<and> si = length path)"
  by auto
termination by (relation "measure (\<lambda>(pat, i, path, si). length pat - i)") auto

declare skip_trailing.simps [simp del] matchParts.simps [simp del]

definition globMatch :: "string \<Rightarrow> string \<Rightarrow> bool" where
  "globMatch pat path =
     (let patternParts = splitPath pat; pathParts = splitPath path in matchParts patternParts 0 pathParts 0)"

section \<open>The meaning of patterns\<close>

inductive glob_rel :: "string list \<Rightarrow> string list \<Rightarrow> bool" where
  Done: "glob_rel [] []"
| One: "glob_rel ps ss \<Longrightarrow> glob_rel (''*'' # ps) (s # ss)"
| Literal: "p \<noteq> ''*'' \<Longrightarrow> p \<noteq> ''**'' \<Longrightarrow> glob_rel ps ss \<Longrightarrow> glob_rel (p # ps) (decode_star p # ss)"
| Many_none: "glob_rel ps ss \<Longrightarrow> glob_rel (''**'' # ps) ss"
| Many_more: "glob_rel (''**'' # ps) ss \<Longrightarrow> glob_rel (''**'' # ps) (s # ss)"

inductive_cases glob_rel_NilE: "glob_rel [] ss"
inductive_cases glob_rel_ConsE: "glob_rel (p # ps) ss"

lemma glob_rel_Nil [simp]: "glob_rel [] ss \<longleftrightarrow> ss = []"
  by (auto elim: glob_rel_NilE intro: Done)

lemma glob_rel_Many: "glob_rel (''**'' # ps) ss \<longleftrightarrow> (\<exists>k\<le>length ss. glob_rel ps (drop k ss))"
proof
  show "glob_rel (''**'' # ps) ss \<Longrightarrow> \<exists>k\<le>length ss. glob_rel ps (drop k ss)"
  proof (induction "''**'' # ps" ss rule: glob_rel.induct)
    case (Many_none ss)
    then show ?case by (intro exI[of _ 0]) simp
  next
    case (Many_more ss s)
    then obtain k where "k \<le> length ss" "glob_rel ps (drop k ss)" by blast
    then show ?case by (intro exI[of _ "Suc k"]) simp
  qed simp_all
next
  assume "\<exists>k\<le>length ss. glob_rel ps (drop k ss)"
  then obtain k where "k \<le> length ss" "glob_rel ps (drop k ss)" by blast
  then show "glob_rel (''**'' # ps) ss"
  proof (induction k arbitrary: ss)
    case (Suc k)
    then obtain s r where "ss = s # r" by (cases ss) auto
    with Suc show ?case by (auto intro: Many_more)
  qed (auto intro: Many_none)
qed

lemma glob_rel_single:
  "p \<noteq> ''**'' \<Longrightarrow> glob_rel (p # ps) ss \<longleftrightarrow>
     (\<exists>s r. ss = s # r \<and> (p = ''*'' \<or> decode_star p = s) \<and> glob_rel ps r)"
  by (auto elim: glob_rel_ConsE intro: One Literal)

section \<open>The matcher implements the meaning\<close>

lemma skip_trailing_glob:
  "i \<le> length pat \<Longrightarrow> skip_trailing pat i = length pat \<longleftrightarrow> glob_rel (drop i pat) []"
proof (induction pat i rule: skip_trailing.induct)
  case (1 pat i)
  show ?case
  proof (cases "i < length pat \<and> pat ! i = ''**''")
    case True
    then have "drop i pat = ''**'' # drop (i + 1) pat" by (metis Cons_nth_drop_Suc Suc_eq_plus1)
    with 1 True show ?thesis by (simp add: skip_trailing.simps[of pat i] glob_rel_Many)
  next
    case False
    show ?thesis
    proof (cases "i < length pat")
      case True
      with False have "drop i pat = pat ! i # drop (Suc i) pat" "pat ! i \<noteq> ''**''"
        by (auto simp: Cons_nth_drop_Suc)
      with True show ?thesis by (simp add: skip_trailing.simps[of pat i] glob_rel_single)
    qed (use "1.prems" in \<open>simp add: skip_trailing.simps[of pat "length pat"]\<close>)
  qed
qed

lemma ex_drop_shift:
  assumes "a \<le> length xs"
  shows "(\<exists>k. a \<le> k \<and> k \<le> length xs \<and> P (drop k xs)) \<longleftrightarrow> (\<exists>k\<le>length xs - a. P (drop k (drop a xs)))"
proof
  assume "\<exists>k. a \<le> k \<and> k \<le> length xs \<and> P (drop k xs)"
  then obtain k where "a \<le> k" "k \<le> length xs" "P (drop k xs)" by blast
  then show "\<exists>k\<le>length xs - a. P (drop k (drop a xs))" by (intro exI[of _ "k - a"]) simp
next
  assume "\<exists>k\<le>length xs - a. P (drop k (drop a xs))"
  then obtain k where "k \<le> length xs - a" "P (drop k (drop a xs))" by blast
  then show "\<exists>k. a \<le> k \<and> k \<le> length xs \<and> P (drop k xs)"
    using assms by (intro exI[of _ "k + a"]) simp
qed

lemma matchParts_glob:
  "i \<le> length pat \<Longrightarrow> si \<le> length path \<Longrightarrow> matchParts pat i path si \<longleftrightarrow> glob_rel (drop i pat) (drop si path)"
proof (induction pat i path si rule: matchParts.induct)
  case (1 pat i path si)
  note simps = matchParts.simps[of pat i path si] Let_def
  show ?case
  proof (cases "i < length pat \<and> si < length path")
    case True
    then have d: "drop i pat = pat ! i # drop (i + 1) pat" "drop si path = path ! si # drop (si + 1) path"
      by (simp_all add: Cons_nth_drop_Suc)
    consider "pat ! i = ''**''" | "pat ! i = ''*''" | "pat ! i \<noteq> ''*''" "pat ! i \<noteq> ''**''" by blast
    then show ?thesis
    proof cases
      case 1
      have "matchParts pat i path si \<longleftrightarrow> (\<exists>k. si \<le> k \<and> k \<le> length path \<and> matchParts pat (i + 1) path k)"
      proof -
        have "set [si..<length path + 1] = {k. si \<le> k \<and> k \<le> length path}" by auto
        then show ?thesis using True 1 by (simp add: simps list_ex_iff del: upt_Suc set_upt)
      qed
      also have "\<dots> \<longleftrightarrow> (\<exists>k. si \<le> k \<and> k \<le> length path \<and> glob_rel (drop (i + 1) pat) (drop k path))"
      proof -
        have "matchParts pat (i + 1) path k \<longleftrightarrow> glob_rel (drop (i + 1) pat) (drop k path)" if "si \<le> k" "k \<le> length path" for k
          using "1.IH"(1)[OF True refl 1, of k] True that by (simp del: upt_Suc)
        then show ?thesis by blast
      qed
      also have "\<dots> \<longleftrightarrow> (\<exists>k\<le>length path - si. glob_rel (drop (i + 1) pat) (drop k (drop si path)))"
        using True by (intro ex_drop_shift) simp
      finally show ?thesis using d(1) 1 by (simp add: glob_rel_Many)
    next
      case 2
      then show ?thesis using True "1.IH"(2)[OF True refl] d by (simp add: simps glob_rel_single)
    next
      case 3
      then show ?thesis using True "1.IH"(3)[OF True refl] d by (auto simp: simps glob_rel_single)
    qed
  next
    case False
    show ?thesis
    proof (cases "si = length path")
      case True
      with "1.prems"(1) show ?thesis by (simp add: matchParts.simps[of pat i path "length path"] Let_def skip_trailing_glob)
    next
      case si: False
      with False "1.prems" have "i = length pat" "drop si path \<noteq> []" by auto
      with si show ?thesis by (simp add: matchParts.simps[of pat "length pat" path si] Let_def)
    qed
  qed
qed

section \<open>Segments\<close>

definition segments :: "string \<Rightarrow> string list" where
  "segments p = filter (\<lambda>s. s \<noteq> []) (split_on CHR ''/'' p)"

lemma segments_slash: "segments (CHR ''/'' # p) = segments p"
  by (simp add: segments_def)

lemma segments_strip_leading: "segments (strip_leading p) = segments p"
  by (induction p) (simp_all add: strip_leading_def segments_slash)

lemma split_on_snoc: "split_on c (p @ [c]) = split_on c p @ [[]]"
  by (induction c p rule: split_on.induct) (auto split: list.splits)

lemma segments_snoc_slash: "segments (p @ [CHR ''/'']) = segments p"
  by (simp add: segments_def split_on_snoc)

lemma segments_strip_trailing: "segments (strip_trailing p) = segments p"
  by (induction p rule: rev_induct) (simp_all add: strip_trailing_def segments_snoc_slash)

lemma splitPath_segments: "splitPath p = segments p"
proof -
  have "splitPath p = segments (strip_trailing (strip_leading p))"
    by (simp add: splitPath_def segments_def)
  then show ?thesis by (simp add: segments_strip_leading segments_strip_trailing)
qed

section \<open>Property\<close>

text \<open>C36. The matcher decides the documented meaning of glob patterns: on the non-empty segments of
  pattern and path, \<^verbatim>\<open>*\<close> stands for exactly one segment, \<^verbatim>\<open>**\<close> for any number of them, and any
  other segment for itself (with \<^verbatim>\<open>%2A\<close> read as a star). The index loop with backtracking always
  terminates.\<close>

theorem globMatch_correct: "globMatch pat path \<longleftrightarrow> glob_rel (segments pat) (segments path)"
  by (simp add: globMatch_def Let_def splitPath_segments matchParts_glob)

end
