(* ===== verification/Base64.thy ===== *)
theory Base64
  imports Json_Text
begin

text \<open>
  The base-64 conversions of Node's \<^verbatim>\<open>Buffer\<close>: \<^verbatim>\<open>toString("base64")\<close>, \<^verbatim>\<open>toString("base64url")\<close> and
  \<^verbatim>\<open>Buffer.from(s, "base64")\<close>, which accepts both alphabets, skips other characters and stops at the
  first padding character.
\<close>

section \<open>Sextets\<close>

fun to_sextets :: "nat list \<Rightarrow> nat list" where
  "to_sextets [] = []"
| "to_sextets [a] = [a div 4, a mod 4 * 16]"
| "to_sextets [a, b] = [a div 4, a mod 4 * 16 + b div 16, b mod 16 * 4]"
| "to_sextets (a # b # c # r) =
     a div 4 # (a mod 4 * 16 + b div 16) # (b mod 16 * 4 + c div 64) # c mod 64 # to_sextets r"

fun from_sextets :: "nat list \<Rightarrow> nat list" where
  "from_sextets (w # x # y # z # r) =
     (w * 4 + x div 16) # (x mod 16 * 16 + y div 4) # (y mod 4 * 64 + z) # from_sextets r"
| "from_sextets [w, x, y] = [w * 4 + x div 16, x mod 16 * 16 + y div 4]"
| "from_sextets [w, x] = [w * 4 + x div 16]"
| "from_sextets _ = []"

lemma sextets_roundtrip: "list_all (\<lambda>b. b < 256) bs \<Longrightarrow> from_sextets (to_sextets bs) = bs"
  by (induction bs rule: to_sextets.induct) (simp_all add: less_mult_imp_div_less)

lemma sextet_bounds:
  fixes a b c :: nat
  shows "a < 256 \<Longrightarrow> a div 4 < 64" "b < 256 \<Longrightarrow> a mod 4 * 16 + b div 16 < 64" "a mod 4 * 16 < 64"
    "c < 256 \<Longrightarrow> b mod 16 * 4 + c div 64 < 64" "b mod 16 * 4 < 64"
proof -
  have m: "a mod 4 < 4" "b mod 16 < 16" by simp_all
  show "a < 256 \<Longrightarrow> a div 4 < 64" by (simp add: less_mult_imp_div_less)
  show "a mod 4 * 16 < 64" "b mod 16 * 4 < 64" using m by linarith+
  show "b < 256 \<Longrightarrow> a mod 4 * 16 + b div 16 < 64" using m(1) less_mult_imp_div_less[of b 16 16] by linarith
  show "c < 256 \<Longrightarrow> b mod 16 * 4 + c div 64 < 64" using m(2) less_mult_imp_div_less[of c 4 64] by linarith
qed

lemma sextets_bound: "list_all (\<lambda>b. b < 256) bs \<Longrightarrow> list_all (\<lambda>x. x < 64) (to_sextets bs)"
  by (induction bs rule: to_sextets.induct) (simp_all add: sextet_bounds)

section \<open>Alphabets\<close>

definition b64_char :: "nat \<Rightarrow> char" where
  "b64_char n = (if n < 26 then char_of (65 + n) else if n < 52 then char_of (71 + n)
     else if n < 62 then char_of (n - 4) else if n = 62 then CHR ''+'' else CHR ''/'')"

definition url_char :: "char \<Rightarrow> char" where
  "url_char c = (if c = CHR ''+'' then CHR ''-'' else if c = CHR ''/'' then CHR ''_'' else c)"

definition b64_val :: "char \<Rightarrow> nat option" where
  "b64_val c =
     (let n = of_char c :: nat
      in if 65 \<le> n \<and> n \<le> 90 then Some (n - 65) else if 97 \<le> n \<and> n \<le> 122 then Some (n - 71)
         else if 48 \<le> n \<and> n \<le> 57 then Some (n + 4) else if c = CHR ''+'' \<or> c = CHR ''-'' then Some 62
         else if c = CHR ''/'' \<or> c = CHR ''_'' then Some 63 else None)"

definition b64_padding :: "nat \<Rightarrow> string" where
  "b64_padding n = replicate ((4 - n mod 4) mod 4) CHR ''=''"

definition base64 :: "bytes \<Rightarrow> string" where
  "base64 data = (let s = map b64_char (to_sextets (map of_char data)) in s @ b64_padding (length s))"

definition base64url :: "bytes \<Rightarrow> string" where
  "base64url data = map (url_char \<circ> b64_char) (to_sextets (map of_char data))"

definition base64_decode :: "string \<Rightarrow> bytes" where
  "base64_decode s = map char_of (from_sextets (List.map_filter b64_val (takeWhile (\<lambda>c. c \<noteq> CHR ''='') s)))"

section \<open>Round trip\<close>

lemma text_encode_codes: "list_all scalar t \<Longrightarrow> map of_char (text_encode t) = utf8_encode t"
proof -
  assume "list_all scalar t"
  then have "list_all (\<lambda>b. b < 256) (utf8_encode t)"
    using utf8_char_bytes by (auto simp: utf8_encode_def list_all_iff scalar_def)
  then show ?thesis by (auto simp: text_encode_def list_all_iff intro!: map_idI)
qed

lemma b64_alphabet: "list_all (\<lambda>n. b64_val (b64_char n) = Some n \<and> b64_val (url_char (b64_char n)) = Some n
    \<and> b64_char n \<noteq> CHR ''='' \<and> url_char (b64_char n) \<notin> {CHR ''='', CHR ''+'', CHR ''/'', CHR ''~'', CHR ''.''}
    \<and> b64_char n \<notin> {CHR ''-'', CHR ''_''}) [0..<64]"
  by code_simp

lemma b64_char_props:
  assumes "n < 64"
  shows "b64_val (b64_char n) = Some n" "b64_val (url_char (b64_char n)) = Some n"
    "b64_char n \<noteq> CHR ''=''" "url_char (b64_char n) \<notin> {CHR ''='', CHR ''+'', CHR ''/'', CHR ''~'', CHR ''.''}"
    "b64_char n \<notin> {CHR ''-'', CHR ''_''}"
proof -
  have "n \<in> set [0..<64]" using assms by simp
  then have "b64_val (b64_char n) = Some n \<and> b64_val (url_char (b64_char n)) = Some n
    \<and> b64_char n \<noteq> CHR ''='' \<and> url_char (b64_char n) \<notin> {CHR ''='', CHR ''+'', CHR ''/'', CHR ''~'', CHR ''.''}
    \<and> b64_char n \<notin> {CHR ''-'', CHR ''_''}"
    by (rule b64_alphabet[unfolded list_all_iff, rule_format])
  then show "b64_val (b64_char n) = Some n" "b64_val (url_char (b64_char n)) = Some n"
    "b64_char n \<noteq> CHR ''=''" "url_char (b64_char n) \<notin> {CHR ''='', CHR ''+'', CHR ''/'', CHR ''~'', CHR ''.''}"
    "b64_char n \<notin> {CHR ''-'', CHR ''_''}" by simp_all
qed

lemma map_filter_inverse: "\<forall>n\<in>set ns. f (g n) = Some n \<Longrightarrow> List.map_filter f (map g ns) = ns"
  by (induction ns) (simp_all add: map_filter_simps)

lemma byte_codes: "list_all (\<lambda>b. b < 256) (map of_char data :: nat list)"
  by (simp add: list_all_iff)

lemma sextets_of_bytes: "\<forall>n\<in>set (to_sextets (map of_char data)). n < 64"
  using sextets_bound[OF byte_codes] by (simp add: list_all_iff)

lemma takeWhile_no_pad: "\<forall>n\<in>set ns. g n \<noteq> c \<Longrightarrow> takeWhile (\<lambda>d. d \<noteq> c) (map g ns @ replicate k c) = map g ns"
  by (induction ns) (auto simp: takeWhile_replicate)

lemma decode_with:
  assumes "\<forall>n<64. b64_val (g n) = Some n \<and> g n \<noteq> CHR ''=''"
  shows "base64_decode (map g (to_sextets (map of_char data)) @ replicate k CHR ''='') = data"
proof -
  let ?ns = "to_sextets (map of_char data)"
  have "takeWhile (\<lambda>c. c \<noteq> CHR ''='') (map g ?ns @ replicate k CHR ''='') = map g ?ns"
    using assms sextets_of_bytes by (intro takeWhile_no_pad) blast
  moreover have "List.map_filter b64_val (map g ?ns) = ?ns"
    using assms sextets_of_bytes by (intro map_filter_inverse) blast
  ultimately show ?thesis
    by (simp add: base64_decode_def sextets_roundtrip[OF byte_codes] map_idI)
qed

lemma base64_roundtrip: "base64_decode (base64 data) = data"
  unfolding base64_def Let_def b64_padding_def by (rule decode_with) (simp add: b64_char_props)

lemma base64url_roundtrip: "base64_decode (base64url data) = data"
proof -
  have "\<forall>n<64. b64_val ((url_char \<circ> b64_char) n) = Some n \<and> (url_char \<circ> b64_char) n \<noteq> CHR ''=''"
    using b64_char_props(2,4) by auto
  from decode_with[OF this, of data 0] show ?thesis by (simp add: base64url_def comp_def)
qed

lemma base64url_chars: "c \<in> set (base64url data) \<Longrightarrow> c \<notin> {CHR ''='', CHR ''+'', CHR ''/'', CHR ''~'', CHR ''.''}"
  using sextets_of_bytes b64_char_props(4) unfolding base64url_def by fastforce

end
