(* ===== verification/Callback_Token.thy ===== *)
theory Callback_Token
  imports Base64 Json_Mode
begin

text \<open>
  Callback tokens of subscriptions: \<^verbatim>\<open>generateCallbackToken\<close> and \<^verbatim>\<open>validateCallbackToken\<close> of
  server/src/crypto.ts. The parameters are the HMAC-SHA-256 under the server's key as a base64url text
  (\<open>hmac\<close>), the random \<open>jti\<close> and the clock in milliseconds. \<open>nc\<close> is \<^verbatim>\<open>String(Number(s))\<close>, as
  everywhere.
\<close>

definition num_json :: "nat \<Rightarrow> json" where
  "num_json n = JNum (asc (nat_string n))"

definition unix_seconds :: "int \<Rightarrow> nat" where
  "unix_seconds t = nat (t div 1000)"

definition TOKEN_TTL_SECONDS :: nat where
  "TOKEN_TTL_SECONDS = 3600"

definition token_payload :: "string \<Rightarrow> nat \<Rightarrow> nat \<Rightarrow> string \<Rightarrow> json" where
  "token_payload consumerId epoch exp jti =
     JObj [(asc ''sub'', JStr (asc consumerId)), (asc ''epoch'', num_json epoch), (asc ''exp'', num_json exp),
           (asc ''jti'', JStr (asc jti))]"

definition generateCallbackToken ::
  "(string \<Rightarrow> string) \<Rightarrow> int \<Rightarrow> string \<Rightarrow> string \<Rightarrow> nat \<Rightarrow> string" where
  "generateCallbackToken hmac t jti consumerId epoch =
     (let payload = token_payload consumerId epoch (unix_seconds t + TOKEN_TTL_SECONDS) jti;
          payloadStr = base64url (text_encode (stringify payload));
          sig = hmac payloadStr
      in payloadStr @ ''.'' @ sig)"

text \<open>The result of a validation; a signed \<^verbatim>\<open>null\<close> would make the property access throw. \<open>exp\<close> and
  \<open>epoch\<close> are the JSON values of the payload, absent when undefined.\<close>

datatype token_result = Token_valid "json option" "json option" | Token_invalid | Token_expired | Token_throws

text \<open>\<^verbatim>\<open>payload.key\<close> on a parsed value.\<close>

definition json_get :: "json \<Rightarrow> string \<Rightarrow> json option" where
  "json_get v k = (case v of JObj ps \<Rightarrow> map_of ps (asc k) | _ \<Rightarrow> None)"

definition int_of_num :: "utext \<Rightarrow> int option" where
  "int_of_num t = (if t \<noteq> [] \<and> list_all is_udigit t then Some (int (udigits_val t))
     else if t \<noteq> [] \<and> hd t = 45 \<and> tl t \<noteq> [] \<and> list_all is_udigit (tl t) then Some (- int (udigits_val (tl t)))
     else None)"

text \<open>\<^verbatim>\<open>now > payload.exp\<close>, for the integers this server signs; with \<^verbatim>\<open>undefined\<close> it is false.\<close>

definition exp_passed :: "nat \<Rightarrow> json option \<Rightarrow> bool" where
  "exp_passed n e = (case e of Some (JNum t) \<Rightarrow> (case int_of_num t of Some m \<Rightarrow> int n > m | None \<Rightarrow> False) | _ \<Rightarrow> False)"

definition validateCallbackToken ::
  "(string \<Rightarrow> string) \<Rightarrow> (utext \<Rightarrow> utext) \<Rightarrow> int \<Rightarrow> string \<Rightarrow> string \<Rightarrow> token_result" where
  "validateCallbackToken hmac nc t token consumerId =
     (case split_on CHR ''.'' token of
        [payloadStr, sig] \<Rightarrow>
          (let expectedSig = hmac payloadStr
           in if sig \<noteq> expectedSig then Token_invalid
              else (case json_parse nc (utf8_decode (map of_char (base64_decode payloadStr))) of
                      None \<Rightarrow> Token_invalid
                    | Some JNull \<Rightarrow> Token_throws
                    | Some payload \<Rightarrow>
                        if json_get payload ''sub'' \<noteq> Some (JStr (asc consumerId)) then Token_invalid
                        else if exp_passed (unix_seconds t) (json_get payload ''exp'') then Token_expired
                        else Token_valid (json_get payload ''exp'') (json_get payload ''epoch'')))
      | _ \<Rightarrow> Token_invalid)"

definition TOKEN_REFRESH_THRESHOLD :: int where
  "TOKEN_REFRESH_THRESHOLD = 300"

definition tokenNeedsRefresh :: "int \<Rightarrow> int \<Rightarrow> bool" where
  "tokenNeedsRefresh t exp \<longleftrightarrow> exp - int (unix_seconds t) \<le> TOKEN_REFRESH_THRESHOLD"

section \<open>Numerals\<close>

text \<open>\<^verbatim>\<open>String(Number(s))\<close> keeps the decimal numerals of the integers a double represents.\<close>

definition nc_integers :: "(utext \<Rightarrow> utext) \<Rightarrow> bool" where
  "nc_integers nc \<longleftrightarrow> (\<forall>n < 2 ^ 53. nc (asc (nat_string n)) = asc (nat_string n))"

lemma asc_digits: "list_all is_digit s \<Longrightarrow> list_all is_udigit (asc s)"
  by (simp add: asc_def list_all_iff is_digit_def is_udigit_def)

lemma udigits_val_asc: "udigits_val (asc s) = digits_val s"
  by (simp add: udigits_val_def digits_val_def asc_def foldl_map digit_val_def)

lemma of_char_zero: "of_char c = (48 :: nat) \<longleftrightarrow> c = CHR ''0''"
proof -
  have "of_char CHR ''0'' = (48 :: nat)" by simp
  then show ?thesis by (metis of_char_eq_iff)
qed

lemma nat_string_lead: "n = 0 \<or> hd (nat_string n) \<noteq> CHR ''0''"
proof (induction n rule: nat_string.induct)
  case (1 n)
  show ?case
  proof (cases "n < 10")
    case True
    then have "n \<in> set [0..<10]" by simp
    moreover have "list_all (\<lambda>n. n = 0 \<or> hd (nat_string n) \<noteq> CHR ''0'') [0..<10]" by code_simp
    ultimately show ?thesis unfolding list_all_iff by (rule bspec[rotated])
  next
    case False
    then have "n div 10 \<noteq> 0" by simp
    with 1 False show ?thesis by (simp add: nat_string.simps[of n] hd_append)
  qed
qed

lemma parse_num_nat_string: "parse_num (asc (nat_string n)) = Some (asc (nat_string n), [])"
proof -
  have ud: "list_all is_udigit (asc (nat_string n))" by (simp add: asc_digits)
  obtain c r where cr: "asc (nat_string n) = c # r" by (cases "asc (nat_string n)") (auto simp: asc_def)
  have c: "is_udigit c" "list_all is_udigit r" using ud cr by auto
  have z: "c = 48 \<Longrightarrow> n = 0"
    using nat_string_lead[of n] cr by (cases "nat_string n") (auto simp: asc_def of_char_zero)
  show ?thesis
  proof (cases "c = 48")
    case True
    then have "n = 0" by (rule z)
    moreover have "parse_num (asc (nat_string 0)) = Some (asc (nat_string 0), [])" by code_simp
    ultimately show ?thesis by simp
  next
    case False
    have span: "takeWhile is_udigit r = r" "dropWhile is_udigit r = []"
      using c(2) by (simp_all add: list_all_iff)
    have "c \<noteq> 45" using c(1) by (auto simp: is_udigit_def)
    then show ?thesis using c(1) cr False
      by (simp add: span parse_num_def parse_int_def parse_frac_def parse_exp_def span_digits_def)
  qed
qed

lemma num_json_ok: "nc_integers nc \<Longrightarrow> n < 2 ^ 53 \<Longrightarrow> json_ok nc (num_json n)"
  by (simp add: num_json_def num_ok_def parse_num_nat_string nc_integers_def)

lemma int_of_num_nat_string: "int_of_num (asc (nat_string n)) = Some (int n)"
  by (simp add: int_of_num_def asc_digits udigits_val_asc) (simp add: asc_def)

section \<open>Round trip\<close>

lemma payload_ok:
  assumes "nc_integers nc" "epoch < 2 ^ 53" "exp < 2 ^ 53"
  shows "json_ok nc (token_payload sub epoch exp jti)"
proof -
  have "obj_set (asc ''sub'') v [] = [(asc ''sub'', v)]" for v by simp
  moreover have "foldl (\<lambda>acc p. obj_set (fst p) (snd p) acc) []
      [(asc ''sub'', a), (asc ''epoch'', b), (asc ''exp'', c), (asc ''jti'', d)]
    = [(asc ''sub'', a), (asc ''epoch'', b), (asc ''exp'', c), (asc ''jti'', d)]" for a b c d
    by (simp add: is_index_def asc_def is_udigit_def)
  ultimately show ?thesis
    using assms by (simp add: token_payload_def num_json_ok asc_text_ok)
qed

lemma decode_payload:
  assumes "nc_integers nc" "epoch < 2 ^ 53" "exp < 2 ^ 53"
  shows "json_parse nc (utf8_decode (map of_char (base64_decode (base64url (text_encode (stringify (token_payload sub epoch exp jti)))))))
    = Some (token_payload sub epoch exp jti)"
proof -
  let ?p = "token_payload sub epoch exp jti"
  have ok: "json_ok nc ?p" by (rule payload_ok[OF assms])
  have "map of_char (text_encode (stringify ?p)) = utf8_encode (stringify ?p)"
    using stringify_scalar[OF ok] by (rule text_encode_codes)
  then show ?thesis using stringify_scalar[OF ok] json_roundtrip[OF ok] by (simp add: base64url_roundtrip utf8_roundtrip)
qed

lemma token_split:
  "CHR ''.'' \<notin> set s \<Longrightarrow> split_on CHR ''.'' (base64url data @ ''.'' @ s) = [base64url data, s]"
proof -
  assume "CHR ''.'' \<notin> set s"
  moreover have "CHR ''.'' \<notin> set (base64url data)" using base64url_chars by blast
  ultimately show ?thesis by (simp add: split_on_append split_on_none)
qed

lemma payload_fields [simp]:
  "json_get (token_payload sub epoch exp jti) ''sub'' = Some (JStr (asc sub))"
  "json_get (token_payload sub epoch exp jti) ''epoch'' = Some (num_json epoch)"
  "json_get (token_payload sub epoch exp jti) ''exp'' = Some (num_json exp)"
  by (simp_all add: json_get_def token_payload_def asc_def)

lemma asc_inject [simp]: "asc s = asc t \<longleftrightarrow> s = t"
  by (auto simp: asc_def inj_on_def dest!: map_injective)

lemma validate_generated:
  assumes "nc_integers nc" "\<And>x. CHR ''.'' \<notin> set (hmac x)" "epoch < 2 ^ 53"
    "unix_seconds t + TOKEN_TTL_SECONDS < 2 ^ 53"
  shows "validateCallbackToken hmac nc t' (generateCallbackToken hmac t jti sub epoch) sub' =
    (if sub \<noteq> sub' then Token_invalid
     else if unix_seconds t' > unix_seconds t + TOKEN_TTL_SECONDS then Token_expired
     else Token_valid (Some (num_json (unix_seconds t + TOKEN_TTL_SECONDS))) (Some (num_json epoch)))"
proof -
  let ?p = "token_payload sub epoch (unix_seconds t + TOKEN_TTL_SECONDS) jti"
  have d: "json_parse nc (utf8_decode (map of_char (base64_decode (base64url (text_encode (stringify ?p)))))) = Some ?p"
    using assms by (intro decode_payload)
  obtain ps where ps: "?p = JObj ps" by (simp add: token_payload_def)
  let ?s = "base64url (text_encode (stringify ?p))"
  have "validateCallbackToken hmac nc t' (?s @ ''.'' @ hmac ?s) sub' =
      (if json_get ?p ''sub'' \<noteq> Some (JStr (asc sub')) then Token_invalid
       else if exp_passed (unix_seconds t') (json_get ?p ''exp'') then Token_expired
       else Token_valid (json_get ?p ''exp'') (json_get ?p ''epoch''))"
    unfolding validateCallbackToken_def token_split[OF assms(2)] list.case Let_def d option.case
    by (simp add: ps)
  then show ?thesis
    by (simp add: generateCallbackToken_def Let_def exp_passed_def num_json_def int_of_num_nat_string)
qed

section \<open>Properties\<close>

text \<open>C37. A token stands for its subscription and its generation: the token made for a subscription is
  accepted for it during the hour after it was made and shows the generation it was made for; for any
  other subscription it is invalid, and after the hour it is expired.\<close>

theorem callback_token_roundtrip:
  assumes "nc_integers nc" "\<And>x. CHR ''.'' \<notin> set (hmac x)" "epoch < 2 ^ 53"
    "unix_seconds t + TOKEN_TTL_SECONDS < 2 ^ 53"
  shows "validateCallbackToken hmac nc t' (generateCallbackToken hmac t jti sub epoch) sub' =
    (if sub \<noteq> sub' then Token_invalid
     else if unix_seconds t' > unix_seconds t + TOKEN_TTL_SECONDS then Token_expired
     else Token_valid (Some (num_json (unix_seconds t + TOKEN_TTL_SECONDS))) (Some (num_json epoch)))"
  using assms by (rule validate_generated)

theorem callback_token_roundtrip_witness:
  "validateCallbackToken (\<lambda>s. rev (filter ((\<noteq>) CHR ''.'') s)) (\<lambda>x. x) 1800000000000
     (generateCallbackToken (\<lambda>s. rev (filter ((\<noteq>) CHR ''.'') s)) 1799999000000 ''00ff'' ''subscription:a'' 7) ''subscription:a'' =
   Token_valid (Some (num_json (1799999000 + 3600))) (Some (num_json 7))"
  using callback_token_roundtrip[of "\<lambda>x. x" "\<lambda>s. rev (filter ((\<noteq>) CHR ''.'') s)" 7 1799999000000 1800000000000
      "''00ff''" "''subscription:a''" "''subscription:a''"]
  by (simp add: nc_integers_def unix_seconds_def TOKEN_TTL_SECONDS_def)

text \<open>C38. No token is accepted without the server's signature: an accepted token consists of a payload
  for this very subscription and the HMAC of that payload under the server's key.\<close>

theorem accepted_token_is_signed:
  assumes "validateCallbackToken hmac nc t token sub = Token_valid e g"
  shows "\<exists>p v. token = p @ ''.'' @ hmac p \<and> json_parse nc (utf8_decode (map of_char (base64_decode p))) = Some v
    \<and> json_get v ''sub'' = Some (JStr (asc sub)) \<and> json_get v ''epoch'' = g \<and> \<not> exp_passed (unix_seconds t) (json_get v ''exp'')"
proof -
  have join: "s = p @ ''.'' @ q" if "split_on CHR ''.'' s = [p, q]" for s p q
    using that
  proof (induction s arbitrary: p)
    case (Cons x xs)
    show ?case
    proof (cases "x = CHR ''.''")
      case True
      with Cons.prems have "split_on CHR ''.'' xs = [q]" "p = []" by auto
      then have "xs = q"
      proof (induction xs arbitrary: q)
        case (Cons y ys)
        then show ?case by (cases "split_on CHR ''.'' ys") (auto split: if_splits)
      qed auto
      with True \<open>p = []\<close> show ?thesis by simp
    next
      case False
      with Cons.prems obtain p' where "split_on CHR ''.'' xs = [p', q]" "p = x # p'"
        by (cases "split_on CHR ''.'' xs") auto
      with Cons.IH show ?thesis by simp
    qed
  qed simp
  show ?thesis
    using assms join unfolding validateCallbackToken_def Let_def
    by (fastforce split: list.splits if_splits option.splits json.splits)
qed

theorem accepted_token_is_signed_witness:
  "\<exists>p v. generateCallbackToken (\<lambda>s. ''x'') 0 ''j'' ''s'' 1 = p @ ''.'' @ ''x''
    \<and> json_parse (\<lambda>x. x) (utf8_decode (map of_char (base64_decode p))) = Some v
    \<and> json_get v ''sub'' = Some (JStr (asc ''s'')) \<and> json_get v ''epoch'' = Some (num_json 1)
    \<and> \<not> exp_passed (unix_seconds 1000) (json_get v ''exp'')"
proof (rule accepted_token_is_signed)
  show "validateCallbackToken (\<lambda>s. ''x'') (\<lambda>x. x) 1000 (generateCallbackToken (\<lambda>s. ''x'') 0 ''j'' ''s'' 1) ''s''
      = Token_valid (Some (num_json 3600)) (Some (num_json 1))"
    by code_simp
qed

end
