(* ===== verification/Subscriptions.thy ===== *)
theory Subscriptions
  imports Store_Machine Glob Callback_Token
begin

text \<open>
  The subscription manager of the server: server/src/subscription-types.ts and
  server/src/subscription-manager.ts. A hub is the manager together with the stream store it reads
  tails from and writes wake events to; every look-up of a tail can expire a stream, so the store is
  threaded through. An operation is one synchronous piece of the asynchronous code, from one
  \<^verbatim>\<open>await\<close> to the next; where a method awaits before its last effect it is split into two operations
  (\<open>claim_begin\<close> and \<open>claim_finish\<close>; \<open>deliverWebhook\<close> and its outcomes). The lease and retry timers are
  flags with an operation for each firing. Effects on the object of a subscription that has been
  deleted meanwhile are not followed: no operation of the manager reads them.

  Names, patterns, workers and paths are \<^typ>\<open>string\<close>, as in the store.
\<close>

section \<open>Data\<close>

datatype sub_kind = Webhook | Pull_wake
datatype sub_status = Active | Failed
datatype link_type = Glob_link | Explicit_link

record stream_link =
  sl_path :: string
  sl_types :: "link_type list"
  sl_acked :: string

record canonical_config =
  cc_kind :: sub_kind
  cc_pattern :: "string option"
  cc_streams :: "string list"
  cc_webhook :: "string option"
  cc_wake_stream :: "string option"
  cc_lease_ttl_ms :: nat
  cc_description :: "string option"

record sub_input =
  in_kind :: sub_kind
  in_pattern :: "string option"
  in_streams :: "string list"
  in_webhook :: "string option"
  in_wake_stream :: "string option"
  in_lease_ttl_ms :: nat
  in_description :: "string option"

text \<open>\<open>sub_serial\<close> is the identity of the object.\<close>

record subscription =
  sub_id :: string
  sub_serial :: nat
  sub_type :: sub_kind
  sub_pattern :: "string option"
  sub_webhook :: "string option"
  sub_wake_stream :: "string option"
  sub_lease_ttl_ms :: nat
  sub_description :: "string option"
  sub_created_at :: int
  sub_stat :: sub_status
  sub_config_hash :: string
  sub_links :: "(string, stream_link) jsmap"
  sub_generation :: nat
  sub_wake_id :: "string option"
  sub_snapshot :: "(string, string) jsmap"
  sub_token :: "string option"
  sub_holder :: "string option"
  sub_lease_timer :: bool
  sub_retry_count :: nat
  sub_retry_timer :: "string list option"
  sub_next_attempt_at :: "int option"

record stream_info =
  si_path :: string
  si_link_type :: link_type
  si_acked :: string
  si_tail :: string
  si_pending :: bool

text \<open>A callback body: an absent \<^verbatim>\<open>wake_id\<close> is None, a null one \<open>Some None\<close>. \<open>cb_done\<close> is
  \<^verbatim>\<open>request.done === true\<close>. An ack names its stream by \<^verbatim>\<open>stream\<close> or by \<^verbatim>\<open>path\<close>.\<close>

record sub_ack =
  ack_stream :: "string option"
  ack_path :: "string option"
  ack_offset :: string

record callback_request =
  cb_wake_id :: "string option option"
  cb_generation :: "nat option"
  cb_acks :: "sub_ack list option"
  cb_done :: bool

datatype sub_error_code =
    INVALID_REQUEST | SUBSCRIPTION_NOT_FOUND | SUBSCRIPTION_ALREADY_EXISTS | WEBHOOK_URL_REJECTED
  | TOKEN_INVALID | TOKEN_EXPIRED | FENCED | ALREADY_CLAIMED | NO_PENDING_WORK | INVALID_OFFSET

datatype sub_reply =
    Error_reply nat sub_error_code string
  | Already_claimed string nat
  | Claimed "string option" nat string "stream_info list" nat
  | Ok_reply bool
  | No_content

text \<open>A webhook request sent: the body's fields, and what a retry is triggered by.\<close>

record delivery =
  dl_id :: string
  dl_serial :: nat
  dl_wake_id :: string
  dl_generation :: nat
  dl_streams :: "stream_info list"
  dl_token :: string
  dl_triggered :: "string list"

record hub =
  hub_store :: store
  hub_subs :: "(string, subscription) jsmap"
  hub_draws :: nat
  hub_serial :: nat
  hub_down :: bool
  hub_sent :: "delivery list"

text \<open>The environment: the store's, the HMAC under the token key, the hexadecimal texts of the random
  bytes drawn, SHA-256 of the JSON text of a configuration, \<^verbatim>\<open>new URL\<close> (its protocol and host name)
  and \<^verbatim>\<open>isIP\<close> of node:net, and the rounded jitter of a retry.\<close>

record sub_env =
  se_js :: js_env
  se_hmac :: "string \<Rightarrow> string"
  se_random :: "nat \<Rightarrow> string"
  se_sha :: "canonical_config \<Rightarrow> string"
  se_url :: "string \<Rightarrow> (string \<times> string) option"
  se_isIP :: "string \<Rightarrow> nat"
  se_jitter :: int
  se_webhooks :: bool

section \<open>Paths\<close>

definition BEFORE_FIRST_OFFSET :: string where
  "BEFORE_FIRST_OFFSET = ''-1''"

definition compareOffsets :: "string \<Rightarrow> string \<Rightarrow> int" where
  "compareOffsets a b = (if a < b then -1 else if a > b then 1 else 0)"

definition normalizeRelativePath :: "string \<Rightarrow> string" where
  "normalizeRelativePath path = strip_trailing (strip_leading path)"

definition toAbsoluteStreamPath :: "string \<Rightarrow> string" where
  "toAbsoluteStreamPath streamPath = ''/v1/stream/'' @ normalizeRelativePath streamPath"

definition toStreamRelativePath :: "string \<Rightarrow> string option" where
  "toStreamRelativePath absolutePath =
     (let streamRoot = ''/v1/stream/''
      in if \<not> startsWith absolutePath streamRoot then None
         else (let path = drop (length streamRoot) absolutePath
               in if path = ''__ds'' \<or> startsWith path ''__ds/'' then None
                  else if length path > 0 then Some path else None))"

definition stableConfigHash :: "sub_env \<Rightarrow> sub_input \<Rightarrow> string" where
  "stableConfigHash env input = se_sha env
     \<lparr>cc_kind = in_kind input, cc_pattern = in_pattern input, cc_streams = sort (remdups (in_streams input)),
      cc_webhook = in_webhook input, cc_wake_stream = in_wake_stream input,
      cc_lease_ttl_ms = in_lease_ttl_ms input, cc_description = in_description input\<rparr>"

section \<open>Webhook URLs\<close>

text \<open>\<^verbatim>\<open>Number(part)\<close> of the parts of an IPv4 host name, which are digit strings.\<close>

definition isPrivateOrLinkLocalIpv4 :: "string \<Rightarrow> bool" where
  "isPrivateOrLinkLocalIpv4 host =
     (case map js_Number (split_on CHR ''.'' host) of
        [Some a, Some b, Some c, Some d] \<Rightarrow>
          a = 10 \<or> a = 127 \<or> a = 0 \<or> (a = 172 \<and> b \<ge> 16 \<and> b \<le> 31) \<or> (a = 192 \<and> b = 168) \<or> (a = 169 \<and> b = 254)
      | _ \<Rightarrow> False)"

definition isLocalDevHost :: "string \<Rightarrow> bool" where
  "isLocalDevHost host \<longleftrightarrow> host = ''localhost'' \<or>
     (case split_on CHR ''.'' host of
        [a, b, c, d] \<Rightarrow> a = ''127'' \<and> list_all (\<lambda>p. list_all is_digit p \<and> 1 \<le> length p \<and> length p \<le> 3) [b, c, d]
      | _ \<Rightarrow> False)"

definition validateWebhookUrl :: "sub_env \<Rightarrow> string \<Rightarrow> string option" where
  "validateWebhookUrl env rawUrl =
     (case se_url env rawUrl of
        None \<Rightarrow> Some ''webhook.url must be a valid URL''
      | Some (protocol, hostname) \<Rightarrow>
          (let host = toLowerCase hostname
           in if protocol = ''http:'' then
                (if isLocalDevHost host then None
                 else Some ''http webhook URLs are only allowed for localhost or 127.0.0.x'')
              else if protocol \<noteq> ''https:'' then Some ''webhook.url must use https''
              else if host = ''localhost'' then Some ''localhost webhook URLs must use http for dev''
              else if se_isIP env host = 4 \<and> isPrivateOrLinkLocalIpv4 host
              then Some ''webhook.url must not target private or link-local hosts''
              else if se_isIP env host = 6 then Some ''IPv6 webhook hosts are not accepted by the reference server''
              else None))"

section \<open>Reading tails\<close>

definition getTailOffset :: "sub_env \<Rightarrow> string \<Rightarrow> hub \<Rightarrow> string \<times> hub" where
  "getTailOffset env streamPath h =
     (case get_stream (se_js env) (toAbsoluteStreamPath streamPath) (hub_store h) of
        (None, st) \<Rightarrow> (ZERO_OFFSET, h\<lparr>hub_store := st\<rparr>)
      | (Some s, st) \<Rightarrow> (currentOffset s, h\<lparr>hub_store := st\<rparr>))"

definition info_of :: "stream_link \<Rightarrow> string \<Rightarrow> stream_info" where
  "info_of link tail =
     \<lparr>si_path = sl_path link,
      si_link_type = (if Explicit_link \<in> set (sl_types link) then Explicit_link else Glob_link),
      si_acked = sl_acked link, si_tail = tail, si_pending = compareOffsets tail (sl_acked link) > 0\<rparr>"

fun infos_of :: "sub_env \<Rightarrow> stream_link list \<Rightarrow> hub \<Rightarrow> stream_info list \<times> hub" where
  "infos_of env [] h = ([], h)"
| "infos_of env (link # links) h =
     (let (tail, h1) = getTailOffset env (sl_path link) h; (rest, h2) = infos_of env links h1
      in (info_of link tail # rest, h2))"

definition streamInfos :: "sub_env \<Rightarrow> subscription \<Rightarrow> hub \<Rightarrow> stream_info list \<times> hub" where
  "streamInfos env sub h = infos_of env (map snd (sub_links sub)) h"

definition hasPendingWork :: "sub_env \<Rightarrow> subscription \<Rightarrow> hub \<Rightarrow> bool \<times> hub" where
  "hasPendingWork env sub h = (let (infos, h1) = streamInfos env sub h in (list_ex si_pending infos, h1))"

definition firstPendingStream :: "sub_env \<Rightarrow> subscription \<Rightarrow> hub \<Rightarrow> string \<times> hub" where
  "firstPendingStream env sub h =
     (let (infos, h1) = streamInfos env sub h
      in (case List.find si_pending infos of Some i \<Rightarrow> si_path i | None \<Rightarrow> '''', h1))"

section \<open>Links\<close>

definition linkStream :: "subscription \<Rightarrow> string \<Rightarrow> link_type \<Rightarrow> string \<Rightarrow> subscription" where
  "linkStream sub streamPath linkType ackedOffset =
     (let normalized = normalizeRelativePath streamPath
      in case map_of (sub_links sub) normalized of
           Some existing \<Rightarrow>
             sub\<lparr>sub_links := AList.update normalized
                   (existing\<lparr>sl_types := (if linkType \<in> set (sl_types existing) then sl_types existing
                                           else sl_types existing @ [linkType])\<rparr>) (sub_links sub)\<rparr>
         | None \<Rightarrow>
             sub\<lparr>sub_links := AList.update normalized
                   \<lparr>sl_path = normalized, sl_types = [linkType], sl_acked = ackedOffset\<rparr> (sub_links sub)\<rparr>)"

fun linkAll :: "sub_env \<Rightarrow> link_type \<Rightarrow> string list \<Rightarrow> subscription \<Rightarrow> hub \<Rightarrow> subscription \<times> hub" where
  "linkAll env lt [] sub h = (sub, h)"
| "linkAll env lt (p # ps) sub h =
     (let (tail, h1) = getTailOffset env p h in linkAll env lt ps (linkStream sub p lt tail) h1)"

definition listStreams :: "hub \<Rightarrow> string list" where
  "listStreams h = List.map_filter toStreamRelativePath (list_streams (hub_store h))"

section \<open>Leases\<close>

definition clearLease :: "subscription \<Rightarrow> subscription" where
  "clearLease sub = sub\<lparr>sub_lease_timer := False\<rparr>"

definition extendLease :: "subscription \<Rightarrow> subscription" where
  "extendLease sub = (clearLease sub)\<lparr>sub_lease_timer := True\<rparr>"

definition tokenSubject :: "subscription \<Rightarrow> string" where
  "tokenSubject sub = ''subscription:'' @ sub_id sub"

definition put_sub :: "subscription \<Rightarrow> hub \<Rightarrow> hub" where
  "put_sub sub h = h\<lparr>hub_subs := AList.update (sub_id sub) sub (hub_subs h)\<rparr>"

text \<open>The end of a wake: the same five assignments wherever a wake is over.\<close>

definition end_wake :: "subscription \<Rightarrow> subscription" where
  "end_wake sub = (clearLease sub)\<lparr>sub_token := None, sub_holder := None, sub_wake_id := None, sub_snapshot := []\<rparr>"

section \<open>Wakes\<close>

text \<open>\<^verbatim>\<open>generateWakeId\<close> and \<^verbatim>\<open>generateCallbackToken\<close> with the next random draw.\<close>

definition draw :: "sub_env \<Rightarrow> hub \<Rightarrow> string \<times> hub" where
  "draw env h = (se_random env (hub_draws h), h\<lparr>hub_draws := Suc (hub_draws h)\<rparr>)"

definition new_token :: "sub_env \<Rightarrow> subscription \<Rightarrow> hub \<Rightarrow> string \<times> hub" where
  "new_token env sub h =
     (let (jti, h1) = draw env h
      in (generateCallbackToken (se_hmac env) (now (se_js env)) jti (tokenSubject sub) (sub_generation sub), h1))"

definition wake_event :: "sub_env \<Rightarrow> subscription \<Rightarrow> string \<Rightarrow> json" where
  "wake_event env sub streamPath =
     JObj [(asc ''type'', JStr (asc ''wake'')), (asc ''subscription_id'', JStr (asc (sub_id sub))),
           (asc ''stream'', JStr (asc streamPath)), (asc ''generation'', num_json (sub_generation sub)),
           (asc ''ts'', num_json (nat (now (se_js env))))]"

definition default_append :: append_options where
  "default_append = \<lparr>ao_seq = None, ao_contentType = None, ao_producerId = None, ao_producerEpoch = None,
     ao_producerSeq = None, ao_close = False\<rparr>"

text \<open>The append can throw; the error leaves the asynchronous method.\<close>

definition writePullWakeEvent :: "sub_env \<Rightarrow> subscription \<Rightarrow> string \<Rightarrow> hub \<Rightarrow> unit outcome \<times> hub" where
  "writePullWakeEvent env sub streamPath h =
     (if \<not> truthy (sub_wake_stream sub) then (Inr (), h)
      else (let wakeStream = toAbsoluteStreamPath (the (sub_wake_stream sub));
                (there, st1) = has_stream (se_js env) wakeStream (hub_store h)
            in if \<not> there then (Inr (), h\<lparr>hub_store := st1\<rparr>)
               else (case append (se_js env) wakeStream (text_encode (stringify (wake_event env sub streamPath)))
                            default_append st1 of
                       (Inl e, st2) \<Rightarrow> (Inl e, h\<lparr>hub_store := st2\<rparr>)
                     | (Inr _, st2) \<Rightarrow> (Inr (), h\<lparr>hub_store := st2\<rparr>))))"

text \<open>\<^verbatim>\<open>deliverWebhook\<close> up to the \<^verbatim>\<open>await\<close> on the request.\<close>

definition deliverWebhook :: "sub_env \<Rightarrow> subscription \<Rightarrow> string list \<Rightarrow> hub \<Rightarrow> hub" where
  "deliverWebhook env sub triggeredBy h =
     (case (sub_webhook sub, sub_wake_id sub, sub_token sub) of
        (Some url, Some wid, Some tok) \<Rightarrow>
          (let (infos, h1) = streamInfos env sub h
           in h1\<lparr>hub_sent := hub_sent h1 @
                [\<lparr>dl_id = sub_id sub, dl_serial = sub_serial sub, dl_wake_id = wid,
                  dl_generation = sub_generation sub, dl_streams = infos, dl_token = tok,
                  dl_triggered = triggeredBy\<rparr>]\<rparr>)
      | _ \<Rightarrow> h)"

definition createWake :: "sub_env \<Rightarrow> subscription \<Rightarrow> string \<Rightarrow> hub \<Rightarrow> unit outcome \<times> subscription \<times> hub" where
  "createWake env sub triggeredBy h =
     (let (rnd, h1) = draw env h;
          sub1 = sub\<lparr>sub_generation := Suc (sub_generation sub), sub_wake_id := Some (''w_'' @ rnd)\<rparr>;
          (infos, h2) = streamInfos env sub1 h1;
          sub2 = sub1\<lparr>sub_snapshot := foldl (\<lambda>m i. AList.update (si_path i) (si_tail i) m) [] infos\<rparr>
      in if sub_type sub = Webhook then
           (let (tok, h3) = new_token env sub2 h2;
                sub3 = extendLease (sub2\<lparr>sub_token := Some tok\<rparr>)
            in (Inr (), sub3, deliverWebhook env sub3 [triggeredBy] h3))
         else (let (r, h3) = writePullWakeEvent env sub2 triggeredBy h2 in (r, sub2, h3)))"

definition maybeWake :: "sub_env \<Rightarrow> subscription \<Rightarrow> string \<Rightarrow> hub \<Rightarrow> unit outcome \<times> subscription \<times> hub" where
  "maybeWake env sub triggeredBy h =
     (if sub_wake_id sub \<noteq> None \<or> truthy (sub_holder sub) then (Inr (), sub, h)
      else (let (pending, h1) = hasPendingWork env sub h
            in if \<not> pending then (Inr (), sub, h1) else createWake env sub triggeredBy h1))"

definition triggerNextWakeIfPending :: "sub_env \<Rightarrow> subscription \<Rightarrow> hub \<Rightarrow> bool outcome \<times> subscription \<times> hub" where
  "triggerNextWakeIfPending env sub h =
     (let (pending, h1) = hasPendingWork env sub h
      in if \<not> pending then (Inr False, sub, h1)
         else (let (first, h2) = firstPendingStream env sub h1
               in case createWake env sub first h2 of
                    (Inl e, sub', h') \<Rightarrow> (Inl e, sub', h')
                  | (Inr _, sub', h') \<Rightarrow> (Inr True, sub', h')))"

section \<open>Creating and changing subscriptions\<close>

definition new_subscription :: "sub_env \<Rightarrow> string \<Rightarrow> sub_input \<Rightarrow> nat \<Rightarrow> subscription" where
  "new_subscription env sid input serial =
     \<lparr>sub_id = sid, sub_serial = serial, sub_type = in_kind input, sub_pattern = in_pattern input,
      sub_webhook = in_webhook input, sub_wake_stream = in_wake_stream input,
      sub_lease_ttl_ms = in_lease_ttl_ms input, sub_description = in_description input,
      sub_created_at = now (se_js env), sub_stat = Active, sub_config_hash = stableConfigHash env input,
      sub_links = [], sub_generation = 0, sub_wake_id = None, sub_snapshot = [], sub_token = None,
      sub_holder = None, sub_lease_timer = False, sub_retry_count = 0, sub_retry_timer = None,
      sub_next_attempt_at = None\<rparr>"

text \<open>The checks on a new configuration: the error, if any.\<close>

definition input_error :: "sub_env \<Rightarrow> sub_input \<Rightarrow> (sub_error_code \<times> string) option" where
  "input_error env input =
     (if in_kind input = Webhook then
        (if \<not> se_webhooks env then
           Some (INVALID_REQUEST, ''webhook subscriptions are not enabled on this server'')
         else (case in_webhook input of
                 None \<Rightarrow> Some (INVALID_REQUEST, ''webhook subscriptions require webhook.url'')
               | Some url \<Rightarrow>
                   (case validateWebhookUrl env url of
                      Some message \<Rightarrow> Some (WEBHOOK_URL_REJECTED, message)
                    | None \<Rightarrow> None)))
      else if \<not> truthy (in_wake_stream input) then
        Some (INVALID_REQUEST, ''pull-wake subscriptions require wake_stream'')
      else None)"

definition createOrConfirm ::
  "sub_env \<Rightarrow> string \<Rightarrow> sub_input \<Rightarrow> hub \<Rightarrow> ((sub_error_code \<times> string) + subscription \<times> bool) \<times> hub" where
  "createOrConfirm env sid input h =
     (let configHash = stableConfigHash env input
      in case map_of (hub_subs h) sid of
           Some existing \<Rightarrow>
             (if sub_config_hash existing \<noteq> configHash
              then Inl (SUBSCRIPTION_ALREADY_EXISTS, ''Subscription already exists with different configuration'')
              else Inr (existing, False), h)
         | None \<Rightarrow>
             (case input_error env input of
                Some e \<Rightarrow> (Inl e, h)
              | None \<Rightarrow>
                  (let sub = new_subscription env sid input (hub_serial h);
                       (sub1, h1) = linkAll env Explicit_link (in_streams input) sub
                                      (h\<lparr>hub_serial := Suc (hub_serial h)\<rparr>);
                       (sub2, h2) = (if truthy (in_pattern input)
                         then linkAll env Glob_link (filter (globMatch (the (in_pattern input))) (listStreams h1)) sub1 h1
                         else (sub1, h1))
                   in (Inr (sub2, True), put_sub sub2 h2))))"

definition delete_sub :: "string \<Rightarrow> hub \<Rightarrow> bool \<times> hub" where
  "delete_sub sid h =
     (case map_of (hub_subs h) sid of
        None \<Rightarrow> (False, h)
      | Some sub \<Rightarrow> (True, h\<lparr>hub_subs := AList.delete sid (hub_subs h)\<rparr>))"

definition addExplicitStreams :: "sub_env \<Rightarrow> string \<Rightarrow> string list \<Rightarrow> hub \<Rightarrow> bool \<times> hub" where
  "addExplicitStreams env sid ps h =
     (case map_of (hub_subs h) sid of
        None \<Rightarrow> (False, h)
      | Some sub \<Rightarrow> (let (sub1, h1) = linkAll env Explicit_link ps sub h in (True, put_sub sub1 h1)))"

definition removeExplicitStream :: "string \<Rightarrow> string \<Rightarrow> hub \<Rightarrow> bool \<times> hub" where
  "removeExplicitStream sid streamPath h =
     (case map_of (hub_subs h) sid of
        None \<Rightarrow> (False, h)
      | Some sub \<Rightarrow>
          (let normalized = normalizeRelativePath streamPath
           in case map_of (sub_links sub) normalized of
                None \<Rightarrow> (True, h)
              | Some link \<Rightarrow>
                  (let types = removeAll Explicit_link (sl_types link);
                       links = (if types = [] then AList.delete normalized (sub_links sub)
                                else AList.update normalized (link\<lparr>sl_types := types\<rparr>) (sub_links sub))
                   in (True, put_sub (sub\<lparr>sub_links := links\<rparr>) h))))"

section \<open>Reacting to the streams\<close>

text \<open>The body of the loop over the subscriptions.\<close>

definition append_hook :: "sub_env \<Rightarrow> string \<Rightarrow> subscription \<Rightarrow> hub \<Rightarrow> unit outcome \<times> hub" where
  "append_hook env absolutePath sub h =
     (case toStreamRelativePath absolutePath of
        None \<Rightarrow> (Inr (), h)
      | Some relative \<Rightarrow>
          (let sub1 = (if truthy (sub_pattern sub) \<and> globMatch (the (sub_pattern sub)) relative
                       then linkStream sub relative Glob_link
                              (case map_of (sub_links sub) relative of
                                 Some existing \<Rightarrow> sl_acked existing | None \<Rightarrow> BEFORE_FIRST_OFFSET)
                       else sub)
           in if map_of (sub_links sub1) relative \<noteq> None
              then (let (r, sub2, h1) = maybeWake env sub1 relative h in (r, put_sub sub2 h1))
              else (Inr (), put_sub sub1 h)))"

fun append_hooks :: "sub_env \<Rightarrow> string \<Rightarrow> string list \<Rightarrow> hub \<Rightarrow> unit outcome \<times> hub" where
  "append_hooks env path [] h = (Inr (), h)"
| "append_hooks env path (sid # ids) h =
     (case map_of (hub_subs h) sid of
        None \<Rightarrow> append_hooks env path ids h
      | Some sub \<Rightarrow>
          (case append_hook env path sub h of
             (Inl e, h1) \<Rightarrow> (Inl e, h1)
           | (Inr _, h1) \<Rightarrow> append_hooks env path ids h1))"

definition onStreamAppend :: "sub_env \<Rightarrow> string \<Rightarrow> hub \<Rightarrow> unit outcome \<times> hub" where
  "onStreamAppend env absolutePath h =
     (if hub_down h then (Inr (), h) else append_hooks env absolutePath (map fst (hub_subs h)) h)"

definition onStreamDeleted :: "string \<Rightarrow> hub \<Rightarrow> hub" where
  "onStreamDeleted absolutePath h =
     (case toStreamRelativePath absolutePath of
        None \<Rightarrow> h
      | Some relative \<Rightarrow>
          h\<lparr>hub_subs := map (\<lambda>(sid, sub). (sid, sub\<lparr>sub_links := AList.delete relative (sub_links sub)\<rparr>)) (hub_subs h)\<rparr>)"

section \<open>Callbacks of consumers\<close>

definition ack_target :: "sub_ack \<Rightarrow> string" where
  "ack_target ack = normalizeRelativePath
     (case ack_stream ack of Some s \<Rightarrow> s | None \<Rightarrow> (case ack_path ack of Some p \<Rightarrow> p | None \<Rightarrow> []))"

text \<open>The loop that checks the acknowledgements before any is applied.\<close>

fun check_acks :: "sub_env \<Rightarrow> subscription \<Rightarrow> sub_ack list \<Rightarrow> hub \<Rightarrow> sub_reply option \<times> hub" where
  "check_acks env sub [] h = (None, h)"
| "check_acks env sub (ack # acks) h =
     (let stream = ack_target ack
      in case map_of (sub_links sub) stream of
           None \<Rightarrow> (Some (Error_reply 409 INVALID_OFFSET ''Ack references an unknown subscription stream''), h)
         | Some link \<Rightarrow>
             if stream = [] then
               (Some (Error_reply 409 INVALID_OFFSET ''Ack references an unknown subscription stream''), h)
             else if ack_offset ack = BEFORE_FIRST_OFFSET then
               (Some (Error_reply 409 INVALID_OFFSET ''Ack offset must not be -1''), h)
             else if compareOffsets (ack_offset ack) (sl_acked link) < 0 then
               (Some (Error_reply 409 INVALID_OFFSET ''Ack offset regresses the committed cursor''), h)
             else (let (tail, h1) = getTailOffset env stream h
                   in if compareOffsets (ack_offset ack) tail > 0 then
                        (Some (Error_reply 409 INVALID_OFFSET ''Ack offset is beyond stream tail''), h1)
                      else check_acks env sub acks h1))"

definition set_acked :: "string \<Rightarrow> string \<Rightarrow> subscription \<Rightarrow> subscription" where
  "set_acked stream offset sub =
     (case map_of (sub_links sub) stream of
        None \<Rightarrow> sub
      | Some link \<Rightarrow> sub\<lparr>sub_links := AList.update stream (link\<lparr>sl_acked := offset\<rparr>) (sub_links sub)\<rparr>)"

definition applyAcks ::
  "sub_env \<Rightarrow> subscription \<Rightarrow> callback_request \<Rightarrow> hub \<Rightarrow> sub_reply option \<times> subscription \<times> hub" where
  "applyAcks env sub request h =
     (case cb_acks request of
        None \<Rightarrow> (None, sub, h)
      | Some acks \<Rightarrow>
          (case check_acks env sub acks h of
             (Some err, h1) \<Rightarrow> (Some err, sub, h1)
           | (None, h1) \<Rightarrow> (None, fold (\<lambda>ack s. set_acked (ack_target ack) (ack_offset ack) s) acks sub, h1)))"

text \<open>The checks of the token, the generation and the wake id: the error reply, if any. A JSON number
  is equal to the generation when it is its numeral. (A signed \<^verbatim>\<open>null\<close> payload would throw; the
  server signs none, and it counts as invalid here.)\<close>

definition validateWakeToken :: "sub_env \<Rightarrow> subscription \<Rightarrow> string \<Rightarrow> callback_request \<Rightarrow> sub_reply option" where
  "validateWakeToken env sub token request =
     (case validateCallbackToken (se_hmac env) (num_canon (se_js env)) (now (se_js env)) token (tokenSubject sub) of
        Token_expired \<Rightarrow> Some (Error_reply 401 TOKEN_EXPIRED ''Token expired'')
      | Token_valid exp epoch \<Rightarrow>
          if epoch \<noteq> Some (num_json (sub_generation sub)) \<or> cb_generation request \<noteq> Some (sub_generation sub)
             \<or> cb_wake_id request \<noteq> Some (sub_wake_id sub)
          then Some (Error_reply 409 FENCED ''Wake generation is stale'') else None
      | _ \<Rightarrow> Some (Error_reply 401 TOKEN_INVALID ''Token invalid''))"

text \<open>What \<^verbatim>\<open>handleWebhookCallback\<close> and \<^verbatim>\<open>ack\<close> do once the subscription is found. An error thrown by
  the next wake's append leaves the method with the state changed.\<close>

definition callback_body ::
  "sub_env \<Rightarrow> subscription \<Rightarrow> string \<Rightarrow> callback_request \<Rightarrow> hub \<Rightarrow> sub_reply outcome \<times> hub" where
  "callback_body env sub token request h =
     (case validateWakeToken env sub token request of
        Some fenced \<Rightarrow> (Inr fenced, h)
      | None \<Rightarrow>
          (case applyAcks env sub request h of
             (Some ackError, _, h1) \<Rightarrow> (Inr ackError, h1)
           | (None, sub1, h1) \<Rightarrow>
               (let sub2 = extendLease sub1
                in if cb_done request then
                     (case triggerNextWakeIfPending env (end_wake sub2) h1 of
                        (Inl e, sub3, h2) \<Rightarrow> (Inl e, put_sub sub3 h2)
                      | (Inr nextWake, sub3, h2) \<Rightarrow> (Inr (Ok_reply nextWake), put_sub sub3 h2))
                   else (Inr (Ok_reply False), put_sub sub2 h1))))"

definition not_found :: sub_reply where
  "not_found = Error_reply 404 SUBSCRIPTION_NOT_FOUND ''Subscription not found''"

definition not_pull_wake :: sub_reply where
  "not_pull_wake = Error_reply 400 INVALID_REQUEST ''Subscription is not pull-wake''"

definition handleWebhookCallback ::
  "sub_env \<Rightarrow> string \<Rightarrow> string \<Rightarrow> callback_request \<Rightarrow> hub \<Rightarrow> sub_reply outcome \<times> hub" where
  "handleWebhookCallback env sid token request h =
     (case map_of (hub_subs h) sid of
        None \<Rightarrow> (Inr not_found, h)
      | Some sub \<Rightarrow> callback_body env sub token request h)"

definition ack_sub :: "sub_env \<Rightarrow> string \<Rightarrow> string \<Rightarrow> callback_request \<Rightarrow> hub \<Rightarrow> sub_reply outcome \<times> hub" where
  "ack_sub env sid token request h =
     (case map_of (hub_subs h) sid of
        None \<Rightarrow> (Inr not_found, h)
      | Some sub \<Rightarrow> if sub_type sub \<noteq> Pull_wake then (Inr not_pull_wake, h) else callback_body env sub token request h)"

definition release_sub :: "sub_env \<Rightarrow> string \<Rightarrow> string \<Rightarrow> callback_request \<Rightarrow> hub \<Rightarrow> sub_reply outcome \<times> hub" where
  "release_sub env sid token request h =
     (case map_of (hub_subs h) sid of
        None \<Rightarrow> (Inr not_found, h)
      | Some sub \<Rightarrow>
          if sub_type sub \<noteq> Pull_wake then (Inr not_pull_wake, h)
          else (case validateWakeToken env sub token request of
                  Some fenced \<Rightarrow> (Inr fenced, h)
                | None \<Rightarrow>
                    (case triggerNextWakeIfPending env (end_wake sub) h of
                       (Inl e, sub1, h1) \<Rightarrow> (Inl e, put_sub sub1 h1)
                     | (Inr _, sub1, h1) \<Rightarrow> (Inr No_content, put_sub sub1 h1))))"

text \<open>\<^verbatim>\<open>claim\<close> up to the \<^verbatim>\<open>await\<close> of the wake it may have to create (a reply ends it there), and
  after it, on the object it goes on with.\<close>

definition claim_begin :: "sub_env \<Rightarrow> string \<Rightarrow> hub \<Rightarrow> (sub_reply + subscription) outcome \<times> hub" where
  "claim_begin env sid h =
     (case map_of (hub_subs h) sid of
        None \<Rightarrow> (Inr (Inl not_found), h)
      | Some sub \<Rightarrow>
          if sub_type sub \<noteq> Pull_wake then (Inr (Inl not_pull_wake), h)
          else if truthy (sub_holder sub) then
            (Inr (Inl (Already_claimed (the (sub_holder sub)) (sub_generation sub))), h)
          else
            (let (pending, h1) = hasPendingWork env sub h
             in if \<not> pending then
                  (Inr (Inl (Error_reply 409 NO_PENDING_WORK ''Subscription has no pending work'')), h1)
                else if sub_wake_id sub = None then
                  (let (first, h2) = firstPendingStream env sub h1
                   in case createWake env sub first h2 of
                        (Inl e, sub1, h3) \<Rightarrow> (Inl e, put_sub sub1 h3)
                      | (Inr _, sub1, h3) \<Rightarrow> (Inr (Inr sub1), put_sub sub1 h3))
                else (Inr (Inr sub), h1)))"

text \<open>The present state of an object, and its update when it is still in the map.\<close>

definition live_object :: "subscription \<Rightarrow> hub \<Rightarrow> bool" where
  "live_object sub h \<longleftrightarrow>
     (case map_of (hub_subs h) (sub_id sub) of Some s \<Rightarrow> sub_serial s = sub_serial sub | None \<Rightarrow> False)"

definition claim_finish :: "sub_env \<Rightarrow> subscription \<Rightarrow> string \<Rightarrow> hub \<Rightarrow> sub_reply \<times> hub" where
  "claim_finish env obj worker h =
     (let sub = (if live_object obj h then the (map_of (hub_subs h) (sub_id obj)) else obj);
          (tok, h1) = new_token env sub h;
          sub1 = extendLease (sub\<lparr>sub_holder := Some worker, sub_token := Some tok\<rparr>);
          (infos, h2) = streamInfos env sub1 h1
      in (Claimed (sub_wake_id sub1) (sub_generation sub1) tok infos (sub_lease_ttl_ms sub1),
          if live_object obj h then put_sub sub1 h2 else h2))"

definition claim :: "sub_env \<Rightarrow> string \<Rightarrow> string \<Rightarrow> hub \<Rightarrow> sub_reply outcome \<times> hub" where
  "claim env sid worker h =
     (case claim_begin env sid h of
        (Inl e, h1) \<Rightarrow> (Inl e, h1)
      | (Inr (Inl reply), h1) \<Rightarrow> (Inr reply, h1)
      | (Inr (Inr obj), h1) \<Rightarrow> (let (reply, h2) = claim_finish env obj worker h1 in (Inr reply, h2)))"

section \<open>Timers and webhook responses\<close>

definition MAX_RETRY_DELAY_MS :: int where
  "MAX_RETRY_DELAY_MS = 60000"

definition retry_base_delay :: "nat \<Rightarrow> int" where
  "retry_base_delay n = min (1000 * 2 ^ (max 0 (n - 1))) MAX_RETRY_DELAY_MS"

definition scheduleWebhookRetry :: "sub_env \<Rightarrow> subscription \<Rightarrow> string list \<Rightarrow> hub \<Rightarrow> subscription" where
  "scheduleWebhookRetry env sub triggeredBy h =
     (if hub_down h then sub
      else (let n = Suc (sub_retry_count sub);
                delay = max 0 (retry_base_delay n + se_jitter env)
            in sub\<lparr>sub_retry_count := n, sub_stat := Failed, sub_next_attempt_at := Some (now (se_js env) + delay),
                   sub_retry_timer := Some triggeredBy\<rparr>))"

definition autoAckWakeSnapshot :: "subscription \<Rightarrow> subscription" where
  "autoAckWakeSnapshot sub = fold (\<lambda>(stream, tail) s. set_acked stream tail s) (sub_snapshot sub) sub"

text \<open>An operation on the subscription object a pending request belongs to.\<close>

definition on_object :: "string \<Rightarrow> nat \<Rightarrow> (subscription \<Rightarrow> hub \<Rightarrow> subscription \<times> hub) \<Rightarrow> hub \<Rightarrow> hub" where
  "on_object sid serial f h =
     (case map_of (hub_subs h) sid of
        Some sub \<Rightarrow> if sub_serial sub = serial then (let (sub1, h1) = f sub h in put_sub sub1 h1) else h
      | None \<Rightarrow> h)"

text \<open>The rest of \<^verbatim>\<open>deliverWebhook\<close>: a failed request, a successful one, and the end of its body when
  it says that the work is done.\<close>

definition webhook_failed :: "sub_env \<Rightarrow> delivery \<Rightarrow> hub \<Rightarrow> hub" where
  "webhook_failed env d h =
     on_object (dl_id d) (dl_serial d) (\<lambda>sub h. (scheduleWebhookRetry env sub (dl_triggered d) h, h)) h"

definition webhook_ok :: "delivery \<Rightarrow> hub \<Rightarrow> hub" where
  "webhook_ok d h =
     on_object (dl_id d) (dl_serial d)
       (\<lambda>sub h. (sub\<lparr>sub_stat := Active, sub_retry_count := 0, sub_next_attempt_at := None\<rparr>, h)) h"

definition webhook_done :: "sub_env \<Rightarrow> delivery \<Rightarrow> hub \<Rightarrow> hub" where
  "webhook_done env d h =
     on_object (dl_id d) (dl_serial d)
       (\<lambda>sub h. case triggerNextWakeIfPending env (end_wake (autoAckWakeSnapshot sub)) h of
          (Inl e, sub1, h1) \<Rightarrow> (scheduleWebhookRetry env sub1 (dl_triggered d) h1, h1)
        | (Inr _, sub1, h1) \<Rightarrow> (sub1, h1)) h"

definition fire_lease :: "sub_env \<Rightarrow> string \<Rightarrow> hub \<Rightarrow> hub" where
  "fire_lease env sid h =
     (case map_of (hub_subs h) sid of
        None \<Rightarrow> h
      | Some sub \<Rightarrow>
          if sub_lease_timer sub
          then (let (r, sub1, h1) = triggerNextWakeIfPending env (end_wake sub) h in put_sub sub1 h1)
          else h)"

definition fire_retry :: "sub_env \<Rightarrow> string \<Rightarrow> hub \<Rightarrow> hub" where
  "fire_retry env sid h =
     (case map_of (hub_subs h) sid of
        None \<Rightarrow> h
      | Some sub \<Rightarrow>
          (case sub_retry_timer sub of
             None \<Rightarrow> h
           | Some triggeredBy \<Rightarrow>
               (let sub1 = sub\<lparr>sub_retry_timer := None\<rparr>
                in deliverWebhook env sub1 triggeredBy (put_sub sub1 h))))"

definition shutdown :: "hub \<Rightarrow> hub" where
  "shutdown h = h\<lparr>hub_down := True, hub_subs := []\<rparr>"

end
