(* ===== verification/Subscription_Inv.thy ===== *)
theory Subscription_Inv
  imports Subscriptions
begin

text \<open>
  The subscription manager as a transition system, its invariant, and what every step keeps: the
  generation of a subscription never goes back, and only the automatic acknowledgement of a webhook
  response can move an acknowledged offset backwards.
\<close>

section \<open>What the helpers leave alone\<close>

text \<open>The book of subscriptions is unchanged.\<close>

definition same_book :: "hub \<Rightarrow> hub \<Rightarrow> bool" where
  "same_book h h' \<longleftrightarrow> hub_subs h' = hub_subs h \<and> hub_serial h' = hub_serial h \<and> hub_down h' = hub_down h"

lemma same_book_refl [simp]: "same_book h h"
  by (simp add: same_book_def)

lemma same_book_trans [trans]: "same_book h1 h2 \<Longrightarrow> same_book h2 h3 \<Longrightarrow> same_book h1 h3"
  by (simp add: same_book_def)

lemma same_book_store [simp]: "same_book h (h\<lparr>hub_store := st\<rparr>)"
  by (simp add: same_book_def)

lemma getTailOffset_book: "getTailOffset env p h = (t, h') \<Longrightarrow> same_book h h'"
  by (auto simp: getTailOffset_def split: prod.splits option.splits)

lemma infos_of_book: "infos_of env links h = (is, h') \<Longrightarrow> same_book h h'"
proof (induction links arbitrary: h "is")
  case (Cons l links)
  then show ?case
    by (auto simp: Let_def split: prod.splits dest!: getTailOffset_book intro: same_book_trans)
qed simp

lemma streamInfos_book: "streamInfos env sub h = (is, h') \<Longrightarrow> same_book h h'"
  unfolding streamInfos_def by (rule infos_of_book)

lemma hasPendingWork_book: "hasPendingWork env sub h = (b, h') \<Longrightarrow> same_book h h'"
  by (auto simp: hasPendingWork_def split: prod.splits dest: streamInfos_book)

lemma firstPendingStream_book: "firstPendingStream env sub h = (p, h') \<Longrightarrow> same_book h h'"
  by (auto simp: firstPendingStream_def split: prod.splits dest: streamInfos_book)

lemma draw_book: "draw env h = (x, h') \<Longrightarrow> same_book h h'"
  by (auto simp: draw_def same_book_def)

lemma new_token_book: "new_token env sub h = (tok, h') \<Longrightarrow> same_book h h'"
  by (auto simp: new_token_def split: prod.splits dest: draw_book)

lemma deliverWebhook_book: "same_book h (deliverWebhook env sub ts h)"
proof (cases "streamInfos env sub h")
  case (Pair is1 h1)
  then have "same_book h h1" by (rule streamInfos_book)
  then show ?thesis by (auto simp: deliverWebhook_def Pair same_book_def split: option.splits)
qed

lemma writePullWakeEvent_book: "writePullWakeEvent env sub p h = (r, h') \<Longrightarrow> same_book h h'"
  by (auto simp: writePullWakeEvent_def Let_def split: if_splits prod.splits sum.splits)

lemmas helper_books = getTailOffset_book streamInfos_book hasPendingWork_book firstPendingStream_book
  draw_book new_token_book writePullWakeEvent_book

section \<open>Wakes\<close>

text \<open>A subscription whose next wake has begun.\<close>

definition woken :: "subscription \<Rightarrow> subscription \<Rightarrow> bool" where
  "woken sub sub' \<longleftrightarrow> (\<exists>w sn. sub_type sub \<noteq> Webhook \<and>
       sub' = sub\<lparr>sub_generation := Suc (sub_generation sub), sub_wake_id := Some w, sub_snapshot := sn\<rparr>
     \<or> (\<exists>tok. sub_type sub = Webhook \<and>
       sub' = sub\<lparr>sub_generation := Suc (sub_generation sub), sub_wake_id := Some w, sub_snapshot := sn,
                  sub_token := Some tok, sub_lease_timer := True\<rparr>))"

lemma createWake_shape: "createWake env sub t h = (r, sub', h') \<Longrightarrow> woken sub sub' \<and> same_book h h'"
proof -
  assume c: "createWake env sub t h = (r, sub', h')"
  obtain rnd h1 where d: "draw env h = (rnd, h1)" by fastforce
  let ?sub1 = "sub\<lparr>sub_generation := Suc (sub_generation sub), sub_wake_id := Some (''w_'' @ rnd)\<rparr>"
  obtain infos h2 where i: "streamInfos env ?sub1 h1 = (infos, h2)" by fastforce
  let ?sub2 = "?sub1\<lparr>sub_snapshot := foldl (\<lambda>m i. AList.update (si_path i) (si_tail i) m) [] infos\<rparr>"
  have b: "same_book h h2" using draw_book[OF d] streamInfos_book[OF i] by (rule same_book_trans)
  show ?thesis
  proof (cases "sub_type sub = Webhook")
    case True
    obtain tok h3 where tk: "new_token env ?sub2 h2 = (tok, h3)" by fastforce
    let ?sub3 = "extendLease (?sub2\<lparr>sub_token := Some tok\<rparr>)"
    have eq: "sub' = ?sub3" "h' = deliverWebhook env ?sub3 [t] h3"
      using c d i tk True by (auto simp: createWake_def Let_def)
    have "same_book h h'"
      unfolding eq(2) by (rule same_book_trans[OF b same_book_trans[OF new_token_book[OF tk] deliverWebhook_book]])
    then show ?thesis using eq(1) True by (auto simp: woken_def extendLease_def clearLease_def)
  next
    case False
    obtain r' h3 where w: "writePullWakeEvent env ?sub2 t h2 = (r', h3)" by fastforce
    have "sub' = ?sub2" "h' = h3" using c d i w False by (auto simp: createWake_def Let_def)
    then show ?thesis using False b writePullWakeEvent_book[OF w] by (auto simp: woken_def intro: same_book_trans)
  qed
qed

lemma trigger_shape:
  assumes "triggerNextWakeIfPending env sub h = (r, sub', h')"
  shows "(sub' = sub \<and> r = Inr False \<or> woken sub sub' \<and> r \<noteq> Inr False) \<and> same_book h h'"
proof -
  obtain b h1 where p: "hasPendingWork env sub h = (b, h1)" by fastforce
  obtain f h2 where f: "firstPendingStream env sub h1 = (f, h2)" by fastforce
  obtain r' s' h3 where c: "createWake env sub f h2 = (r', s', h3)" by (cases "createWake env sub f h2") auto
  show ?thesis
    using assms p f c hasPendingWork_book[OF p] firstPendingStream_book[OF f] createWake_shape[OF c]
    by (auto simp: triggerNextWakeIfPending_def Let_def split: if_splits sum.splits intro: same_book_trans)
qed

lemma maybeWake_shape:
  assumes "maybeWake env sub t h = (r, sub', h')"
  shows "(sub' = sub \<or> woken sub sub' \<and> sub_wake_id sub = None \<and> \<not> truthy (sub_holder sub)) \<and> same_book h h'"
proof -
  obtain b h1 where p: "hasPendingWork env sub h = (b, h1)" by fastforce
  obtain r' s' h3 where c: "createWake env sub t h1 = (r', s', h3)" by (cases "createWake env sub t h1") auto
  show ?thesis
    using assms p c hasPendingWork_book[OF p] createWake_shape[OF c]
    by (auto simp: maybeWake_def Let_def split: if_splits intro: same_book_trans)
qed

lemma linkAll_shape:
  "linkAll env lt ps sub h = (sub', h') \<Longrightarrow>
     (\<exists>as. sub' = fold (\<lambda>(p, a) s. linkStream s p lt a) as sub) \<and> same_book h h'"
proof (induction ps arbitrary: sub h)
  case Nil
  then show ?case by (auto intro: exI[of _ "[]"])
next
  case (Cons p ps)
  obtain t h1 where t: "getTailOffset env p h = (t, h1)" by fastforce
  then obtain as where "sub' = fold (\<lambda>(p, a) s. linkStream s p lt a) as (linkStream sub p lt t)" "same_book h1 h'"
    using Cons by (auto simp: Let_def)
  then show ?case using getTailOffset_book[OF t] by (auto intro: same_book_trans exI[of _ "(p, t) # as"])
qed

lemma check_acks_book: "check_acks env sub acks h = (r, h') \<Longrightarrow> same_book h h'"
proof (induction acks arbitrary: h)
  case (Cons a acks)
  obtain t h1 where t: "getTailOffset env (ack_target a) h = (t, h1)" by fastforce
  show ?case
    using Cons getTailOffset_book[OF t]
    by (auto simp: Let_def t split: option.splits if_splits intro: same_book_trans)
qed simp

section \<open>Well-formed subscriptions\<close>

definition links_wf :: "(string, stream_link) jsmap \<Rightarrow> bool" where
  "links_wf m \<longleftrightarrow> distinct (map fst m) \<and>
     (\<forall>k l. map_of m k = Some l \<longrightarrow> sl_path l = k \<and> sl_types l \<noteq> [] \<and> distinct (sl_types l))"

text \<open>A holder has a wake, a token and a running lease; a webhook wake has a token and a running lease.\<close>

definition sub_ok :: "subscription \<Rightarrow> bool" where
  "sub_ok sub \<longleftrightarrow> links_wf (sub_links sub)
     \<and> (sub_holder sub \<noteq> None \<longrightarrow> sub_wake_id sub \<noteq> None \<and> sub_token sub \<noteq> None \<and> sub_lease_timer sub)
     \<and> (sub_type sub = Webhook \<longrightarrow> sub_webhook sub \<noteq> None \<and>
          (sub_wake_id sub \<noteq> None \<longrightarrow> sub_token sub \<noteq> None \<and> sub_lease_timer sub))
     \<and> (sub_type sub = Pull_wake \<longrightarrow> truthy (sub_wake_stream sub))"

definition acks_kept :: "subscription \<Rightarrow> subscription \<Rightarrow> bool" where
  "acks_kept s s' \<longleftrightarrow> (\<forall>k l. map_of (sub_links s) k = Some l \<longrightarrow>
     (\<exists>l'. map_of (sub_links s') k = Some l' \<and> sl_acked l \<le> sl_acked l'))"

text \<open>The same object later: generations do not decrease.\<close>

definition sub_grows :: "subscription \<Rightarrow> subscription \<Rightarrow> bool" where
  "sub_grows s s' \<longleftrightarrow> sub_id s' = sub_id s \<and> sub_serial s' = sub_serial s \<and> sub_type s' = sub_type s
     \<and> sub_generation s \<le> sub_generation s'
     \<and> (sub_generation s' = sub_generation s \<longrightarrow> sub_wake_id s' = sub_wake_id s \<or> sub_wake_id s' = None)"

definition good :: "bool \<Rightarrow> subscription \<Rightarrow> subscription \<Rightarrow> bool" where
  "good ac s s' \<longleftrightarrow> (sub_ok s \<longrightarrow> sub_ok s') \<and> sub_grows s s' \<and> (ac \<longrightarrow> acks_kept s s')"

lemma acks_kept_refl [simp]: "acks_kept s s"
  by (auto simp: acks_kept_def)

lemma acks_kept_trans: "acks_kept s1 s2 \<Longrightarrow> acks_kept s2 s3 \<Longrightarrow> acks_kept s1 s3"
  unfolding acks_kept_def by (meson order_trans)

lemma acks_kept_same: "sub_links s' = sub_links s \<Longrightarrow> acks_kept s s'"
  by (auto simp: acks_kept_def)

lemma sub_grows_refl [simp]: "sub_grows s s"
  by (simp add: sub_grows_def)

lemma sub_grows_trans: "sub_grows s1 s2 \<Longrightarrow> sub_grows s2 s3 \<Longrightarrow> sub_grows s1 s3"
  unfolding sub_grows_def by (metis le_antisym le_trans)

lemma good_refl [simp]: "good ac s s"
  by (simp add: good_def)

lemma good_trans [trans]: "good ac s1 s2 \<Longrightarrow> good ac s2 s3 \<Longrightarrow> good ac s1 s3"
  unfolding good_def using sub_grows_trans acks_kept_trans by blast

lemma good_woken: "woken s s' \<Longrightarrow> good ac s s'"
  by (auto simp: woken_def good_def sub_ok_def sub_grows_def acks_kept_def)

lemma good_end_wake: "good ac s (end_wake s)"
  by (auto simp: good_def sub_ok_def sub_grows_def acks_kept_def end_wake_def clearLease_def)

lemma good_extendLease: "good ac s (extendLease s)"
  by (auto simp: good_def sub_ok_def sub_grows_def acks_kept_def extendLease_def clearLease_def)

lemma good_links:
  assumes "links_wf (sub_links s) \<Longrightarrow> links_wf m" "ac \<Longrightarrow> acks_kept s (s\<lparr>sub_links := m\<rparr>)"
  shows "good ac s (s\<lparr>sub_links := m\<rparr>)"
  using assms by (auto simp: good_def sub_ok_def sub_grows_def)

lemma good_linkStream: "good ac s (linkStream s p lt a)"
proof -
  let ?k = "normalizeRelativePath p"
  show ?thesis
  proof (cases "map_of (sub_links s) ?k")
    case None
    show ?thesis
      unfolding linkStream_def Let_def None option.case
      by (intro good_links) (use None in \<open>auto simp: links_wf_def acks_kept_def\<close>)
  next
    case (Some l)
    show ?thesis
      unfolding linkStream_def Let_def Some option.case
      by (intro good_links) (use Some in \<open>auto simp: links_wf_def acks_kept_def\<close>)
  qed
qed

lemma good_fold: "(\<And>x s. good ac s (f x s)) \<Longrightarrow> good ac s (fold f xs s)"
  by (induction xs arbitrary: s) (auto intro: good_trans)

lemma good_set_acked: "good False s (set_acked k a s)"
  by (cases "map_of (sub_links s) k") (auto simp: set_acked_def links_wf_def intro!: good_links)

lemma linkAll_good: "linkAll env lt ps s h = (s', h') \<Longrightarrow> good ac s s' \<and> same_book h h'"
  using linkAll_shape[of env lt ps s h s' h'] by (auto intro!: good_fold simp: good_linkStream split: prod.splits)

lemma trigger_good:
  "triggerNextWakeIfPending env s h = (r, s', h') \<Longrightarrow> good ac s s' \<and> same_book h h'"
  using trigger_shape[of env s h r s' h'] by (auto intro: good_woken)

text \<open>Checked acknowledgements do not move a cursor back.\<close>

lemma check_acks_ordered:
  "check_acks env sub acks h = (None, h') \<Longrightarrow> a \<in> set acks \<Longrightarrow>
     \<exists>l. map_of (sub_links sub) (ack_target a) = Some l \<and> sl_acked l \<le> ack_offset a"
proof (induction acks arbitrary: h)
  case (Cons b acks)
  obtain t h1 where t: "getTailOffset env (ack_target b) h = (t, h1)" by fastforce
  show ?case
    using Cons by (auto simp: Let_def t compareOffsets_def split: option.splits if_splits)
qed simp

lemma set_acks_kept:
  assumes "\<forall>a\<in>set acks. \<exists>l. map_of (sub_links sub) (ack_target a) = Some l \<and> sl_acked l \<le> ack_offset a"
    and "acks_kept sub s"
  shows "acks_kept sub (fold (\<lambda>a s. set_acked (ack_target a) (ack_offset a) s) acks s)"
  using assms
proof (induction acks arbitrary: s)
  case (Cons a acks)
  obtain l where l: "map_of (sub_links sub) (ack_target a) = Some l" "sl_acked l \<le> ack_offset a"
    using Cons.prems(1) by auto
  then obtain l' where l': "map_of (sub_links s) (ack_target a) = Some l'"
    using Cons.prems(2) by (auto simp: acks_kept_def)
  have "acks_kept sub (set_acked (ack_target a) (ack_offset a) s)"
    using Cons.prems(2) l l' by (auto simp: acks_kept_def set_acked_def)
  with Cons show ?case by simp
qed simp

lemma applyAcks_good:
  assumes "applyAcks env sub req h = (None, sub', h')"
  shows "good ac sub sub' \<and> same_book h h'"
proof (cases "cb_acks req")
  case None
  then show ?thesis using assms by (simp add: applyAcks_def)
next
  case (Some acks)
  let ?f = "\<lambda>a s. set_acked (ack_target a) (ack_offset a) s"
  have c: "check_acks env sub acks h = (None, h')" and sub': "sub' = fold ?f acks sub"
    using assms Some by (auto simp: applyAcks_def split: prod.splits option.splits)
  have "good False sub sub'" unfolding sub' by (rule good_fold) (rule good_set_acked)
  moreover have "acks_kept sub sub'"
    unfolding sub' using check_acks_ordered[OF c] by (intro set_acks_kept) auto
  ultimately show ?thesis using check_acks_book[OF c] by (auto simp: good_def)
qed

section \<open>The book of subscriptions\<close>

definition hub_ok :: "hub \<Rightarrow> bool" where
  "hub_ok h \<longleftrightarrow> distinct (map fst (hub_subs h)) \<and>
     (\<forall>k s. map_of (hub_subs h) k = Some s \<longrightarrow> sub_id s = k \<and> sub_serial s < hub_serial h \<and> sub_ok s)"

definition evolves :: "hub \<Rightarrow> hub \<Rightarrow> bool" where
  "evolves h h' \<longleftrightarrow> hub_serial h \<le> hub_serial h' \<and>
     (\<forall>k s'. map_of (hub_subs h') k = Some s' \<longrightarrow>
        hub_serial h \<le> sub_serial s' \<or> (\<exists>s. map_of (hub_subs h) k = Some s \<and> sub_grows s s'))"

text \<open>Every subscription stays, with all its links, and no acknowledged offset moves back.\<close>

definition keeps :: "hub \<Rightarrow> hub \<Rightarrow> bool" where
  "keeps h h' \<longleftrightarrow> (\<forall>k s. map_of (hub_subs h) k = Some s \<longrightarrow>
     (\<exists>s'. map_of (hub_subs h') k = Some s' \<and> sub_serial s' = sub_serial s \<and> acks_kept s s'))"

definition next_hub :: "bool \<Rightarrow> hub \<Rightarrow> hub \<Rightarrow> bool" where
  "next_hub ac h h' \<longleftrightarrow> (hub_ok h \<longrightarrow> hub_ok h' \<and> evolves h h' \<and> (ac \<longrightarrow> keeps h h'))"

lemma evolves_trans: "evolves h1 h2 \<Longrightarrow> evolves h2 h3 \<Longrightarrow> evolves h1 h3"
proof -
  assume a: "evolves h1 h2" and b: "evolves h2 h3"
  have "hub_serial h1 \<le> sub_serial s' \<or> (\<exists>s. map_of (hub_subs h1) k = Some s \<and> sub_grows s s')"
    if s': "map_of (hub_subs h3) k = Some s'" for k s'
  proof (cases "hub_serial h2 \<le> sub_serial s'")
    case True
    then show ?thesis using a by (auto simp: evolves_def)
  next
    case False
    then obtain s where s: "map_of (hub_subs h2) k = Some s" "sub_grows s s'" using b s' by (auto simp: evolves_def)
    from a s(1) consider "hub_serial h1 \<le> sub_serial s" | s0 where "map_of (hub_subs h1) k = Some s0" "sub_grows s0 s"
      unfolding evolves_def by blast
    then show ?thesis using s(2) sub_grows_trans by cases (auto simp: sub_grows_def)
  qed
  then show ?thesis using a b by (auto simp: evolves_def)
qed

lemma keeps_trans: "keeps h1 h2 \<Longrightarrow> keeps h2 h3 \<Longrightarrow> keeps h1 h3"
proof -
  assume a: "keeps h1 h2" and b: "keeps h2 h3"
  have "\<exists>s3. map_of (hub_subs h3) k = Some s3 \<and> sub_serial s3 = sub_serial s1 \<and> acks_kept s1 s3"
    if s1: "map_of (hub_subs h1) k = Some s1" for k s1
  proof -
    obtain s2 where s2: "map_of (hub_subs h2) k = Some s2" "sub_serial s2 = sub_serial s1" "acks_kept s1 s2"
      using a s1 by (auto simp: keeps_def)
    obtain s3 where s3: "map_of (hub_subs h3) k = Some s3" "sub_serial s3 = sub_serial s2" "acks_kept s2 s3"
      using b s2(1) by (auto simp: keeps_def)
    show ?thesis using s2 s3 acks_kept_trans by auto
  qed
  then show ?thesis by (simp add: keeps_def)
qed

lemma next_hub_same: "same_book h h' \<Longrightarrow> next_hub ac h h'"
  by (auto simp: next_hub_def same_book_def hub_ok_def evolves_def keeps_def)

lemma next_hub_trans [trans]: "next_hub ac h1 h2 \<Longrightarrow> next_hub ac h2 h3 \<Longrightarrow> next_hub ac h1 h3"
  unfolding next_hub_def using evolves_trans keeps_trans by blast

lemma next_hub_put:
  assumes "map_of (hub_subs h) k = Some s" "same_book h h1" "good ac s s'"
  shows "next_hub ac h (put_sub s' h1)"
proof -
  have g: "sub_id s' = sub_id s" "sub_serial s' = sub_serial s" "sub_grows s s'" "sub_ok s \<Longrightarrow> sub_ok s'" "ac \<Longrightarrow> acks_kept s s'"
    using assms(3) by (auto simp: good_def sub_grows_def)
  have subs: "hub_subs (put_sub s' h1) = AList.update (sub_id s) s' (hub_subs h)" "hub_serial (put_sub s' h1) = hub_serial h"
    using assms(2) g(1) by (auto simp: put_sub_def same_book_def)
  show ?thesis
    unfolding next_hub_def
  proof (intro impI conjI)
    assume ok: "hub_ok h"
    then have k: "sub_id s = k" "sub_serial s < hub_serial h" "sub_ok s" using assms(1) by (auto simp: hub_ok_def)
    show "hub_ok (put_sub s' h1)" using ok k g by (auto simp: hub_ok_def subs)
    show "evolves h (put_sub s' h1)" using assms(1) k g by (auto simp: evolves_def subs)
    show "keeps h (put_sub s' h1)" if ac
      using assms(1) k g(2) g(5)[OF that] by (auto simp: keeps_def subs)
  qed
qed

lemma next_hub_weaken: "next_hub True h h' \<Longrightarrow> next_hub ac h h'"
  by (auto simp: next_hub_def)

section \<open>Every operation\<close>

lemma callback_next: "map_of (hub_subs h) k = Some s \<Longrightarrow> callback_body env s tok req h = (r, h') \<Longrightarrow> next_hub True h h'"
proof -
  assume k: "map_of (hub_subs h) k = Some s" and c: "callback_body env s tok req h = (r, h')"
  obtain e s1 h1 where a: "applyAcks env s req h = (e, s1, h1)" by (cases "applyAcks env s req h") auto
  obtain t s2 h2 where t: "triggerNextWakeIfPending env (end_wake (extendLease s1)) h1 = (t, s2, h2)"
    by (cases "triggerNextWakeIfPending env (end_wake (extendLease s1)) h1") auto
  consider "h' = h" | "e \<noteq> None" "h' = h1" | "e = None" "h' = put_sub s2 h2" | "e = None" "h' = put_sub (extendLease s1) h1"
    using c a t by (auto simp: callback_body_def Let_def split: option.splits if_splits sum.splits)
  then show ?thesis
  proof cases
    case 2
    then have "same_book h h1"
      using a by (auto simp: applyAcks_def split: option.splits prod.splits dest: check_acks_book)
    with 2 show ?thesis by (simp add: next_hub_same)
  next
    case 3
    have g: "good True s s1" "same_book h h1" using applyAcks_good[of env s req h s1 h1] a 3 by auto
    have "good True s (extendLease s1)" by (rule good_trans[OF g(1) good_extendLease])
    also have "good True (extendLease s1) (end_wake (extendLease s1))" by (rule good_end_wake)
    also have "good True (end_wake (extendLease s1)) s2" using trigger_good[OF t] by blast
    finally show ?thesis
      using 3 next_hub_put[OF k] trigger_good[OF t] same_book_trans[OF g(2)] by blast
  next
    case 4
    have g: "good True s s1" "same_book h h1" using applyAcks_good[of env s req h s1 h1] a 4 by auto
    show ?thesis unfolding 4(2) by (rule next_hub_put[OF k g(2) good_trans[OF g(1) good_extendLease]])
  qed (simp add: next_hub_same)
qed

lemma trigger_put_next:
  assumes "map_of (hub_subs h) k = Some s" "good ac s s1" "triggerNextWakeIfPending env s1 h = (r, s2, h2)"
  shows "next_hub ac h (put_sub s2 h2)"
  using next_hub_put[OF assms(1)] trigger_good[OF assms(3)] good_trans[OF assms(2)] by blast

lemma append_hook_next:
  assumes k: "map_of (hub_subs h) k = Some s" and a: "append_hook env p s h = (r, h')"
  shows "next_hub True h h'"
proof (cases "toStreamRelativePath p")
  case None
  then show ?thesis using a by (simp add: append_hook_def next_hub_same)
next
  case (Some rel)
  define s1 where "s1 = (if truthy (sub_pattern s) \<and> globMatch (the (sub_pattern s)) rel
      then linkStream s rel Glob_link (case map_of (sub_links s) rel of
             Some existing \<Rightarrow> sl_acked existing | None \<Rightarrow> BEFORE_FIRST_OFFSET) else s)"
  have g: "good True s s1" by (simp add: s1_def good_linkStream)
  obtain r1 s2 h1 where m: "maybeWake env s1 rel h = (r1, s2, h1)" by (cases "maybeWake env s1 rel h") auto
  have "good True s1 s2" "same_book h h1" using maybeWake_shape[OF m] good_woken by auto
  moreover have "h' = put_sub s2 h1 \<or> h' = put_sub s1 h"
    using a Some m by (auto simp: append_hook_def Let_def s1_def[symmetric] split: if_splits)
  ultimately show ?thesis using next_hub_put[OF k] g good_trans by (metis same_book_refl)
qed

lemma append_hooks_next: "append_hooks env p sids h = (r, h') \<Longrightarrow> next_hub True h h'"
proof (induction sids arbitrary: h)
  case (Cons sid sids)
  show ?case
  proof (cases "map_of (hub_subs h) sid")
    case (Some s)
    obtain r1 h1 where a: "append_hook env p s h = (r1, h1)" by fastforce
    then show ?thesis
      using Cons Some append_hook_next[OF Some a] by (auto split: sum.splits intro: next_hub_trans)
  qed (use Cons in simp)
qed (simp add: next_hub_same)

lemma claim_next: "claim env sid w h = (r, h') \<Longrightarrow> next_hub True h h'"
proof -
  assume c: "claim env sid w h = (r, h')"
  obtain b h1 where b: "claim_begin env sid h = (b, h1)" by fastforce
  have 1: "next_hub True h h1 \<and> (\<forall>obj. b = Inr (Inr obj) \<longrightarrow>
      map_of (hub_subs h1) (sub_id obj) = Some obj \<and> sub_wake_id obj \<noteq> None \<or> \<not> hub_ok h)"
  proof (cases "map_of (hub_subs h) sid")
    case None
    then show ?thesis using b by (auto simp: claim_begin_def next_hub_same)
  next
    case (Some s)
    obtain pe h2 where p: "hasPendingWork env s h = (pe, h2)" by fastforce
    obtain f h3 where f: "firstPendingStream env s h2 = (f, h3)" by fastforce
    obtain r1 s1 h4 where cw: "createWake env s f h3 = (r1, s1, h4)" by (cases "createWake env s f h3") auto
    have w: "woken s s1" "same_book h h4" "same_book h h2"
      using createWake_shape[OF cw] hasPendingWork_book[OF p] firstPendingStream_book[OF f] same_book_trans by blast+
    have "next_hub True h (put_sub s1 h4)" by (rule next_hub_put[OF Some w(2) good_woken[OF w(1)]])
    moreover have "map_of (hub_subs (put_sub s1 h4)) (sub_id s1) = Some s1" by (simp add: put_sub_def)
    moreover have "sub_wake_id s1 \<noteq> None" using w(1) by (auto simp: woken_def)
    moreover have "hub_ok h \<Longrightarrow> map_of (hub_subs h2) (sub_id s) = Some s"
      using Some w(3) by (auto simp: hub_ok_def same_book_def)
    ultimately show ?thesis
      using b Some p f cw next_hub_same[OF w(3)]
      by (auto simp: claim_begin_def Let_def next_hub_same split: if_splits sum.splits)
  qed
  show ?thesis
  proof (cases "\<exists>obj. b = Inr (Inr obj)")
    case False
    then show ?thesis using c b 1 by (auto simp: claim_def split: sum.splits)
  next
    case True
    then obtain obj where obj: "b = Inr (Inr obj)" by blast
    show ?thesis
    proof (cases "hub_ok h")
      case False
      then show ?thesis by (simp add: next_hub_def)
    next
      case ok: True
      have o: "map_of (hub_subs h1) (sub_id obj) = Some obj" "sub_wake_id obj \<noteq> None" using 1 obj ok by auto
      obtain tok h2 where t: "new_token env obj h1 = (tok, h2)" by fastforce
      let ?s = "extendLease (obj\<lparr>sub_holder := Some w, sub_token := Some tok\<rparr>)"
      obtain infos h3 where i: "streamInfos env ?s h2 = (infos, h3)" by fastforce
      have "h' = put_sub ?s h3"
        using c b obj o t i by (auto simp: claim_def claim_finish_def live_object_def Let_def)
      moreover have "good True obj ?s"
        using o(2) by (auto simp: good_def sub_ok_def sub_grows_def acks_kept_def extendLease_def clearLease_def)
      moreover have "same_book h1 h3" using new_token_book[OF t] streamInfos_book[OF i] by (rule same_book_trans)
      ultimately have "next_hub True h1 h'" using next_hub_put[OF o(1)] by blast
      with 1 show ?thesis using next_hub_trans by blast
    qed
  qed
qed

end
