(* ===== verification/Subscription_Machine.thy ===== *)
theory Subscription_Machine
  imports Subscription_Inv
begin

text \<open>
  The operations of the subscription manager as a transition system: requests, timers, responses of
  webhooks and operations of the store in any order. The invariant holds in every reachable hub.
\<close>

declare map_of_eq_Some_iff [simp del]

section \<open>Steps\<close>

datatype hub_op =
    Op_create string sub_input
  | Op_delete string
  | Op_add string "string list"
  | Op_remove string string
  | Op_appended string
  | Op_deleted string
  | Op_callback string string callback_request
  | Op_claim string string
  | Op_ack string string callback_request
  | Op_release string string callback_request
  | Op_failed delivery
  | Op_answered delivery
  | Op_done delivery
  | Op_lease string
  | Op_retry string
  | Op_shutdown
  | Op_store store_op

fun hub_exec :: "sub_env \<Rightarrow> hub_op \<Rightarrow> hub \<Rightarrow> hub" where
  "hub_exec env (Op_create sid input) h = snd (createOrConfirm env sid input h)"
| "hub_exec env (Op_delete sid) h = snd (delete_sub sid h)"
| "hub_exec env (Op_add sid ps) h = snd (addExplicitStreams env sid ps h)"
| "hub_exec env (Op_remove sid p) h = snd (removeExplicitStream sid p h)"
| "hub_exec env (Op_appended p) h = snd (onStreamAppend env p h)"
| "hub_exec env (Op_deleted p) h = onStreamDeleted p h"
| "hub_exec env (Op_callback sid tok req) h = snd (handleWebhookCallback env sid tok req h)"
| "hub_exec env (Op_claim sid w) h = snd (claim env sid w h)"
| "hub_exec env (Op_ack sid tok req) h = snd (ack_sub env sid tok req h)"
| "hub_exec env (Op_release sid tok req) h = snd (release_sub env sid tok req h)"
| "hub_exec env (Op_failed d) h = webhook_failed env d h"
| "hub_exec env (Op_answered d) h = webhook_ok d h"
| "hub_exec env (Op_done d) h = webhook_done env d h"
| "hub_exec env (Op_lease sid) h = fire_lease env sid h"
| "hub_exec env (Op_retry sid) h = fire_retry env sid h"
| "hub_exec env Op_shutdown h = shutdown h"
| "hub_exec env (Op_store op) h = h\<lparr>hub_store := exec (se_js env) op (hub_store h)\<rparr>"

definition empty_hub :: hub where
  "empty_hub = \<lparr>hub_store = empty_store, hub_subs = [], hub_draws = 0, hub_serial = 0, hub_down = False, hub_sent = []\<rparr>"

inductive hub_steps :: "hub \<Rightarrow> hub \<Rightarrow> bool" where
  steps_refl: "hub_steps h h"
| steps_step: "hub_steps h h' \<Longrightarrow> hub_steps h (hub_exec env op h')"

definition hub_reachable :: "hub \<Rightarrow> bool" where
  "hub_reachable h \<longleftrightarrow> hub_steps empty_hub h"

section \<open>Every step keeps the invariant\<close>

lemma create_next: "createOrConfirm env sid input h = (r, h') \<Longrightarrow> next_hub True h h'"
proof -
  assume c: "createOrConfirm env sid input h = (r, h')"
  show ?thesis
  proof (cases "map_of (hub_subs h) sid \<noteq> None \<or> input_error env input \<noteq> None")
    case True
    then have "h' = h" using c by (auto simp: createOrConfirm_def Let_def split: option.splits)
    then show ?thesis by (simp add: next_hub_same)
  next
    case new: False
    let ?h = "h\<lparr>hub_serial := Suc (hub_serial h)\<rparr>"
    let ?s = "new_subscription env sid input (hub_serial h)"
    obtain s1 h1 where 1: "linkAll env Explicit_link (in_streams input) ?s ?h = (s1, h1)" by fastforce
    obtain s2 h2 where 2: "(if truthy (in_pattern input)
        then linkAll env Glob_link (filter (globMatch (the (in_pattern input))) (listStreams h1)) s1 h1 else (s1, h1)) = (s2, h2)"
      by fastforce
    have h': "h' = put_sub s2 h2" using c new 1 2 by (auto simp: createOrConfirm_def Let_def split: option.splits)
    have g1: "good True ?s s1" "same_book ?h h1" using linkAll_good[OF 1] by auto
    have g2: "good True s1 s2" "same_book h1 h2" using 2 linkAll_good by (auto split: if_splits)
    have g: "good True ?s s2" "same_book ?h h2" using good_trans[OF g1(1) g2(1)] same_book_trans[OF g1(2) g2(2)] by auto
    have "sub_ok ?s"
      using new by (auto simp: sub_ok_def new_subscription_def links_wf_def input_error_def split: option.splits if_splits)
    with g have s2: "sub_ok s2" "sub_id s2 = sid" "sub_serial s2 = hub_serial h"
      by (auto simp: good_def sub_grows_def new_subscription_def)
    have subs: "hub_subs h' = AList.update sid s2 (hub_subs h)" "hub_serial h' = Suc (hub_serial h)"
      using g(2) s2(2) h' by (auto simp: put_sub_def same_book_def)
    show ?thesis
      using s2 new by (auto simp: next_hub_def hub_ok_def evolves_def keeps_def subs less_Suc_eq)
  qed
qed

lemma map_of_map_snd: "map_of (map (\<lambda>(k, s). (k, f s)) m) k = map_option f (map_of m k)"
  by (induction m) auto

lemma links_wf_delete: "links_wf m \<Longrightarrow> links_wf (AList.delete k m)"
  by (simp add: links_wf_def)

lemma links_wf_update:
  assumes "links_wf m" "sl_path v = k" "sl_types v \<noteq> []" "distinct (sl_types v)"
  shows "links_wf (AList.update k v m)"
proof -
  have "sl_path l = k' \<and> sl_types l \<noteq> [] \<and> distinct (sl_types l)" if "map_of (AList.update k v m) k' = Some l" for k' l
    using that assms unfolding map_of_update_if links_wf_def by (cases "k' = k") auto
  moreover have "distinct (map fst (AList.update k v m))" using assms(1) by (simp add: links_wf_def)
  ultimately show ?thesis unfolding links_wf_def by blast
qed

lemma deleted_next: "next_hub False h (onStreamDeleted p h)"
proof (cases "toStreamRelativePath p")
  case (Some rel)
  let ?f = "\<lambda>s. s\<lparr>sub_links := AList.delete rel (sub_links s)\<rparr>"
  have g: "good False s (?f s)" for s by (rule good_links) (auto simp: links_wf_delete)
  have m: "map (fst \<circ> (\<lambda>(k, s). (k, ?f s))) xs = map fst xs" for xs :: "(string \<times> subscription) list"
    by (induction xs) auto
  show ?thesis
    unfolding onStreamDeleted_def Some option.case
    using g by (auto simp: next_hub_def hub_ok_def evolves_def map_of_map_snd m good_def sub_grows_def)
qed (simp add: onStreamDeleted_def next_hub_same)

lemma remove_next: "removeExplicitStream sid p h = (b, h') \<Longrightarrow> next_hub False h h'"
proof -
  assume r: "removeExplicitStream sid p h = (b, h')"
  show ?thesis
  proof (cases "h' = h")
    case False
    then obtain s where s: "map_of (hub_subs h) sid = Some s"
      using r by (auto simp: removeExplicitStream_def split: option.splits)
    let ?k = "normalizeRelativePath p"
    obtain l where l: "map_of (sub_links s) ?k = Some l"
      using r s False by (auto simp: removeExplicitStream_def Let_def split: option.splits)
    let ?t = "removeAll Explicit_link (sl_types l)"
    let ?m = "if ?t = [] then AList.delete ?k (sub_links s) else AList.update ?k (l\<lparr>sl_types := ?t\<rparr>) (sub_links s)"
    have "h' = put_sub (s\<lparr>sub_links := ?m\<rparr>) h" using r s l by (auto simp: removeExplicitStream_def Let_def)
    moreover have "good False s (s\<lparr>sub_links := ?m\<rparr>)"
    proof (rule good_links)
      assume wf: "links_wf (sub_links s)"
      have "sl_path l = ?k" "distinct ?t" using wf l by (auto simp: links_wf_def distinct_removeAll)
      with wf show "links_wf ?m" using links_wf_delete links_wf_update by auto
    qed simp
    ultimately show ?thesis using next_hub_put[OF s] by simp
  qed (simp add: next_hub_same)
qed

lemma on_object_next:
  assumes "\<And>s h s' h'. f s h = (s', h') \<Longrightarrow> good ac s s' \<and> same_book h h'"
  shows "next_hub ac h (on_object sid n f h)"
proof (cases "map_of (hub_subs h) sid")
  case (Some s)
  obtain s' h' where "f s h = (s', h')" by fastforce
  then show ?thesis using assms next_hub_put[OF Some] Some by (auto simp: on_object_def Let_def next_hub_same)
qed (simp add: on_object_def next_hub_same)

lemma retry_good: "good ac s (scheduleWebhookRetry env s ts h)"
  by (auto simp: scheduleWebhookRetry_def Let_def good_def sub_ok_def sub_grows_def acks_kept_def)

lemma autoAck_good: "good False s (autoAckWakeSnapshot s)"
  unfolding autoAckWakeSnapshot_def by (rule good_fold) (simp add: good_set_acked split: prod.splits)

lemma done_next: "next_hub False h (webhook_done env d h)"
  unfolding webhook_done_def
proof (rule on_object_next)
  fix s h s' h'
  assume a: "(case triggerNextWakeIfPending env (end_wake (autoAckWakeSnapshot s)) h of
      (Inl e, s1, h1) \<Rightarrow> (scheduleWebhookRetry env s1 (dl_triggered d) h1, h1) | (Inr _, s1, h1) \<Rightarrow> (s1, h1)) = (s', h')"
  obtain r s1 h1 where t: "triggerNextWakeIfPending env (end_wake (autoAckWakeSnapshot s)) h = (r, s1, h1)"
    by (cases "triggerNextWakeIfPending env (end_wake (autoAckWakeSnapshot s)) h") auto
  have "good False s (autoAckWakeSnapshot s)" by (rule autoAck_good)
  also have "good False \<dots> (end_wake \<dots>)" by (rule good_end_wake)
  also have "good False \<dots> s1" using trigger_good[OF t] by blast
  finally have g: "good False s s1" .
  have "s' = s1 \<or> s' = scheduleWebhookRetry env s1 (dl_triggered d) h1" "h' = h1" using a t by (auto split: sum.splits)
  then show "good False s s' \<and> same_book h h'"
    using g trigger_good[OF t] good_trans[OF g retry_good] by auto
qed

lemma failed_next: "next_hub True h (webhook_failed env d h)"
  unfolding webhook_failed_def by (rule on_object_next) (auto simp: retry_good)

lemma answered_next: "next_hub True h (webhook_ok d h)"
  unfolding webhook_ok_def
  by (rule on_object_next) (auto simp: good_def sub_ok_def sub_grows_def acks_kept_def)

lemma lease_next: "next_hub True h (fire_lease env sid h)"
proof (cases "map_of (hub_subs h) sid")
  case (Some s)
  obtain r s1 h1 where t: "triggerNextWakeIfPending env (end_wake s) h = (r, s1, h1)"
    by (cases "triggerNextWakeIfPending env (end_wake s) h") auto
  show ?thesis
    using trigger_put_next[OF Some good_end_wake t] Some t by (auto simp: fire_lease_def Let_def next_hub_same)
qed (simp add: fire_lease_def next_hub_same)

lemma retry_next: "next_hub True h (fire_retry env sid h)"
proof (cases "map_of (hub_subs h) sid")
  case (Some s)
  have g: "good True s (s\<lparr>sub_retry_timer := None\<rparr>)"
    by (auto simp: good_def sub_ok_def sub_grows_def acks_kept_def)
  have "next_hub True h (deliverWebhook env s1 ts (put_sub (s\<lparr>sub_retry_timer := None\<rparr>) h))" for s1 ts
    by (rule next_hub_trans[OF next_hub_put[OF Some same_book_refl g] next_hub_same[OF deliverWebhook_book]])
  then show ?thesis using Some by (auto simp: fire_retry_def Let_def next_hub_same split: option.splits)
qed (simp add: fire_retry_def next_hub_same)

lemma release_next: "release_sub env sid tok req h = (r, h') \<Longrightarrow> next_hub True h h'"
proof -
  assume r: "release_sub env sid tok req h = (r, h')"
  show ?thesis
  proof (cases "map_of (hub_subs h) sid")
    case (Some s)
    obtain r1 s1 h1 where t: "triggerNextWakeIfPending env (end_wake s) h = (r1, s1, h1)"
      by (cases "triggerNextWakeIfPending env (end_wake s) h") auto
    show ?thesis
      using trigger_put_next[OF Some good_end_wake t] r Some t
      by (auto simp: release_sub_def next_hub_same split: if_splits option.splits sum.splits)
  qed (use r in \<open>auto simp: release_sub_def next_hub_same\<close>)
qed

lemma add_next: "addExplicitStreams env sid ps h = (b, h') \<Longrightarrow> next_hub True h h'"
proof -
  assume a: "addExplicitStreams env sid ps h = (b, h')"
  show ?thesis
  proof (cases "map_of (hub_subs h) sid")
    case (Some s)
    obtain s1 h1 where l: "linkAll env Explicit_link ps s h = (s1, h1)" by fastforce
    show ?thesis
      using a Some l next_hub_put[OF Some] linkAll_good[OF l, of True] by (auto simp: addExplicitStreams_def Let_def)
  qed (use a in \<open>auto simp: addExplicitStreams_def next_hub_same\<close>)
qed

lemma callbacks_next:
  "handleWebhookCallback env sid tok req h = (r, h') \<Longrightarrow> next_hub True h h'"
  "ack_sub env sid tok req h = (r, h') \<Longrightarrow> next_hub True h h'"
  by (auto simp: handleWebhookCallback_def ack_sub_def next_hub_same split: option.splits if_splits dest: callback_next)

lemma delete_next: "next_hub False h (snd (delete_sub sid h))"
  by (auto simp: delete_sub_def next_hub_def hub_ok_def evolves_def split: option.splits)

lemma appended_next: "onStreamAppend env p h = (r, h') \<Longrightarrow> next_hub True h h'"
  by (auto simp: onStreamAppend_def next_hub_same split: if_splits dest: append_hooks_next)

lemmas kept_steps = callbacks_next[OF prod.collapse[symmetric]] claim_next[OF prod.collapse[symmetric]]
  release_next[OF prod.collapse[symmetric]] add_next[OF prod.collapse[symmetric]]
  appended_next[OF prod.collapse[symmetric]] create_next[OF prod.collapse[symmetric]] failed_next answered_next lease_next retry_next

lemma shutdown_next: "next_hub False h (shutdown h)"
  by (auto simp: shutdown_def next_hub_def hub_ok_def evolves_def)

lemma exec_next: "next_hub False h (hub_exec env op h)"
  by (cases op) (auto intro: next_hub_weaken kept_steps next_hub_same done_next delete_next deleted_next shutdown_next
      remove_next[OF prod.collapse[symmetric]])

lemma hub_ok_empty: "hub_ok empty_hub"
  by (simp add: hub_ok_def empty_hub_def)

lemma steps_next: "hub_steps h h' \<Longrightarrow> next_hub False h h'"
  by (induction rule: hub_steps.induct) (auto simp: next_hub_same intro: next_hub_trans exec_next)

end
