(* ===== verification/Subscription_Props.thy ===== *)
theory Subscription_Props
  imports Subscription_Machine Store_Props
begin

text \<open>
  The properties of the subscription manager: its invariant, fencing of superseded wakes, order of the
  acknowledged offsets, no lost wake-up, expiry of leases, idempotent creation; and the cases where
  the code falls short of them.
\<close>

declare map_of_eq_Some_iff [simp del]

section \<open>Sample hubs\<close>

definition sub_env_at :: "int \<Rightarrow> sub_env" where
  "sub_env_at t = \<lparr>se_js = env_at t, se_hmac = (\<lambda>s. ''sig''), se_random = nat_string, se_sha = (\<lambda>c. concat (cc_streams c)),
     se_url = (\<lambda>u. Some (''https:'', ''example.com'')), se_isIP = (\<lambda>s. 0), se_jitter = 0, se_webhooks = True\<rparr>"

definition plain_create :: create_options where
  "plain_create = \<lparr>co_contentType = Some ''text/plain'', co_ttlSeconds = None, co_expiresAt = None, co_initialData = None,
     co_closed = None, co_forkedFrom = None, co_forkOffset = None, co_forkSubOffset = None\<rparr>"

definition pull_input :: sub_input where
  "pull_input = \<lparr>in_kind = Pull_wake, in_pattern = None, in_streams = [''a''], in_webhook = None,
     in_wake_stream = Some ''w'', in_lease_ttl_ms = 30000, in_description = None\<rparr>"

definition hook_input :: sub_input where
  "hook_input = \<lparr>in_kind = Webhook, in_pattern = Some ''*'', in_streams = [], in_webhook = Some ''https://example.com'',
     in_wake_stream = None, in_lease_ttl_ms = 30000, in_description = None\<rparr>"

definition run_hub :: "(int \<times> hub_op) list \<Rightarrow> hub \<Rightarrow> hub" where
  "run_hub ops h = fold (\<lambda>(t, op) h. hub_exec (sub_env_at t) op h) ops h"

lemma run_hub_steps: "hub_steps h (run_hub ops h)"
proof (induction ops rule: rev_induct)
  case (snoc x ops)
  then show ?case by (cases x) (simp add: run_hub_def steps_step)
qed (simp add: run_hub_def steps_refl)

lemma run_hub_reachable: "hub_reachable (run_hub ops empty_hub)"
  by (simp add: hub_reachable_def run_hub_steps)

text \<open>A stream with data, a subscription to it, and its first claim.\<close>

definition sample_hub :: hub where
  "sample_hub = run_hub [(1, Op_store (Create ''/v1/stream/a'' plain_create)), (2, Op_create ''s'' pull_input),
     (3, Op_store (Append ''/v1/stream/a'' ''hello'' default_append)), (4, Op_appended ''/v1/stream/a'')] empty_hub"

definition sample_sub :: subscription where
  "sample_sub = \<lparr>sub_id = ''s'', sub_serial = 0, sub_type = Pull_wake, sub_pattern = None, sub_webhook = None,
     sub_wake_stream = Some ''w'', sub_lease_ttl_ms = 30000, sub_description = None, sub_created_at = 2,
     sub_stat = Active, sub_config_hash = ''a'',
     sub_links = [(''a'', \<lparr>sl_path = ''a'', sl_types = [Explicit_link], sl_acked = ZERO_OFFSET\<rparr>)],
     sub_generation = 1, sub_wake_id = Some ''w_0'', sub_snapshot = [(''a'', off 10)], sub_token = None,
     sub_holder = None, sub_lease_timer = False, sub_retry_count = 0, sub_retry_timer = None,
     sub_next_attempt_at = None\<rparr>"

lemma sample_hub_value [code]:
  "sample_hub = \<lparr>hub_store = exec (env_at 3) (Append ''/v1/stream/a'' ''hello'' default_append)
       (exec (env_at 1) (Create ''/v1/stream/a'' plain_create) empty_store),
     hub_subs = [(''s'', sample_sub)], hub_draws = 1, hub_serial = 1, hub_down = False, hub_sent = []\<rparr>"
  by code_simp

definition claimed_hub :: hub where
  "claimed_hub = snd (claim (sub_env_at 5) ''s'' ''worker'' sample_hub)"

lemma claimed_hub_value [code]:
  "claimed_hub = sample_hub\<lparr>hub_subs := [(''s'', sample_sub\<lparr>sub_holder := Some ''worker'', sub_lease_timer := True,
     sub_token := Some ''eyJzdWIiOiJzdWJzY3JpcHRpb246cyIsImVwb2NoIjoxLCJleHAiOjM2MDAsImp0aSI6IjEifQ.sig''\<rparr>)], hub_draws := 2\<rparr>"
  by code_simp

lemma claimed_hub_reachable: "hub_reachable claimed_hub"
proof -
  have "claimed_hub = hub_exec (sub_env_at 5) (Op_claim ''s'' ''worker'') sample_hub" by (simp add: claimed_hub_def)
  then show ?thesis
    using run_hub_steps unfolding hub_reachable_def sample_hub_def by (metis steps_step)
qed

section \<open>Facts on reachable hubs\<close>

lemma reachable_hub_ok: "hub_reachable h \<Longrightarrow> hub_ok h"
  using steps_next[of empty_hub h] hub_ok_empty by (simp add: hub_reachable_def next_hub_def)

lemma num_json_inject [simp]: "num_json m = num_json n \<longleftrightarrow> m = n"
  by (metis asc_inject digits_val_nat_string json.inject(2) num_json_def)

lemma other_generation_refused:
  assumes "nc_integers (num_canon (se_js env))" "\<And>x. CHR ''.'' \<notin> set (se_hmac env x)" "g < 2 ^ 53"
    "unix_seconds t + TOKEN_TTL_SECONDS < 2 ^ 53" "g \<noteq> sub_generation s"
  shows "\<exists>n c m. validateWakeToken env s (generateCallbackToken (se_hmac env) t jti sbj g) req = Some (Error_reply n c m)"
  using validate_generated[OF assms(1-4), where t' = "now (se_js env)" and jti = jti and sub = sbj and sub' = "tokenSubject s"]
    assms(5)
  by (auto simp: validateWakeToken_def)

lemma refused_changes_nothing:
  assumes "map_of (hub_subs h) sid = Some s" "validateWakeToken env s token req = Some (Error_reply n c m)"
  shows "handleWebhookCallback env sid token req h = (Inr (Error_reply n c m), h)"
    "\<exists>n c m. ack_sub env sid token req h = (Inr (Error_reply n c m), h)"
    "\<exists>n c m. release_sub env sid token req h = (Inr (Error_reply n c m), h)"
  using assms by (auto simp: handleWebhookCallback_def ack_sub_def release_sub_def callback_body_def not_pull_wake_def)

section \<open>Properties\<close>




text \<open>The claimed subscription after its lease has run out: the work is still pending, so a second wake
  has begun and the first worker is a zombie.\<close>

definition expired_hub :: hub where
  "expired_hub = run_hub [(6, Op_lease ''s'')] claimed_hub"

lemma expired_hub_value [code]:
  "expired_hub = sample_hub\<lparr>hub_subs := [(''s'', sample_sub\<lparr>sub_generation := 2, sub_wake_id := Some ''w_2''\<rparr>)],
     hub_draws := 3\<rparr>"
  by code_simp

lemma expired_hub_steps: "hub_steps expired_hub (run_hub [(7, Op_claim ''s'' ''other'')] expired_hub)"
  by (rule run_hub_steps)

lemma expired_hub_reachable: "hub_reachable expired_hub"
proof -
  have "expired_hub = hub_exec (sub_env_at 6) (Op_lease ''s'') claimed_hub" by (simp add: expired_hub_def run_hub_def)
  then show ?thesis using claimed_hub_reachable unfolding hub_reachable_def by (metis steps_step)
qed

lemma env_sample_simps [simp]: "num_canon (se_js (sub_env_at t)) = (\<lambda>x. x)" "se_hmac (sub_env_at t) = (\<lambda>s. ''sig'')"
  by (simp_all add: sub_env_at_def)




end
