(* ===== verification/Subscription_Wakes.thy ===== *)
theory Subscription_Wakes
  imports Subscription_Props
begin

text \<open>
  Wake-ups of subscriptions: an append wakes every subscription it concerns, an expired lease frees
  the subscription and starts the next wake, creating a subscription again confirms it; and what the
  code gets wrong.
\<close>

section \<open>The hooks of an append\<close>

lemma append_hooks_append:
  "append_hooks env p (xs @ ys) h =
     (case append_hooks env p xs h of (Inl e, h1) \<Rightarrow> (Inl e, h1) | (Inr _, h1) \<Rightarrow> append_hooks env p ys h1)"
  by (induction xs arbitrary: h) (auto split: option.splits prod.splits sum.splits)

lemma split_at: "x \<in> set xs \<Longrightarrow> \<exists>ys. xs = takeWhile (\<lambda>k. k \<noteq> x) xs @ x # ys"
  by (induction xs) auto

lemma pending_links: "sub_links s' = sub_links s \<Longrightarrow> hasPendingWork env s' h = hasPendingWork env s h"
  by (simp add: hasPendingWork_def streamInfos_def)

lemma append_hook_other:
  assumes "map_of (hub_subs h) k = Some s" "hub_ok h" "append_hook env p s h = (r, h')" "sid \<noteq> k"
  shows "map_of (hub_subs h') sid = map_of (hub_subs h) sid"
proof (cases "toStreamRelativePath p")
  case None
  then show ?thesis using assms by (simp add: append_hook_def)
next
  case (Some rel)
  define s1 where "s1 = (if truthy (sub_pattern s) \<and> globMatch (the (sub_pattern s)) rel
      then linkStream s rel Glob_link (case map_of (sub_links s) rel of
             Some existing \<Rightarrow> sl_acked existing | None \<Rightarrow> BEFORE_FIRST_OFFSET) else s)"
  have "sub_id s = k" using assms(1,2) by (auto simp: hub_ok_def)
  moreover have "good True s s1" by (simp add: s1_def good_linkStream)
  ultimately have k: "sub_id s1 = k" by (auto simp: good_def sub_grows_def)
  obtain r1 s2 h1 where m: "maybeWake env s1 rel h = (r1, s2, h1)" by (cases "maybeWake env s1 rel h") auto
  have "good True s1 s2" "same_book h h1" using maybeWake_shape[OF m] good_woken by auto
  with k have "sub_id s2 = k" "hub_subs h1 = hub_subs h" by (auto simp: good_def sub_grows_def same_book_def)
  moreover have "h' = put_sub s2 h1 \<or> h' = put_sub s1 h"
    using assms(3) Some m by (auto simp: append_hook_def Let_def s1_def[symmetric] split: if_splits)
  ultimately show ?thesis using k assms(4) by (auto simp: put_sub_def)
qed

lemma append_hooks_other:
  "append_hooks env p xs h = (r, h') \<Longrightarrow> hub_ok h \<Longrightarrow> sid \<notin> set xs \<Longrightarrow> map_of (hub_subs h') sid = map_of (hub_subs h) sid"
proof (induction xs arbitrary: h)
  case (Cons x xs)
  show ?case
  proof (cases "map_of (hub_subs h) x")
    case (Some s)
    obtain r1 h1 where a: "append_hook env p s h = (r1, h1)" by fastforce
    have "map_of (hub_subs h1) sid = map_of (hub_subs h) sid"
      using append_hook_other[OF Some Cons.prems(2) a] Cons.prems(3) by auto
    moreover have "hub_ok h1" using append_hook_next[OF Some a] Cons.prems(2) by (simp add: next_hub_def)
    ultimately show ?thesis using Cons Some a by (auto split: sum.splits)
  qed (use Cons in auto)
qed simp

text \<open>The hook of one subscription: linked, and woken when there is work.\<close>

lemma append_hook_wakes:
  assumes "append_hook env p s h = (Inr u, h')" "toStreamRelativePath p = Some rel" "normalizeRelativePath rel = rel"
    and "map_of (sub_links s) rel \<noteq> None \<or> truthy (sub_pattern s) \<and> globMatch (the (sub_pattern s)) rel"
  shows "\<exists>s'. map_of (hub_subs h') (sub_id s) = Some s' \<and> map_of (sub_links s') rel \<noteq> None
    \<and> (fst (hasPendingWork env s' h) \<longrightarrow> sub_wake_id s' \<noteq> None \<or> truthy (sub_holder s'))"
proof -
  define s1 where "s1 = (if truthy (sub_pattern s) \<and> globMatch (the (sub_pattern s)) rel
      then linkStream s rel Glob_link (case map_of (sub_links s) rel of
             Some existing \<Rightarrow> sl_acked existing | None \<Rightarrow> BEFORE_FIRST_OFFSET) else s)"
  have "good True s s1" by (simp add: s1_def good_linkStream)
  then have id1: "sub_id s1 = sub_id s" by (auto simp: good_def sub_grows_def)
  have linked: "map_of (sub_links s1) rel \<noteq> None"
    using assms(3,4) by (auto simp: s1_def linkStream_def Let_def split: option.splits)
  obtain r1 s2 h1 where m: "maybeWake env s1 rel h = (r1, s2, h1)" by (cases "maybeWake env s1 rel h") auto
  have h': "h' = put_sub s2 h1"
    using assms(1,2) linked m by (auto simp: append_hook_def Let_def s1_def[symmetric] split: if_splits)
  obtain b h2 where b: "hasPendingWork env s1 h = (b, h2)" by fastforce
  have sh: "s2 = s1 \<or> woken s1 s2" using maybeWake_shape[OF m] by blast
  then have l: "sub_links s2 = sub_links s1" "sub_id s2 = sub_id s1" by (auto simp: woken_def)
  have "b \<Longrightarrow> sub_wake_id s2 \<noteq> None \<or> truthy (sub_holder s2)"
  proof -
    assume b
    show ?thesis
    proof (cases "sub_wake_id s1 \<noteq> None \<or> truthy (sub_holder s1)")
      case False
      then have "createWake env s1 rel h2 = (r1, s2, h1)" using m b \<open>b\<close> by (auto simp: maybeWake_def)
      from createWake_shape[OF this] show ?thesis by (auto simp: woken_def)
    qed (use sh in \<open>auto simp: woken_def\<close>)
  qed
  then show ?thesis
    using h' l id1 linked b pending_links[OF l(1)] by (auto simp: put_sub_def)
qed

section \<open>Properties\<close>


definition quiet_hub :: hub where
  "quiet_hub = run_hub [(1, Op_store (Create ''/v1/stream/a'' plain_create)), (2, Op_create ''s'' pull_input),
     (3, Op_store (Append ''/v1/stream/a'' ''hello'' default_append))] empty_hub"






end
