(* ===== verification/Subscription_Findings.thy ===== *)
theory Subscription_Findings
  imports Subscription_Wakes
begin

text \<open>
  Where the subscription manager falls short of its own rules, each as a run of its operations.
\<close>

section \<open>Two holders\<close>

text \<open>A fork created with \<^verbatim>\<open>PUT\<close> has data without an append, so the subscription to it has work but no
  wake, and a claim has to create one and waits for the write to the wake stream.\<close>

definition fork_input :: sub_input where
  "fork_input = pull_input\<lparr>in_streams := [''b'']\<rparr>"

definition unwoken_hub :: hub where
  "unwoken_hub = run_hub [(1, Op_store (Create ''/v1/stream/a'' plain_create)),
     (2, Op_store (Append ''/v1/stream/a'' ''hello'' default_append)), (3, Op_create ''s'' fork_input),
     (4, Op_store (Create ''/v1/stream/b'' (plain_create\<lparr>co_forkedFrom := Some ''/v1/stream/a''\<rparr>)))] empty_hub"

definition unwoken_store :: store where
  "unwoken_store = exec (env_at 4) (Create ''/v1/stream/b'' (plain_create\<lparr>co_forkedFrom := Some ''/v1/stream/a''\<rparr>))
     (exec (env_at 2) (Append ''/v1/stream/a'' ''hello'' default_append)
       (exec (env_at 1) (Create ''/v1/stream/a'' plain_create) empty_store))"

definition fork_sub :: subscription where
  "fork_sub = sample_sub\<lparr>sub_created_at := 3, sub_config_hash := ''b'',
     sub_links := [(''b'', \<lparr>sl_path = ''b'', sl_types = [Explicit_link], sl_acked = ZERO_OFFSET\<rparr>)],
     sub_snapshot := [(''b'', off 10)]\<rparr>"

lemma unwoken_hub_value [code]:
  "unwoken_hub = \<lparr>hub_store = unwoken_store,
     hub_subs = [(''s'', fork_sub\<lparr>sub_generation := 0, sub_wake_id := None, sub_snapshot := []\<rparr>)],
     hub_draws = 0, hub_serial = 1, hub_down = False, hub_sent = []\<rparr>"
  by code_simp

definition first_begun :: "(sub_reply + subscription) outcome \<times> hub" where
  "first_begun = claim_begin (sub_env_at 5) ''s'' unwoken_hub"

lemma first_begun_value [code]:
  "first_begun = (Inr (Inr fork_sub), unwoken_hub\<lparr>hub_subs := [(''s'', fork_sub)], hub_draws := 1\<rparr>)"
  by code_simp

definition second_claim :: "sub_reply outcome \<times> hub" where
  "second_claim = claim (sub_env_at 6) ''s'' ''second'' (snd first_begun)"

definition first_ended :: "sub_reply \<times> hub" where
  "first_ended = claim_finish (sub_env_at 7) (projr (projr (fst first_begun))) ''first'' (snd second_claim)"

definition granted :: "sub_reply \<Rightarrow> (string option \<times> nat) option" where
  "granted r = (case r of Claimed w g t is n \<Rightarrow> Some (w, g) | _ \<Rightarrow> None)"

lemma second_claim_granted:
  "granted (projr (fst second_claim)) = Some (Some ''w_0'', 1)"
  "map_option sub_holder (map_of (hub_subs (snd second_claim)) ''s'') = Some (Some ''second'')"
  by code_simp+

lemma first_claim_granted:
  "granted (fst first_ended) = Some (Some ''w_0'', 1)"
  "map_option sub_holder (map_of (hub_subs (snd first_ended)) ''s'') = Some (Some ''first'')"
  by code_simp+

text \<open>A lease can be granted twice: the check that nobody holds the subscription and the assignment of
  the holder are separated by the wait for the wake event, so a second worker that claims meanwhile and
  the first one both get the lease of the same wake and generation, and the second is forgotten.\<close>

theorem claim_granted_twice:
  "granted (projr (fst second_claim)) = Some (Some ''w_0'', 1) \<and> granted (fst first_ended) = Some (Some ''w_0'', 1)
   \<and> map_option sub_holder (map_of (hub_subs (snd second_claim)) ''s'') = Some (Some ''second'')
   \<and> map_option sub_holder (map_of (hub_subs (snd first_ended)) ''s'') = Some (Some ''first'')"
  by (intro conjI second_claim_granted first_claim_granted)

section \<open>Webhook responses\<close>

definition hook_hub :: hub where
  "hook_hub = run_hub [(1, Op_store (Create ''/v1/stream/a'' plain_create)), (2, Op_create ''s'' hook_input),
     (3, Op_store (Append ''/v1/stream/a'' ''hello'' default_append)), (4, Op_appended ''/v1/stream/a''),
     (5, Op_store (Append ''/v1/stream/a'' ''hello'' default_append))] empty_hub"

definition acked_at :: "string \<Rightarrow> hub \<Rightarrow> string option" where
  "acked_at p h = (case map_of (hub_subs h) ''s'' of None \<Rightarrow> None | Some s \<Rightarrow> map_option sl_acked (map_of (sub_links s) p))"

definition hook_ack :: callback_request where
  "hook_ack = \<lparr>cb_wake_id = Some (Some ''w_0''), cb_generation = Some 1,
     cb_acks = Some [\<lparr>ack_stream = Some ''a'', ack_path = None, ack_offset = off 20\<rparr>], cb_done = False\<rparr>"

definition hook_acked :: "sub_reply outcome \<times> hub" where
  "hook_acked = handleWebhookCallback (sub_env_at 6) ''s'' (dl_token (hd (hub_sent hook_hub))) hook_ack hook_hub"

text \<open>A webhook response moves an acknowledged offset back: the consumer acknowledges everything up to
  the present tail by callback, then ends the request with \<^verbatim>\<open>done\<close>, and the tail recorded when the wake
  began replaces the acknowledged offset.\<close>

theorem webhook_done_regresses:
  "fst hook_acked = Inr (Ok_reply False) \<and> acked_at ''a'' (snd hook_acked) = Some (off 20)
   \<and> acked_at ''a'' (webhook_done (sub_env_at 7) (hd (hub_sent hook_hub)) (snd hook_acked)) = Some (off 10)"
  by code_simp

text \<open>The lease runs out before the response arrives: a second wake is sent, with a larger snapshot.\<close>

definition rewoken_hub :: hub where
  "rewoken_hub = run_hub [(40000, Op_lease ''s'')] hook_hub"

text \<open>A late webhook response acknowledges what it never saw: the response to the first request, whose
  body announced the first message only, is not checked against the wake under way and acknowledges the
  snapshot of the second wake.\<close>

theorem late_response_acks_next_wake:
  "map si_tail (dl_streams (hd (hub_sent hook_hub))) = [off 10] \<and> hd (hub_sent rewoken_hub) = hd (hub_sent hook_hub)
   \<and> acked_at ''a'' (webhook_done (sub_env_at 40001) (hd (hub_sent hook_hub)) rewoken_hub) = Some (off 20)"
  by code_simp

section \<open>A null wake id\<close>

definition worker_token :: string where
  "worker_token = ''eyJzdWIiOiJzdWJzY3JpcHRpb246cyIsImVwb2NoIjoxLCJleHAiOjM2MDAsImp0aSI6IjEifQ.sig''"

definition finished_hub :: hub where
  "finished_hub = snd (ack_sub (sub_env_at 6) ''s'' worker_token
     \<lparr>cb_wake_id = Some (Some ''w_0''), cb_generation = Some 1,
      cb_acks = Some [\<lparr>ack_stream = Some ''a'', ack_path = None, ack_offset = off 10\<rparr>], cb_done = True\<rparr> claimed_hub)"

definition null_request :: callback_request where
  "null_request = \<lparr>cb_wake_id = Some None, cb_generation = Some 1, cb_acks = None, cb_done = False\<rparr>"

text \<open>A finished wake can be acted upon: after the work is done the recorded wake id is null, and a
  request with the old token and a null wake id passes the fencing check and arms the lease of a
  subscription nobody holds.\<close>

theorem null_wake_id_not_fenced:
  "map_option (\<lambda>s. (sub_wake_id s, sub_holder s, sub_lease_timer s)) (map_of (hub_subs finished_hub) ''s'') = Some (None, None, False)
   \<and> fst (ack_sub (sub_env_at 7) ''s'' worker_token null_request finished_hub) = Inr (Ok_reply False)
   \<and> map_option (\<lambda>s. (sub_holder s, sub_lease_timer s))
       (map_of (hub_subs (snd (ack_sub (sub_env_at 7) ''s'' worker_token null_request finished_hub))) ''s'') = Some (None, True)"
  by code_simp

section \<open>Trailing slashes\<close>

definition slash_hub :: hub where
  "slash_hub = run_hub [(1, Op_create ''s'' hook_input), (2, Op_store (Create ''/v1/stream/a/'' plain_create)),
     (3, Op_store (Append ''/v1/stream/a/'' ''hello'' default_append)), (4, Op_appended ''/v1/stream/a/'')] empty_hub"

text \<open>An append to a stream whose path ends in a slash wakes nobody: the link is filed under the path
  without the slash but looked up with it, and the subscription is left linked to another stream.\<close>

theorem trailing_slash_wakes_nobody:
  "map_option (\<lambda>s. (map fst (sub_links s), sub_wake_id s)) (map_of (hub_subs slash_hub) ''s'') = Some ([''a''], None)
   \<and> hub_sent slash_hub = []"
  by code_simp

end
