(* ===== verification/Path_Encoding.thy ===== *)
theory Path_Encoding
  imports Base64
begin

text \<open>
  Directory names of streams: server/src/path-encoding.ts. SHA-256 is the parameter \<open>sha\<close>, the
  hexadecimal digest of the UTF-8 bytes of the path.
\<close>

definition MAX_ENCODED_LENGTH :: nat where
  "MAX_ENCODED_LENGTH = 200"

definition encodeStreamPath :: "(utext \<Rightarrow> string) \<Rightarrow> utext \<Rightarrow> string" where
  "encodeStreamPath sha path =
     (let b = filter (\<lambda>c. c \<noteq> CHR ''='')
                (map (\<lambda>c. if c = CHR ''/'' then CHR ''_'' else c)
                  (map (\<lambda>c. if c = CHR ''+'' then CHR ''-'' else c) (base64 (text_encode path))))
      in if length b > MAX_ENCODED_LENGTH then take 180 b @ ''~'' @ take 16 (sha path) else b)"

definition is_hex :: "char \<Rightarrow> bool" where
  "is_hex c \<longleftrightarrow> is_digit c \<or> c \<in> {CHR ''a'', CHR ''b'', CHR ''c'', CHR ''d'', CHR ''e'', CHR ''f''}"

text \<open>\<^verbatim>\<open>lastIndexOf("~")\<close> splits the name into what is before and after the last tilde.\<close>

definition split_last :: "char \<Rightarrow> string \<Rightarrow> (string \<times> string) option" where
  "split_last x s = (if x \<in> set s then
     Some (rev (tl (dropWhile (\<lambda>c. c \<noteq> x) (rev s))), rev (takeWhile (\<lambda>c. c \<noteq> x) (rev s))) else None)"

definition decodeStreamPath :: "string \<Rightarrow> utext" where
  "decodeStreamPath encoded =
     (let base = (case split_last CHR ''~'' encoded of
            None \<Rightarrow> encoded
          | Some (before, possibleHash) \<Rightarrow>
              if length possibleHash = 16 \<and> list_all is_hex possibleHash then before else encoded);
          normalized = map (\<lambda>c. if c = CHR ''_'' then CHR ''/'' else c)
                         (map (\<lambda>c. if c = CHR ''-'' then CHR ''+'' else c) base);
          padded = normalized @ replicate ((4 - length normalized mod 4) mod 4) CHR ''=''
      in utf8_decode (map of_char (base64_decode padded)))"

section \<open>Names\<close>

lemma encode_is_url:
  "filter (\<lambda>c. c \<noteq> CHR ''='') (map (\<lambda>c. if c = CHR ''/'' then CHR ''_'' else c)
     (map (\<lambda>c. if c = CHR ''+'' then CHR ''-'' else c) (base64 data))) = base64url data"
proof -
  have "filter (\<lambda>c. c \<noteq> CHR ''='') (map (\<lambda>c. if c = CHR ''/'' then CHR ''_'' else c)
      (map (\<lambda>c. if c = CHR ''+'' then CHR ''-'' else c) (map b64_char ns @ replicate k CHR ''='')))
    = map (url_char \<circ> b64_char) ns" if "\<forall>n\<in>set ns. n < 64" for ns k
    using that b64_char_props(3) by (induction ns) (auto simp: url_char_def)
  then show ?thesis using sextets_of_bytes by (simp add: base64_def base64url_def Let_def b64_padding_def)
qed

lemma encodeStreamPath_url:
  "encodeStreamPath sha path = (let b = base64url (text_encode path)
     in if length b > MAX_ENCODED_LENGTH then take 180 b @ ''~'' @ take 16 (sha path) else b)"
  by (simp only: encodeStreamPath_def encode_is_url)

lemma unurl: "n < 64 \<Longrightarrow> (\<lambda>c. if c = CHR ''_'' then CHR ''/'' else c)
    ((\<lambda>c. if c = CHR ''-'' then CHR ''+'' else c) (url_char (b64_char n))) = b64_char n"
  using b64_char_props(5)[of n] by (auto simp: url_char_def)

lemma normalized_base64:
  "map (\<lambda>c. if c = CHR ''_'' then CHR ''/'' else c) (map (\<lambda>c. if c = CHR ''-'' then CHR ''+'' else c) (base64url data))
     = map b64_char (to_sextets (map of_char data))"
  using sextets_of_bytes unurl by (auto simp: base64url_def comp_def)

lemma decode_url_name: "decodeStreamPath (base64url data) = utf8_decode (map of_char data)"
proof -
  have "CHR ''~'' \<notin> set (base64url data)" using base64url_chars by blast
  then have "decodeStreamPath (base64url data) = utf8_decode (map of_char (base64_decode (base64 data)))"
    by (simp only: decodeStreamPath_def split_last_def Let_def if_False option.case normalized_base64
        base64_def b64_padding_def)
  then show ?thesis by (simp only: base64_roundtrip)
qed

section \<open>Properties\<close>



text \<open>Whatever the path, its directory name is at most 200 characters long and contains no
  separator and no dot: a stream path cannot escape the storage directory.\<close>

theorem path_name_safe:
  assumes sha: "\<And>p. list_all is_hex (sha p)"
  shows "length (encodeStreamPath sha path) \<le> MAX_ENCODED_LENGTH
    \<and> CHR ''/'' \<notin> set (encodeStreamPath sha path) \<and> CHR ''.'' \<notin> set (encodeStreamPath sha path)"
proof -
  have h: "c \<notin> {CHR ''/'', CHR ''.''}" if "c \<in> set (take 16 (sha path))" for c
    using that sha[of path] by (auto simp: list_all_iff is_hex_def is_digit_def dest!: in_set_takeD)
  have u: "c \<notin> {CHR ''/'', CHR ''.''}" if "c \<in> set (base64url (text_encode path))" for c
    using base64url_chars[OF that] by blast
  have "set (encodeStreamPath sha path) \<subseteq> set (base64url (text_encode path)) \<union> {CHR ''~''} \<union> set (take 16 (sha path))"
    by (auto simp: encodeStreamPath_url Let_def dest: in_set_takeD)
  then have "c \<notin> {CHR ''/'', CHR ''.''}" if "c \<in> set (encodeStreamPath sha path)" for c
    using that h[of c] u[of c] by auto
  moreover have "length (encodeStreamPath sha path) \<le> MAX_ENCODED_LENGTH"
    by (auto simp: encodeStreamPath_url Let_def MAX_ENCODED_LENGTH_def)
  ultimately show ?thesis by blast
qed

theorem path_name_safe_witness:
  "length (encodeStreamPath (\<lambda>_. ''0123456789abcdef00'') (asc ''/../etc'')) \<le> MAX_ENCODED_LENGTH
    \<and> CHR ''/'' \<notin> set (encodeStreamPath (\<lambda>_. ''0123456789abcdef00'') (asc ''/../etc''))
    \<and> CHR ''.'' \<notin> set (encodeStreamPath (\<lambda>_. ''0123456789abcdef00'') (asc ''/../etc''))"
  by (rule path_name_safe) code_simp

end
