(* ===== verification/Cursor.thy ===== *)
theory Cursor
  imports Js_Prelude
begin

text \<open>
  Cursors for cache collapsing: server/src/cursor.ts and its port server-cloudflare/src/cursor.ts.
  The contract is the locale \<open>cursor_source\<close>: a response cursor is at least the current interval and
  strictly greater than the cursor the client sent. Both implementations are instances of it, and
  the locale's chain lemma shows that a client that echoes its cursor never sees one twice.
  Numbers are exact integers: they are below 2^53 where the properties are stated. Random jitter is
  an argument, the value of \<^verbatim>\<open>Math.floor(Math.random() * 3600)\<close>.
\<close>

section \<open>Numbers as JavaScript reads and prints them\<close>

definition int_string :: "int \<Rightarrow> string" where
  "int_string n = (if n < 0 then CHR ''-'' # nat_string (nat (- n)) else nat_string (nat n))"

text \<open>\<^verbatim>\<open>parseInt(s, 10)\<close>: leading white space, a sign, the longest run of digits.\<close>

definition js_parseInt :: "string \<Rightarrow> int option" where
  "js_parseInt s =
     (let t = trimStart s;
          (neg, u) = (case t of c # r \<Rightarrow> if c = CHR ''-'' then (True, r) else if c = CHR ''+'' then (False, r) else (False, t)
                      | [] \<Rightarrow> (False, []));
          ds = takeWhile is_digit u
      in if ds = [] then None else Some (if neg then - int (digits_val ds) else int (digits_val ds)))"

lemma digit_not_space: "is_digit c \<Longrightarrow> \<not> is_js_space c \<and> c \<noteq> CHR ''-'' \<and> c \<noteq> CHR ''+''"
  by (auto simp: is_digit_def is_js_space_def)

lemma js_parseInt_digits:
  assumes "list_all is_digit s" "s \<noteq> []"
  shows "js_parseInt s = Some (int (digits_val s))"
proof -
  obtain c r where s: "s = c # r" using assms(2) by (cases s) auto
  then have "\<not> is_js_space c" "c \<noteq> CHR ''-''" "c \<noteq> CHR ''+''"
    using assms(1) digit_not_space by auto
  moreover have "takeWhile is_digit s = s" using assms(1) by (simp add: list_all_iff takeWhile_eq_all_conv)
  ultimately show ?thesis using s by (simp add: js_parseInt_def trimStart_def Let_def)
qed

lemma js_parseInt_int_string [simp]: "0 \<le> n \<Longrightarrow> js_parseInt (int_string n) = Some n"
  by (simp add: int_string_def js_parseInt_digits)

lemma int_string_inject: "0 \<le> n \<Longrightarrow> 0 \<le> m \<Longrightarrow> int_string n = int_string m \<longleftrightarrow> n = m"
  by (metis js_parseInt_int_string option.inject)

section \<open>The reference server\<close>

definition DEFAULT_CURSOR_EPOCH :: int where
  "DEFAULT_CURSOR_EPOCH = 1728432000000"

definition DEFAULT_CURSOR_INTERVAL_SECONDS :: nat where
  "DEFAULT_CURSOR_INTERVAL_SECONDS = 20"

definition MAX_JITTER_SECONDS :: nat where
  "MAX_JITTER_SECONDS = 3600"

definition MIN_JITTER_SECONDS :: nat where
  "MIN_JITTER_SECONDS = 1"

record cursor_options =
  intervalSeconds :: "nat option"
  epoch :: "int option"

definition interval_seconds :: "cursor_options \<Rightarrow> nat" where
  "interval_seconds opts = (case intervalSeconds opts of None \<Rightarrow> DEFAULT_CURSOR_INTERVAL_SECONDS | Some n \<Rightarrow> n)"

definition interval_number :: "int \<Rightarrow> cursor_options \<Rightarrow> int" where
  "interval_number t opts =
     (let epochMs = (case epoch opts of None \<Rightarrow> DEFAULT_CURSOR_EPOCH | Some e \<Rightarrow> e);
          intervalMs = int (interval_seconds opts) * 1000
      in (t - epochMs) div intervalMs)"

definition calculateCursor :: "int \<Rightarrow> cursor_options \<Rightarrow> string" where
  "calculateCursor t opts = int_string (interval_number t opts)"

text \<open>\<^verbatim>\<open>Math.ceil(a / b)\<close> on non-negative integers.\<close>

definition ceil_div :: "nat \<Rightarrow> nat \<Rightarrow> nat" where
  "ceil_div a b = (a + b - 1) div b"

definition generateJitterIntervals :: "nat \<Rightarrow> nat \<Rightarrow> nat" where
  "generateJitterIntervals rnd seconds =
     (let jitterSeconds = MIN_JITTER_SECONDS + rnd in max 1 (ceil_div jitterSeconds seconds))"

definition generateResponseCursor :: "int \<Rightarrow> nat \<Rightarrow> string option \<Rightarrow> cursor_options \<Rightarrow> string" where
  "generateResponseCursor t rnd clientCursor opts =
     (let currentCursor = calculateCursor t opts;
          currentInterval = js_parseInt currentCursor
      in if \<not> truthy clientCursor then currentCursor
         else (case js_parseInt (the clientCursor) of
                 None \<Rightarrow> currentCursor
               | Some clientInterval \<Rightarrow>
                   if (case currentInterval of None \<Rightarrow> False | Some c \<Rightarrow> clientInterval < c) then currentCursor
                   else int_string (clientInterval + int (generateJitterIntervals rnd (interval_seconds opts)))))"

definition handleCursorCollision :: "int \<Rightarrow> nat \<Rightarrow> string \<Rightarrow> string option \<Rightarrow> cursor_options \<Rightarrow> string" where
  "handleCursorCollision t rnd currentCursor previousCursor opts = generateResponseCursor t rnd previousCursor opts"

section \<open>The Cloudflare server\<close>

definition cf_calculateCursor :: "int \<Rightarrow> string" where
  "cf_calculateCursor t =
     (let intervalMs = int DEFAULT_CURSOR_INTERVAL_SECONDS * 1000
      in int_string ((t - DEFAULT_CURSOR_EPOCH) div intervalMs))"

definition VALID_CLIENT_CURSOR :: "string \<Rightarrow> bool" where
  "VALID_CLIENT_CURSOR s \<longleftrightarrow> list_all is_digit s \<and> 1 \<le> length s \<and> length s \<le> 15"

definition cf_generateJitterIntervals :: "nat \<Rightarrow> nat \<Rightarrow> nat" where
  "cf_generateJitterIntervals rnd seconds = max 1 (ceil_div (MIN_JITTER_SECONDS + rnd) seconds)"

definition cf_generateResponseCursor :: "int \<Rightarrow> nat \<Rightarrow> string option \<Rightarrow> string" where
  "cf_generateResponseCursor t rnd clientCursor =
     (let currentCursor = cf_calculateCursor t
      in if \<not> truthy clientCursor \<or> \<not> VALID_CLIENT_CURSOR (the clientCursor) then currentCursor
         else (case (js_parseInt (the clientCursor), js_parseInt currentCursor) of
                 (None, _) \<Rightarrow> currentCursor
               | (Some clientInterval, cur) \<Rightarrow>
                   if (case cur of None \<Rightarrow> False | Some c \<Rightarrow> clientInterval < c) then currentCursor
                   else int_string (clientInterval
                          + int (cf_generateJitterIntervals rnd DEFAULT_CURSOR_INTERVAL_SECONDS))))"

section \<open>The contract\<close>

text \<open>A client's view: it sends back the cursor of each response with its next request, at times and
  with random values of the environment.\<close>

fun cursor_chain :: "('t \<Rightarrow> nat \<Rightarrow> string option \<Rightarrow> string) \<Rightarrow> string option \<Rightarrow> ('t \<times> nat) list \<Rightarrow> string list" where
  "cursor_chain gen prev [] = []"
| "cursor_chain gen prev ((t, rnd) # steps) =
     (let c = gen t rnd prev in c # cursor_chain gen (Some c) steps)"

text \<open>A source of cursors: \<open>interval\<close> is the current interval at a time, \<open>limit\<close> the bound below which
  client cursors are understood exactly.\<close>

locale cursor_source =
  fixes gen :: "int \<Rightarrow> nat \<Rightarrow> string option \<Rightarrow> string" and interval :: "int \<Rightarrow> int" and limit :: int
  assumes first_cursor: "0 \<le> interval t \<Longrightarrow> gen t rnd None = int_string (interval t)"
    and next_cursor: "0 \<le> interval t \<Longrightarrow> 0 \<le> c \<Longrightarrow> c < limit \<Longrightarrow> rnd < MAX_JITTER_SECONDS \<Longrightarrow>
      \<exists>n. gen t rnd (Some (int_string c)) = int_string n \<and> c < n \<and> interval t \<le> n
        \<and> n \<le> max (interval t) (c + int MAX_JITTER_SECONDS)"
begin

definition step_ok :: "int \<Rightarrow> int \<times> nat \<Rightarrow> bool" where
  "step_ok b s \<longleftrightarrow> 0 \<le> interval (fst s) \<and> interval (fst s) \<le> b \<and> snd s < MAX_JITTER_SECONDS"

lemma chain_from:
  "list_all (step_ok b) steps \<Longrightarrow> 0 \<le> c \<Longrightarrow> c \<le> b \<Longrightarrow> b + int (length steps) * int MAX_JITTER_SECONDS < limit \<Longrightarrow>
     \<exists>ns. cursor_chain gen (Some (int_string c)) steps = map int_string ns \<and> sorted_wrt (<) (c # ns)"
proof (induction steps arbitrary: c b)
  case (Cons s steps)
  obtain t rnd where s: "s = (t, rnd)" by (cases s)
  have ok: "0 \<le> interval t" "interval t \<le> b" "rnd < MAX_JITTER_SECONDS" using Cons.prems(1) s by (auto simp: step_ok_def)
  have "c < limit" using Cons.prems by (auto simp: MAX_JITTER_SECONDS_def)
  then obtain n where n: "gen t rnd (Some (int_string c)) = int_string n" "c < n" "n \<le> max (interval t) (c + int MAX_JITTER_SECONDS)"
    using next_cursor[of t c rnd] ok Cons.prems by blast
  have b: "n \<le> b + int MAX_JITTER_SECONDS" using n(3) ok(2) Cons.prems(3) by (auto simp: MAX_JITTER_SECONDS_def)
  have "list_all (step_ok (b + int MAX_JITTER_SECONDS)) steps"
    using Cons.prems(1) by (auto simp: list_all_iff step_ok_def)
  then obtain ns where ns: "cursor_chain gen (Some (int_string n)) steps = map int_string ns" "sorted_wrt (<) (n # ns)"
    using Cons.IH[of "b + int MAX_JITTER_SECONDS" n] n(2) b Cons.prems(2,4) by (auto simp: algebra_simps)
  have "cursor_chain gen (Some (int_string c)) (s # steps) = map int_string (n # ns)"
    using s n(1) ns(1) by (simp add: Let_def)
  moreover have "sorted_wrt (<) (c # n # ns)" using ns(2) n(2) by auto
  ultimately show ?case by blast
qed simp

lemma chain_increases:
  assumes "list_all (step_ok b) steps" "b + int (length steps) * int MAX_JITTER_SECONDS < limit"
  shows "\<exists>ns. cursor_chain gen None steps = map int_string ns \<and> sorted_wrt (<) ns \<and> (\<forall>n\<in>set ns. 0 \<le> n)"
proof (cases steps)
  case (Cons s rest)
  obtain t rnd where s: "s = (t, rnd)" by (cases s)
  have ok: "0 \<le> interval t" "interval t \<le> b" using assms(1) Cons s by (auto simp: step_ok_def)
  have "list_all (step_ok b) rest" "b + int (length rest) * int MAX_JITTER_SECONDS < limit"
    using assms Cons by (auto simp: MAX_JITTER_SECONDS_def)
  then obtain ns where ns: "cursor_chain gen (Some (int_string (interval t))) rest = map int_string ns"
    "sorted_wrt (<) (interval t # ns)"
    using chain_from[of b rest "interval t"] ok by blast
  have "cursor_chain gen None steps = map int_string (interval t # ns)"
    using Cons s ns(1) first_cursor[OF ok(1)] by (simp add: Let_def)
  moreover have "\<forall>n\<in>set (interval t # ns). 0 \<le> n" using ns(2) ok(1) by auto
  ultimately show ?thesis using ns(2) by blast
qed simp

end

section \<open>Both servers satisfy it\<close>

lemma ceil_div_bound: "0 < b \<Longrightarrow> 0 < a \<Longrightarrow> ceil_div a b \<le> a \<and> 0 < ceil_div a b"
proof -
  assume b: "0 < b" and a: "0 < a"
  have "(a + b - 1) div b \<ge> 1" using a b by (simp add: Suc_leI div_greater_zero_iff)
  moreover have "(a + b - 1) div b \<le> a"
  proof -
    have "a + b - 1 < (a + 1) * b"
      using a b by (cases b) (auto simp: algebra_simps intro: less_le_trans[of _ "a + b"])
    then have "(a + b - 1) div b < a + 1" by (rule less_mult_imp_div_less)
    then show ?thesis by simp
  qed
  ultimately show ?thesis by (simp add: ceil_div_def)
qed

lemma jitter_bound:
  "0 < seconds \<Longrightarrow> rnd < MAX_JITTER_SECONDS \<Longrightarrow>
     1 \<le> generateJitterIntervals rnd seconds \<and> generateJitterIntervals rnd seconds \<le> MAX_JITTER_SECONDS"
  using ceil_div_bound[of seconds "MIN_JITTER_SECONDS + rnd"]
  by (simp add: generateJitterIntervals_def Let_def MIN_JITTER_SECONDS_def MAX_JITTER_SECONDS_def)

lemma int_string_not_Nil [simp]: "int_string n \<noteq> []"
  by (simp add: int_string_def)

lemma srv_cursor_source:
  assumes "0 < interval_seconds opts"
  shows "cursor_source (\<lambda>t rnd c. generateResponseCursor t rnd c opts) (\<lambda>t. interval_number t opts) (2 ^ 53)"
proof
  fix t c :: int and rnd :: nat
  assume a: "0 \<le> interval_number t opts" "0 \<le> c" "c < 2 ^ 53" "rnd < MAX_JITTER_SECONDS"
  let ?j = "int (generateJitterIntervals rnd (interval_seconds opts))"
  have j: "1 \<le> ?j" "?j \<le> int MAX_JITTER_SECONDS" using jitter_bound[OF assms a(4)] by auto
  show "\<exists>n. generateResponseCursor t rnd (Some (int_string c)) opts = int_string n \<and> c < n \<and> interval_number t opts \<le> n
      \<and> n \<le> max (interval_number t opts) (c + int MAX_JITTER_SECONDS)"
  proof (cases "c < interval_number t opts")
    case True
    then show ?thesis using a by (auto simp: generateResponseCursor_def calculateCursor_def Let_def)
  next
    case False
    then have "generateResponseCursor t rnd (Some (int_string c)) opts = int_string (c + ?j)"
      using a by (simp add: generateResponseCursor_def calculateCursor_def Let_def)
    then show ?thesis using j False by (intro exI[of _ "c + ?j"]) auto
  qed
qed (simp add: generateResponseCursor_def calculateCursor_def Let_def)

definition default_options :: cursor_options where
  "default_options = \<lparr>intervalSeconds = None, epoch = None\<rparr>"

interpretation srv_cursor: cursor_source "\<lambda>t rnd c. generateResponseCursor t rnd c default_options"
  "\<lambda>t. interval_number t default_options" "2 ^ 53"
  by (rule srv_cursor_source) (simp add: default_options_def interval_seconds_def DEFAULT_CURSOR_INTERVAL_SECONDS_def)

lemma length_int_string: "0 \<le> n \<Longrightarrow> n < 10 ^ 15 \<Longrightarrow> VALID_CLIENT_CURSOR (int_string n)"
proof -
  assume n: "0 \<le> n" "n < 10 ^ 15"
  then have "nat n < 10 ^ 15" by (simp add: nat_less_iff)
  then have "length (nat_string (nat n)) \<le> 15" by (rule length_nat_string) simp
  moreover have "1 \<le> length (nat_string (nat n))" by (simp add: Suc_le_eq)
  ultimately show ?thesis using n(1) by (simp add: VALID_CLIENT_CURSOR_def int_string_def)
qed

text \<open>On the cursors a client can hold, the port computes what the reference server computes.\<close>

lemma cf_cursor_eq:
  "c = None \<or> (\<exists>n. c = Some (int_string n) \<and> 0 \<le> n \<and> n < 10 ^ 15) \<Longrightarrow>
     cf_generateResponseCursor t rnd c = generateResponseCursor t rnd c default_options"
  by (auto simp: cf_generateResponseCursor_def generateResponseCursor_def cf_calculateCursor_def calculateCursor_def
      interval_number_def interval_seconds_def default_options_def cf_generateJitterIntervals_def
      generateJitterIntervals_def Let_def length_int_string)

interpretation cf_cursor: cursor_source cf_generateResponseCursor "\<lambda>t. interval_number t default_options" "10 ^ 15"
proof
  fix t c :: int and rnd :: nat
  assume a: "0 \<le> interval_number t default_options" "0 \<le> c" "c < 10 ^ 15" "rnd < MAX_JITTER_SECONDS"
  have "c < 2 ^ 53" using a(3) by simp
  moreover have "cf_generateResponseCursor t rnd (Some (int_string c)) = generateResponseCursor t rnd (Some (int_string c)) default_options"
    using a(2,3) by (intro cf_cursor_eq) blast
  ultimately show "\<exists>n. cf_generateResponseCursor t rnd (Some (int_string c)) = int_string n \<and> c < n
      \<and> interval_number t default_options \<le> n \<and> n \<le> max (interval_number t default_options) (c + int MAX_JITTER_SECONDS)"
    using srv_cursor.next_cursor[OF a(1,2) _ a(4)] by simp
next
  fix t :: int and rnd :: nat
  assume "0 \<le> interval_number t default_options"
  then show "cf_generateResponseCursor t rnd None = int_string (interval_number t default_options)"
    using srv_cursor.first_cursor cf_cursor_eq[of None t rnd] by simp
qed

section \<open>Properties\<close>

text \<open>C40. Cursors never go back and never repeat: a client that echoes the cursor of each response
  sees a strictly increasing sequence, whatever the clock and the random jitter do (after the epoch,
  with numbers the engine represents exactly), and so cannot be caught in a cache loop.\<close>

theorem cursor_never_repeats:
  assumes "\<forall>(t, rnd)\<in>set steps. 0 \<le> interval_number t default_options \<and> interval_number t default_options \<le> b
      \<and> rnd < MAX_JITTER_SECONDS"
    and "b + int (length steps) * int MAX_JITTER_SECONDS < 2 ^ 53"
  shows "\<exists>ns. cursor_chain (\<lambda>t rnd c. generateResponseCursor t rnd c default_options) None steps = map int_string ns
    \<and> sorted_wrt (<) ns"
proof -
  have "list_all (srv_cursor.step_ok b) steps"
    using assms(1) by (fastforce simp: list_all_iff srv_cursor.step_ok_def)
  then show ?thesis using srv_cursor.chain_increases assms(2) by blast
qed

theorem cursor_never_repeats_witness:
  "\<exists>ns. cursor_chain (\<lambda>t rnd c. generateResponseCursor t rnd c default_options) None
      [(1800000000000, 7), (1800000000001, 3599), (1700000000000 + 100000000000, 0)] = map int_string ns
    \<and> sorted_wrt (<) ns"
  by (rule cursor_never_repeats[of _ 5000000])
    (simp_all add: interval_number_def interval_seconds_def default_options_def DEFAULT_CURSOR_EPOCH_def
      DEFAULT_CURSOR_INTERVAL_SECONDS_def MAX_JITTER_SECONDS_def)

text \<open>The Cloudflare port computes the reference server's cursor on every cursor a client can
  have received (none, or a decimal counter of at most 15 digits).\<close>

theorem cf_cursor_equivalent:
  assumes "c = None \<or> (\<exists>n. c = Some (int_string n) \<and> 0 \<le> n \<and> n < 10 ^ 15)"
  shows "cf_generateResponseCursor t rnd c = generateResponseCursor t rnd c default_options"
  using assms by (rule cf_cursor_eq)

theorem cf_cursor_equivalent_witness:
  "cf_generateResponseCursor 1800000000000 5 (Some (int_string 9000000)) =
     generateResponseCursor 1800000000000 5 (Some (int_string 9000000)) default_options"
  by (rule cf_cursor_equivalent) auto

end
