(* ===== verification/Http.thy ===== *)
theory Http
  imports Subscriptions Cursor
begin

text \<open>
  The HTTP layer of the reference server, first part: requests, responses, header parsing and the
  helpers of server/src/server.ts. Node delivers header names in lower case and the first value of a
  query parameter; the URL is already split into path and query. A handler returns the response it
  sends or the error it throws; \<open>http_env\<close> adds to the environment of the store what one request draws
  from outside: the jitter of its cursor, the compressors, the base URL.
\<close>

section \<open>Requests and responses\<close>

record http_request =
  rq_method :: string
  rq_path :: string
  rq_query :: "(string \<times> string) list"
  rq_headers :: "(string, string) jsmap"
  rq_body :: bytes

record http_response =
  rs_status :: nat
  rs_headers :: "(string, string) jsmap"
  rs_body :: bytes

definition header :: "http_request \<Rightarrow> string \<Rightarrow> string option" where
  "header req name = map_of (rq_headers req) (toLowerCase name)"

definition get_header :: "http_response \<Rightarrow> string \<Rightarrow> string option" where
  "get_header rs name = map_of (map (\<lambda>(k, v). (toLowerCase k, v)) (rs_headers rs)) (toLowerCase name)"

definition query :: "http_request \<Rightarrow> string \<Rightarrow> string option" where
  "query req name = map_of (rq_query req) name"

definition plain :: "nat \<Rightarrow> string \<Rightarrow> http_response" where
  "plain status text = \<lparr>rs_status = status, rs_headers = [(''content-type'', ''text/plain'')], rs_body = text\<rparr>"

definition respond :: "nat \<Rightarrow> (string, string) jsmap \<Rightarrow> http_response" where
  "respond status headers = \<lparr>rs_status = status, rs_headers = headers, rs_body = []\<rparr>"

text \<open>An assignment \<^verbatim>\<open>headers[k] = v\<close> under a condition.\<close>

definition set_if :: "bool \<Rightarrow> string \<Rightarrow> string \<Rightarrow> (string, string) jsmap \<Rightarrow> (string, string) jsmap" where
  "set_if b k v m = (if b then AList.update k v m else m)"

section \<open>Header names\<close>

definition STREAM_OFFSET_HEADER :: string where "STREAM_OFFSET_HEADER = ''Stream-Next-Offset''"
definition STREAM_CURSOR_HEADER :: string where "STREAM_CURSOR_HEADER = ''Stream-Cursor''"
definition STREAM_UP_TO_DATE_HEADER :: string where "STREAM_UP_TO_DATE_HEADER = ''Stream-Up-To-Date''"
definition STREAM_CLOSED_HEADER :: string where "STREAM_CLOSED_HEADER = ''Stream-Closed''"
definition STREAM_SEQ_HEADER :: string where "STREAM_SEQ_HEADER = ''Stream-Seq''"
definition STREAM_TTL_HEADER :: string where "STREAM_TTL_HEADER = ''Stream-TTL''"
definition STREAM_EXPIRES_AT_HEADER :: string where "STREAM_EXPIRES_AT_HEADER = ''Stream-Expires-At''"
definition STREAM_SSE_DATA_ENCODING_HEADER :: string where "STREAM_SSE_DATA_ENCODING_HEADER = ''stream-sse-data-encoding''"
definition STREAM_FORKED_FROM_HEADER :: string where "STREAM_FORKED_FROM_HEADER = ''Stream-Forked-From''"
definition STREAM_FORK_OFFSET_HEADER :: string where "STREAM_FORK_OFFSET_HEADER = ''Stream-Fork-Offset''"
definition STREAM_FORK_SUB_OFFSET_HEADER :: string where "STREAM_FORK_SUB_OFFSET_HEADER = ''Stream-Fork-Sub-Offset''"
definition PRODUCER_ID_HEADER :: string where "PRODUCER_ID_HEADER = ''Producer-Id''"
definition PRODUCER_EPOCH_HEADER :: string where "PRODUCER_EPOCH_HEADER = ''Producer-Epoch''"
definition PRODUCER_SEQ_HEADER :: string where "PRODUCER_SEQ_HEADER = ''Producer-Seq''"
definition PRODUCER_EXPECTED_SEQ_HEADER :: string where "PRODUCER_EXPECTED_SEQ_HEADER = ''Producer-Expected-Seq''"
definition PRODUCER_RECEIVED_SEQ_HEADER :: string where "PRODUCER_RECEIVED_SEQ_HEADER = ''Producer-Received-Seq''"

lemmas header_names = STREAM_OFFSET_HEADER_def STREAM_CURSOR_HEADER_def STREAM_UP_TO_DATE_HEADER_def
  STREAM_CLOSED_HEADER_def STREAM_SEQ_HEADER_def STREAM_TTL_HEADER_def STREAM_EXPIRES_AT_HEADER_def
  PRODUCER_ID_HEADER_def PRODUCER_EPOCH_HEADER_def PRODUCER_SEQ_HEADER_def PRODUCER_EXPECTED_SEQ_HEADER_def
  PRODUCER_RECEIVED_SEQ_HEADER_def

section \<open>Patterns\<close>

text \<open>\<^verbatim>\<open>/^[\w-]+\/[\w-]+/\<close>.\<close>

definition is_word :: "char \<Rightarrow> bool" where
  "is_word c \<longleftrightarrow> (let n = of_char c :: nat in
     48 \<le> n \<and> n \<le> 57 \<or> 65 \<le> n \<and> n \<le> 90 \<or> 97 \<le> n \<and> n \<le> 122 \<or> c = CHR ''_'' \<or> c = CHR ''-'')"

definition media_type_prefix :: "string \<Rightarrow> bool" where
  "media_type_prefix s \<longleftrightarrow> takeWhile is_word s \<noteq> [] \<and>
     (case dropWhile is_word s of c # d # _ \<Rightarrow> c = CHR ''/'' \<and> is_word d | _ \<Rightarrow> False)"

text \<open>\<^verbatim>\<open>/^\d+$/\<close>, \<^verbatim>\<open>/^(0|[1-9]\d*)$/\<close> and \<^verbatim>\<open>/^\d+_\d+$/\<close>.\<close>

definition digits_pattern :: "string \<Rightarrow> bool" where
  "digits_pattern s \<longleftrightarrow> s \<noteq> [] \<and> list_all is_digit s"

definition canonical_integer_pattern :: "string \<Rightarrow> bool" where
  "canonical_integer_pattern s \<longleftrightarrow> digits_pattern s \<and> (s = ''0'' \<or> hd s \<noteq> CHR ''0'')"

definition offset_pattern :: "string \<Rightarrow> bool" where
  "offset_pattern s \<longleftrightarrow>
     (case split_on CHR ''_'' s of [a, b] \<Rightarrow> digits_pattern a \<and> digits_pattern b | _ \<Rightarrow> False)"

text \<open>\<^verbatim>\<open>Number(s)\<close> of a digit string when it is a safe integer.\<close>

definition safe_integer :: "string \<Rightarrow> nat option" where
  "safe_integer s = (if digits_pattern s \<and> digits_val s < 2 ^ 53 then Some (digits_val s) else None)"

section \<open>Compression\<close>

definition COMPRESSION_THRESHOLD :: nat where
  "COMPRESSION_THRESHOLD = 1024"

text \<open>The name of an encoding before its parameters.\<close>

definition encoding_name :: "string \<Rightarrow> string" where
  "encoding_name e = trim (hd (split_on CHR '';'' e))"

definition getCompressionEncoding :: "string option \<Rightarrow> string option" where
  "getCompressionEncoding acceptEncoding =
     (if \<not> truthy acceptEncoding then None
      else (let encodings = map trim (split_on CHR '','' (toLowerCase (the acceptEncoding)))
            in if list_ex (\<lambda>e. encoding_name e = ''gzip'') encodings then Some ''gzip''
               else if list_ex (\<lambda>e. encoding_name e = ''deflate'') encodings then Some ''deflate''
               else None))"

section \<open>Server-sent events\<close>

text \<open>\<^verbatim>\<open>split(/\r\n|\r|\n/)\<close> on code points.\<close>

definition skip_lf :: "utext \<Rightarrow> utext" where
  "skip_lf s = (case s of d # r \<Rightarrow> if d = 10 then r else s | [] \<Rightarrow> [])"

lemma skip_lf_length: "length (skip_lf s) \<le> length s"
  by (auto simp: skip_lf_def split: list.splits)

function split_lines :: "utext \<Rightarrow> utext list" where
  "split_lines [] = [[]]"
| "split_lines (c # s) =
     (if c = 13 then [] # split_lines (skip_lf s)
      else if c = 10 then [] # split_lines s
      else (case split_lines s of [] \<Rightarrow> [[c]] | l # ls \<Rightarrow> (c # l) # ls))"
  by pat_completeness auto
termination by (relation "measure length") (auto simp: less_Suc_eq_le skip_lf_length)

fun join_lines :: "utext list \<Rightarrow> utext" where
  "join_lines [] = []"
| "join_lines [l] = l"
| "join_lines (l # ls) = l @ [10] @ join_lines ls"

definition encodeSSEData :: "utext \<Rightarrow> utext" where
  "encodeSSEData payload = join_lines (map (\<lambda>line. asc ''data:'' @ line) (split_lines payload)) @ [10, 10]"

section \<open>Injected faults\<close>

text \<open>\<open>hit\<close> is the outcome of the comparison of \<^verbatim>\<open>Math.random()\<close> with the probability.\<close>

record injected_fault =
  if_status :: "nat option"
  if_count :: int
  if_retryAfter :: "nat option"
  if_dropConnection :: bool
  if_truncate :: "nat option"
  if_probability :: bool
  if_method :: "string option"
  if_corrupt :: bool
  if_sse :: "(string \<times> string) option"

definition upper_char :: "char \<Rightarrow> char" where
  "upper_char c = (let n = of_char c :: nat in if 97 \<le> n \<and> n \<le> 122 then char_of (n - 32) else c)"

definition toUpperCase :: "string \<Rightarrow> string" where
  "toUpperCase s = map upper_char s"

definition consumeInjectedFault ::
  "bool \<Rightarrow> string \<Rightarrow> string \<Rightarrow> (string, injected_fault) jsmap \<Rightarrow> injected_fault option \<times> (string, injected_fault) jsmap" where
  "consumeInjectedFault hit path method faults =
     (case map_of faults path of
        None \<Rightarrow> (None, faults)
      | Some fault \<Rightarrow>
          if truthy (if_method fault) \<and> toUpperCase (the (if_method fault)) \<noteq> toUpperCase method then (None, faults)
          else if if_probability fault \<and> \<not> hit then (None, faults)
          else (let fault' = fault\<lparr>if_count := if_count fault - 1\<rparr>
                in (Some fault', if if_count fault' \<le> 0 then AList.delete path faults
                                 else AList.update path fault' faults)))"

text \<open>\<open>ps\<close> are the positions that \<^verbatim>\<open>Math.random\<close> picks, one for each of the bytes to corrupt.\<close>

definition applyFaultBodyModification :: "nat list \<Rightarrow> injected_fault option \<Rightarrow> bytes \<Rightarrow> bytes" where
  "applyFaultBodyModification ps fault body =
     (case fault of
        None \<Rightarrow> body
      | Some f \<Rightarrow>
          (let m1 = (case if_truncate f of Some n \<Rightarrow> if length body > n then take n body else body | None \<Rightarrow> body)
           in if if_corrupt f \<and> length m1 > 0 then
                (let m2 = m1[0 := CHR ''X''];
                     m3 = (if length m2 > 1 then m2[1 := CHR ''Y''] else m2);
                     numCorrupt = max 1 (length m3 div 10)
                 in fold (\<lambda>p m. m[p mod length m := CHR ''Z'']) (take numCorrupt ps) m3)
              else m1))"

section \<open>The environment and the state of the server\<close>

record http_env =
  he_sub :: sub_env
  he_jitter :: nat
  he_gzip :: "bytes \<Rightarrow> bytes"
  he_deflate :: "bytes \<Rightarrow> bytes"
  he_base_url :: string
  he_cursor :: cursor_options
  he_compression :: bool
  he_engine_message :: "store_error \<Rightarrow> string"
  he_hit :: bool
  he_positions :: "nat list"

datatype lifecycle_event = Created string string int | Deleted string int

text \<open>\<open>sv_subscribers\<close> is whether the manager is running, \<open>sv_hooks\<close> whether lifecycle callbacks are
  configured; \<open>sv_events\<close> are the calls made to them.\<close>

record server =
  sv_hub :: hub
  sv_faults :: "(string, injected_fault) jsmap"
  sv_subscribers :: bool
  sv_hooks :: bool
  sv_events :: "lifecycle_event list"

abbreviation js_of :: "http_env \<Rightarrow> js_env" where
  "js_of env \<equiv> se_js (he_sub env)"

definition sv_store :: "server \<Rightarrow> store" where
  "sv_store sv = hub_store (sv_hub sv)"

definition with_store :: "store \<Rightarrow> server \<Rightarrow> server" where
  "with_store st sv = sv\<lparr>sv_hub := (sv_hub sv)\<lparr>hub_store := st\<rparr>\<rparr>"

text \<open>Running a store operation on the server's store.\<close>

definition on_store :: "(store \<Rightarrow> 'a \<times> store) \<Rightarrow> server \<Rightarrow> 'a \<times> server" where
  "on_store f sv = (case f (sv_store sv) of (r, st) \<Rightarrow> (r, with_store st sv))"

definition notifyStreamAppend :: "http_env \<Rightarrow> string \<Rightarrow> server \<Rightarrow> server" where
  "notifyStreamAppend env path sv =
     (if \<not> sv_subscribers sv then sv
      else sv\<lparr>sv_hub := snd (onStreamAppend (he_sub env) path (sv_hub sv))\<rparr>)"

section \<open>Errors\<close>

text \<open>The messages of the errors the store throws; the dash is given by its UTF-8 bytes. The text of the
  engine's own errors is a parameter.\<close>

definition error_message :: "http_env \<Rightarrow> store_error \<Rightarrow> string" where
  "error_message env e = (case e of
      Stream_not_found p \<Rightarrow> ''Stream not found: '' @ p
    | Stream_soft_deleted p \<Rightarrow> ''Stream is soft-deleted: '' @ p
    | Active_forks p \<Rightarrow> ''Stream has active forks '' @ [char_of (226 :: nat), char_of (128 :: nat), char_of (148 :: nat)]
        @ '' path cannot be reused until all forks are removed: '' @ p
    | Config_mismatch p \<Rightarrow> ''Stream already exists with different configuration: '' @ p
    | Source_not_found p \<Rightarrow> ''Source stream not found: '' @ p
    | Source_soft_deleted p \<Rightarrow> ''Source stream is soft-deleted: '' @ p
    | Fork_content_type_mismatch \<Rightarrow> ''Content type mismatch with source stream''
    | Invalid_fork_offset ofs \<Rightarrow> ''Invalid fork offset: '' @ ofs
    | Sub_offset_no_data \<Rightarrow> ''Invalid fork sub-offset: no data past forkOffset''
    | Sub_offset_unparseable \<Rightarrow> ''Invalid fork sub-offset: source JSON is unparseable''
    | Sub_offset_count \<Rightarrow> ''Invalid fork sub-offset: overshoots source message count''
    | Sub_offset_length \<Rightarrow> ''Invalid fork sub-offset: overshoots source message length''
    | Content_type_mismatch expected got \<Rightarrow> ''Content-type mismatch: expected '' @ expected @ '', got '' @ got
    | Sequence_conflict s l \<Rightarrow> ''Sequence conflict: '' @ s @ '' <= '' @ l
    | Invalid_JSON \<Rightarrow> ''Invalid JSON''
    | Empty_arrays \<Rightarrow> ''Empty arrays are not allowed''
    | _ \<Rightarrow> he_engine_message env e)"

text \<open>The \<^verbatim>\<open>catch\<close> of \<^verbatim>\<open>handleRequest\<close>: the first text the message contains decides; otherwise the
  error goes on to the connection handler, which answers 500.\<close>

definition catch_error :: "http_env \<Rightarrow> store_error \<Rightarrow> http_response" where
  "catch_error env e =
     (let m = error_message env e
      in if str_includes m ''active forks'' then
           plain 409 (''stream was deleted but still has active forks '' @ [char_of (226 :: nat), char_of (128 :: nat), char_of (148 :: nat)]
             @ '' path cannot be reused until all forks are removed'')
         else if str_includes m ''soft-deleted'' then plain 410 ''Stream is gone''
         else if str_includes m ''not found'' then plain 404 ''Stream not found''
         else if str_includes m ''already exists with different configuration''
         then plain 409 ''Stream already exists with different configuration''
         else if str_includes m ''Sequence conflict'' then plain 409 ''Sequence conflict''
         else if str_includes m ''Content-type mismatch'' then plain 409 ''Content-type mismatch''
         else if str_includes m ''Invalid JSON'' then plain 400 ''Invalid JSON''
         else if str_includes m ''Empty arrays are not allowed'' then plain 400 ''Empty arrays are not allowed''
         else plain 500 ''Internal server error'')"

end
