(* ===== verification/Http_Handlers.thy ===== *)
theory Http_Handlers
  imports Http
begin

text \<open>
  The request handlers of server/src/server.ts: create, head, read (catch-up and long-poll), append
  and delete. Each is given in the pieces between its \<^verbatim>\<open>await\<close>s: a long-poll that has to wait returns
  what it goes on with. \<open>Inl\<close> is the error the handler throws. An access to a property of undefined is
  a TypeError, which ends in the answer 500.
\<close>

definition type_error :: http_response where
  "type_error = plain 500 ''Internal server error''"

section \<open>PUT\<close>

text \<open>The headers of a create request: an error response or the options for the store.\<close>

definition requested_content_type :: "http_request \<Rightarrow> string option" where
  "requested_content_type req =
     (let contentType = header req ''content-type''
      in if \<not> truthy contentType \<or> trim (the contentType) = [] \<or> \<not> media_type_prefix (the contentType)
         then (if truthy (header req STREAM_FORKED_FROM_HEADER) then None else Some ''application/octet-stream'')
         else contentType)"

definition parse_create :: "http_env \<Rightarrow> http_request \<Rightarrow> http_response + create_options" where
  "parse_create env req =
     (let ttlHeader = header req STREAM_TTL_HEADER; expiresAtHeader = header req STREAM_EXPIRES_AT_HEADER;
          forkedFrom = header req STREAM_FORKED_FROM_HEADER; forkOff = header req STREAM_FORK_OFFSET_HEADER;
          subOff = header req STREAM_FORK_SUB_OFFSET_HEADER
      in if truthy ttlHeader \<and> truthy expiresAtHeader
         then Inl (plain 400 ''Cannot specify both Stream-TTL and Stream-Expires-At'')
         else if truthy ttlHeader \<and> \<not> canonical_integer_pattern (the ttlHeader)
         then Inl (plain 400 ''Invalid Stream-TTL value'')
         else if truthy expiresAtHeader \<and> date_ms (js_of env) (the expiresAtHeader) = None
         then Inl (plain 400 ''Invalid Stream-Expires-At timestamp'')
         else if truthy forkOff \<and> \<not> offset_pattern (the forkOff)
         then Inl (plain 400 ''Invalid Stream-Fork-Offset format'')
         else if subOff \<noteq> None \<and> \<not> truthy forkedFrom
         then Inl (plain 400 ''Stream-Fork-Sub-Offset requires Stream-Forked-From'')
         else if subOff \<noteq> None \<and> \<not> canonical_integer_pattern (the subOff)
         then Inl (plain 400 ''Invalid Stream-Fork-Sub-Offset format'')
         else Inr \<lparr>co_contentType = requested_content_type req,
                   co_ttlSeconds = (if truthy ttlHeader then Some (digits_val (the ttlHeader)) else None),
                   co_expiresAt = expiresAtHeader,
                   co_initialData = (if length (rq_body req) > 0 then Some (rq_body req) else None),
                   co_closed = Some (header req STREAM_CLOSED_HEADER = Some ''true''),
                   co_forkedFrom = forkedFrom, co_forkOffset = forkOff,
                   co_forkSubOffset = map_option digits_val subOff\<rparr>)"

text \<open>The \<^verbatim>\<open>catch\<close> around the call of the store.\<close>

definition catch_create :: "http_env \<Rightarrow> store_error \<Rightarrow> store_error + http_response" where
  "catch_create env e =
     (let m = error_message env e
      in if str_includes m ''Source stream not found'' then Inr (plain 404 ''Source stream not found'')
         else if str_includes m ''Invalid fork sub-offset'' then Inr (plain 400 ''Invalid fork sub-offset'')
         else if str_includes m ''Invalid fork offset'' then Inr (plain 400 ''Fork offset beyond source stream length'')
         else if str_includes m ''soft-deleted'' then Inr (plain 409 ''source stream was deleted but still has active forks'')
         else if str_includes m ''Content type mismatch'' then Inr (plain 409 ''Content type mismatch with source stream'')
         else Inl e)"

text \<open>The state of a stream object that the handler holds: objects are shared with the store.\<close>

definition object_now :: "string \<Rightarrow> stream \<Rightarrow> server \<Rightarrow> stream" where
  "object_now path stream sv = (case map_of (streams (sv_store sv)) path of Some s \<Rightarrow> s | None \<Rightarrow> stream)"

definition handleCreate :: "http_env \<Rightarrow> string \<Rightarrow> http_request \<Rightarrow> server \<Rightarrow> (store_error + http_response) \<times> server" where
  "handleCreate env path req sv =
     (case parse_create env req of
        Inl r \<Rightarrow> (Inr r, sv)
      | Inr opts \<Rightarrow>
          (case on_store (has_stream (js_of env) path) sv of
             (there, sv1) \<Rightarrow>
          (case on_store (create (js_of env) path opts) sv1 of
             (Inl e, sv2) \<Rightarrow> (catch_create env e, sv2)
           | (Inr _, sv2) \<Rightarrow>
          (case on_store (get_stream (js_of env) path) sv2 of
             (None, sv3) \<Rightarrow> (Inr type_error, sv3)
           | (Some stream, sv3) \<Rightarrow>
               (let isNew = (\<not> there);
                    resolved = (case contentType stream of Some c \<Rightarrow> c
                      | None \<Rightarrow> (case co_contentType opts of Some c \<Rightarrow> c | None \<Rightarrow> ''application/octet-stream''));
                    sv4 = (if isNew \<and> sv_hooks sv3
                           then sv3\<lparr>sv_events := sv_events sv3 @ [Created path resolved (now (js_of env))]\<rparr> else sv3);
                    sv5 = (if isNew \<and> length (rq_body req) > 0 then notifyStreamAppend env path sv4 else sv4);
                    final = object_now path stream sv5;
                    headers = set_if (closed final) STREAM_CLOSED_HEADER ''true''
                      (set_if isNew ''location'' (he_base_url env @ path)
                        [(''content-type'', resolved), (STREAM_OFFSET_HEADER, currentOffset final)])
                in (Inr (respond (if isNew then 201 else 200) headers), sv5))))))"

section \<open>HEAD\<close>

definition etag :: "string \<Rightarrow> string \<Rightarrow> string \<Rightarrow> bool \<Rightarrow> string" where
  "etag path startOffset endOffset isClosed =
     [CHR 0x22] @ base64 (text_encode (asc path)) @ '':'' @ startOffset @ '':'' @ endOffset
       @ (if isClosed then '':c'' else []) @ [CHR 0x22]"

definition handleHead :: "http_env \<Rightarrow> string \<Rightarrow> server \<Rightarrow> http_response \<times> server" where
  "handleHead env path sv =
     (case on_store (get_stream (js_of env) path) sv of
        (None, sv1) \<Rightarrow> (respond 404 [(''content-type'', ''text/plain'')], sv1)
      | (Some stream, sv1) \<Rightarrow>
          if softDeleted stream then (respond 410 [(''content-type'', ''text/plain'')], sv1)
          else
            (let h0 = [(STREAM_OFFSET_HEADER, currentOffset stream), (''cache-control'', ''no-store'')];
                 h1 = set_if (truthy (contentType stream)) ''content-type'' (the (contentType stream)) h0;
                 h2 = set_if (closed stream) STREAM_CLOSED_HEADER ''true'' h1;
                 h3 = set_if (ttlSeconds stream \<noteq> None) STREAM_TTL_HEADER (nat_string (the (ttlSeconds stream))) h2;
                 h4 = set_if (truthy (expiresAt stream)) STREAM_EXPIRES_AT_HEADER (the (expiresAt stream)) h3;
                 h5 = AList.update ''etag'' (etag path ''-1'' (currentOffset stream) (closed stream)) h4
             in (respond 200 h5, sv1)))"

section \<open>GET\<close>

text \<open>The query parameters of a read: the first error, if any.\<close>

definition valid_read_offset :: "string \<Rightarrow> bool" where
  "valid_read_offset s \<longleftrightarrow> s = ''-1'' \<or> s = ''now'' \<or> offset_pattern s"

definition read_query_error :: "http_request \<Rightarrow> http_response option" where
  "read_query_error req =
     (let offset = query req ''offset''; live = query req ''live''
      in if offset \<noteq> None \<and> the offset = [] then Some (plain 400 ''Empty offset parameter'')
         else if offset \<noteq> None \<and> length (filter (\<lambda>kv. fst kv = ''offset'') (rq_query req)) > 1
         then Some (plain 400 ''Multiple offset parameters not allowed'')
         else if offset \<noteq> None \<and> \<not> valid_read_offset (the offset) then Some (plain 400 ''Invalid offset format'')
         else if (live = Some ''long-poll'' \<or> live = Some ''sse'') \<and> \<not> truthy offset
         then Some (plain 400 ((if live = Some ''sse'' then ''SSE'' else ''Long-poll'') @ '' requires offset parameter''))
         else None)"

text \<open>What a waiting long-poll goes on with.\<close>

record read_context =
  rc_path :: string
  rc_stream :: stream
  rc_request :: http_request
  rc_effective :: "string option"

datatype read_phase =
    Answered "store_error + http_response"
  | Waiting nat read_context
  | Event_stream read_context bool string

definition response_cursor :: "http_env \<Rightarrow> http_request \<Rightarrow> string" where
  "response_cursor env req = generateResponseCursor (now (js_of env)) (he_jitter env) (query req ''cursor'') (he_cursor env)"

text \<open>The response to a read with its messages: headers, conditional answer, body and compression.\<close>

definition compress :: "http_env \<Rightarrow> http_request \<Rightarrow> bytes \<Rightarrow> (string, string) jsmap \<Rightarrow> bytes \<times> (string, string) jsmap" where
  "compress env req responseData headers =
     (if he_compression env \<and> length responseData \<ge> COMPRESSION_THRESHOLD then
        (case getCompressionEncoding (header req ''accept-encoding'') of
           None \<Rightarrow> (responseData, headers)
         | Some enc \<Rightarrow>
             (if enc = ''gzip'' then he_gzip env responseData else he_deflate env responseData,
              AList.update ''vary'' ''accept-encoding'' (AList.update ''content-encoding'' enc headers)))
      else (responseData, headers))"

definition read_response ::
  "http_env \<Rightarrow> injected_fault option \<Rightarrow> read_context \<Rightarrow> stream_message list \<Rightarrow> bool \<Rightarrow> server \<Rightarrow> (store_error + http_response) \<times> server" where
  "read_response env fault ctx msgs upToDate sv =
     (let req = rc_request ctx; path = rc_path ctx; stream = rc_stream ctx;
          responseOffset = (if msgs = [] then currentOffset stream else m_offset (last msgs));
          (currentStream, sv1) = on_store (get_stream (js_of env) path) sv;
          clientAtTail = (Some responseOffset = map_option currentOffset currentStream);
          showClosed = ((case currentStream of Some c \<Rightarrow> closed c | None \<Rightarrow> False) \<and> clientAtTail \<and> upToDate);
          h1 = set_if (truthy (contentType stream)) ''content-type'' (the (contentType stream)) [];
          h2 = AList.update STREAM_OFFSET_HEADER responseOffset h1;
          h3 = set_if (query req ''live'' = Some ''long-poll'') STREAM_CURSOR_HEADER (response_cursor env req) h2;
          h4 = set_if upToDate STREAM_UP_TO_DATE_HEADER ''true'' h3;
          h5 = set_if showClosed STREAM_CLOSED_HEADER ''true'' h4;
          startOffset = (case query req ''offset'' of Some x \<Rightarrow> x | None \<Rightarrow> ''-1'');
          tag = etag path startOffset responseOffset showClosed;
          h6 = AList.update ''etag'' tag h5
      in if header req ''if-none-match'' = Some tag then (Inr (respond 304 [(''etag'', tag)]), sv1)
         else (case on_store (formatResponse (js_of env) path msgs) sv1 of
                 (Inl e, sv2) \<Rightarrow> (Inl e, sv2)
               | (Inr responseData, sv2) \<Rightarrow>
                   (let (finalData, h7) = compress env req responseData h6
                    in (Inr \<lparr>rs_status = 200, rs_headers = h7,
                             rs_body = applyFaultBodyModification (he_positions env) fault finalData\<rparr>, sv2))))"

text \<open>A long-poll after its wait.\<close>

definition read_resume ::
  "http_env \<Rightarrow> injected_fault option \<Rightarrow> read_context \<Rightarrow> wait_result \<Rightarrow> server \<Rightarrow> (store_error + http_response) \<times> server" where
  "read_resume env fault ctx result sv =
     (let req = rc_request ctx; stream = rc_stream ctx;
          sv1 = with_store (touchAccess (js_of env) (rc_path ctx) (sv_store sv)) sv;
          waited = (case rc_effective ctx of Some x \<Rightarrow> x | None \<Rightarrow> currentOffset stream)
      in if wr_streamClosed result = Some True then
           (Inr (respond 204 [(STREAM_OFFSET_HEADER, waited), (STREAM_UP_TO_DATE_HEADER, ''true''),
                              (STREAM_CURSOR_HEADER, response_cursor env req), (STREAM_CLOSED_HEADER, ''true'')]), sv1)
         else if wr_timedOut result then
           (let (currentStream, sv2) = on_store (get_stream (js_of env) (rc_path ctx)) sv1
            in (Inr (respond 204 (set_if (case currentStream of Some c \<Rightarrow> closed c | None \<Rightarrow> False) STREAM_CLOSED_HEADER ''true''
                 [(STREAM_OFFSET_HEADER, waited), (STREAM_UP_TO_DATE_HEADER, ''true''),
                  (STREAM_CURSOR_HEADER, response_cursor env req)])), sv2))
         else read_response env fault ctx (wr_messages result) True sv1)"

text \<open>The catch-up answer to \<^verbatim>\<open>offset=now\<close>.\<close>

definition now_response :: "stream \<Rightarrow> http_response" where
  "now_response stream =
     (let h0 = [(STREAM_OFFSET_HEADER, currentOffset stream), (STREAM_UP_TO_DATE_HEADER, ''true''),
                (''cache-control'', ''no-store'')];
          h1 = set_if (truthy (contentType stream)) ''content-type'' (the (contentType stream)) h0;
          h2 = set_if (closed stream) STREAM_CLOSED_HEADER ''true'' h1;
          isJsonMode = (case contentType stream of Some c \<Rightarrow> str_includes c ''application/json'' | None \<Rightarrow> False)
      in \<lparr>rs_status = 200, rs_headers = h2, rs_body = (if isJsonMode then ''[]'' else [])\<rparr>)"

definition uses_base64 :: "stream \<Rightarrow> bool" where
  "uses_base64 stream =
     (let ct = (case contentType stream of Some c \<Rightarrow> trim (hd (split_on CHR '';'' (toLowerCase c))) | None \<Rightarrow> [])
      in \<not> (startsWith ct ''text/'' \<or> ct = ''application/json''))"

definition handleRead :: "http_env \<Rightarrow> injected_fault option \<Rightarrow> string \<Rightarrow> http_request \<Rightarrow> server \<Rightarrow> read_phase \<times> server" where
  "handleRead env fault path req sv =
     (case on_store (get_stream (js_of env) path) sv of
        (None, sv1) \<Rightarrow> (Answered (Inr (plain 404 ''Stream not found'')), sv1)
      | (Some stream, sv1) \<Rightarrow>
          if softDeleted stream then (Answered (Inr (plain 410 ''Stream is gone'')), sv1)
          else (case read_query_error req of
             Some r \<Rightarrow> (Answered (Inr r), sv1)
           | None \<Rightarrow>
               (let offset = query req ''offset''; live = query req ''live'';
                    effective = (if offset = Some ''now'' then Some (currentOffset stream) else offset);
                    ctx = \<lparr>rc_path = path, rc_stream = stream, rc_request = req, rc_effective = effective\<rparr>
                in if live = Some ''sse'' then (Event_stream ctx (uses_base64 stream) (the effective), sv1)
                   else if offset = Some ''now'' \<and> live \<noteq> Some ''long-poll'' then
                     (Answered (Inr (now_response stream)),
                      with_store (touchAccess (js_of env) path (sv_store sv1)) sv1)
                   else
                     (case on_store (read (js_of env) path effective) sv1 of
                        (Inl e, sv2) \<Rightarrow> (Answered (Inl e), sv2)
                      | (Inr rr, sv2) \<Rightarrow>
                          (let sv3 = with_store (touchAccess (js_of env) path (sv_store sv2)) sv2;
                               caughtUp = (truthy effective \<and> effective = Some (currentOffset stream) \<or> offset = Some ''now'')
                           in if live = Some ''long-poll'' \<and> caughtUp \<and> rr_messages rr = [] then
                                (if closed stream then
                                   (Answered (Inr (respond 204 [(STREAM_OFFSET_HEADER, currentOffset stream),
                                      (STREAM_UP_TO_DATE_HEADER, ''true''), (STREAM_CLOSED_HEADER, ''true'')])), sv3)
                                 else (case on_store (waitForMessages (js_of env) path
                                               (case effective of Some x \<Rightarrow> x | None \<Rightarrow> currentOffset stream)) sv3 of
                                         (Inl e, sv4) \<Rightarrow> (Answered (Inl e), sv4)
                                       | (Inr (Pending i), sv4) \<Rightarrow> (Waiting i ctx, sv4)
                                       | (Inr (Immediate result), sv4) \<Rightarrow>
                                           (let (r, sv5) = read_resume env fault ctx result sv4 in (Answered r, sv5))))
                              else (let (r, sv4) = read_response env fault ctx (rr_messages rr) (rr_upToDate rr) sv3
                                    in (Answered r, sv4)))))))"

section \<open>POST\<close>

record append_request =
  ap_options :: append_options
  ap_producer :: "(string \<times> nat \<times> nat) option"
  ap_close :: bool

text \<open>The producer headers: all or none, a non-empty id and two safe integers.\<close>

definition parse_producer :: "http_request \<Rightarrow> http_response + (string \<times> nat \<times> nat) option" where
  "parse_producer req =
     (case (header req PRODUCER_ID_HEADER, header req PRODUCER_EPOCH_HEADER, header req PRODUCER_SEQ_HEADER) of
        (None, None, None) \<Rightarrow> Inr None
      | (Some producerId, Some epochStr, Some seqStr) \<Rightarrow>
          if producerId = [] then Inl (plain 400 ''Invalid Producer-Id: must not be empty'')
          else (case safe_integer epochStr of
                  None \<Rightarrow> Inl (plain 400 ''Invalid Producer-Epoch: must be a non-negative integer'')
                | Some ep \<Rightarrow>
                    (case safe_integer seqStr of
                       None \<Rightarrow> Inl (plain 400 ''Invalid Producer-Seq: must be a non-negative integer'')
                     | Some sq \<Rightarrow> Inr (Some (producerId, ep, sq))))
      | _ \<Rightarrow> Inl (plain 400
          ''All producer headers (Producer-Id, Producer-Epoch, Producer-Seq) must be provided together''))"

text \<open>The answers that a refused producer gets, in an append and in a close.\<close>

definition stale_response :: "nat \<Rightarrow> http_response" where
  "stale_response currentEpoch =
     \<lparr>rs_status = 403, rs_headers = [(''content-type'', ''text/plain''), (PRODUCER_EPOCH_HEADER, nat_string currentEpoch)],
      rs_body = ''Stale producer epoch''\<rparr>"

definition gap_response :: "nat \<Rightarrow> nat \<Rightarrow> http_response" where
  "gap_response expectedSeq receivedSeq =
     \<lparr>rs_status = 409, rs_headers = [(''content-type'', ''text/plain''), (PRODUCER_EXPECTED_SEQ_HEADER, nat_string expectedSeq),
        (PRODUCER_RECEIVED_SEQ_HEADER, nat_string receivedSeq)],
      rs_body = ''Producer sequence gap''\<rparr>"

text \<open>\<^verbatim>\<open>stream?.currentOffset ?? ""\<close> of a fresh look-up.\<close>

definition tail_or_empty :: "http_env \<Rightarrow> string \<Rightarrow> server \<Rightarrow> string \<times> server" where
  "tail_or_empty env path sv =
     (let (s, sv1) = on_store (get_stream (js_of env) path) sv
      in (case s of Some x \<Rightarrow> currentOffset x | None \<Rightarrow> [], sv1))"

definition closed_response :: "string \<Rightarrow> http_response" where
  "closed_response tail =
     \<lparr>rs_status = 409, rs_headers = [(''content-type'', ''text/plain''), (STREAM_CLOSED_HEADER, ''true''), (STREAM_OFFSET_HEADER, tail)],
      rs_body = ''Stream is closed''\<rparr>"

definition duplicate_headers :: "nat \<Rightarrow> nat option \<Rightarrow> (string, string) jsmap option" where
  "duplicate_headers ep l =
     (case l of None \<Rightarrow> None | Some n \<Rightarrow> Some [(PRODUCER_EPOCH_HEADER, nat_string ep), (PRODUCER_SEQ_HEADER, nat_string n)])"

text \<open>Close-only with producer headers, once the store has answered.\<close>

definition close_response ::
  "http_env \<Rightarrow> string \<Rightarrow> nat \<Rightarrow> nat \<Rightarrow> close_result option \<Rightarrow> server \<Rightarrow> http_response \<times> server" where
  "close_response env path ep sq closeResult sv =
     (case closeResult of
        None \<Rightarrow> (plain 404 ''Stream not found'', sv)
      | Some c \<Rightarrow>
          (case cr_producerResult c of
             Some (Duplicate l) \<Rightarrow>
               (case duplicate_headers ep l of
                  None \<Rightarrow> type_error
                | Some hs \<Rightarrow> respond 204 ([(STREAM_OFFSET_HEADER, cr_finalOffset c), (STREAM_CLOSED_HEADER, ''true'')] @ hs), sv)
           | Some (StaleEpoch currentEpoch) \<Rightarrow> (stale_response currentEpoch, sv)
           | Some InvalidEpochSeq \<Rightarrow> (plain 400 ''New epoch must start with sequence 0'', sv)
           | Some (SequenceGap expectedSeq receivedSeq) \<Rightarrow> (gap_response expectedSeq receivedSeq, sv)
           | Some StreamClosed \<Rightarrow> (let (tail, sv1) = tail_or_empty env path sv in (closed_response tail, sv1))
           | _ \<Rightarrow>
               (respond 204 [(STREAM_OFFSET_HEADER, cr_finalOffset c), (STREAM_CLOSED_HEADER, ''true''),
                             (PRODUCER_EPOCH_HEADER, nat_string ep), (PRODUCER_SEQ_HEADER, nat_string sq)],
                with_store (touchAccess (js_of env) path (sv_store sv)) sv)))"

text \<open>An append whose result is an \<^verbatim>\<open>AppendResult\<close>.\<close>

definition result_response ::
  "http_env \<Rightarrow> string \<Rightarrow> (string \<times> nat \<times> nat) option \<Rightarrow> append_result \<Rightarrow> server \<Rightarrow> http_response \<times> server" where
  "result_response env path producer r sv =
     (let ep = (case producer of Some (i, e, s) \<Rightarrow> e | None \<Rightarrow> 0)
      in if ar_streamClosed r \<and> ar_message r = None then
           (let (tail, sv1) = tail_or_empty env path sv
            in (case ar_producerResult r of
                  Some (Duplicate l) \<Rightarrow>
                    (case duplicate_headers ep l of
                       None \<Rightarrow> type_error
                     | Some hs \<Rightarrow> respond 204 ([(STREAM_OFFSET_HEADER, tail), (STREAM_CLOSED_HEADER, ''true'')] @ hs))
                | _ \<Rightarrow> closed_response tail, sv1))
         else (case ar_producerResult r of
             Some (Duplicate l) \<Rightarrow>
               (case duplicate_headers ep l of
                  None \<Rightarrow> type_error
                | Some hs \<Rightarrow> respond 204 (set_if (ar_streamClosed r) STREAM_CLOSED_HEADER ''true'' hs), sv)
           | Some (StaleEpoch currentEpoch) \<Rightarrow> (stale_response currentEpoch, sv)
           | Some InvalidEpochSeq \<Rightarrow> (plain 400 ''New epoch must start with sequence 0'', sv)
           | Some (SequenceGap expectedSeq receivedSeq) \<Rightarrow> (gap_response expectedSeq receivedSeq, sv)
           | Some StreamClosed \<Rightarrow> (type_error, sv)
           | _ \<Rightarrow>
               (case ar_message r of
                  None \<Rightarrow> (type_error, sv)
                | Some message \<Rightarrow>
                    (let hs = (case producer of
                           None \<Rightarrow> [(STREAM_OFFSET_HEADER, m_offset message)]
                         | Some (i, e, s) \<Rightarrow> [(STREAM_OFFSET_HEADER, m_offset message), (PRODUCER_EPOCH_HEADER, nat_string e),
                                              (PRODUCER_SEQ_HEADER, nat_string s)])
                     in (respond (if producer \<noteq> None then 200 else 204) (set_if (ar_streamClosed r) STREAM_CLOSED_HEADER ''true'' hs),
                         notifyStreamAppend env path sv)))))"

definition handleAppend :: "http_env \<Rightarrow> string \<Rightarrow> http_request \<Rightarrow> server \<Rightarrow> (store_error + http_response) \<times> server" where
  "handleAppend env path req sv =
     (let closeIt = (header req STREAM_CLOSED_HEADER = Some ''true'')
      in case parse_producer req of
           Inl r \<Rightarrow> (Inr r, sv)
         | Inr producer \<Rightarrow>
             if rq_body req = [] \<and> closeIt then
               (case producer of
                  Some (i, e, s) \<Rightarrow>
                    (let (c, sv1) = on_store (closeStreamWithProducer (js_of env) path i e s) sv;
                         (r, sv2) = close_response env path e s c sv1
                     in (Inr r, sv2))
                | None \<Rightarrow>
                    (case on_store (closeStream (js_of env) path) sv of
                       (Inl e, sv1) \<Rightarrow> (Inl e, sv1)
                     | (Inr None, sv1) \<Rightarrow> (Inr (plain 404 ''Stream not found''), sv1)
                     | (Inr (Some c), sv1) \<Rightarrow>
                         (Inr (respond 204 [(STREAM_OFFSET_HEADER, cr_finalOffset c), (STREAM_CLOSED_HEADER, ''true'')]),
                          with_store (touchAccess (js_of env) path (sv_store sv1)) sv1)))
             else if rq_body req = [] then (Inr (plain 400 ''Empty body''), sv)
             else if \<not> truthy (header req ''content-type'') then (Inr (plain 400 ''Content-Type header is required''), sv)
             else
               (let opts = \<lparr>ao_seq = header req STREAM_SEQ_HEADER, ao_contentType = header req ''content-type'',
                            ao_producerId = map_option fst producer,
                            ao_producerEpoch = map_option (fst \<circ> snd) producer,
                            ao_producerSeq = map_option (snd \<circ> snd) producer, ao_close = closeIt\<rparr>
                in case on_store (\<lambda>st. if producer \<noteq> None
                        then (case appendWithProducer (js_of env) path (rq_body req) opts st of
                                (Inl e, st1) \<Rightarrow> (Inl e, st1) | (Inr r, st1) \<Rightarrow> (Inr (Result r), st1))
                        else append (js_of env) path (rq_body req) opts st) sv of
                     (Inl e, sv1) \<Rightarrow> (Inl e, sv1)
                   | (Inr result, sv1) \<Rightarrow>
                       (let sv2 = with_store (touchAccess (js_of env) path (sv_store sv1)) sv1
                        in case result of
                             Result r \<Rightarrow> (let (rs, sv3) = result_response env path producer r sv2 in (Inr rs, sv3))
                           | Message None \<Rightarrow> (Inr type_error, sv2)
                           | Message (Some message) \<Rightarrow>
                               (Inr (respond 204 (set_if closeIt STREAM_CLOSED_HEADER ''true''
                                       [(STREAM_OFFSET_HEADER, m_offset message)])),
                                notifyStreamAppend env path sv2))))"

section \<open>DELETE\<close>

definition handleDelete :: "http_env \<Rightarrow> string \<Rightarrow> server \<Rightarrow> http_response \<times> server" where
  "handleDelete env path sv =
     (case on_store (get_stream (js_of env) path) sv of
        (existing, sv1) \<Rightarrow>
          if (case existing of Some s \<Rightarrow> softDeleted s | None \<Rightarrow> False) then (plain 410 ''Stream is gone'', sv1)
          else (case on_store (delete_stream path) sv1 of
                  (False, sv2) \<Rightarrow> (plain 404 ''Stream not found'', sv2)
                | (True, sv2) \<Rightarrow>
                    (let sv3 = (if sv_hooks sv2 then sv2\<lparr>sv_events := sv_events sv2 @ [Deleted path (now (js_of env))]\<rparr> else sv2);
                         sv4 = (if sv_subscribers sv3 then sv3\<lparr>sv_hub := onStreamDeleted path (sv_hub sv3)\<rparr> else sv3)
                     in (respond 204 [], sv4))))"

end
