(* ===== verification/Sse.thy ===== *)
theory Sse
  imports Http_Handlers
begin

text \<open>
  Server-sent events, both ends: \<^verbatim>\<open>handleSSE\<close> of server/src/server.ts and the parser
  \<^verbatim>\<open>parseSSEStream\<close> of client/src/sse.ts. Texts are lists of code points. The server's loop is given as
  one pass up to the wait, and the steps after it; the client's loop is fed the texts its streaming
  decoder delivers for the chunks it reads.
\<close>

section \<open>The server\<close>

definition SSE_OFFSET_FIELD :: string where "SSE_OFFSET_FIELD = ''streamNextOffset''"
definition SSE_CURSOR_FIELD :: string where "SSE_CURSOR_FIELD = ''streamCursor''"
definition SSE_CLOSED_FIELD :: string where "SSE_CLOSED_FIELD = ''streamClosed''"
definition SSE_UP_TO_DATE_FIELD :: string where "SSE_UP_TO_DATE_FIELD = ''upToDate''"

definition control_closed :: "string \<Rightarrow> json" where
  "control_closed ofs = JObj [(asc SSE_OFFSET_FIELD, JStr (asc ofs)), (asc SSE_CLOSED_FIELD, JBool True)]"

definition control_open :: "string \<Rightarrow> string \<Rightarrow> bool \<Rightarrow> json" where
  "control_open ofs cursor upToDate =
     JObj ([(asc SSE_OFFSET_FIELD, JStr (asc ofs)), (asc SSE_CURSOR_FIELD, JStr (asc cursor))]
           @ (if upToDate then [(asc SSE_UP_TO_DATE_FIELD, JBool True)] else []))"

definition control_text :: "json \<Rightarrow> utext" where
  "control_text v = asc ''event: control'' @ [10] @ encodeSSEData (stringify v)"

definition data_text :: "utext \<Rightarrow> utext" where
  "data_text payload = asc ''event: data'' @ [10] @ encodeSSEData payload"

text \<open>What follows a piece of the loop: the end of the connection, another pass, a wait, or an error after
  the headers have been sent.\<close>

datatype sse_next =
    Sse_end
  | Sse_again string
  | Sse_wait nat string
  | Sse_resume wait_result string
  | Sse_failed "store_error option"

definition sse_payload ::
  "http_env \<Rightarrow> read_context \<Rightarrow> bool \<Rightarrow> stream_message list \<Rightarrow> server \<Rightarrow> utext outcome \<times> server" where
  "sse_payload env ctx useBase64 msgs sv =
     (if useBase64 then (Inr (asc (base64 (concat (map m_data msgs)))), sv)
      else if (case contentType (rc_stream ctx) of Some c \<Rightarrow> str_includes c ''application/json'' | None \<Rightarrow> False) then
        (case on_store (formatResponse (js_of env) (rc_path ctx) msgs) sv of
           (Inl e, sv1) \<Rightarrow> (Inl e, sv1)
         | (Inr jsonBytes, sv1) \<Rightarrow> (Inr (text_decode jsonBytes), sv1))
      else (Inr (text_decode (concat (map m_data msgs))), sv))"

definition sse_control ::
  "http_env \<Rightarrow> read_context \<Rightarrow> stream_message list \<Rightarrow> bool \<Rightarrow> server \<Rightarrow> utext \<times> sse_next \<times> server" where
  "sse_control env ctx msgs upToDate sv =
     (case on_store (get_stream (js_of env) (rc_path ctx)) sv of
        (None, sv1) \<Rightarrow> ([], Sse_failed None, sv1)
      | (Some cur, sv1) \<Rightarrow>
          (let controlOffset = (if msgs = [] then currentOffset cur else m_offset (last msgs));
               clientAtTail = (controlOffset = currentOffset cur);
               responseCursor = response_cursor env (rc_request ctx)
           in if closed cur \<and> clientAtTail then (control_text (control_closed controlOffset), Sse_end, sv1)
              else
                (let text = control_text (control_open controlOffset responseCursor upToDate)
                 in if \<not> upToDate then (text, Sse_again controlOffset, sv1)
                    else if closed cur then (text @ control_text (control_closed controlOffset), Sse_end, sv1)
                    else (case on_store (waitForMessages (js_of env) (rc_path ctx) controlOffset) sv1 of
                            (Inl e, sv2) \<Rightarrow> (text, Sse_failed (Some e), sv2)
                          | (Inr (Pending i), sv2) \<Rightarrow> (text, Sse_wait i controlOffset, sv2)
                          | (Inr (Immediate r), sv2) \<Rightarrow> (text, Sse_resume r controlOffset, sv2)))))"

text \<open>One pass of the loop: what it writes, what follows.\<close>

definition sse_pass ::
  "http_env \<Rightarrow> read_context \<Rightarrow> bool \<Rightarrow> string \<Rightarrow> server \<Rightarrow> utext \<times> sse_next \<times> server" where
  "sse_pass env ctx useBase64 offset sv =
     (case on_store (read (js_of env) (rc_path ctx) (Some offset)) sv of
        (Inl e, sv1) \<Rightarrow> ([], Sse_failed (Some e), sv1)
      | (Inr rr, sv1) \<Rightarrow>
          (let sv2 = with_store (touchAccess (js_of env) (rc_path ctx) (sv_store sv1)) sv1; msgs = rr_messages rr
           in if msgs = [] then sse_control env ctx msgs (rr_upToDate rr) sv2
              else (case sse_payload env ctx useBase64 msgs sv2 of
                      (Inl e, sv3) \<Rightarrow> ([], Sse_failed (Some e), sv3)
                    | (Inr payload, sv3) \<Rightarrow>
                        (case sse_control env ctx msgs (rr_upToDate rr) sv3 of
                           (text, nxt, sv4) \<Rightarrow> (data_text payload @ text, nxt, sv4)))))"

text \<open>After a wait; \<open>going\<close> is whether the client is connected and the server not shutting down.\<close>

definition sse_after_wait ::
  "http_env \<Rightarrow> read_context \<Rightarrow> bool \<Rightarrow> string \<Rightarrow> wait_result \<Rightarrow> server \<Rightarrow> utext \<times> sse_next \<times> server" where
  "sse_after_wait env ctx going offset result sv =
     (let sv1 = with_store (touchAccess (js_of env) (rc_path ctx) (sv_store sv)) sv
      in if \<not> going then ([], Sse_end, sv1)
         else if wr_streamClosed result = Some True \<and> wr_messages result = []
         then (control_text (control_closed offset), Sse_end, sv1)
         else if wr_timedOut result then
           (let (after, sv2) = on_store (get_stream (js_of env) (rc_path ctx)) sv1
            in if (case after of Some s \<Rightarrow> closed s | None \<Rightarrow> False)
               then (control_text (control_closed offset), Sse_end, sv2)
               else (control_text (control_open offset (response_cursor env (rc_request ctx)) True), Sse_again offset, sv2))
         else ([], Sse_again offset, sv1))"

section \<open>The client\<close>

datatype sse_event =
    SSE_data utext
  | SSE_control "json option" "json option" "json option" "json option"

record sse_state =
  ss_buffer :: utext
  ss_type :: "utext option"
  ss_data :: "utext list"

definition sse_start :: sse_state where
  "sse_start = \<lparr>ss_buffer = [], ss_type = None, ss_data = []\<rparr>"

text \<open>\<^verbatim>\<open>replace(/\r\n/g, "\n").replace(/\r/g, "\n")\<close> and \<^verbatim>\<open>split("\n")\<close>.\<close>

fun normalize_eol :: "utext \<Rightarrow> utext" where
  "normalize_eol [] = []"
| "normalize_eol [c] = [if c = 13 then 10 else c]"
| "normalize_eol (c # d # s) =
     (if c = 13 then (if d = 10 then 10 # normalize_eol s else 10 # normalize_eol (d # s))
      else c # normalize_eol (d # s))"

fun split_nl :: "utext \<Rightarrow> utext list" where
  "split_nl [] = [[]]"
| "split_nl (c # s) = (if c = 10 then [] # split_nl s else (case split_nl s of [] \<Rightarrow> [[c]] | l # ls \<Rightarrow> (c # l) # ls))"

text \<open>The event of an empty line. The left side is the \<^verbatim>\<open>PARSE_ERROR\<close> of a control event.\<close>

definition sse_dispatch :: "(utext \<Rightarrow> utext) \<Rightarrow> utext option \<Rightarrow> utext list \<Rightarrow> utext + sse_event list" where
  "sse_dispatch nc ty ds =
     (case ty of
        None \<Rightarrow> Inr []
      | Some t \<Rightarrow>
          if t = [] \<or> ds = [] then Inr []
          else (let dataStr = join_lines ds
                in if t = asc ''data'' then Inr [SSE_data dataStr]
                   else if t = asc ''control'' then
                     (case json_parse nc dataStr of
                        None \<Rightarrow> Inl dataStr
                      | Some JNull \<Rightarrow> Inl dataStr
                      | Some v \<Rightarrow> Inr [SSE_control (json_get v SSE_OFFSET_FIELD) (json_get v SSE_CURSOR_FIELD)
                                       (json_get v SSE_UP_TO_DATE_FIELD) (json_get v SSE_CLOSED_FIELD)])
                   else Inr []))"

definition strip_space :: "utext \<Rightarrow> utext" where
  "strip_space s = (case s of c # r \<Rightarrow> if c = 32 then r else s | [] \<Rightarrow> [])"

definition has_prefix :: "utext \<Rightarrow> utext \<Rightarrow> bool" where
  "has_prefix s p \<longleftrightarrow> take (length p) s = p"

text \<open>The events yielded, and the state to go on with or the data of the event that could not be parsed.\<close>

fun sse_lines :: "(utext \<Rightarrow> utext) \<Rightarrow> utext list \<Rightarrow> sse_state \<Rightarrow> sse_event list \<times> (utext + sse_state)" where
  "sse_lines nc [] st = ([], Inr st)"
| "sse_lines nc (line # ls) st =
     (if line = [] then
        (case sse_dispatch nc (ss_type st) (ss_data st) of
           Inl e \<Rightarrow> ([], Inl e)
         | Inr evs \<Rightarrow> (case sse_lines nc ls (st\<lparr>ss_type := None, ss_data := []\<rparr>) of (evs', r) \<Rightarrow> (evs @ evs', r)))
      else if has_prefix line (asc ''event:'') then sse_lines nc ls (st\<lparr>ss_type := Some (strip_space (drop 6 line))\<rparr>)
      else if has_prefix line (asc ''data:'') then sse_lines nc ls (st\<lparr>ss_data := ss_data st @ [strip_space (drop 5 line)]\<rparr>)
      else sse_lines nc ls st)"

definition sse_feed :: "(utext \<Rightarrow> utext) \<Rightarrow> sse_state \<Rightarrow> utext \<Rightarrow> sse_event list \<times> (utext + sse_state)" where
  "sse_feed nc st chunk =
     (let buffer = normalize_eol (ss_buffer st @ chunk); parts = split_nl buffer
      in sse_lines nc (butlast parts) (st\<lparr>ss_buffer := last parts\<rparr>))"

fun sse_chunks :: "(utext \<Rightarrow> utext) \<Rightarrow> sse_state \<Rightarrow> utext list \<Rightarrow> sse_event list \<times> (utext + sse_state)" where
  "sse_chunks nc st [] = ([], Inr st)"
| "sse_chunks nc st (c # cs) =
     (case sse_feed nc st c of
        (evs, Inl e) \<Rightarrow> (evs, Inl e)
      | (evs, Inr st1) \<Rightarrow> (case sse_chunks nc st1 cs of (evs', r) \<Rightarrow> (evs @ evs', r)))"

text \<open>The whole stream; \<open>remaining\<close> is what the decoder flushes at the end. The result is the events
  yielded, and the data of a control event whose error is thrown after them.\<close>

definition parseSSEStream :: "(utext \<Rightarrow> utext) \<Rightarrow> utext list \<Rightarrow> utext \<Rightarrow> sse_event list \<times> utext option" where
  "parseSSEStream nc chunks remaining =
     (case sse_chunks nc sse_start chunks of
        (evs, Inl e) \<Rightarrow> (evs, Some e)
      | (evs, Inr st) \<Rightarrow>
          if ss_buffer st @ remaining \<noteq> [] then
            (case sse_dispatch nc (ss_type st) (ss_data st) of Inl e \<Rightarrow> (evs, Some e) | Inr lst \<Rightarrow> (evs @ lst, None))
          else (evs, None))"

section \<open>Cutting the text into chunks\<close>

lemma split_nl_not_Nil [simp]: "split_nl s \<noteq> []"
  by (induction s) (auto split: list.splits)

lemma split_nl_append: "split_nl (a @ b) = butlast (split_nl a) @ split_nl (last (split_nl a) @ b)"
proof (induction a)
  case (Cons c a)
  obtain l ls where l: "split_nl a = l # ls" by (cases "split_nl a") auto
  obtain m ms where m: "split_nl (l @ b) = m # ms" by (cases "split_nl (l @ b)") auto
  show ?case using Cons l m by (cases ls) (auto split: list.splits)
qed simp

lemma split_nl_line: "10 \<notin> set l \<Longrightarrow> split_nl (l @ 10 # s) = l # split_nl s"
  by (induction l) auto

lemma split_nl_none: "10 \<notin> set l \<Longrightarrow> split_nl l = [l]"
  by (induction l) auto

lemma last_split_nl: "10 \<notin> set (last (split_nl s))"
  by (induction s) (auto split: list.splits)

lemma last_split_nl_set: "set (last (split_nl s)) \<subseteq> set s"
  by (induction s) (auto split: list.splits if_splits)

lemma normalize_eol_id: "13 \<notin> set s \<Longrightarrow> normalize_eol s = s"
  by (induction s rule: normalize_eol.induct) auto

lemma sse_lines_append:
  "sse_lines nc (xs @ ys) st = (case sse_lines nc xs st of
     (evs, Inl e) \<Rightarrow> (evs, Inl e)
   | (evs, Inr st1) \<Rightarrow> (case sse_lines nc ys st1 of (evs', r) \<Rightarrow> (evs @ evs', r)))"
  by (induction xs arbitrary: st) (auto split: sum.splits prod.splits)

text \<open>Processing lines does not look at the buffer.\<close>

lemma buffer_outermost [simp]:
  "ss_type_update f (ss_buffer_update g st) = ss_buffer_update g (ss_type_update f st)"
  "ss_data_update h (ss_buffer_update g st) = ss_buffer_update g (ss_data_update h st)"
  by (cases st; simp)+

lemma sse_lines_buffer:
  "sse_lines nc ls (st\<lparr>ss_buffer := b\<rparr>) = (case sse_lines nc ls st of
     (evs, Inl e) \<Rightarrow> (evs, Inl e) | (evs, Inr st1) \<Rightarrow> (evs, Inr (st1\<lparr>ss_buffer := b\<rparr>)))"
proof (induction ls arbitrary: st)
  case (Cons l ls)
  note IH = Cons.IH[of "st\<lparr>ss_type := None, ss_data := []\<rparr>"]
    Cons.IH[of "st\<lparr>ss_type := Some (strip_space (drop 6 l))\<rparr>"]
    Cons.IH[of "st\<lparr>ss_data := ss_data st @ [strip_space (drop 5 l)]\<rparr>"] Cons.IH[of st]
  consider "l = []" | "l \<noteq> []" "has_prefix l (asc ''event:'')"
    | "l \<noteq> []" "\<not> has_prefix l (asc ''event:'')" "has_prefix l (asc ''data:'')"
    | "l \<noteq> []" "\<not> has_prefix l (asc ''event:'')" "\<not> has_prefix l (asc ''data:'')" by blast
  then show ?case
  proof cases
    case 1
    then show ?thesis using IH(1)
      by (cases "sse_dispatch nc (ss_type st) (ss_data st)";
          cases "sse_lines nc ls (st\<lparr>ss_type := None, ss_data := []\<rparr>)") (auto split: sum.splits)
  qed (use IH in \<open>simp_all\<close>)
qed simp

lemma sse_lines_keep_buffer: "sse_lines nc ls st = (evs, Inr st1) \<Longrightarrow> ss_buffer st1 = ss_buffer st"
  by (induction ls arbitrary: st evs) (auto split: sum.splits prod.splits if_splits)

lemma sse_feed_append:
  assumes "13 \<notin> set (ss_buffer st)" "10 \<notin> set (ss_buffer st)" "13 \<notin> set a" "13 \<notin> set b"
  shows "sse_feed nc st (a @ b) = (case sse_feed nc st a of
     (evs, Inl e) \<Rightarrow> (evs, Inl e)
   | (evs, Inr st1) \<Rightarrow> (case sse_feed nc st1 b of (evs', r) \<Rightarrow> (evs @ evs', r)))"
proof -
  let ?a = "split_nl (ss_buffer st @ a)"
  let ?b = "split_nl (last ?a @ b)"
  have nl: "13 \<notin> set (last ?a @ b)" using last_split_nl_set[of "ss_buffer st @ a"] assms by auto
  have full: "sse_feed nc st (a @ b) = sse_lines nc (butlast ?a @ butlast ?b) (st\<lparr>ss_buffer := last ?b\<rparr>)"
    using assms split_nl_append[of "ss_buffer st @ a" b]
    by (simp add: sse_feed_def Let_def normalize_eol_id butlast_append)
  have first: "sse_feed nc st a = sse_lines nc (butlast ?a) (st\<lparr>ss_buffer := last ?a\<rparr>)"
    using assms by (simp add: sse_feed_def Let_def normalize_eol_id)
  have second: "sse_feed nc (st1\<lparr>ss_buffer := last ?a\<rparr>) b = sse_lines nc (butlast ?b) (st1\<lparr>ss_buffer := last ?b\<rparr>)" for st1
    using nl by (simp add: sse_feed_def Let_def normalize_eol_id)
  show ?thesis
    unfolding full first sse_lines_append
    by (auto simp: sse_lines_buffer[where st = st] second split: prod.splits sum.splits)
qed

lemma sse_feed_buffer:
  assumes "13 \<notin> set (ss_buffer st)" "13 \<notin> set a" "sse_feed nc st a = (evs, Inr st1)"
  shows "13 \<notin> set (ss_buffer st1) \<and> 10 \<notin> set (ss_buffer st1)"
proof -
  let ?a = "split_nl (ss_buffer st @ a)"
  have "ss_buffer st1 = last ?a"
    using assms sse_lines_keep_buffer[of nc "butlast ?a" "st\<lparr>ss_buffer := last ?a\<rparr>" evs st1]
    by (simp add: sse_feed_def Let_def normalize_eol_id)
  then show ?thesis using last_split_nl[of "ss_buffer st @ a"] last_split_nl_set[of "ss_buffer st @ a"] assms by auto
qed

lemma sse_chunks_concat:
  "13 \<notin> set (ss_buffer st) \<Longrightarrow> 10 \<notin> set (ss_buffer st) \<Longrightarrow> \<forall>c\<in>set cs. 13 \<notin> set c \<Longrightarrow>
     sse_chunks nc st (c # cs) = sse_feed nc st (concat (c # cs)) \<or> 13 \<in> set c"
proof (induction cs arbitrary: st c)
  case Nil
  then show ?case by (auto split: prod.splits sum.splits)
next
  case (Cons d cs)
  show ?case
  proof (cases "13 \<in> set c")
    case False
    have cat: "13 \<notin> set (concat (d # cs))" using Cons.prems(3) by auto
    show ?thesis
      using Cons.IH[of _ d] Cons.prems sse_feed_append[OF Cons.prems(1,2) False cat] sse_feed_buffer[OF Cons.prems(1) False]
      by (auto split: prod.splits sum.splits)
  qed simp
qed

end
