(* ===== verification/Http_Server.thy ===== *)
theory Http_Server
  imports Sse
begin

text \<open>
  The control routes of subscriptions (server/src/subscription-routes.ts) and the dispatch of requests
  (\<^verbatim>\<open>handleRequest\<close> of server/src/server.ts). Strings of a JSON body are taken to have code units
  below 256, as everywhere in the manager, and callback bodies to have the declared type
  \<^verbatim>\<open>SubscriptionCallbackRequest\<close>. The signing metadata of webhooks, the JSON web keys and the text of a
  date are arguments.
\<close>

section \<open>Routes\<close>

definition RESERVED_CONTROL_PREFIX :: string where "RESERVED_CONTROL_PREFIX = ''/v1/stream/__ds''"
definition SUBSCRIPTION_PREFIX :: string where "SUBSCRIPTION_PREFIX = RESERVED_CONTROL_PREFIX @ ''/subscriptions/''"
definition JWKS_PATH :: string where "JWKS_PATH = RESERVED_CONTROL_PREFIX @ ''/jwks.json''"

datatype route_action =
  Base_action | Streams_action | Stream_action string | Callback_action | Claim_action | Ack_action | Release_action

definition ERROR_STATUS :: "sub_error_code \<Rightarrow> nat" where
  "ERROR_STATUS c = (case c of
      INVALID_REQUEST \<Rightarrow> 400 | SUBSCRIPTION_NOT_FOUND \<Rightarrow> 404 | SUBSCRIPTION_ALREADY_EXISTS \<Rightarrow> 409
    | WEBHOOK_URL_REJECTED \<Rightarrow> 400 | TOKEN_INVALID \<Rightarrow> 401 | TOKEN_EXPIRED \<Rightarrow> 401 | FENCED \<Rightarrow> 409
    | ALREADY_CLAIMED \<Rightarrow> 409 | NO_PENDING_WORK \<Rightarrow> 409 | INVALID_OFFSET \<Rightarrow> 409)"

text \<open>\<^verbatim>\<open>decodeURIComponent\<close>: None is a URIError. Escapes of code points above 255 are outside the model and
  count as errors.\<close>

fun percent_bytes :: "string \<Rightarrow> nat list option" where
  "percent_bytes [] = Some []"
| "percent_bytes (c # s) =
     (if c = CHR ''%'' then
        (case s of
           a # b # r \<Rightarrow>
             (case (hex_val (of_char a), hex_val (of_char b), percent_bytes r) of
                (Some x, Some y, Some bs) \<Rightarrow> Some ((16 * x + y) # bs)
              | _ \<Rightarrow> None)
         | _ \<Rightarrow> None)
      else map_option (\<lambda>bs. of_char c # bs) (percent_bytes s))"

definition decodeURIComponent :: "string \<Rightarrow> string option" where
  "decodeURIComponent s =
     (case percent_bytes s of
        None \<Rightarrow> None
      | Some bs \<Rightarrow>
          (let t = utf8_decode bs
           in if utf8_encode t = bs \<and> list_all (\<lambda>u. u < 256) t then Some (map char_of t) else None))"

fun join_slash :: "string list \<Rightarrow> string" where
  "join_slash [] = []"
| "join_slash [p] = p"
| "join_slash (p # ps) = p @ ''/'' @ join_slash ps"

text \<open>The left side is a URIError; None is no route.\<close>

definition parseRoute :: "string \<Rightarrow> unit + (string \<times> route_action) option" where
  "parseRoute path =
     (if \<not> startsWith path SUBSCRIPTION_PREFIX then Inr None
      else (let parts = split_on CHR ''/'' (drop (length SUBSCRIPTION_PREFIX) path)
            in case (if hd parts = [] then Some [] else decodeURIComponent (hd parts)) of
                 None \<Rightarrow> Inl ()
               | Some sid \<Rightarrow>
                   if sid = [] then Inr None
                   else (case tl parts of
                           [] \<Rightarrow> Inr (Some (sid, Base_action))
                         | [t] \<Rightarrow>
                             Inr (if t = ''streams'' then Some (sid, Streams_action)
                                  else if t = ''callback'' then Some (sid, Callback_action)
                                  else if t = ''claim'' then Some (sid, Claim_action)
                                  else if t = ''ack'' then Some (sid, Ack_action)
                                  else if t = ''release'' then Some (sid, Release_action)
                                  else None)
                         | t # rest \<Rightarrow>
                             if t = ''streams'' then
                               (case decodeURIComponent (join_slash rest) of
                                  None \<Rightarrow> Inl ()
                                | Some p \<Rightarrow> Inr (Some (sid, Stream_action (normalizeRelativePath p))))
                             else Inr None)))"

definition readBearerToken :: "http_request \<Rightarrow> string option" where
  "readBearerToken req =
     (case header req ''authorization'' of
        Some a \<Rightarrow> if startsWith a ''Bearer '' then Some (drop (length ''Bearer '') a) else None
      | None \<Rightarrow> None)"

text \<open>\<^verbatim>\<open>readJson\<close>: None is a SyntaxError; an empty body is an empty object.\<close>

definition readJson :: "http_env \<Rightarrow> http_request \<Rightarrow> json option" where
  "readJson env req =
     (if rq_body req = [] then Some (JObj [])
      else json_parse (num_canon (js_of env)) (utf8_decode (map of_char (rq_body req))))"

section \<open>Bodies\<close>

definition latin :: "utext \<Rightarrow> string" where
  "latin t = map char_of t"

definition get_string :: "json \<Rightarrow> string \<Rightarrow> string option" where
  "get_string v k = (case json_get v k of Some (JStr t) \<Rightarrow> Some (latin t) | _ \<Rightarrow> None)"

text \<open>A string property that is present and not empty, normalised.\<close>

definition get_path :: "json \<Rightarrow> string \<Rightarrow> string option" where
  "get_path v k = (case get_string v k of Some s \<Rightarrow> if s \<noteq> [] then Some (normalizeRelativePath s) else None | None \<Rightarrow> None)"

definition DEFAULT_LEASE_TTL_MS :: nat where "DEFAULT_LEASE_TTL_MS = 30000"
definition MIN_LEASE_TTL_MS :: nat where "MIN_LEASE_TTL_MS = 1000"
definition MAX_LEASE_TTL_MS :: nat where "MAX_LEASE_TTL_MS = 10 * 60000"

definition lease_ttl :: "json \<Rightarrow> nat option" where
  "lease_ttl v =
     (case json_get v ''lease_ttl_ms'' of
        None \<Rightarrow> Some DEFAULT_LEASE_TTL_MS
      | Some (JNum t) \<Rightarrow>
          (case int_of_num t of
             Some n \<Rightarrow> if int MIN_LEASE_TTL_MS \<le> n \<and> n \<le> int MAX_LEASE_TTL_MS then Some (nat n) else None
           | None \<Rightarrow> None)
      | _ \<Rightarrow> None)"

definition is_string :: "json \<Rightarrow> bool" where
  "is_string v = (case v of JStr _ \<Rightarrow> True | _ \<Rightarrow> False)"

definition string_of :: "json \<Rightarrow> string" where
  "string_of v = (case v of JStr t \<Rightarrow> latin t | _ \<Rightarrow> [])"

definition parseCreateInput :: "json \<Rightarrow> string + sub_input" where
  "parseCreateInput v =
     (case v of
        JNull \<Rightarrow> Inl ''Request body must be a JSON object''
      | JBool _ \<Rightarrow> Inl ''Request body must be a JSON object''
      | JNum _ \<Rightarrow> Inl ''Request body must be a JSON object''
      | JStr _ \<Rightarrow> Inl ''Request body must be a JSON object''
      | _ \<Rightarrow>
          (let type = json_get v ''type''; pat = get_path v ''pattern'';
               items = (case json_get v ''streams'' of Some (JArr xs) \<Rightarrow> xs | _ \<Rightarrow> []);
               wake = get_path v ''wake_stream'';
               url = (case json_get v ''webhook'' of Some w \<Rightarrow> get_string w ''url'' | None \<Rightarrow> None)
           in if type \<noteq> Some (JStr (asc ''webhook'')) \<and> type \<noteq> Some (JStr (asc ''pull-wake''))
              then Inl (''type must be '' @ [CHR 0x22] @ ''webhook'' @ [CHR 0x22] @ '' or '' @ [CHR 0x22] @ ''pull-wake'' @ [CHR 0x22])
              else if \<not> list_all is_string items then Inl ''streams must contain only strings''
              else if \<not> truthy pat \<and> items = [] then Inl ''At least one of pattern or streams is required''
              else (case lease_ttl v of
                      None \<Rightarrow> Inl ''lease_ttl_ms must be an integer from 1000 to 600000''
                    | Some ttl \<Rightarrow>
                        if type = Some (JStr (asc ''webhook'')) \<and> \<not> truthy url
                        then Inl ''webhook subscriptions require webhook.url''
                        else if type = Some (JStr (asc ''pull-wake'')) \<and> \<not> truthy wake
                        then Inl ''pull-wake subscriptions require wake_stream''
                        else Inr \<lparr>in_kind = (if type = Some (JStr (asc ''webhook'')) then Webhook else Pull_wake),
                                  in_pattern = pat, in_streams = map (normalizeRelativePath \<circ> string_of) items,
                                  in_webhook = (if type = Some (JStr (asc ''webhook'')) then url else None),
                                  in_wake_stream = wake, in_lease_ttl_ms = ttl,
                                  in_description = get_string v ''description''\<rparr>)))"

definition parse_ack :: "json \<Rightarrow> sub_ack" where
  "parse_ack v = \<lparr>ack_stream = get_string v ''stream'', ack_path = get_string v ''path'',
     ack_offset = (case get_string v ''offset'' of Some s \<Rightarrow> s | None \<Rightarrow> [])\<rparr>"

definition parse_callback :: "json \<Rightarrow> callback_request" where
  "parse_callback v =
     \<lparr>cb_wake_id = (case json_get v ''wake_id'' of Some (JStr t) \<Rightarrow> Some (Some (latin t)) | Some JNull \<Rightarrow> Some None | _ \<Rightarrow> None),
      cb_generation = (case json_get v ''generation'' of
          Some (JNum t) \<Rightarrow> (case int_of_num t of Some n \<Rightarrow> if 0 \<le> n then Some (nat n) else None | None \<Rightarrow> None)
        | _ \<Rightarrow> None),
      cb_acks = (case json_get v ''acks'' of Some (JArr xs) \<Rightarrow> Some (map parse_ack xs) | _ \<Rightarrow> None),
      cb_done = (json_get v ''done'' = Some (JBool True))\<rparr>"

section \<open>Replies\<close>

definition code_name :: "sub_error_code \<Rightarrow> string" where
  "code_name c = (case c of
      INVALID_REQUEST \<Rightarrow> ''INVALID_REQUEST'' | SUBSCRIPTION_NOT_FOUND \<Rightarrow> ''SUBSCRIPTION_NOT_FOUND''
    | SUBSCRIPTION_ALREADY_EXISTS \<Rightarrow> ''SUBSCRIPTION_ALREADY_EXISTS'' | WEBHOOK_URL_REJECTED \<Rightarrow> ''WEBHOOK_URL_REJECTED''
    | TOKEN_INVALID \<Rightarrow> ''TOKEN_INVALID'' | TOKEN_EXPIRED \<Rightarrow> ''TOKEN_EXPIRED'' | FENCED \<Rightarrow> ''FENCED''
    | ALREADY_CLAIMED \<Rightarrow> ''ALREADY_CLAIMED'' | NO_PENDING_WORK \<Rightarrow> ''NO_PENDING_WORK'' | INVALID_OFFSET \<Rightarrow> ''INVALID_OFFSET'')"

definition str_json :: "string \<Rightarrow> json" where
  "str_json s = JStr (asc s)"

definition writeJson :: "nat \<Rightarrow> json \<Rightarrow> http_response" where
  "writeJson status body =
     \<lparr>rs_status = status, rs_headers = [(''content-type'', ''application/json'')], rs_body = text_encode (stringify body)\<rparr>"

definition error_body :: "sub_error_code \<Rightarrow> string \<Rightarrow> json" where
  "error_body code msg = JObj [(asc ''error'', JObj [(asc ''code'', str_json (code_name code)), (asc ''message'', str_json msg)])]"

definition writeError :: "nat \<Rightarrow> sub_error_code \<Rightarrow> string \<Rightarrow> http_response" where
  "writeError status code msg = writeJson status (error_body code msg)"

definition link_name :: "link_type \<Rightarrow> string" where
  "link_name t = (case t of Glob_link \<Rightarrow> ''glob'' | Explicit_link \<Rightarrow> ''explicit'')"

definition info_json :: "stream_info \<Rightarrow> json" where
  "info_json i = JObj [(asc ''path'', str_json (si_path i)), (asc ''link_type'', str_json (link_name (si_link_type i))),
     (asc ''acked_offset'', str_json (si_acked i)), (asc ''tail_offset'', str_json (si_tail i)),
     (asc ''has_pending'', JBool (si_pending i))]"

definition reply_json :: "sub_reply \<Rightarrow> nat \<times> json" where
  "reply_json r = (case r of
      Error_reply status code msg \<Rightarrow> (status, error_body code msg)
    | Already_claimed holder gen \<Rightarrow>
        (409, JObj [(asc ''error'', JObj [(asc ''code'', str_json ''ALREADY_CLAIMED''),
           (asc ''current_holder'', str_json holder), (asc ''generation'', num_json gen)])])
    | Claimed wid gen tok infos ttl \<Rightarrow>
        (200, JObj [(asc ''wake_id'', case wid of Some w \<Rightarrow> str_json w | None \<Rightarrow> JNull), (asc ''generation'', num_json gen),
           (asc ''token'', str_json tok), (asc ''streams'', JArr (map info_json infos)), (asc ''lease_ttl_ms'', num_json ttl)])
    | Ok_reply next_wake \<Rightarrow> (200, JObj [(asc ''ok'', JBool True), (asc ''next_wake'', JBool next_wake)])
    | No_content \<Rightarrow> (204, JObj []))"

definition writeManagerResult :: "sub_reply \<Rightarrow> http_response" where
  "writeManagerResult r =
     (let (status, body) = reply_json r in if status = 204 then respond 204 [] else writeJson status body)"

text \<open>Properties whose value is undefined are left out of the JSON text.\<close>

definition optional :: "string \<Rightarrow> json option \<Rightarrow> (utext \<times> json) list" where
  "optional k v = (case v of Some x \<Rightarrow> [(asc k, x)] | None \<Rightarrow> [])"

definition serialize :: "http_env \<Rightarrow> json \<Rightarrow> (int \<Rightarrow> string) \<Rightarrow> subscription \<Rightarrow> hub \<Rightarrow> json \<times> hub" where
  "serialize env signing isodate sub h =
     (let (infos, h1) = streamInfos (he_sub env) sub h
      in (JObj ([(asc ''id'', str_json (sub_id sub)), (asc ''subscription_id'', str_json (sub_id sub)),
                 (asc ''type'', str_json (case sub_type sub of Webhook \<Rightarrow> ''webhook'' | Pull_wake \<Rightarrow> ''pull-wake''))]
            @ optional ''pattern'' (map_option str_json (sub_pattern sub))
            @ [(asc ''streams'', JArr (map (\<lambda>i. JObj [(asc ''path'', str_json (si_path i)),
                  (asc ''link_type'', str_json (link_name (si_link_type i))), (asc ''acked_offset'', str_json (si_acked i))]) infos))]
            @ optional ''webhook'' (map_option (\<lambda>u. JObj [(asc ''url'', str_json u), (asc ''signing'', signing)]) (sub_webhook sub))
            @ optional ''wake_stream'' (map_option str_json (sub_wake_stream sub))
            @ [(asc ''lease_ttl_ms'', num_json (sub_lease_ttl_ms sub)), (asc ''created_at'', str_json (isodate (sub_created_at sub))),
               (asc ''status'', str_json (case sub_stat sub of Active \<Rightarrow> ''active'' | Failed \<Rightarrow> ''failed''))]
            @ optional ''description'' (map_option str_json (sub_description sub))), h1))"

section \<open>Handlers of the routes\<close>

definition methodNotAllowed :: http_response where
  "methodNotAllowed = plain 405 ''Method not allowed''"

definition bad_json :: http_response where
  "bad_json = writeError 400 INVALID_REQUEST ''Invalid JSON body''"

definition no_token :: http_response where
  "no_token = writeError 401 TOKEN_INVALID ''Missing or malformed Authorization header''"

definition no_subscription :: http_response where
  "no_subscription = writeError 404 SUBSCRIPTION_NOT_FOUND ''Subscription not found''"

definition handleBase ::
  "http_env \<Rightarrow> json \<Rightarrow> (int \<Rightarrow> string) \<Rightarrow> string \<Rightarrow> http_request \<Rightarrow> hub \<Rightarrow> http_response \<times> hub" where
  "handleBase env signing isodate sid req h =
     (if rq_method req = ''PUT'' then
        (case readJson env req of
           None \<Rightarrow> (bad_json, h)
         | Some v \<Rightarrow>
             (case parseCreateInput v of
                Inl msg \<Rightarrow> (writeError 400 INVALID_REQUEST msg, h)
              | Inr input \<Rightarrow>
                  (case createOrConfirm (he_sub env) sid input h of
                     (Inl (code, msg), h1) \<Rightarrow> (writeError (ERROR_STATUS code) code msg, h1)
                   | (Inr (sub, created), h1) \<Rightarrow>
                       (let (body, h2) = serialize env signing isodate sub h1
                        in (writeJson (if created then 201 else 200) body, h2)))))
      else if rq_method req = ''GET'' then
        (case map_of (hub_subs h) sid of
           None \<Rightarrow> (no_subscription, h)
         | Some sub \<Rightarrow> (let (body, h1) = serialize env signing isodate sub h in (writeJson 200 body, h1)))
      else if rq_method req = ''DELETE'' then (respond 204 [], snd (delete_sub sid h))
      else (methodNotAllowed, h))"

definition handleStreams :: "http_env \<Rightarrow> string \<Rightarrow> http_request \<Rightarrow> hub \<Rightarrow> http_response \<times> hub" where
  "handleStreams env sid req h =
     (if rq_method req \<noteq> ''POST'' then (methodNotAllowed, h)
      else (case readJson env req of
              None \<Rightarrow> (bad_json, h)
            | Some JNull \<Rightarrow> (type_error, h)
            | Some v \<Rightarrow>
                (case json_get v ''streams'' of
                   Some (JArr xs) \<Rightarrow>
                     if list_all (\<lambda>x. is_string x \<and> x \<noteq> JStr []) xs then
                       (case addExplicitStreams (he_sub env) sid (map (normalizeRelativePath \<circ> string_of) xs) h of
                          (True, h1) \<Rightarrow> (respond 204 [], h1)
                        | (False, h1) \<Rightarrow> (no_subscription, h1))
                     else (writeError 400 INVALID_REQUEST ''streams must be a non-empty string array'', h)
                 | _ \<Rightarrow> (writeError 400 INVALID_REQUEST ''streams must be a non-empty string array'', h))))"

definition handleStream :: "string \<Rightarrow> string \<Rightarrow> http_request \<Rightarrow> hub \<Rightarrow> http_response \<times> hub" where
  "handleStream sid p req h =
     (if rq_method req \<noteq> ''DELETE'' then (methodNotAllowed, h)
      else (case removeExplicitStream sid p h of
              (True, h1) \<Rightarrow> (respond 204 [], h1)
            | (False, h1) \<Rightarrow> (no_subscription, h1)))"

definition handleClaim :: "http_env \<Rightarrow> string \<Rightarrow> http_request \<Rightarrow> hub \<Rightarrow> (store_error + http_response) \<times> hub" where
  "handleClaim env sid req h =
     (case readJson env req of
        None \<Rightarrow> (Inr bad_json, h)
      | Some JNull \<Rightarrow> (Inr type_error, h)
      | Some v \<Rightarrow>
          (case get_string v ''worker'' of
             Some w \<Rightarrow>
               if w = [] then (Inr (writeError 400 INVALID_REQUEST ''worker must be a non-empty string''), h)
               else (case claim (he_sub env) sid w h of
                       (Inl e, h1) \<Rightarrow> (Inl e, h1) | (Inr r, h1) \<Rightarrow> (Inr (writeManagerResult r), h1))
           | None \<Rightarrow> (Inr (writeError 400 INVALID_REQUEST ''worker must be a non-empty string''), h)))"

text \<open>\<^verbatim>\<open>handleCallback\<close>, \<^verbatim>\<open>handleAck\<close> and \<^verbatim>\<open>handleRelease\<close> differ in the manager's method only.\<close>

definition token_handler ::
  "http_env \<Rightarrow> (string \<Rightarrow> callback_request \<Rightarrow> hub \<Rightarrow> sub_reply outcome \<times> hub) \<Rightarrow> http_request \<Rightarrow> hub \<Rightarrow>
     (store_error + http_response) \<times> hub" where
  "token_handler env f req h =
     (case readBearerToken req of
        None \<Rightarrow> (Inr no_token, h)
      | Some tok \<Rightarrow>
          if tok = [] then (Inr no_token, h)
          else (case readJson env req of
                  None \<Rightarrow> (Inr bad_json, h)
                | Some v \<Rightarrow>
                    (case f tok (parse_callback v) h of
                       (Inl e, h1) \<Rightarrow> (Inl e, h1) | (Inr r, h1) \<Rightarrow> (Inr (writeManagerResult r), h1))))"

definition handleCallback :: "http_env \<Rightarrow> string \<Rightarrow> http_request \<Rightarrow> hub \<Rightarrow> (store_error + http_response) \<times> hub" where
  "handleCallback env sid = token_handler env (handleWebhookCallback (he_sub env) sid)"

definition handleAck :: "http_env \<Rightarrow> string \<Rightarrow> http_request \<Rightarrow> hub \<Rightarrow> (store_error + http_response) \<times> hub" where
  "handleAck env sid = token_handler env (ack_sub (he_sub env) sid)"

definition handleRelease :: "http_env \<Rightarrow> string \<Rightarrow> http_request \<Rightarrow> hub \<Rightarrow> (store_error + http_response) \<times> hub" where
  "handleRelease env sid = token_handler env (release_sub (he_sub env) sid)"

definition handleJwks :: "json \<Rightarrow> http_request \<Rightarrow> http_response" where
  "handleJwks jwks req =
     (if rq_method req \<noteq> ''GET'' then methodNotAllowed
      else \<lparr>rs_status = 200, rs_headers = [(''content-type'', ''application/jwk-set+json''),
             (''cache-control'', ''public, max-age=300'')], rs_body = text_encode (stringify jwks)\<rparr>)"

record route_env =
  re_jwks :: json
  re_signing :: json
  re_iso :: "int \<Rightarrow> string"

text \<open>None: the request is not a control request. An error other than a SyntaxError leaves the method and
  ends in the answer 500.\<close>

definition routes_handleRequest ::
  "http_env \<Rightarrow> route_env \<Rightarrow> http_request \<Rightarrow> hub \<Rightarrow> http_response option \<times> hub" where
  "routes_handleRequest env re req h =
     (let path = rq_path req;
          or500 = (\<lambda>(r, h1). (Some (case r of Inl e \<Rightarrow> type_error | Inr rs \<Rightarrow> rs), h1));
          done = (\<lambda>(rs, h1). (Some rs, h1))
      in if path = JWKS_PATH then (Some (handleJwks (re_jwks re) req), h)
         else (case parseRoute path of
                 Inl _ \<Rightarrow> (Some type_error, h)
               | Inr None \<Rightarrow>
                   if path = RESERVED_CONTROL_PREFIX \<or> startsWith path (RESERVED_CONTROL_PREFIX @ ''/'')
                   then (Some (writeError 404 SUBSCRIPTION_NOT_FOUND ''Durable Streams control route not found''), h)
                   else (None, h)
               | Inr (Some (sid, action)) \<Rightarrow>
                   (case action of
                      Base_action \<Rightarrow> done (handleBase env (re_signing re) (re_iso re) sid req h)
                    | Streams_action \<Rightarrow> done (handleStreams env sid req h)
                    | Stream_action p \<Rightarrow> done (handleStream sid p req h)
                    | Callback_action \<Rightarrow> or500 (handleCallback env sid req h)
                    | Claim_action \<Rightarrow> or500 (handleClaim env sid req h)
                    | Ack_action \<Rightarrow> or500 (handleAck env sid req h)
                    | Release_action \<Rightarrow> or500 (handleRelease env sid req h))))"

section \<open>Fault injection\<close>

definition get_nat :: "json \<Rightarrow> string \<Rightarrow> nat option" where
  "get_nat v k = (case json_get v k of Some (JNum t) \<Rightarrow> map_option nat (int_of_num t) | _ \<Rightarrow> None)"

definition get_true :: "json \<Rightarrow> string \<Rightarrow> bool" where
  "get_true v k \<longleftrightarrow> json_get v k = Some (JBool True)"

definition get_event :: "json \<Rightarrow> (string \<times> string) option" where
  "get_event v = (case json_get v ''injectSseEvent'' of
      Some e \<Rightarrow> (case (get_string e ''eventType'', get_string e ''data'') of (Some t, Some d) \<Rightarrow> Some (t, d) | _ \<Rightarrow> None)
    | None \<Rightarrow> None)"

text \<open>The control endpoint of the tests. The fields of the body are read at the types the source declares
  for them; delays have no place in the model.\<close>

definition handleTestInjectError ::
  "http_env \<Rightarrow> http_request \<Rightarrow> (string, injected_fault) jsmap \<Rightarrow> http_response \<times> (string, injected_fault) jsmap" where
  "handleTestInjectError env req faults =
     (if rq_method req = ''POST'' then
        (case json_parse (num_canon (js_of env)) (text_decode (rq_body req)) of
           None \<Rightarrow> (plain 400 ''Invalid JSON body'', faults)
         | Some JNull \<Rightarrow> (plain 400 ''Invalid JSON body'', faults)
         | Some v \<Rightarrow>
             if \<not> truthy (get_string v ''path'') then (plain 400 ''Missing required field: path'', faults)
             else if \<not> (json_get v ''status'' \<noteq> None \<or> json_get v ''delayMs'' \<noteq> None \<or> get_true v ''dropConnection''
                        \<or> json_get v ''truncateBodyBytes'' \<noteq> None \<or> get_true v ''corruptBody'' \<or> json_get v ''injectSseEvent'' \<noteq> None)
             then (plain 400 ''Must specify at least one fault type: status, delayMs, dropConnection, truncateBodyBytes, corruptBody, or injectSseEvent'', faults)
             else (writeJson 200 (JObj [(asc ''ok'', JBool True)]),
                   AList.update (the (get_string v ''path''))
                     \<lparr>if_status = get_nat v ''status'',
                      if_count = (case json_get v ''count'' of
                         Some (JNum t) \<Rightarrow> (case int_of_num t of Some n \<Rightarrow> n | None \<Rightarrow> 1) | _ \<Rightarrow> 1),
                      if_retryAfter = get_nat v ''retryAfter'', if_dropConnection = get_true v ''dropConnection'',
                      if_truncate = get_nat v ''truncateBodyBytes'', if_probability = (json_get v ''probability'' \<noteq> None),
                      if_method = get_string v ''method'', if_corrupt = get_true v ''corruptBody'', if_sse = get_event v\<rparr> faults))
      else if rq_method req = ''DELETE'' then (writeJson 200 (JObj [(asc ''ok'', JBool True)]), [])
      else (methodNotAllowed, faults))"

section \<open>Dispatch\<close>

datatype request_phase =
    Sent http_response
  | Dropped
  | Long_poll nat read_context "injected_fault option"
  | Event_source read_context bool string "injected_fault option"

definition caught :: "http_env \<Rightarrow> store_error + http_response \<Rightarrow> request_phase" where
  "caught env r = Sent (case r of Inl e \<Rightarrow> catch_error env e | Inr rs \<Rightarrow> rs)"

text \<open>The headers set on every response before it is handled; the handler's own come on top.\<close>

definition base_headers :: "(string, string) jsmap" where
  "base_headers =
     [(''access-control-allow-origin'', ''*''),
      (''access-control-allow-methods'', ''GET, POST, PUT, DELETE, HEAD, OPTIONS''),
      (''access-control-allow-headers'', ''content-type, authorization, If-None-Match, Stream-Seq, Stream-TTL, Stream-Expires-At, Stream-Closed, Producer-Id, Producer-Epoch, Producer-Seq, Stream-Forked-From, Stream-Fork-Offset, Stream-Fork-Sub-Offset''),
      (''access-control-expose-headers'', ''Stream-Next-Offset, Stream-Cursor, Stream-Up-To-Date, Stream-Closed, Producer-Epoch, Producer-Seq, Producer-Expected-Seq, Producer-Received-Seq, etag, content-type, content-encoding, vary''),
      (''x-content-type-options'', ''nosniff''), (''cross-origin-resource-policy'', ''cross-origin'')]"

definition with_base :: "http_response \<Rightarrow> http_response" where
  "with_base rs = rs\<lparr>rs_headers := base_headers @ rs_headers rs\<rparr>"

definition send :: "request_phase \<Rightarrow> request_phase" where
  "send ph = (case ph of Sent rs \<Rightarrow> Sent (with_base rs) | _ \<Rightarrow> ph)"

text \<open>The \<^verbatim>\<open>switch\<close> on the method, which \<^verbatim>\<open>handleRequest\<close> has put in upper case, with its \<^verbatim>\<open>catch\<close>.\<close>

definition dispatch :: "http_env \<Rightarrow> injected_fault option \<Rightarrow> http_request \<Rightarrow> server \<Rightarrow> request_phase \<times> server" where
  "dispatch env fault req sv =
     (let path = rq_path req; m = rq_method req
      in if m = ''PUT'' then (case handleCreate env path req sv of (r, sv1) \<Rightarrow> (caught env r, sv1))
         else if m = ''HEAD'' then (case handleHead env path sv of (r, sv1) \<Rightarrow> (Sent r, sv1))
         else if m = ''GET'' then
           (case handleRead env fault path req sv of
              (Answered r, sv1) \<Rightarrow> (caught env r, sv1)
            | (Waiting i ctx, sv1) \<Rightarrow> (Long_poll i ctx fault, sv1)
            | (Event_stream ctx b64 ofs, sv1) \<Rightarrow> (Event_source ctx b64 ofs fault, sv1))
         else if m = ''POST'' then (case handleAppend env path req sv of (r, sv1) \<Rightarrow> (caught env r, sv1))
         else if m = ''DELETE'' then (case handleDelete env path sv of (r, sv1) \<Rightarrow> (Sent r, sv1))
         else (Sent methodNotAllowed, sv))"

definition stored_fault :: "injected_fault \<Rightarrow> injected_fault option" where
  "stored_fault f = (if if_truncate f \<noteq> None \<or> if_corrupt f \<or> if_sse f \<noteq> None then Some f else None)"

definition fault_response :: "injected_fault \<Rightarrow> nat \<Rightarrow> http_response" where
  "fault_response f status =
     \<lparr>rs_status = status,
      rs_headers = (case if_retryAfter f of
          Some n \<Rightarrow> [(''content-type'', ''text/plain''), (''retry-after'', nat_string n)]
        | None \<Rightarrow> [(''content-type'', ''text/plain'')]),
      rs_body = ''Injected error for testing''\<rparr>"

definition after_fault :: "http_env \<Rightarrow> route_env \<Rightarrow> injected_fault option \<Rightarrow> http_request \<Rightarrow> server \<Rightarrow> request_phase \<times> server" where
  "after_fault env re fault req sv =
     (if sv_subscribers sv then
        (case routes_handleRequest env re req (sv_hub sv) of
           (Some rs, h1) \<Rightarrow> (Sent rs, sv\<lparr>sv_hub := h1\<rparr>)
         | (None, h1) \<Rightarrow> dispatch env fault req (sv\<lparr>sv_hub := h1\<rparr>))
      else dispatch env fault req sv)"

definition answer_request :: "http_env \<Rightarrow> route_env \<Rightarrow> http_request \<Rightarrow> server \<Rightarrow> request_phase \<times> server" where
  "answer_request env re req sv =
     (let m = rq_method req
      in if m = ''OPTIONS'' then (Sent (respond 204 []), sv)
         else if rq_path req = ''/_test/inject-error'' then
           (case handleTestInjectError env req (sv_faults sv) of (r, fs) \<Rightarrow> (Sent r, sv\<lparr>sv_faults := fs\<rparr>))
         else
           (case consumeInjectedFault (he_hit env) (rq_path req) m (sv_faults sv) of
              (None, fs) \<Rightarrow> after_fault env re None req (sv\<lparr>sv_faults := fs\<rparr>)
            | (Some f, fs) \<Rightarrow>
                (let sv1 = sv\<lparr>sv_faults := fs\<rparr>
                 in if if_dropConnection f then (Dropped, sv1)
                    else (case if_status f of
                            Some status \<Rightarrow> (Sent (fault_response f status), sv1)
                          | None \<Rightarrow> after_fault env re (stored_fault f) req sv1))))"

definition handleRequest :: "http_env \<Rightarrow> route_env \<Rightarrow> http_request \<Rightarrow> server \<Rightarrow> request_phase \<times> server" where
  "handleRequest env re req sv =
     (case answer_request env re (req\<lparr>rq_method := toUpperCase (rq_method req)\<rparr>) sv of (ph, sv1) \<Rightarrow> (send ph, sv1))"

text \<open>The answer of a long-poll that waited.\<close>

definition long_poll_answer ::
  "http_env \<Rightarrow> injected_fault option \<Rightarrow> read_context \<Rightarrow> wait_result \<Rightarrow> server \<Rightarrow> request_phase \<times> server" where
  "long_poll_answer env fault ctx result sv =
     (case read_resume env fault ctx result sv of (r, sv1) \<Rightarrow> (send (caught env r), sv1))"

end
