(* ===== verification/Sse_Props.thy ===== *)
theory Sse_Props
  imports Sse Subscription_Props
begin

text \<open>
  What reaches a client over server-sent events: the events the parser yields are those the server
  wrote, however the text is cut into chunks, as long as no line of the payload begins with a space.
\<close>

section \<open>Blocks of lines\<close>

definition block :: "string \<Rightarrow> utext list \<Rightarrow> utext list" where
  "block name ls = (asc ''event: '' @ asc name) # map (\<lambda>l. asc ''data:'' @ l) ls @ [[]]"

lemma split_lines_not_Nil [simp]: "split_lines s \<noteq> []"
  by (induction s rule: split_lines.induct) (auto split: list.splits)

lemma split_lines_clean: "l \<in> set (split_lines s) \<Longrightarrow> 10 \<notin> set l \<and> 13 \<notin> set l"
  by (induction s arbitrary: l rule: split_lines.induct) (auto split: if_splits list.splits)

lemma split_lines_one: "10 \<notin> set s \<Longrightarrow> 13 \<notin> set s \<Longrightarrow> split_lines s = [s]"
  by (induction s rule: split_lines.induct) auto

lemma split_nl_join: "\<forall>l\<in>set ls. 10 \<notin> set l \<Longrightarrow> ls \<noteq> [] \<Longrightarrow> split_nl (join_lines ls @ 10 # r) = ls @ split_nl r"
  by (induction ls rule: join_lines.induct) (auto simp: split_nl_line)

lemma event_names: "10 \<notin> set (asc ''event: data'')" "10 \<notin> set (asc ''event: control'')" "10 \<notin> set (asc ''data:'')"
  "13 \<notin> set (asc ''event: data'')" "13 \<notin> set (asc ''event: control'')" "13 \<notin> set (asc ''data:'')"
  by (simp_all add: asc_def)

lemma split_nl_encode:
  "split_nl (encodeSSEData p @ r) = map (\<lambda>l. asc ''data:'' @ l) (split_lines p) @ [[]] @ split_nl r"
proof -
  let ?ls = "map (\<lambda>l. asc ''data:'' @ l) (split_lines p)"
  have "\<forall>l\<in>set ?ls. 10 \<notin> set l" using split_lines_clean[of _ p] event_names by auto
  then have "split_nl (join_lines ?ls @ 10 # (10 # r)) = ?ls @ split_nl (10 # r)" by (rule split_nl_join) simp
  then show ?thesis by (simp add: encodeSSEData_def)
qed

lemma split_nl_texts:
  "split_nl (data_text p @ r) = block ''data'' (split_lines p) @ split_nl r"
  "split_nl (control_text v @ r) = block ''control'' (split_lines (stringify v)) @ split_nl r"
proof -
  have 1: "asc ''event: '' @ asc ''data'' = asc ''event: data''" "asc ''event: '' @ asc ''control'' = asc ''event: control''"
    by (simp_all add: asc_def)
  have "split_nl (asc ''event: data'' @ 10 # (encodeSSEData p @ r)) = asc ''event: data'' # split_nl (encodeSSEData p @ r)"
    by (rule split_nl_line) (rule event_names)
  then show "split_nl (data_text p @ r) = block ''data'' (split_lines p) @ split_nl r"
    using 1 by (simp add: data_text_def split_nl_encode block_def)
  have "split_nl (asc ''event: control'' @ 10 # (encodeSSEData (stringify v) @ r))
      = asc ''event: control'' # split_nl (encodeSSEData (stringify v) @ r)"
    by (rule split_nl_line) (rule event_names)
  then show "split_nl (control_text v @ r) = block ''control'' (split_lines (stringify v)) @ split_nl r"
    using 1 by (simp add: control_text_def split_nl_encode block_def)
qed

lemma join_lines_set: "set (join_lines ls) \<subseteq> \<Union> (set ` set ls) \<union> {10}"
  by (induction ls rule: join_lines.induct) auto

lemma encode_no_cr: "13 \<notin> set (encodeSSEData p)"
proof -
  let ?ls = "map (\<lambda>l. asc ''data:'' @ l) (split_lines p)"
  have "\<forall>l\<in>set ?ls. 13 \<notin> set l" using split_lines_clean[of _ p] event_names by auto
  then show ?thesis using join_lines_set[of ?ls] by (auto simp: encodeSSEData_def)
qed

lemma texts_no_cr: "13 \<notin> set (data_text p)" "13 \<notin> set (control_text v)"
  using encode_no_cr event_names by (auto simp: data_text_def control_text_def)

section \<open>Parsing a block\<close>

lemma data_line:
  "sse_lines nc ((asc ''data:'' @ l) # ls) st = sse_lines nc ls (st\<lparr>ss_data := ss_data st @ [strip_space l]\<rparr>)"
proof -
  have "(asc ''data:'' @ l = []) = False" "has_prefix (asc ''data:'' @ l) (asc ''event:'') = False"
    "has_prefix (asc ''data:'' @ l) (asc ''data:'') = True" "drop 5 (asc ''data:'' @ l) = l"
    by (simp_all add: asc_def has_prefix_def)
  then show ?thesis by (simp only: sse_lines.simps if_True if_False)
qed

lemma event_line:
  "sse_lines nc ((asc ''event: '' @ name) # ls) st = sse_lines nc ls (st\<lparr>ss_type := Some name\<rparr>)"
proof -
  have "(asc ''event: '' @ name = []) = False" "has_prefix (asc ''event: '' @ name) (asc ''event:'') = True"
    "strip_space (drop 6 (asc ''event: '' @ name)) = name"
    by (simp_all add: asc_def has_prefix_def strip_space_def)
  then show ?thesis by (simp only: sse_lines.simps if_True if_False)
qed

lemma data_lines:
  "sse_lines nc (map (\<lambda>l. asc ''data:'' @ l) ls) st = ([], Inr (st\<lparr>ss_data := ss_data st @ map strip_space ls\<rparr>))"
  by (induction ls arbitrary: st) (simp_all add: data_line del: sse_lines.simps(2))

lemma sse_block:
  assumes "ss_type st = None" "ss_data st = []" "ls \<noteq> []"
  shows "sse_lines nc (block name ls) st =
    (case sse_dispatch nc (Some (asc name)) (map strip_space ls) of Inl e \<Rightarrow> ([], Inl e) | Inr evs \<Rightarrow> (evs, Inr st))"
proof -
  have st: "st\<lparr>ss_type := None, ss_data := []\<rparr> = st" using assms(1,2) by (cases st) simp
  have "sse_lines nc (block name ls) st = sse_lines nc (map (\<lambda>l. asc ''data:'' @ l) ls @ [[]]) (st\<lparr>ss_type := Some (asc name)\<rparr>)"
    unfolding block_def by (rule event_line)
  also have "\<dots> = sse_lines nc [[]] (st\<lparr>ss_type := Some (asc name), ss_data := map strip_space ls\<rparr>)"
    unfolding sse_lines_append data_lines using assms(2) by (simp del: sse_lines.simps(2) split: prod.splits)
  also have "\<dots> = (case sse_dispatch nc (Some (asc name)) (map strip_space ls) of Inl e \<Rightarrow> ([], Inl e) | Inr evs \<Rightarrow> (evs, Inr st))"
    using st by (auto split: sum.splits)
  finally show ?thesis .
qed

text \<open>The lines of a payload reach the client unless they begin with a space.\<close>

definition lines_plain :: "utext \<Rightarrow> bool" where
  "lines_plain p \<longleftrightarrow> (\<forall>l\<in>set (split_lines p). l = [] \<or> hd l \<noteq> 32)"

lemma strip_space_plain: "lines_plain p \<Longrightarrow> map strip_space (split_lines p) = split_lines p"
proof (rule map_idI)
  fix l assume "lines_plain p" "l \<in> set (split_lines p)"
  then show "strip_space l = l" by (cases l) (auto simp: lines_plain_def strip_space_def)
qed

lemma data_block:
  assumes "ss_type st = None" "ss_data st = []" "lines_plain p"
  shows "sse_lines nc (block ''data'' (split_lines p)) st = ([SSE_data (join_lines (split_lines p))], Inr st)"
  using sse_block[where name = "''data''" and ls = "split_lines p" and nc = nc and st = st] assms by (simp add: asc_def sse_dispatch_def strip_space_plain Let_def)

section \<open>Control events\<close>

definition control_of :: "json \<Rightarrow> sse_event" where
  "control_of v = SSE_control (json_get v SSE_OFFSET_FIELD) (json_get v SSE_CURSOR_FIELD)
     (json_get v SSE_UP_TO_DATE_FIELD) (json_get v SSE_CLOSED_FIELD)"

inductive is_control :: "string \<Rightarrow> json \<Rightarrow> bool" where
  closed_control: "is_control ofs (control_closed ofs)"
| open_control: "is_control ofs (control_open ofs cursor u)"

lemma quote_str_clean: "10 \<notin> set (quote_str t) \<and> 13 \<notin> set (quote_str t)"
proof -
  have "10 \<notin> set (quote_char u) \<and> 13 \<notin> set (quote_char u)" for u
    by (auto simp: quote_char_def hex4_def hex_digit_def split: if_splits)
  then show ?thesis by (auto simp: quote_str_def)
qed

lemma sse_fields: "SSE_OFFSET_FIELD \<noteq> SSE_CURSOR_FIELD" "SSE_OFFSET_FIELD \<noteq> SSE_UP_TO_DATE_FIELD"
  "SSE_OFFSET_FIELD \<noteq> SSE_CLOSED_FIELD" "SSE_CURSOR_FIELD \<noteq> SSE_UP_TO_DATE_FIELD"
  "\<not> is_index (asc SSE_OFFSET_FIELD)" "\<not> is_index (asc SSE_CURSOR_FIELD)" "\<not> is_index (asc SSE_UP_TO_DATE_FIELD)"
  "\<not> is_index (asc SSE_CLOSED_FIELD)"
  by (code_simp+)

lemma control_ok: "is_control ofs v \<Longrightarrow> json_ok nc v"
  by (induction rule: is_control.induct)
    (auto simp: control_closed_def control_open_def asc_text_ok sse_fields sse_fields(1-4)[symmetric])

lemma control_shape: "is_control ofs v \<Longrightarrow> \<exists>ps. v = JObj ps"
  by (auto simp: control_closed_def control_open_def elim: is_control.cases)

lemma control_offset: "is_control ofs v \<Longrightarrow> json_get v SSE_OFFSET_FIELD = Some (JStr (asc ofs))"
  by (auto simp: control_closed_def control_open_def json_get_def elim: is_control.cases)

lemma control_clean: "is_control ofs v \<Longrightarrow> 10 \<notin> set (stringify v) \<and> 13 \<notin> set (stringify v)"
proof (induction rule: is_control.induct)
  case (closed_control ofs)
  then show ?case using quote_str_clean by (simp add: control_closed_def asc_def)
next
  case (open_control ofs cursor u)
  then show ?case using quote_str_clean by (cases u) (simp_all add: control_open_def asc_def)
qed

lemma control_hd: "is_control ofs v \<Longrightarrow> \<exists>s. stringify v = 123 # s"
  by (induction rule: is_control.induct) (simp_all add: control_closed_def control_open_def)

lemma control_block:
  assumes "ss_type st = None" "ss_data st = []" "is_control ofs v"
  shows "sse_lines nc (block ''control'' (split_lines (stringify v))) st = ([control_of v], Inr st)"
proof -
  have one: "split_lines (stringify v) = [stringify v]" using control_clean[OF assms(3)] by (simp add: split_lines_one)
  obtain s where "stringify v = 123 # s" using control_hd[OF assms(3)] by blast
  then have strip: "strip_space (stringify v) = stringify v" by (simp add: strip_space_def)
  have parse: "json_parse nc (stringify v) = Some v" by (rule json_roundtrip[OF control_ok[OF assms(3)]])
  obtain ps where ps: "v = JObj ps" using control_shape[OF assms(3)] by blast
  have nd: "asc ''control'' \<noteq> asc ''data''" by (simp add: asc_def)
  have "sse_dispatch nc (Some (asc ''control'')) [stringify v] = Inr [control_of v]"
    unfolding sse_dispatch_def option.case Let_def join_lines.simps parse using nd ps
    by (simp add: control_of_def) (simp add: asc_def)
  then show ?thesis
    unfolding one using sse_block[where name = "''control''" and ls = "[stringify v]" and nc = nc and st = st] assms(1,2) strip by (simp add: asc_def)
qed

section \<open>Streams of events\<close>

lemma sse_start_simps [simp]: "ss_type sse_start = None" "ss_data sse_start = []" "ss_buffer sse_start = []"
  by (simp_all add: sse_start_def)

text \<open>A text without carriage returns is parsed the same however it is cut.\<close>

lemma parse_any_chunks:
  assumes "13 \<notin> set (concat chunks)"
  shows "parseSSEStream nc chunks [] = parseSSEStream nc [concat chunks] []"
proof (cases chunks)
  case Nil
  then show ?thesis by (simp add: parseSSEStream_def sse_feed_def Let_def sse_start_def)
next
  case (Cons c cs)
  have "sse_chunks nc sse_start (c # cs) = sse_feed nc sse_start (concat (c # cs))"
    using sse_chunks_concat[of sse_start cs nc c] assms Cons by auto
  moreover have "sse_chunks nc sse_start [concat (c # cs)] = sse_feed nc sse_start (concat (c # cs))"
    by (auto split: prod.splits sum.splits)
  ultimately show ?thesis unfolding Cons parseSSEStream_def by simp
qed

text \<open>A text that consists of blocks, each parsed to its events, yields the events in order.\<close>

lemma parse_lines_text:
  assumes "concat chunks = whole" "13 \<notin> set whole" "split_nl whole = ls @ [[]]"
    and "sse_lines nc ls sse_start = (evs, Inr sse_start)"
  shows "parseSSEStream nc chunks [] = (evs, None)"
proof -
  have empty: "sse_start\<lparr>ss_buffer := []\<rparr> = sse_start" by (simp add: sse_start_def)
  have "sse_feed nc sse_start whole = (evs, Inr sse_start)"
    using assms by (simp add: sse_feed_def Let_def normalize_eol_id empty)
  then have "parseSSEStream nc [whole] [] = (evs, None)" by (simp add: parseSSEStream_def)
  then show ?thesis using parse_any_chunks[of chunks nc] assms(1,2) by simp
qed

definition control_blocks :: "json list \<Rightarrow> utext list" where
  "control_blocks vs = concat (map (\<lambda>v. block ''control'' (split_lines (stringify v))) vs)"

lemma control_texts:
  "\<forall>v\<in>set vs. is_control ofs v \<Longrightarrow>
     split_nl (concat (map control_text vs)) = control_blocks vs @ [[]]
     \<and> sse_lines nc (control_blocks vs) sse_start = (map control_of vs, Inr sse_start)
     \<and> 13 \<notin> set (concat (map control_text vs))"
proof (induction vs)
  case (Cons v vs)
  have "sse_lines nc (block ''control'' (split_lines (stringify v))) sse_start = ([control_of v], Inr sse_start)"
    using Cons.prems by (intro control_block) auto
  then show ?case
    using Cons texts_no_cr
    by (simp add: control_blocks_def split_nl_texts sse_lines_append split: prod.splits)
qed (simp add: control_blocks_def)

text \<open>What a pass of the server's loop writes.\<close>

lemma sse_control_text:
  assumes "sse_control env ctx msgs u sv = (text, nxt, sv')" "\<And>e. nxt \<noteq> Sse_failed e"
  shows "\<exists>ofs vs. text = concat (map control_text vs) \<and> vs \<noteq> [] \<and> (\<forall>v\<in>set vs. is_control ofs v)
    \<and> (msgs \<noteq> [] \<longrightarrow> ofs = m_offset (last msgs))
    \<and> (\<forall>i o'. nxt = Sse_wait i o' \<longrightarrow> o' = ofs) \<and> (\<forall>o'. nxt = Sse_again o' \<longrightarrow> o' = ofs)
    \<and> (\<forall>r o'. nxt = Sse_resume r o' \<longrightarrow> o' = ofs) \<and> (nxt = Sse_end \<longrightarrow> last vs = control_closed ofs)"
proof -
  obtain s sv1 where g: "on_store (get_stream (js_of env) (rc_path ctx)) sv = (s, sv1)" by fastforce
  obtain cur where s: "s = Some cur" using assms g by (cases s) (auto simp: sse_control_def)
  define ofs where "ofs = (if msgs = [] then currentOffset cur else m_offset (last msgs))"
  let ?o = "control_open ofs (response_cursor env (rc_request ctx)) u"
  let ?c = "control_closed ofs"
  obtain w sv2 where w: "on_store (waitForMessages (js_of env) (rc_path ctx) ofs) sv1 = (w, sv2)" by fastforce
  consider "text = control_text ?c" "nxt = Sse_end" | "text = control_text ?o @ control_text ?c" "nxt = Sse_end"
    | "text = control_text ?o" "\<exists>i r. nxt \<in> {Sse_again ofs, Sse_wait i ofs, Sse_resume r ofs}"
    using assms g s w
    by (auto simp: sse_control_def Let_def ofs_def[symmetric] split: if_splits sum.splits wait_outcome.splits)
  then show ?thesis
  proof cases
    case 1
    then show ?thesis by (intro exI[of _ ofs] exI[of _ "[?c]"]) (auto simp: ofs_def intro: is_control.intros)
  next
    case 2
    then show ?thesis by (intro exI[of _ ofs] exI[of _ "[?o, ?c]"]) (auto simp: ofs_def intro: is_control.intros)
  next
    case 3
    then show ?thesis by (intro exI[of _ ofs] exI[of _ "[?o]"]) (auto simp: ofs_def intro: is_control.intros)
  qed
qed

lemma sse_pass_events:
  assumes "on_store (read (js_of env) (rc_path ctx) (Some offset)) sv = (Inr rr, sv1)"
    and "sse_pass env ctx b64 offset sv = (text, nxt, sv')" "\<And>e. nxt \<noteq> Sse_failed e" "concat chunks = text"
    and "payload = projr (fst (sse_payload env ctx b64 (rr_messages rr)
           (with_store (touchAccess (js_of env) (rc_path ctx) (sv_store sv1)) sv1)))" "lines_plain payload"
  shows "\<exists>ofs vs. parseSSEStream nc chunks [] =
      ((if rr_messages rr = [] then [] else [SSE_data (join_lines (split_lines payload))]) @ map control_of vs, None)
    \<and> vs \<noteq> [] \<and> (\<forall>v\<in>set vs. is_control ofs v) \<and> (rr_messages rr \<noteq> [] \<longrightarrow> ofs = m_offset (last (rr_messages rr)))
    \<and> (\<forall>i o'. nxt = Sse_wait i o' \<longrightarrow> o' = ofs) \<and> (nxt = Sse_end \<longrightarrow> last vs = control_closed ofs)"
proof -
  let ?sv2 = "with_store (touchAccess (js_of env) (rc_path ctx) (sv_store sv1)) sv1"
  show ?thesis
  proof (cases "rr_messages rr = []")
    case True
    have "sse_control env ctx [] (rr_upToDate rr) ?sv2 = (text, nxt, sv')"
      using assms(1,2) True by (simp add: sse_pass_def Let_def)
    from sse_control_text[OF this assms(3)] obtain ofs vs where v: "text = concat (map control_text vs)" "vs \<noteq> []"
      "\<forall>v\<in>set vs. is_control ofs v" "\<forall>i o'. nxt = Sse_wait i o' \<longrightarrow> o' = ofs" "nxt = Sse_end \<longrightarrow> last vs = control_closed ofs"
      by blast
    have "parseSSEStream nc chunks [] = (map control_of vs, None)"
      using assms(4) v(1) control_texts[OF v(3), of nc] by (intro parse_lines_text[where ls = "control_blocks vs"]) auto
    then show ?thesis using True v by auto
  next
    case False
    obtain p sv3 where p: "sse_payload env ctx b64 (rr_messages rr) ?sv2 = (p, sv3)" by fastforce
    obtain t n s4 where c: "sse_control env ctx (rr_messages rr) (rr_upToDate rr) sv3 = (t, n, s4)"
      by (cases "sse_control env ctx (rr_messages rr) (rr_upToDate rr) sv3") auto
    have "p = Inr payload" "text = data_text payload @ t" "n = nxt"
      using assms(1,2,3,5) False p c by (auto simp: sse_pass_def Let_def split: sum.splits)
    with sse_control_text[OF c] assms(3) obtain ofs vs where v: "t = concat (map control_text vs)" "vs \<noteq> []"
      "\<forall>v\<in>set vs. is_control ofs v" "ofs = m_offset (last (rr_messages rr))"
      "\<forall>i o'. nxt = Sse_wait i o' \<longrightarrow> o' = ofs" "nxt = Sse_end \<longrightarrow> last vs = control_closed ofs"
      using False by blast
    note written = \<open>text = data_text payload @ t\<close>[unfolded v(1)]
    have "sse_lines nc (block ''data'' (split_lines payload) @ control_blocks vs) sse_start
        = (SSE_data (join_lines (split_lines payload)) # map control_of vs, Inr sse_start)"
      using control_texts[OF v(3), of nc] by (simp add: sse_lines_append data_block[OF _ _ assms(6)])
    then have "parseSSEStream nc chunks [] = (SSE_data (join_lines (split_lines payload)) # map control_of vs, None)"
      using assms(4) written control_texts[OF v(3), of nc] texts_no_cr
      by (intro parse_lines_text[where whole = "text" and ls = "block ''data'' (split_lines payload) @ control_blocks vs"])
        (auto simp: split_nl_texts)
    then show ?thesis using False v by auto
  qed
qed

section \<open>Properties\<close>


section \<open>Instances\<close>

definition http_env_at :: "int \<Rightarrow> http_env" where
  "http_env_at t = \<lparr>he_sub = sub_env_at t, he_jitter = 0, he_gzip = (\<lambda>d. d), he_deflate = (\<lambda>d. d),
     he_base_url = ''http://127.0.0.1:4437'', he_cursor = default_options, he_compression = True,
     he_engine_message = (\<lambda>e. ''engine error''), he_hit = True, he_positions = []\<rparr>"

definition sample_server :: server where
  "sample_server = \<lparr>sv_hub = sample_hub, sv_faults = [], sv_subscribers = True, sv_hooks = True, sv_events = []\<rparr>"

definition get_request :: "string \<Rightarrow> (string \<times> string) list \<Rightarrow> http_request" where
  "get_request p q = \<lparr>rq_method = ''GET'', rq_path = p, rq_query = q, rq_headers = [], rq_body = []\<rparr>"

definition sample_context :: read_context where
  "sample_context = \<lparr>rc_path = ''/v1/stream/a'', rc_stream = the (map_of (streams (hub_store sample_hub)) ''/v1/stream/a''),
     rc_request = get_request ''/v1/stream/a'' [(''offset'', ''-1''), (''live'', ''sse'')], rc_effective = Some ''-1''\<rparr>"


text \<open>The comment of \<^verbatim>\<open>encodeSSEData\<close> says that no space is added after the colon so that data beginning with
  spaces keeps them. The client strips one space after the colon, so such a line loses its first space.\<close>

theorem sse_leading_space_lost:
  "parseSSEStream (\<lambda>x. x) [data_text (asc '' indented'')] [] = ([SSE_data (asc ''indented'')], None)"
  by code_simp

text \<open>A carriage return and line feed that arrive in two chunks are read as two line ends: the event under
  way is cut in two and lost, while the same text in one chunk is delivered.\<close>

theorem sse_split_crlf_loses_event:
  "parseSSEStream (\<lambda>x. x) [asc ''event: data'' @ [13], [10] @ asc ''data:x'' @ [13, 10, 13, 10]] [] = ([], None)
   \<and> parseSSEStream (\<lambda>x. x) [asc ''event: data'' @ [13, 10] @ asc ''data:x'' @ [13, 10, 13, 10]] []
     = ([SSE_data (asc ''x'')], None)"
  by code_simp

text \<open>When the connection drops in the middle of an event, the lines received so far are delivered as if the
  event were complete.\<close>

theorem sse_truncated_event_delivered:
  "parseSSEStream (\<lambda>x. x) [asc ''event: data'' @ [10] @ asc ''data:first'' @ [10] @ asc ''data:sec''] []
     = ([SSE_data (asc ''first'')], None)"
  by code_simp

end
