(* ===== verification/Http_Posts.thy ===== *)
theory Http_Posts
  imports Http_Props
begin

text \<open>
  POST requests end to end: one that is answered with an error leaves every stream as it was, and one that
  is answered as stored has put exactly its body at the end of its stream.
\<close>

section \<open>Stores whose streams have not changed\<close>

text \<open>The streams of the second store are streams of the first with the same messages, tail and closed
  mark, and the same content.\<close>

definition undisturbed :: "store \<Rightarrow> store \<Rightarrow> bool" where
  "undisturbed st st' \<longleftrightarrow>
     (\<forall>q s'. map_of (streams st') q = Some s' \<longrightarrow> (\<exists>s. map_of (streams st) q = Some s \<and> same_log s s'))
     \<and> (\<forall>q ms. content (streams st) q ms \<longrightarrow> map_of (streams st') q \<noteq> None \<longrightarrow> content (streams st') q ms)"

lemma same_log_trans: "same_log s1 s2 \<Longrightarrow> same_log s2 s3 \<Longrightarrow> same_log s1 s3"
  by (auto simp: same_log_def)

lemma undisturbed_refl [simp, intro]: "streams st' = streams st \<Longrightarrow> undisturbed st st'"
  by (auto simp: undisturbed_def)

lemma undisturbed_trans:
  assumes "undisturbed st1 st2" "undisturbed st2 st3"
  shows "undisturbed st1 st3"
  unfolding undisturbed_def
proof (intro conjI allI impI)
  fix q s3 assume "map_of (streams st3) q = Some s3"
  then show "\<exists>s. map_of (streams st1) q = Some s \<and> same_log s s3"
    using assms same_log_trans unfolding undisturbed_def by metis
next
  fix q ms assume c: "content (streams st1) q ms" and q: "map_of (streams st3) q \<noteq> None"
  then have "map_of (streams st2) q \<noteq> None" using assms(2) unfolding undisturbed_def by fastforce
  then show "content (streams st3) q ms" using assms c q unfolding undisturbed_def by blast
qed

lemma undisturbed_quiet: "quiet exact nc st st' \<Longrightarrow> store_inv exact nc st \<Longrightarrow> undisturbed st st'"
  using survive_same_log quiet_content unfolding undisturbed_def quiet_def by blast

lemma undisturbed_touch: "store_inv exact nc st \<Longrightarrow> undisturbed st (touchAccess env p st)"
  unfolding undisturbed_def using touch_same_log touch_content by blast

lemma undisturbed_refused:
  assumes "store_inv exact nc st" "num_canon env = nc" "nc_ok nc" "append_room env p data st"
    and "append env p data opts st = (r, st')" "stored_message r = None"
  shows "undisturbed st st'"
  using refused_effect[OF assms] by (simp add: undisturbed_def)

lemma undisturbed_get: "store_inv exact nc st \<Longrightarrow> undisturbed st (snd (get_stream env p st))"
  using undisturbed_quiet getIfNotExpired_quiet[of env p st "fst (get_stream env p st)" "snd (get_stream env p st)"]
  by (simp add: get_stream_eq)

lemma inv_get: "store_inv exact nc st \<Longrightarrow> store_inv exact nc (snd (get_stream env p st))"
  using getIfNotExpired_quiet[of env p st "fst (get_stream env p st)" "snd (get_stream env p st)"]
  by (auto simp: get_stream_eq quiet_def)

lemma undisturbed_clean:
  assumes "store_inv exact nc st" "map_of (streams st) p = Some s" "s1 = s \<or> s1 = cleanupExpiredProducers env s"
  shows "undisturbed st (put_stream p s1 st)"
  unfolding undisturbed_def
proof (intro conjI allI impI)
  fix q s' assume "map_of (streams (put_stream p s1 st)) q = Some s'"
  then show "\<exists>s. map_of (streams st) q = Some s \<and> same_log s s'"
    using assms(2,3) same_log_cleanup by (auto simp: put_stream_def split: if_splits)
next
  fix q ms assume c: "content (streams st) q ms"
  show "content (streams (put_stream p s1 st)) q ms" unfolding put_stream_def
    using content_same[OF assms(2) inv_uptoD(4)[OF assms(1)[unfolded store_inv_def]] c, of s1] assms(3) by auto
qed

text \<open>A close that is refused.\<close>

lemma close_refused:
  assumes "store_inv exact nc st" "closeStream env p st = (r, st')" "\<forall>c. r \<noteq> Inr (Some c)"
  shows "undisturbed st st'"
proof -
  obtain cur st1 where g: "getIfNotExpired env p st = (cur, st1)" by fastforce
  have "st' = st1" using assms(2,3) g by (auto simp: closeStream_def Let_def split: option.splits if_splits)
  then show ?thesis using undisturbed_quiet[OF getIfNotExpired_quiet[OF g] assms(1)] by simp
qed

lemma close_producer_refused:
  assumes inv: "store_inv exact nc st" and c: "closeStreamWithProducer env p i e n st = (c, st')"
    and r: "\<forall>x. c = Some x \<longrightarrow> (\<exists>r. cr_producerResult x = Some r \<and> \<not> is_accepted r)"
  shows "undisturbed st st'"
proof -
  obtain cur st1 where g: "getIfNotExpired env p st = (cur, st1)" by fastforce
  have q: "quiet exact nc st st1" by (rule getIfNotExpired_quiet[OF g])
  have u: "undisturbed st st1" by (rule undisturbed_quiet[OF q inv])
  show ?thesis
  proof (cases cur)
    case (Some s)
    obtain v s1 where v: "validateProducer env s i e n = (v, s1)" by fastforce
    have s1: "s1 = cleanupExpiredProducers env s" using v by (simp add: validateProducer_def Let_def)
    have "undisturbed st1 (put_stream p s1 st1)"
      using undisturbed_clean[OF _ getIfNotExpired_present[OF g[unfolded Some]]] q inv s1 unfolding quiet_def by blast
    with u undisturbed_trans have "undisturbed st (put_stream p s1 st1)" by blast
    with u show ?thesis
      using c r g Some v by (auto simp: closeStreamWithProducer_def Let_def split: if_splits)
  qed (use c g u in \<open>simp add: closeStreamWithProducer_def\<close>)
qed

section \<open>The answers to a POST\<close>

lemma status_simps [simp]:
  "rs_status (respond n hs) = n" "rs_status (plain n body) = n" "rs_status type_error = 500"
  "rs_status (stale_response x) = 403" "rs_status (gap_response x y) = 409" "rs_status (closed_response t) = 409"
  by (simp_all add: respond_def plain_def type_error_def stale_response_def gap_response_def closed_response_def)

lemma tail_store: "tail_or_empty env p sv = (x, sv') \<Longrightarrow> sv_store sv' = snd (get_stream (js_of env) p (sv_store sv))"
  by (auto simp: tail_or_empty_def on_store_def Let_def split: prod.splits)

lemma close_response_refused:
  assumes "close_response env p e s c sv = (rs, sv')" "400 \<le> rs_status rs"
  shows "(\<forall>x. c = Some x \<longrightarrow> (\<exists>r. cr_producerResult x = Some r \<and> \<not> is_accepted r))
    \<and> (sv_store sv' = sv_store sv \<or> sv_store sv' = snd (get_stream (js_of env) p (sv_store sv)))"
proof (cases c)
  case (Some x)
  show ?thesis
  proof (cases "cr_producerResult x")
    case (Some r)
    then show ?thesis using assms \<open>c = Some x\<close> tail_store
      by (cases r) (auto simp: close_response_def Let_def is_accepted_def split: prod.splits option.splits)
  qed (use assms Some in \<open>auto simp: close_response_def\<close>)
qed (use assms in \<open>simp add: close_response_def\<close>)

lemma result_response_refused:
  assumes "result_response env p producer r sv = (rs, sv')" "ar_message r = None"
  shows "sv_store sv' = sv_store sv \<or> sv_store sv' = snd (get_stream (js_of env) p (sv_store sv))"
  using assms tail_store
  by (auto simp: result_response_def Let_def split: prod.splits option.splits if_splits producer_validation_result.splits)

text \<open>The headers of the answer to a stored append.\<close>

definition stored_headers :: "(string \<times> nat \<times> nat) option \<Rightarrow> bool \<Rightarrow> stream_message \<Rightarrow> (string, string) jsmap" where
  "stored_headers producer isClosed m =
     set_if isClosed STREAM_CLOSED_HEADER ''true''
       (case producer of
          None \<Rightarrow> [(STREAM_OFFSET_HEADER, m_offset m)]
        | Some (i, e, s) \<Rightarrow> [(STREAM_OFFSET_HEADER, m_offset m), (PRODUCER_EPOCH_HEADER, nat_string e), (PRODUCER_SEQ_HEADER, nat_string s)])"

lemma stored_headers_offset: "map_of (stored_headers producer b m) STREAM_OFFSET_HEADER = Some (m_offset m)"
  by (auto simp: stored_headers_def map_of_set_if header_names split: option.splits prod.splits)

lemma result_response_stored:
  assumes "ar_message r = Some m" "\<forall>x. ar_producerResult r = Some x \<longrightarrow> is_accepted x"
  shows "result_response env p producer r sv =
    (respond (if producer \<noteq> None then 200 else 204) (stored_headers producer (ar_streamClosed r) m), notifyStreamAppend env p sv)"
proof (cases "ar_producerResult r")
  case (Some x)
  then show ?thesis using assms by (cases x) (simp_all add: result_response_def stored_headers_def Let_def is_accepted_def)
qed (use assms in \<open>simp add: result_response_def stored_headers_def Let_def\<close>)

text \<open>The append that a POST with a body makes, and what the handler does with its result.\<close>

definition post_options :: "http_request \<Rightarrow> (string \<times> nat \<times> nat) option \<Rightarrow> append_options" where
  "post_options req producer =
     \<lparr>ao_seq = header req STREAM_SEQ_HEADER, ao_contentType = header req ''content-type'',
      ao_producerId = map_option fst producer, ao_producerEpoch = map_option (fst \<circ> snd) producer,
      ao_producerSeq = map_option (snd \<circ> snd) producer, ao_close = (header req STREAM_CLOSED_HEADER = Some ''true'')\<rparr>"

definition as_result :: "append_return \<Rightarrow> append_result" where
  "as_result a = (case a of Result r \<Rightarrow> r | Message m \<Rightarrow> \<lparr>ar_message = m, ar_producerResult = None, ar_streamClosed = False\<rparr>)"

lemma handleAppend_body:
  assumes "parse_producer req = Inr producer" "rq_body req \<noteq> []" "truthy (header req ''content-type'')"
    and a: "append (js_of env) p (rq_body req) (post_options req producer) (sv_store sv) = (r, st1)"
  defines "sv2 \<equiv> with_store (touchAccess (js_of env) p st1) sv"
  shows "handleAppend env p req sv =
    (case r of
       Inl e \<Rightarrow> (Inl e, with_store st1 sv)
     | Inr x \<Rightarrow>
         if producer = None \<and> (\<exists>m. x = Message m) then
           (case x of Message (Some m) \<Rightarrow>
                (Inr (respond 204 (set_if (header req STREAM_CLOSED_HEADER = Some ''true'') STREAM_CLOSED_HEADER ''true''
                   [(STREAM_OFFSET_HEADER, m_offset m)])), notifyStreamAppend env p sv2)
            | _ \<Rightarrow> (Inr type_error, sv2))
         else (case result_response env p producer (as_result x) sv2 of (rs, sv3) \<Rightarrow> (Inr rs, sv3)))"
  using assms(1-3) a
  by (cases producer) (auto simp: handleAppend_def Let_def on_store_def appendWithProducer_def post_options_def as_result_def
      sv2_def split: sum.splits append_return.splits option.splits prod.splits)

section \<open>Refused requests\<close>

text \<open>The error statuses: an error thrown by the store is answered with one, too.\<close>

definition refused :: "store_error + http_response \<Rightarrow> bool" where
  "refused r \<longleftrightarrow> (case r of Inl e \<Rightarrow> True | Inr rs \<Rightarrow> 400 \<le> rs_status rs)"

lemma catch_error_status: "400 \<le> rs_status (catch_error env e)"
  by (simp add: catch_error_def Let_def)

lemma refused_iff: "caught env r = Sent rs \<Longrightarrow> 400 \<le> rs_status rs \<longleftrightarrow> refused r"
  using catch_error_status by (auto simp: caught_def refused_def split: sum.splits)

lemma body_refused:
  assumes inv: "store_inv exact nc (sv_store sv)" and nc: "num_canon (js_of env) = nc" "nc_ok nc"
    and rm: "append_room (js_of env) p (rq_body req) (sv_store sv)"
    and b: "parse_producer req = Inr producer" "rq_body req \<noteq> []" "truthy (header req ''content-type'')"
    and h: "handleAppend env p req sv = (r, sv')" "refused r"
  shows "undisturbed (sv_store sv) (sv_store sv')"
proof -
  obtain x st1 where a: "append (js_of env) p (rq_body req) (post_options req producer) (sv_store sv) = (x, st1)" by fastforce
  note he = handleAppend_body[OF b a]
  have inv1: "store_inv exact nc st1" using inv_append[OF inv nc rm a] .
  show ?thesis
  proof (cases "stored_message x")
    case None
    note u = undisturbed_refused[OF inv nc rm a None]
    let ?t = "touchAccess (js_of env) p st1"
    have t: "undisturbed (sv_store sv) ?t" using undisturbed_trans[OF u undisturbed_touch[OF inv1]] .
    have g: "undisturbed (sv_store sv) (snd (get_stream (js_of env) p ?t))"
      using undisturbed_trans[OF t undisturbed_get[OF inv_touchAccess[OF inv1]]] .
    have "sv_store sv' = st1 \<or> sv_store sv' = ?t \<or> sv_store sv' = snd (get_stream (js_of env) p ?t)"
    proof (cases x)
      case (Inr y)
      then have m: "ar_message (as_result y) = None"
        using None by (cases y) (simp_all add: stored_message_def as_result_def)
      have "sv' = with_store ?t sv \<or> (\<exists>rs. result_response env p producer (as_result y) (with_store ?t sv) = (rs, sv'))"
        using he h(1) Inr None
        by (auto simp: stored_message_def split: if_splits append_return.splits option.splits prod.splits)
      then show ?thesis using result_response_refused[OF _ m, of env p producer "with_store ?t sv"] by auto
    qed (use he h(1) in auto)
    then show ?thesis using u t g by auto
  next
    case (Some m)
    obtain s pr s1 where st: "stores (js_of env) p (rq_body req) (post_options req producer) (sv_store sv) s pr s1 m"
      using stored_message_stores[OF a Some] by blast
    have acc: "\<forall>v. pr = Some v \<longrightarrow> is_accepted v"
      using append_check_proceed[of "js_of env" p "post_options req producer" s pr s1] st by (auto simp: stores_def)
    from stored_result[OF inv st nc rm] a have "\<not> refused r"
      using he h(1) acc by (auto simp: as_result_def result_response_stored refused_def split: if_splits)
    with h(2) show ?thesis by simp
  qed
qed

lemma post_refused:
  assumes inv: "store_inv exact nc (sv_store sv)" and nc: "num_canon (js_of env) = nc" "nc_ok nc"
    and rm: "append_room (js_of env) p (rq_body req) (sv_store sv)"
    and h: "handleAppend env p req sv = (r, sv')" "refused r"
  shows "undisturbed (sv_store sv) (sv_store sv')"
proof (cases "parse_producer req")
  case (Inl e)
  then show ?thesis using h by (simp add: handleAppend_def Let_def)
next
  case (Inr producer)
  consider (close) "rq_body req = []" "header req STREAM_CLOSED_HEADER = Some ''true''"
    | (bad) "(rq_body req = [] \<and> header req STREAM_CLOSED_HEADER \<noteq> Some ''true'')
        \<or> (rq_body req \<noteq> [] \<and> \<not> truthy (header req ''content-type''))"
    | (body) "rq_body req \<noteq> []" "truthy (header req ''content-type'')" by blast
  then show ?thesis
  proof cases
    case close
    show ?thesis
    proof (cases producer)
      case None
      obtain c st1 where c: "closeStream (js_of env) p (sv_store sv) = (c, st1)" by fastforce
      have "\<forall>x. c \<noteq> Inr (Some x)" "sv_store sv' = st1"
        using h close Inr None c
        by (auto simp: handleAppend_def on_store_def refused_def split: sum.splits option.splits)
      then show ?thesis using close_refused[OF inv c] by simp
    next
      case (Some t)
      obtain i e s where t: "t = (i, e, s)" by (cases t) auto
      obtain c st1 where c: "closeStreamWithProducer (js_of env) p i e s (sv_store sv) = (c, st1)" by fastforce
      obtain rs where rs: "close_response env p e s c (with_store st1 sv) = (rs, sv')" "400 \<le> rs_status rs"
        using h close Inr Some t c
        by (auto simp: handleAppend_def on_store_def refused_def Let_def split: prod.splits)
      note cr = close_response_refused[OF rs]
      have u: "undisturbed (sv_store sv) st1" using close_producer_refused[OF inv c] cr by blast
      have inv1: "store_inv exact nc st1" using inv_closeStreamWithProducer[OF inv, of "js_of env" p i e s] c by simp
      have "undisturbed (sv_store sv) (snd (get_stream (js_of env) p st1))"
        using undisturbed_trans[OF u undisturbed_get[OF inv1]] .
      then show ?thesis using cr u by auto
    qed
  next
    case bad
    then have "sv' = sv" using h Inr by (auto simp: handleAppend_def Let_def split: if_splits)
    then show ?thesis by simp
  next
    case body
    then show ?thesis using body_refused[OF inv nc rm Inr _ _ h] by blast
  qed
qed

text \<open>C28. A POST that is answered with an error, whatever the reason, has changed nothing: every stream
  that is still there has its messages, tail, closed mark and content.\<close>

theorem refused_post_changes_nothing:
  assumes "reachable exact nc (sv_store sv)" "nc_ok nc" "num_canon (js_of env) = nc"
    and "append_room (js_of env) (rq_path req) (rq_body req) (sv_store sv)"
    and "rq_method req = ''POST''" "dispatch env fault req sv = (Sent rs, sv')" "400 \<le> rs_status rs"
  shows "undisturbed (sv_store sv) (sv_store sv')"
proof -
  obtain r where h: "handleAppend env (rq_path req) req sv = (r, sv')" "caught env r = Sent rs"
    using assms(5,6) by (auto simp: dispatch_def split: prod.splits)
  show ?thesis
    by (rule post_refused[OF reachable_store_inv[OF assms(1,2)] assms(3,2,4) h(1)]) (use refused_iff[OF h(2)] assms(7) in blast)
qed

definition post_request :: "string \<Rightarrow> (string \<times> string) list \<Rightarrow> string \<Rightarrow> http_request" where
  "post_request p hs body = \<lparr>rq_method = ''POST'', rq_path = p, rq_query = [], rq_headers = hs, rq_body = body\<rparr>"

definition answer :: "request_phase \<times> server \<Rightarrow> http_response option" where
  "answer r = (case fst r of Sent rs \<Rightarrow> Some rs | _ \<Rightarrow> None)"

lemma answerD: "answer r = Some rs \<Longrightarrow> r = (Sent rs, snd r)"
  by (cases r) (auto simp: answer_def split: request_phase.splits)

definition gap_post :: http_request where
  "gap_post = post_request ''/b'' [(''content-type'', ''text/plain''), (''producer-id'', ''w''), (''producer-epoch'', ''0''),
     (''producer-seq'', ''4'')] ''q''"

theorem refused_post_changes_nothing_witness:
  "let r = dispatch (http_env_at 6) None gap_post (server_on sample_ab)
   in map_option rs_status (answer r) = Some 409 \<and> undisturbed sample_ab (sv_store (snd r))"
proof -
  let ?q = gap_post
  let ?r = "dispatch (http_env_at 6) None ?q (server_on sample_ab)"
  have a: "append_room (env_at 6) (rq_path ?q) (rq_body ?q) sample_ab" "map_option rs_status (answer ?r) = Some 409" by code_simp+
  then obtain rs where rs: "?r = (Sent rs, snd ?r)" "400 \<le> rs_status rs" using answerD[of ?r] by auto
  have "undisturbed (sv_store (server_on sample_ab)) (sv_store (snd ?r))"
    by (rule refused_post_changes_nothing[OF _ nc_ok_same _ _ _ rs])
      (use a(1) reach_sample_ab in \<open>simp_all add: gap_post_def post_request_def\<close>)
  then show ?thesis using a(2) by (simp add: Let_def)
qed

section \<open>Stored requests\<close>

lemma no_producer_result:
  "append env p data opts st = (Inr (Result r), st') \<Longrightarrow> ao_producerId opts = None \<Longrightarrow> ar_producerResult r = None"
  by (auto simp: append_def append_check_def seq_check_def producer_headers_def is_closing_duplicate_def Let_def
      split: prod.splits option.splits append_verdict.splits sum.splits if_splits)

lemma not_stored_status:
  assumes "result_response env p producer r sv = (rs, sv')" "ar_message r = None"
    and "producer = None \<longrightarrow> ar_producerResult r = None"
  shows "rs_status rs \<noteq> (if producer = None then 204 else 200)"
  using assms
  by (auto simp: result_response_def Let_def split: prod.splits option.splits if_splits producer_validation_result.splits)

lemma notify_off: "\<not> sv_subscribers sv \<Longrightarrow> notifyStreamAppend env p sv = sv"
  by (simp add: notifyStreamAppend_def)

lemma stored_post:
  assumes b: "parse_producer req = Inr producer" "rq_body req \<noteq> []" "truthy (header req ''content-type'')"
    and h: "handleAppend env p req sv = (Inr rs, sv')" "rs_status rs = (if producer = None then 204 else 200)"
    and n: "\<not> sv_subscribers sv"
  obtains x st1 m where "append (js_of env) p (rq_body req) (post_options req producer) (sv_store sv) = (x, st1)"
    "stored_message x = Some m" "sv_store sv' = touchAccess (js_of env) p st1"
    "map_of (rs_headers rs) STREAM_OFFSET_HEADER = Some (m_offset m)"
proof -
  obtain x st1 where a: "append (js_of env) p (rq_body req) (post_options req producer) (sv_store sv) = (x, st1)" by fastforce
  note he = handleAppend_body[OF b a]
  let ?sv = "with_store (touchAccess (js_of env) p st1) sv"
  have off: "\<not> sv_subscribers ?sv" using n by (simp add: with_store_def)
  obtain y where y: "x = Inr y" using he h(1) by (cases x) auto
  show thesis
  proof (cases "stored_message x")
    case None
    have m: "ar_message (as_result y) = None" using None y by (cases y) (simp_all add: stored_message_def as_result_def)
    have pr: "producer = None \<longrightarrow> ar_producerResult (as_result y) = None"
      using no_producer_result[of "js_of env" p "rq_body req" "post_options req producer" "sv_store sv"] a y
      by (cases y) (auto simp: as_result_def post_options_def)
    have False
      using he h y None not_stored_status[OF _ m pr, of env p ?sv]
      by (auto simp: stored_message_def split: if_splits append_return.splits option.splits prod.splits)
    then show thesis ..
  next
    case (Some m)
    have acc: "\<forall>v. ar_producerResult (as_result y) = Some v \<longrightarrow> is_accepted v"
    proof -
      obtain s pr s1 where "stores (js_of env) p (rq_body req) (post_options req producer) (sv_store sv) s pr s1 m"
        using stored_message_stores[OF a Some] by blast
      then show ?thesis
        using append_stored[of "js_of env" p "rq_body req" "post_options req producer" "sv_store sv" s pr s1 m] a y
          append_check_proceed[of "js_of env" p "post_options req producer" s pr s1]
        by (auto simp: stores_def as_result_def)
    qed
    have m: "ar_message (as_result y) = Some m" using Some y by (cases y) (simp_all add: stored_message_def as_result_def)
    have "sv' = ?sv \<and> map_of (rs_headers rs) STREAM_OFFSET_HEADER = Some (m_offset m)"
      using he h(1) y Some notify_off[OF off] stored_headers_offset
      by (auto simp: result_response_stored[OF m acc] stored_message_def respond_def map_of_set_if header_names
          split: if_splits append_return.splits option.splits)
    then show thesis using that[OF a Some] by simp
  qed
qed

text \<open>C29. A POST with a body that is answered as stored (204, or 200 for a producer's request) has put
  exactly its body at the end of its stream and told the client the new tail, and has left the content of
  every other stream alone. It is stated for a server without subscriptions, whose wake events are
  appends of their own.\<close>

theorem stored_post_extends_content:
  assumes "reachable exact nc (sv_store sv)" "nc_ok nc" "num_canon (js_of env) = nc"
    and "append_room (js_of env) (rq_path req) (rq_body req) (sv_store sv)" "\<not> sv_subscribers sv"
    and "rq_method req = ''POST''" "rq_body req \<noteq> []" "dispatch env fault req sv = (Sent rs, sv')"
    and "rs_status rs = (if header req PRODUCER_ID_HEADER = None then 204 else 200)"
  shows "\<exists>m s s'. map_of (rs_headers rs) STREAM_OFFSET_HEADER = Some (m_offset m)
    \<and> map_of (streams (sv_store sv)) (rq_path req) = Some s \<and> map_of (streams (sv_store sv')) (rq_path req) = Some s'
    \<and> currentOffset s < m_offset m \<and> currentOffset s' = m_offset m
    \<and> m_data m = (if is_json s then fragment (body_values nc (rq_body req)) else rq_body req)
    \<and> (\<forall>q ms. content (streams (sv_store sv)) q ms \<longrightarrow>
         content (streams (sv_store sv')) q (if q = rq_path req then ms @ [m] else ms))"
proof -
  let ?p = "rq_path req"
  note inv = reachable_store_inv[OF assms(1,2)]
  obtain r where h: "handleAppend env ?p req sv = (r, sv')" "caught env r = Sent rs"
    using assms(6,8) by (auto simp: dispatch_def split: prod.splits)
  have "\<not> 400 \<le> rs_status rs" using assms(9) by (auto split: if_splits)
  then have r: "r = Inr rs" using h(2) catch_error_status[of env] by (auto simp: caught_def split: sum.splits)
  obtain producer where pp: "parse_producer req = Inr producer" "(producer = None) = (header req PRODUCER_ID_HEADER = None)"
    using h(1) r \<open>\<not> 400 \<le> rs_status rs\<close>
    by (auto simp: handleAppend_def Let_def parse_producer_def split: option.splits if_splits sum.splits)
  have ct: "truthy (header req ''content-type'')"
    using h(1) r \<open>\<not> 400 \<le> rs_status rs\<close> pp(1) assms(7) by (auto simp: handleAppend_def Let_def split: if_splits)
  obtain x st1 m where a: "append (js_of env) ?p (rq_body req) (post_options req producer) (sv_store sv) = (x, st1)"
    "stored_message x = Some m" "sv_store sv' = touchAccess (js_of env) ?p st1"
    "map_of (rs_headers rs) STREAM_OFFSET_HEADER = Some (m_offset m)"
    using stored_post[OF pp(1) assms(7) ct h(1)[unfolded r] _ assms(5)] assms(9) pp(2) by auto
  obtain s s' where s: "map_of (streams (sv_store sv)) ?p = Some s" "map_of (streams st1) ?p = Some s'"
    "currentOffset s < m_offset m" "currentOffset s' = m_offset m"
    "m_data m = (if is_json s then fragment (body_values nc (rq_body req)) else rq_body req)"
    "\<forall>q ms. content (streams (sv_store sv)) q ms \<longrightarrow> content (streams st1) q (if q = ?p then ms @ [m] else ms)"
    using append_effect[OF inv assms(3,2,4) a(1,2)] by blast
  have inv1: "store_inv exact nc st1" using inv_append[OF inv assms(3,2,4) a(1)] .
  have c: "\<forall>q ms. content (streams (sv_store sv)) q ms \<longrightarrow> content (streams (sv_store sv')) q (if q = ?p then ms @ [m] else ms)"
    using s(6) touch_content[OF inv1] a(3) by simp
  have "map_of (streams (sv_store sv')) ?p = Some (s'\<lparr>lastAccessedAt := now (js_of env)\<rparr>)"
    using a(3) by (simp add: streams_touch[OF s(2)])
  then show ?thesis using s(1,3,4,5) a(4) c
    by (intro exI[of _ m] exI[of _ s] exI[of _ "s'\<lparr>lastAccessedAt := now (js_of env)\<rparr>"]) simp
qed

theorem stored_post_extends_content_witness:
  "let r = dispatch (http_env_at 6) None (post_request ''/b'' [(''content-type'', ''application/octet-stream'')] ''q'') (server_on sample_ab)
   in map_option rs_status (answer r) = Some 204
     \<and> (\<exists>m. m_data m = ''q'' \<and> content (streams (sv_store (snd r))) ''/b'' ([msg_at ''xyz'' 8 1, msg_at ''w'' 14 3] @ [m]))"
proof -
  let ?q = "post_request ''/b'' [(''content-type'', ''application/octet-stream'')] ''q''"
  let ?sv = "server_on sample_ab" let ?r = "dispatch (http_env_at 6) None ?q ?sv"
  have a: "append_room (env_at 6) (rq_path ?q) (rq_body ?q) sample_ab" "map_option rs_status (answer ?r) = Some 204"
    "header ?q PRODUCER_ID_HEADER = None" by code_simp+
  then obtain rs where rs: "?r = (Sent rs, snd ?r)" "rs_status rs = (if header ?q PRODUCER_ID_HEADER = None then 204 else 200)"
    using answerD[of ?r] by auto
  have j: "map_of (streams sample_ab) ''/b'' = Some sample_b" "\<not> is_json sample_b"
    using sample_b_serving by (simp add: serving_def) code_simp
  have "\<exists>m s s'. map_of (rs_headers rs) STREAM_OFFSET_HEADER = Some (m_offset m)
    \<and> map_of (streams (sv_store ?sv)) (rq_path ?q) = Some s \<and> map_of (streams (sv_store (snd ?r))) (rq_path ?q) = Some s'
    \<and> currentOffset s < m_offset m \<and> currentOffset s' = m_offset m
    \<and> m_data m = (if is_json s then fragment (body_values (\<lambda>x. x) (rq_body ?q)) else rq_body ?q)
    \<and> (\<forall>q ms. content (streams (sv_store ?sv)) q ms \<longrightarrow>
         content (streams (sv_store (snd ?r))) q (if q = rq_path ?q then ms @ [m] else ms))"
    by (rule stored_post_extends_content[OF _ nc_ok_same _ _ _ _ _ rs])
      (use a(1) reach_sample_ab in \<open>simp_all add: post_request_def server_on_def sv_store_def\<close>)
  then show ?thesis using a(2) j sample_content by (fastforce simp: post_request_def Let_def)
qed

text \<open>The \<^verbatim>\<open>catch\<close> of \<^verbatim>\<open>handleRequest\<close> looks for texts anywhere in the message, and the message ends with
  the path: a POST to a stream that never existed is answered 410 or 409 instead of 404 when its path
  contains one of them.\<close>

theorem missing_stream_misreported:
  "map_option rs_status (answer (dispatch (http_env_at 6) None
      (post_request ''/soft-deleted'' [(''content-type'', ''text/plain'')] ''q'') (server_on empty_store))) = Some 410
   \<and> map_option rs_status (answer (dispatch (http_env_at 6) None
      (post_request ''/missing'' [(''content-type'', ''text/plain'')] ''q'') (server_on empty_store))) = Some 404"
  by (rule conjI) code_simp+

end
