(* ===== verification/Response_State.thy ===== *)
theory Response_State
  imports Sse
begin

text \<open>
  The state machine of a response in the client (client/src/stream-response-state.ts): where the reader
  is, whether it is at the tail, whether the stream is closed, and in which mode it goes on. A class is a
  constructor, a method a function on the states; a control event has the fields that the class
  \<^verbatim>\<open>SSEControlEvent\<close> declares. Shown are that every transition keeps a closed stream closed, that pausing
  and resuming give back the state, and how many short connections lead to long-polling.
\<close>

section \<open>States\<close>

record sync_fields =
  sf_offset :: string
  sf_cursor :: "string option"
  sf_upToDate :: bool
  sf_streamClosed :: bool

record metadata_update =
  mu_offset :: "string option"
  mu_cursor :: "string option"
  mu_upToDate :: bool
  mu_streamClosed :: bool

record control_event =
  ce_offset :: string
  ce_cursor :: "string option"
  ce_upToDate :: "bool option"
  ce_streamClosed :: "bool option"

datatype live_mode = Live_off | Live_auto | Live_long_poll | Live_sse

text \<open>\<open>SSEState\<close> also has the number of short connections in a row and the start of the connection. A paused
  state wraps one of the other two.\<close>

datatype active_state =
    LongPollState sync_fields
  | SSEState sync_fields nat "int option"

datatype response_state = Active_state active_state | PausedState active_state

fun fields_of :: "active_state \<Rightarrow> sync_fields" where
  "fields_of (LongPollState f) = f"
| "fields_of (SSEState f _ _) = f"

fun with_fields :: "sync_fields \<Rightarrow> active_state \<Rightarrow> active_state" where
  "with_fields f (LongPollState _) = LongPollState f"
| "with_fields f (SSEState _ n t) = SSEState f n t"

fun inner_state :: "response_state \<Rightarrow> active_state" where
  "inner_state (Active_state a) = a"
| "inner_state (PausedState a) = a"

fun map_state :: "(active_state \<Rightarrow> active_state) \<Rightarrow> response_state \<Rightarrow> response_state" where
  "map_state f (Active_state a) = Active_state (f a)"
| "map_state f (PausedState a) = PausedState (f a)"

abbreviation sync_of :: "response_state \<Rightarrow> sync_fields" where
  "sync_of s \<equiv> fields_of (inner_state s)"

section \<open>Transitions\<close>

definition shouldContinueLive :: "response_state \<Rightarrow> bool \<Rightarrow> live_mode \<Rightarrow> bool" where
  "shouldContinueLive s stopAfterUpToDate liveMode \<longleftrightarrow>
     \<not> (stopAfterUpToDate \<and> sf_upToDate (sync_of s)) \<and> liveMode \<noteq> Live_off \<and> \<not> sf_streamClosed (sync_of s)"

fun shouldUseSse :: "active_state \<Rightarrow> bool" where
  "shouldUseSse (LongPollState _) = False"
| "shouldUseSse (SSEState _ _ _) = True"

definition update_metadata :: "metadata_update \<Rightarrow> sync_fields \<Rightarrow> sync_fields" where
  "update_metadata u f =
     \<lparr>sf_offset = (case mu_offset u of Some x \<Rightarrow> x | None \<Rightarrow> sf_offset f),
      sf_cursor = (case mu_cursor u of Some x \<Rightarrow> Some x | None \<Rightarrow> sf_cursor f),
      sf_upToDate = mu_upToDate u, sf_streamClosed = (sf_streamClosed f \<or> mu_streamClosed u)\<rparr>"

definition withResponseMetadata :: "metadata_update \<Rightarrow> response_state \<Rightarrow> response_state" where
  "withResponseMetadata u = map_state (\<lambda>a. with_fields (update_metadata u (fields_of a)) a)"

definition update_control :: "control_event \<Rightarrow> sync_fields \<Rightarrow> sync_fields" where
  "update_control e f =
     \<lparr>sf_offset = ce_offset e,
      sf_cursor = (if truthy (ce_cursor e) then ce_cursor e else sf_cursor f),
      sf_upToDate = (if ce_streamClosed e = Some True then True
                     else case ce_upToDate e of Some b \<Rightarrow> b | None \<Rightarrow> sf_upToDate f),
      sf_streamClosed = (sf_streamClosed f \<or> ce_streamClosed e = Some True)\<rparr>"

definition withSSEControl :: "control_event \<Rightarrow> response_state \<Rightarrow> response_state" where
  "withSSEControl e = map_state (\<lambda>a. with_fields (update_control e (fields_of a)) a)"

definition pause_state :: "response_state \<Rightarrow> response_state" where
  "pause_state s = PausedState (inner_state s)"

definition resume_state :: "response_state \<Rightarrow> response_state" where
  "resume_state s = Active_state (inner_state s)"

text \<open>\<^verbatim>\<open>startConnection\<close> is a method of \<open>SSEState\<close>.\<close>

fun startConnection :: "int \<Rightarrow> active_state \<Rightarrow> active_state" where
  "startConnection t (SSEState f n _) = SSEState f n (Some t)"
| "startConnection t (LongPollState f) = LongPollState f"

record resilience =
  minConnectionDuration :: int
  maxShortConnections :: nat
  backoffBaseDelay :: nat
  backoffMaxDelay :: nat

datatype connection_end =
    Reconnect active_state nat
  | Fallback active_state
  | Healthy active_state

definition handleConnectionEnd :: "int \<Rightarrow> bool \<Rightarrow> resilience \<Rightarrow> active_state \<Rightarrow> connection_end" where
  "handleConnectionEnd t wasAborted config s =
     (case s of
        SSEState f n (Some start) \<Rightarrow>
          (let duration = t - start
           in if duration < minConnectionDuration config \<and> \<not> wasAborted then
                (let newCount = n + 1
                 in if newCount \<ge> maxShortConnections config then Fallback (LongPollState f)
                    else Reconnect (SSEState f newCount (Some start)) newCount)
              else if duration \<ge> minConnectionDuration config then Healthy (SSEState f 0 (Some start))
              else Healthy s)
      | _ \<Rightarrow> Healthy s)"

fun end_state :: "connection_end \<Rightarrow> active_state" where
  "end_state (Reconnect s _) = s"
| "end_state (Fallback s) = s"
| "end_state (Healthy s) = s"

section \<open>What the transitions keep\<close>

lemma fields_with_fields [simp]: "fields_of (with_fields f a) = f"
  by (cases a) simp_all

lemma inner_map_state [simp]: "inner_state (map_state f s) = f (inner_state s)"
  by (cases s) simp_all

lemma use_sse_with_fields [simp]: "shouldUseSse (with_fields f a) = shouldUseSse a"
  by (cases a) simp_all

lemma end_fields [simp]: "fields_of (end_state (handleConnectionEnd t ab cfg s)) = fields_of s"
  by (cases s) (auto simp: handleConnectionEnd_def Let_def split: option.splits)

datatype transition =
    Metadata metadata_update
  | Control control_event
  | Pause
  | Resume
  | Connect int
  | Connection_end int bool resilience

fun transit :: "transition \<Rightarrow> response_state \<Rightarrow> response_state" where
  "transit (Metadata u) s = withResponseMetadata u s"
| "transit (Control e) s = withSSEControl e s"
| "transit Pause s = pause_state s"
| "transit Resume s = resume_state s"
| "transit (Connect t) s = map_state (startConnection t) s"
| "transit (Connection_end t ab cfg) s = map_state (\<lambda>a. end_state (handleConnectionEnd t ab cfg a)) s"

lemma fields_startConnection [simp]: "fields_of (startConnection t a) = fields_of a"
  by (cases a) simp_all

text \<open>Only a response or a control event changes what the reader knows.\<close>

lemma transit_fields:
  "sync_of (transit tr s) = (case tr of Metadata u \<Rightarrow> update_metadata u (sync_of s)
     | Control e \<Rightarrow> update_control e (sync_of s) | _ \<Rightarrow> sync_of s)"
  by (cases tr) (simp_all add: withResponseMetadata_def withSSEControl_def pause_state_def resume_state_def)

lemma closed_stays: "sf_streamClosed (sync_of s) \<Longrightarrow> sf_streamClosed (sync_of (foldl (\<lambda>s tr. transit tr s) s trs))"
proof (induction trs arbitrary: s)
  case (Cons tr trs)
  have "sf_streamClosed (sync_of (transit tr s))"
    using Cons.prems by (cases tr) (simp_all add: withResponseMetadata_def withSSEControl_def pause_state_def resume_state_def
        update_metadata_def update_control_def)
  then show ?case using Cons.IH by simp
qed simp

section \<open>Short connections\<close>

text \<open>The states after connections of the given durations, each started and ended by the event loop,
  as long as none of them leads to long-polling.\<close>

fun after_connections :: "resilience \<Rightarrow> (int \<times> int) list \<Rightarrow> active_state \<Rightarrow> active_state" where
  "after_connections cfg [] s = s"
| "after_connections cfg ((t, t') # cs) s =
     (if shouldUseSse s then after_connections cfg cs (end_state (handleConnectionEnd t' False cfg (startConnection t s))) else s)"

definition short :: "resilience \<Rightarrow> int \<times> int \<Rightarrow> bool" where
  "short cfg c \<longleftrightarrow> snd c - fst c < minConnectionDuration cfg"

lemma short_run:
  "list_all (short cfg) cs \<Longrightarrow> n < maxShortConnections cfg \<Longrightarrow>
     after_connections cfg cs (SSEState f n t) =
       (if n + length cs < maxShortConnections cfg
        then SSEState f (n + length cs) (if cs = [] then t else Some (fst (last cs)))
        else LongPollState f)"
proof (induction cs arbitrary: n t)
  case (Cons c cs)
  obtain a b where c: "c = (a, b)" by (cases c)
  show ?case
  proof (cases "n + 1 < maxShortConnections cfg")
    case True
    then show ?thesis using Cons.IH[of "n + 1" "Some a"] Cons.prems
      by (simp add: c handleConnectionEnd_def short_def Let_def)
  next
    case False
    then have "after_connections cfg (c # cs) (SSEState f n t) = after_connections cfg cs (LongPollState f)"
      using Cons.prems by (simp add: c handleConnectionEnd_def short_def Let_def)
    then show ?thesis using False by (cases cs) auto
  qed
qed simp

lemma long_resets:
  "\<not> short cfg c \<Longrightarrow> after_connections cfg [c] (SSEState f n t) = SSEState f 0 (Some (fst c))"
  by (cases c) (simp add: handleConnectionEnd_def short_def Let_def)

text \<open>C31. The client gives up server-sent events exactly when the configured number of connections in a row
  were short: after fewer it is still in that mode, with their number counted, and after that many it
  polls, at the offset where it was; one connection of normal length starts the count again.\<close>

theorem short_connections_fall_back:
  assumes "list_all (short cfg) cs" "0 < maxShortConnections cfg"
  shows "after_connections cfg cs (SSEState f 0 t) =
      (if length cs < maxShortConnections cfg
       then SSEState f (length cs) (if cs = [] then t else Some (fst (last cs))) else LongPollState f)
    \<and> (\<not> short cfg c \<longrightarrow> length cs < maxShortConnections cfg \<longrightarrow>
         after_connections cfg [c] (after_connections cfg cs (SSEState f 0 t)) = SSEState f 0 (Some (fst c)))"
  using short_run[OF assms(1), of 0] assms(2) long_resets by simp

definition default_resilience :: resilience where
  "default_resilience = \<lparr>minConnectionDuration = 1000, maxShortConnections = 3, backoffBaseDelay = 100, backoffMaxDelay = 5000\<rparr>"

definition some_fields :: sync_fields where
  "some_fields = \<lparr>sf_offset = ''0_5'', sf_cursor = None, sf_upToDate = True, sf_streamClosed = False\<rparr>"

theorem short_connections_fall_back_witness:
  "after_connections default_resilience [(0, 10), (200, 210), (500, 510)] (SSEState some_fields 0 None) = LongPollState some_fields
   \<and> after_connections default_resilience [(900, 5000)]
       (after_connections default_resilience [(0, 10), (200, 210)] (SSEState some_fields 0 None)) = SSEState some_fields 0 (Some 900)"
proof (rule conjI)
  let ?cs = "[(0, 10), (200, 210), (500, 510)] :: (int \<times> int) list" and ?ds = "[(0, 10), (200, 210)] :: (int \<times> int) list"
  have m: "maxShortConnections default_resilience = 3" by (simp add: default_resilience_def)
  have s: "list_all (short default_resilience) ?cs" "list_all (short default_resilience) ?ds" "\<not> short default_resilience (900, 5000)"
    by (simp_all add: short_def default_resilience_def)
  have "length ?cs = 3" "length ?ds = 2" by simp_all
  then show "after_connections default_resilience ?cs (SSEState some_fields 0 None) = LongPollState some_fields"
    using conjunct1[OF short_connections_fall_back[OF s(1), of some_fields None]] unfolding m
    by (simp del: after_connections.simps)
  show "after_connections default_resilience [(900, 5000)]
       (after_connections default_resilience ?ds (SSEState some_fields 0 None)) = SSEState some_fields 0 (Some 900)"
    using conjunct2[OF short_connections_fall_back[OF s(2), of some_fields None "(900, 5000)"]] s(3) unfolding m
    by (simp del: after_connections.simps)
qed

end
