(* ===== verification/Client_Response.thy ===== *)
theory Client_Response
  imports Response_State Http_Posts
begin

text \<open>
  The client's side of an event stream (client/src/response.ts): how the events that the parser yields
  become responses, how the session's state follows them, and what happens when a connection ends. An
  iterator of events is the list of what it still yields and whether it throws at its end; events have the
  types the source declares. Opening a connection is an argument: what it gives at an offset and a cursor.
  A pause that comes in during a reconnection is not modelled. \<open>Inl\<close> is an error.
\<close>

section \<open>Events and synthetic responses\<close>

datatype client_event = Data_event utext | Control_event control_event

record sse_iterator =
  it_events :: "client_event list"
  it_throws :: bool

datatype client_error =
    Decode_failed | Parse_failed | Request_failed | Client_type_error | Already_consumed | Bad_request_error

definition utrim :: "utext \<Rightarrow> utext" where
  "utrim t = utrimEnd (dropWhile is_uspace t)"

text \<open>\<^verbatim>\<open>decodeBase64\<close>; Node's decoder skips what is not in its alphabet.\<close>

definition decodeBase64 :: "utext \<Rightarrow> client_error + bytes" where
  "decodeBase64 base64Str =
     (let cleaned = filter (\<lambda>u. u \<noteq> 10 \<and> u \<noteq> 13) base64Str
      in if cleaned = [] then Inr []
         else if length cleaned mod 4 \<noteq> 0 then Inl Decode_failed
         else Inr (base64_decode (map char_of (filter (\<lambda>u. u < 256) cleaned))))"

fun decode_parts :: "utext list \<Rightarrow> client_error + bytes" where
  "decode_parts [] = Inr []"
| "decode_parts (p # ps) =
     (case decodeBase64 p of
        Inl e \<Rightarrow> Inl e
      | Inr d \<Rightarrow> (case decode_parts ps of Inl e \<Rightarrow> Inl e | Inr ds \<Rightarrow> Inr (d @ ds)))"

definition merge_part :: "utext \<Rightarrow> utext list" where
  "merge_part part =
     (let trimmed = utrim part
      in if trimmed = [] then []
         else if hd trimmed = 91 \<and> last trimmed = 93 then
           (let inner = utrim (butlast (tl trimmed)) in if inner = [] then [] else [inner])
         else [trimmed])"

definition createSSESyntheticResponseFromParts ::
  "utext list \<Rightarrow> string \<Rightarrow> string option \<Rightarrow> bool \<Rightarrow> bool \<Rightarrow> string option \<Rightarrow> bool \<Rightarrow> bool \<Rightarrow> client_error + http_response" where
  "createSSESyntheticResponseFromParts dataParts offset cursor upToDate streamClosed ctype base64Mode isJsonMode =
     (let h0 = [(''content-type'', case ctype of Some c \<Rightarrow> c | None \<Rightarrow> ''application/json''), (STREAM_OFFSET_HEADER, offset)];
          h1 = set_if (truthy cursor) STREAM_CURSOR_HEADER (the cursor) h0;
          h2 = set_if upToDate STREAM_UP_TO_DATE_HEADER ''true'' h1;
          h3 = set_if streamClosed STREAM_CLOSED_HEADER ''true'' h2;
          body = (if base64Mode then decode_parts (filter (\<lambda>p. p \<noteq> []) dataParts)
                  else if isJsonMode then Inr (text_encode ([91] @ join_comma (concat (map merge_part dataParts)) @ [93]))
                  else Inr (text_encode (concat dataParts)))
      in case body of Inl e \<Rightarrow> Inl e | Inr b \<Rightarrow> Inr \<lparr>rs_status = 200, rs_headers = h3, rs_body = b\<rparr>)"

definition createSSESyntheticResponse ::
  "utext \<Rightarrow> string \<Rightarrow> string option \<Rightarrow> bool \<Rightarrow> bool \<Rightarrow> string option \<Rightarrow> bool \<Rightarrow> client_error + http_response" where
  "createSSESyntheticResponse d offset cursor upToDate streamClosed ctype base64Mode =
     createSSESyntheticResponseFromParts [d] offset cursor upToDate streamClosed ctype base64Mode False"

section \<open>The session\<close>

text \<open>An opened connection is its response and the iterator of its body, if it has one. The session has the
  fields of \<^verbatim>\<open>StreamResponseImpl\<close> that the stream of responses uses; \<open>cl_first\<close> is the held first response
  until it is handed on.\<close>

type_synonym opened = "http_response \<times> sse_iterator option"

record client =
  cl_sync :: response_state
  cl_live :: live_mode
  cl_stopAfterUpToDate :: bool
  cl_encoding :: bool
  cl_isJsonMode :: bool
  cl_contentType :: "string option"
  cl_resilience :: resilience
  cl_startSSE :: bool
  cl_first :: "opened option"
  cl_iterator :: "sse_iterator option"
  cl_consumption :: "string option"

text \<open>What a step meets: the clock when a connection ends and when the next one starts, whether the
  session has been aborted, what opening a connection and what fetching the next chunk gives.\<close>

record client_env =
  cv_end :: int
  cv_start :: int
  cv_aborted :: bool
  cv_startSSE :: "string \<Rightarrow> string option \<Rightarrow> client_error + opened"
  cv_fetchNext :: "string \<Rightarrow> string option \<Rightarrow> bool \<Rightarrow> client_error + http_response"

abbreviation client_sync :: "client \<Rightarrow> sync_fields" where
  "client_sync c \<equiv> sync_of (cl_sync c)"

definition client_continues :: "client \<Rightarrow> bool" where
  "client_continues c = shouldContinueLive (cl_sync c) (cl_stopAfterUpToDate c) (cl_live c)"

text \<open>The constructor; \<open>startSSE\<close> says whether server-sent events are available.\<close>

definition new_client ::
  "sync_fields \<Rightarrow> live_mode \<Rightarrow> string option \<Rightarrow> bool \<Rightarrow> bool \<Rightarrow> bool \<Rightarrow> resilience \<Rightarrow> opened \<Rightarrow> client" where
  "new_client sync live ct isJsonMode startSSE encoding resil firstResponse =
     \<lparr>cl_sync = Active_state (if startSSE then SSEState sync 0 None else LongPollState sync), cl_live = live,
      cl_stopAfterUpToDate = False, cl_encoding = encoding, cl_isJsonMode = isJsonMode, cl_contentType = ct,
      cl_resilience = resil, cl_startSSE = startSSE, cl_first = Some firstResponse, cl_iterator = None,
      cl_consumption = None\<rparr>"

definition updateStateFromResponse :: "http_response \<Rightarrow> client \<Rightarrow> client" where
  "updateStateFromResponse rs c =
     (let nonempty = (\<lambda>x. if truthy x then x else None)
      in c\<lparr>cl_sync := withResponseMetadata
            \<lparr>mu_offset = nonempty (get_header rs STREAM_OFFSET_HEADER), mu_cursor = nonempty (get_header rs STREAM_CURSOR_HEADER),
             mu_upToDate = (get_header rs STREAM_UP_TO_DATE_HEADER \<noteq> None),
             mu_streamClosed = (map_option toLowerCase (get_header rs STREAM_CLOSED_HEADER) = Some ''true'')\<rparr> (cl_sync c)\<rparr>)"

definition updateStateFromSSEControl :: "control_event \<Rightarrow> client \<Rightarrow> client" where
  "updateStateFromSSEControl e c = c\<lparr>cl_sync := withSSEControl e (cl_sync c)\<rparr>"

definition updateEncodingFromSSEResponse :: "http_response \<Rightarrow> client \<Rightarrow> client" where
  "updateEncodingFromSSEResponse rs c = c\<lparr>cl_encoding := (get_header rs STREAM_SSE_DATA_ENCODING_HEADER = Some ''base64'')\<rparr>"

definition markSSEConnectionStart :: "int \<Rightarrow> client \<Rightarrow> client" where
  "markSSEConnectionStart t c =
     c\<lparr>cl_sync := (case cl_sync c of
         Active_state (SSEState f n s) \<Rightarrow> Active_state (startConnection t (SSEState f n s))
       | s \<Rightarrow> Active_state (startConnection t (SSEState (sync_of s) 0 None)))\<rparr>"

text \<open>\<^verbatim>\<open>handleConnectionEnd\<close> is a method of \<open>SSEState\<close> only: on a paused state the call is a TypeError.\<close>

definition trySSEReconnect :: "client_env \<Rightarrow> client \<Rightarrow> (client_error + sse_iterator option) \<times> client" where
  "trySSEReconnect env c =
     (if \<not> shouldUseSse (inner_state (cl_sync c)) then (Inr None, c)
      else if \<not> client_continues c \<or> \<not> cl_startSSE c then (Inr None, c)
      else (case cl_sync c of
         PausedState _ \<Rightarrow> (Inl Client_type_error, c)
       | Active_state a \<Rightarrow>
           (let result = handleConnectionEnd (cv_end env) (cv_aborted env) (cl_resilience c) a;
                c1 = c\<lparr>cl_sync := Active_state (end_state result)\<rparr>
            in case result of
                 Fallback _ \<Rightarrow> (Inr None, c1)
               | _ \<Rightarrow>
                   (let c2 = markSSEConnectionStart (cv_start env) c1
                    in case cv_startSSE env (sf_offset (client_sync c2)) (sf_cursor (client_sync c2)) of
                         Inl e \<Rightarrow> (Inl e, c2)
                       | Inr (rs, it) \<Rightarrow> (Inr it, updateEncodingFromSSEResponse rs c2)))))"

section \<open>Events\<close>

datatype sse_result =
    Sse_response http_response "sse_iterator option"
  | Sse_closed
  | Sse_error client_error
  | Sse_continue "sse_iterator option"
  | Sse_throws client_error

text \<open>Data events are collected until a control event or the end. The list that comes back is what the
  iterator has left; \<open>Sse_throws\<close> is an exception.\<close>

fun processSSEDataEvent ::
  "client_env \<Rightarrow> client \<Rightarrow> utext list \<Rightarrow> client_event list \<Rightarrow> bool \<Rightarrow> sse_result \<times> client \<times> client_event list" where
  "processSSEDataEvent env c parts [] throws =
     (if throws then (Sse_throws Parse_failed, c, [])
      else (let f = client_sync c
            in case createSSESyntheticResponseFromParts parts (sf_offset f) (sf_cursor f) (sf_upToDate f) (sf_streamClosed f)
                      (cl_contentType c) (cl_encoding c) (cl_isJsonMode c) of
                 Inl e \<Rightarrow> (Sse_throws e, c, [])
               | Inr rs \<Rightarrow>
                   (case trySSEReconnect env c of
                      (Inl e, c1) \<Rightarrow> (Sse_error e, c1, [])
                    | (Inr it, c1) \<Rightarrow> (Sse_response rs it, c1, []))))"
| "processSSEDataEvent env c parts (Control_event e # es) throws =
     (let c1 = updateStateFromSSEControl e c
      in case createSSESyntheticResponseFromParts parts (ce_offset e) (ce_cursor e) (ce_upToDate e = Some True)
                (ce_streamClosed e = Some True) (cl_contentType c) (cl_encoding c) (cl_isJsonMode c) of
           Inl err \<Rightarrow> (Sse_throws err, c1, es)
         | Inr rs \<Rightarrow> (Sse_response rs None, c1, es))"
| "processSSEDataEvent env c parts (Data_event d # es) throws = processSSEDataEvent env c (parts @ [d]) es throws"

fun processSSEEvents ::
  "client_env \<Rightarrow> client \<Rightarrow> client_event list \<Rightarrow> bool \<Rightarrow> sse_result \<times> client \<times> client_event list" where
  "processSSEEvents env c [] throws =
     (if throws then (Sse_throws Parse_failed, c, [])
      else (case trySSEReconnect env c of
              (Inl e, c1) \<Rightarrow> (Sse_error e, c1, [])
            | (Inr (Some it), c1) \<Rightarrow> (Sse_continue (Some it), c1, [])
            | (Inr None, c1) \<Rightarrow> (Sse_closed, c1, [])))"
| "processSSEEvents env c (Data_event d # es) throws = processSSEDataEvent env c [d] es throws"
| "processSSEEvents env c (Control_event e # es) throws =
     (let c1 = updateStateFromSSEControl e c
      in if ce_upToDate e = Some True then
           (case createSSESyntheticResponse [] (ce_offset e) (ce_cursor e) True (ce_streamClosed e = Some True)
                   (cl_contentType c) (cl_encoding c) of
              Inl err \<Rightarrow> (Sse_throws err, c1, es)
            | Inr rs \<Rightarrow> (Sse_response rs None, c1, es))
         else (Sse_continue None, c1, es))"

section \<open>The stream of responses\<close>

text \<open>A call of \<^verbatim>\<open>pull\<close> hands on at most one response and leaves the stream open, closed or failed. It
  takes an environment for itself and one for each event it waits for; with none left it is waiting,
  which is \<open>None\<close>.\<close>

datatype pull_end = Open | Closed | Failed client_error

type_synonym pulled = "http_response option \<times> pull_end \<times> client"

definition pull_catch :: "client_env \<Rightarrow> client_error \<Rightarrow> pull_end" where
  "pull_catch env e = (if cv_aborted env then Closed else Failed e)"

definition go_on :: "client_event list \<Rightarrow> bool \<Rightarrow> sse_iterator option \<Rightarrow> client \<Rightarrow> client" where
  "go_on es throws it c =
     c\<lparr>cl_iterator := Some (case it of Some i \<Rightarrow> i | None \<Rightarrow> \<lparr>it_events = es, it_throws = throws\<rparr>)\<rparr>"

fun pull_events :: "client_env list \<Rightarrow> client \<Rightarrow> client_event list \<Rightarrow> bool \<Rightarrow> pulled option" where
  "pull_events [] c es throws = None"
| "pull_events (env # envs) c es throws =
     (case processSSEEvents env c es throws of
        (Sse_response rs it, c1, es1) \<Rightarrow> Some (Some rs, Open, go_on es1 throws it c1)
      | (Sse_closed, c1, _) \<Rightarrow> Some (None, Closed, c1)
      | (Sse_error e, c1, _) \<Rightarrow> Some (None, Failed e, c1)
      | (Sse_throws e, c1, _) \<Rightarrow> Some (None, pull_catch env e, c1)
      | (Sse_continue (Some it), c1, _) \<Rightarrow> pull_events envs c1 (it_events it) (it_throws it)
      | (Sse_continue None, c1, es1) \<Rightarrow> pull_events envs c1 es1 throws)"

definition pull_live :: "client_env \<Rightarrow> client_env list \<Rightarrow> client \<Rightarrow> pulled option" where
  "pull_live env envs c =
     (case cl_iterator c of
        Some it \<Rightarrow> pull_events envs c (it_events it) (it_throws it)
      | None \<Rightarrow>
          if client_continues c then
            if cv_aborted env then Some (None, Closed, c)
            else (case cv_fetchNext env (sf_offset (client_sync c)) (sf_cursor (client_sync c)) (sf_upToDate (client_sync c)) of
                    Inl e \<Rightarrow> Some (None, pull_catch env e, c)
                  | Inr rs \<Rightarrow> Some (Some rs, Open, updateStateFromResponse rs c))
          else Some (None, Closed, c))"

definition pull_transition :: "client_env \<Rightarrow> client_env list \<Rightarrow> client \<Rightarrow> pulled option" where
  "pull_transition env envs c =
     (if cl_iterator c = None \<and> sf_upToDate (client_sync c) \<and> cl_startSSE c \<and> client_continues c then
        (let c1 = markSSEConnectionStart (cv_start env) c
         in case cv_startSSE env (sf_offset (client_sync c1)) (sf_cursor (client_sync c1)) of
              Inl e \<Rightarrow> Some (None, pull_catch env e, c1)
            | Inr (rs, it) \<Rightarrow> pull_live env envs ((updateEncodingFromSSEResponse rs c1)\<lparr>cl_iterator := it\<rparr>))
      else pull_live env envs c)"

definition pull :: "client_env \<Rightarrow> client_env list \<Rightarrow> client \<Rightarrow> pulled option" where
  "pull env envs c =
     (case cl_first c of
        None \<Rightarrow> pull_transition env envs c
      | Some (firstResponse, firstBody) \<Rightarrow>
          (let c1 = c\<lparr>cl_first := None\<rparr>;
               isSSE = (case get_header firstResponse ''content-type'' of Some ct \<Rightarrow> str_includes ct ''text/event-stream'' | None \<Rightarrow> False)
           in if isSSE \<and> firstBody \<noteq> None then
                pull_transition env envs
                  ((updateEncodingFromSSEResponse firstResponse (markSSEConnectionStart (cv_start env) c1))\<lparr>cl_iterator := firstBody\<rparr>)
              else if sf_upToDate (client_sync c1) \<and> \<not> client_continues c1 then Some (Some firstResponse, Closed, c1)
              else Some (Some firstResponse, Open, c1)))"

section \<open>Consumption\<close>

definition ensureNoConsumption :: "string \<Rightarrow> client \<Rightarrow> client_error + client" where
  "ensureNoConsumption method c =
     (if cl_consumption c \<noteq> None then Inl Already_consumed else Inr (c\<lparr>cl_consumption := Some method\<rparr>))"

definition ensureJsonMode :: "client \<Rightarrow> client_error + client" where
  "ensureJsonMode c = (if cl_isJsonMode c then Inr c else Inl Bad_request_error)"

text \<open>The loop that \<^verbatim>\<open>body()\<close>, \<^verbatim>\<open>json()\<close> and \<^verbatim>\<open>text()\<close> share: read a response, note whether the session is at the
  tail, add what \<open>item\<close> makes of the response, stop at the tail. The list has what each pull meets.\<close>

fun collect :: "(http_response \<Rightarrow> client_error + 'a list) \<Rightarrow> (client_env \<times> client_env list) list \<Rightarrow> client \<Rightarrow> 'a list
    \<Rightarrow> ((client_error + 'a list) \<times> client) option" where
  "collect item [] c acc = None"
| "collect item ((env, envs) # more_envs) c acc =
     (case pull env envs c of
        None \<Rightarrow> None
      | Some (None, Failed e, c1) \<Rightarrow> Some (Inl e, c1)
      | Some (None, _, c1) \<Rightarrow> Some (Inr acc, c1)
      | Some (Some rs, ending, c1) \<Rightarrow>
          (case item rs of
             Inl e \<Rightarrow> Some (Inl e, c1)
           | Inr xs \<Rightarrow>
               if sf_upToDate (client_sync c1) \<or> ending \<noteq> Open then Some (Inr (acc @ xs), c1)
               else collect item more_envs c1 (acc @ xs)))"

definition response_items :: "(utext \<Rightarrow> utext) \<Rightarrow> http_response \<Rightarrow> client_error + json list" where
  "response_items nc rs =
     (let content = utrim (text_decode (rs_body rs))
      in case json_parse nc (if content = [] then asc ''[]'' else content) of
           None \<Rightarrow> Inl Parse_failed
         | Some (JArr xs) \<Rightarrow> Inr xs
         | Some v \<Rightarrow> Inr [v])"

definition body_all ::
  "(client_env \<times> client_env list) list \<Rightarrow> client \<Rightarrow> ((client_error + bytes) \<times> client) option" where
  "body_all envs c =
     (case ensureNoConsumption ''body'' c of
        Inl e \<Rightarrow> Some (Inl e, c)
      | Inr c1 \<Rightarrow> collect (\<lambda>rs. Inr (rs_body rs)) envs (c1\<lparr>cl_stopAfterUpToDate := True\<rparr>) [])"

definition text_all ::
  "(client_env \<times> client_env list) list \<Rightarrow> client \<Rightarrow> ((client_error + utext) \<times> client) option" where
  "text_all envs c =
     (case ensureNoConsumption ''text'' c of
        Inl e \<Rightarrow> Some (Inl e, c)
      | Inr c1 \<Rightarrow> collect (\<lambda>rs. Inr (text_decode (rs_body rs))) envs (c1\<lparr>cl_stopAfterUpToDate := True\<rparr>) [])"

definition json_all ::
  "(utext \<Rightarrow> utext) \<Rightarrow> (client_env \<times> client_env list) list \<Rightarrow> client \<Rightarrow> ((client_error + json list) \<times> client) option" where
  "json_all nc envs c =
     (case ensureNoConsumption ''json'' c of
        Inl e \<Rightarrow> Some (Inl e, c)
      | Inr c1 \<Rightarrow>
          (case ensureJsonMode c1 of
             Inl e \<Rightarrow> Some (Inl e, c1)
           | Inr c2 \<Rightarrow> collect (response_items nc) envs (c2\<lparr>cl_stopAfterUpToDate := True\<rparr>) []))"

text \<open>A subscription calls its subscriber with what it makes of each response and with the metadata of the
  response's headers, until the stream ends. The calls come back in order.\<close>

definition getMetadataFromResponse :: "http_response \<Rightarrow> sync_fields \<Rightarrow> sync_fields" where
  "getMetadataFromResponse rs fallback =
     \<lparr>sf_offset = (case get_header rs STREAM_OFFSET_HEADER of Some x \<Rightarrow> x | None \<Rightarrow> sf_offset fallback),
      sf_cursor = (case get_header rs STREAM_CURSOR_HEADER of Some x \<Rightarrow> Some x | None \<Rightarrow> sf_cursor fallback),
      sf_upToDate = (get_header rs STREAM_UP_TO_DATE_HEADER \<noteq> None),
      sf_streamClosed = (map_option toLowerCase (get_header rs STREAM_CLOSED_HEADER) = Some ''true'' \<or> sf_streamClosed fallback)\<rparr>"

fun subscription :: "(http_response \<Rightarrow> client_error + 'a) \<Rightarrow> (client_env \<times> client_env list) list \<Rightarrow> client
    \<Rightarrow> ('a \<times> sync_fields) list \<times> pull_end \<times> client" where
  "subscription item [] c = ([], Open, c)"
| "subscription item ((env, envs) # more_envs) c =
     (case pull env envs c of
        None \<Rightarrow> ([], Open, c)
      | Some (None, ending, c1) \<Rightarrow> ([], ending, c1)
      | Some (Some rs, ending, c1) \<Rightarrow>
          (case item rs of
             Inl e \<Rightarrow> ([], Failed e, c1)
           | Inr x \<Rightarrow>
               (let call = (x, getMetadataFromResponse rs (client_sync c1))
                in if ending \<noteq> Open then ([call], ending, c1)
                   else (case subscription item more_envs c1 of (calls, e, c2) \<Rightarrow> (call # calls, e, c2)))))"

definition subscribeBytes where
  "subscribeBytes envs c =
     (case ensureNoConsumption ''subscribeBytes'' c of
        Inl e \<Rightarrow> Inl e | Inr c1 \<Rightarrow> Inr (subscription (\<lambda>rs. Inr (rs_body rs)) envs c1))"

definition subscribeText where
  "subscribeText envs c =
     (case ensureNoConsumption ''subscribeText'' c of
        Inl e \<Rightarrow> Inl e | Inr c1 \<Rightarrow> Inr (subscription (\<lambda>rs. Inr (text_decode (rs_body rs))) envs c1))"

definition subscribeJson where
  "subscribeJson nc envs c =
     (case ensureNoConsumption ''subscribeJson'' c of
        Inl e \<Rightarrow> Inl e
      | Inr c1 \<Rightarrow> (case ensureJsonMode c1 of Inl e \<Rightarrow> Inl e | Inr c2 \<Rightarrow> Inr (subscription (response_items nc) envs c2)))"

end
