(* ===== verification/Client_Delivery.thy ===== *)
theory Client_Delivery
  imports Client_Response
begin

text \<open>
  What a subscriber gets from a server: the events of a connection as the client types them, and the
  composition of the server's event loop, its base-64 encoding, the parser and the client's session.
\<close>

section \<open>Typed events\<close>

text \<open>The source casts a control event to its declared type; this is the cast where the event has it.\<close>

fun typed_event :: "sse_event \<Rightarrow> client_event option" where
  "typed_event (SSE_data d) = Some (Data_event d)"
| "typed_event (SSE_control (Some (JStr ofs)) cu u cl) =
     (if (case cu of None \<Rightarrow> True | Some (JStr t) \<Rightarrow> True | _ \<Rightarrow> False) \<and> u \<in> {None, Some (JBool True), Some (JBool False)}
         \<and> cl \<in> {None, Some (JBool True), Some (JBool False)} then
        Some (Control_event \<lparr>ce_offset = latin ofs, ce_cursor = (case cu of Some (JStr t) \<Rightarrow> Some (latin t) | _ \<Rightarrow> None),
           ce_upToDate = map_option (\<lambda>v. v = JBool True) u, ce_streamClosed = map_option (\<lambda>v. v = JBool True) cl\<rparr>)
      else None)"
| "typed_event _ = None"

definition typed_events :: "sse_event list \<Rightarrow> client_event list option" where
  "typed_events es = those (map typed_event es)"

lemma latin_asc [simp]: "latin (asc s) = s"
  by (simp add: latin_def asc_def o_def)

lemma those_map: "(\<And>x. x \<in> set xs \<Longrightarrow> f x = Some (g x)) \<Longrightarrow> those (map f xs) = Some (map g xs)"
  by (induction xs) auto

definition control_fields :: "json \<Rightarrow> control_event" where
  "control_fields v = (case typed_event (control_of v) of Some (Control_event e) \<Rightarrow> e | _ \<Rightarrow> undefined)"

lemma cursor_not_closed: "SSE_CURSOR_FIELD \<noteq> SSE_CLOSED_FIELD"
  by code_simp

lemma typed_control: "is_control ofs v \<Longrightarrow> typed_event (control_of v) = Some (Control_event (control_fields v)) \<and> ce_offset (control_fields v) = ofs"
  by (induction rule: is_control.induct)
    (auto simp: cursor_not_closed cursor_not_closed[symmetric] control_fields_def control_of_def control_closed_def control_open_def json_get_def sse_fields sse_fields(1-4)[symmetric])

lemma typed_pass:
  assumes "\<forall>v\<in>set vs. is_control ofs v"
  shows "typed_events (SSE_data d # map control_of vs) = Some (Data_event d # map (Control_event \<circ> control_fields) vs)"
proof -
  have "those (map (typed_event \<circ> control_of) vs) = Some (map (Control_event \<circ> control_fields) vs)"
    by (rule those_map) (use typed_control assms in auto)
  then show ?thesis by (simp add: typed_events_def)
qed

section \<open>Base-64 payloads\<close>

lemma base64_chars: "c \<in> set (base64 data) \<Longrightarrow> (\<exists>n<64. c = b64_char n) \<or> c = CHR ''=''"
  using sextets_of_bytes[of data] by (auto simp: base64_def Let_def b64_padding_def)

lemma b64_code: "n < 64 \<Longrightarrow> 42 < (of_char (b64_char n) :: nat) \<and> (of_char (b64_char n) :: nat) < 256"
  by (auto simp: b64_char_def)

lemma base64_codes: "u \<in> set (asc (base64 data)) \<Longrightarrow> 42 < u \<and> u < 256"
  using base64_chars b64_code by (fastforce simp: asc_def)

lemma base64_text:
  "split_lines (asc (base64 data)) = [asc (base64 data)]" "lines_plain (asc (base64 data))"
  "filter (\<lambda>u. u \<noteq> 10 \<and> u \<noteq> 13) (asc (base64 data)) = asc (base64 data)"
  "filter (\<lambda>u. u < 256) (asc (base64 data)) = asc (base64 data)"
proof -
  note c = base64_codes[of _ data]
  show one: "split_lines (asc (base64 data)) = [asc (base64 data)]" by (rule split_lines_one) (use c in fastforce)+
  show "lines_plain (asc (base64 data))" using one c hd_in_set by (fastforce simp: lines_plain_def)
  show "filter (\<lambda>u. u \<noteq> 10 \<and> u \<noteq> 13) (asc (base64 data)) = asc (base64 data)"
    "filter (\<lambda>u. u < 256) (asc (base64 data)) = asc (base64 data)"
    using c by (force simp: filter_id_conv)+
qed

lemma base64_length: "length (base64 data) mod 4 = 0"
proof -
  define k where "k = length (to_sextets (map of_char data :: nat list))"
  have "k mod 4 < 4" by simp
  then have "(k + (4 - k mod 4) mod 4) mod 4 = 0" by (metis add_diff_inverse_nat mod_add_left_eq mod_add_right_eq mod_self nat_less_le not_less)
  then show ?thesis by (simp add: base64_def Let_def b64_padding_def k_def)
qed

lemma decodeBase64_base64: "decodeBase64 (asc (base64 data)) = Inr data"
proof (cases "base64 data = []")
  case True
  then have "data = []" using base64_roundtrip[of data] by (simp add: base64_decode_def map_filter_simps)
  then show ?thesis using True by (simp add: decodeBase64_def asc_def)
next
  case False
  then show ?thesis
    by (simp add: decodeBase64_def base64_text base64_length base64_roundtrip)
      (simp add: asc_def o_def base64_roundtrip base64_length)
qed

section \<open>Delivery\<close>

lemma offset_header: "toLowerCase ''Stream-Next-Offset'' \<noteq> toLowerCase ''content-type''"
  by code_simp

lemma control_moves [simp]: "sf_offset (client_sync (updateStateFromSSEControl e c)) = ce_offset e"
  by (cases "cl_sync c"; cases "inner_state (cl_sync c)")
    (auto simp: updateStateFromSSEControl_def withSSEControl_def update_control_def)

lemma data_then_control:
  assumes "cl_encoding c"
  shows "\<exists>rs. processSSEEvents env c (Data_event (asc (base64 data)) # Control_event e # es) throws
      = (Sse_response rs None, updateStateFromSSEControl e c, es)
    \<and> rs_body rs = data \<and> get_header rs STREAM_OFFSET_HEADER = Some (ce_offset e)"
proof -
  have "decode_parts (filter (\<lambda>p. p \<noteq> []) [asc (base64 data)]) = Inr data"
    using decodeBase64_base64[of data] by (cases "asc (base64 data) = []") (simp_all add: decodeBase64_def)
  then show ?thesis using assms
    by (auto simp: createSSESyntheticResponseFromParts_def Let_def get_header_def set_if_def header_names offset_header)
qed

section \<open>Properties\<close>

text \<open>C30. Binary data goes through: when a pass of the server's event loop sends messages in base 64, then,
  however the network cuts what it writes, the client's next response has exactly the bytes of these
  messages, the response and the session have the offset of the last one, and the stream stays open.\<close>

theorem sse_binary_end_to_end:
  assumes "on_store (read (js_of env) (rc_path ctx) (Some offset)) sv = (Inr rr, sv1)" "rr_messages rr \<noteq> []"
    and "sse_pass env ctx True offset sv = (text, nxt, sv')" "\<And>e. nxt \<noteq> Sse_failed e" "concat chunks = text"
    and "cl_encoding c"
  shows "\<exists>es rs c'. typed_events (fst (parseSSEStream nc chunks [])) = Some es
    \<and> pull_events (cenv # cenvs) c es throws = Some (Some rs, Open, c')
    \<and> rs_body rs = concat (map m_data (rr_messages rr))
    \<and> get_header rs STREAM_OFFSET_HEADER = Some (m_offset (last (rr_messages rr)))
    \<and> sf_offset (client_sync c') = m_offset (last (rr_messages rr))"
proof -
  let ?data = "concat (map m_data (rr_messages rr))"
  have "\<exists>ofs vs. parseSSEStream nc chunks [] = (SSE_data (asc (base64 ?data)) # map control_of vs, None) \<and> vs \<noteq> []
      \<and> (\<forall>v\<in>set vs. is_control ofs v) \<and> ofs = m_offset (last (rr_messages rr))"
    using sse_pass_events[OF assms(1,3,4,5) refl, of nc] assms(2) base64_text[of ?data] by (auto simp: sse_payload_def)
  then obtain v vs where p: "parseSSEStream nc chunks [] = (SSE_data (asc (base64 ?data)) # map control_of (v # vs), None)"
    and all: "\<forall>w\<in>set (v # vs). is_control (m_offset (last (rr_messages rr))) w" by (metis neq_Nil_conv)
  have ofs: "ce_offset (control_fields v) = m_offset (last (rr_messages rr))" using all typed_control by auto
  from data_then_control[OF assms(6), of cenv ?data "control_fields v" "map (Control_event \<circ> control_fields) vs" throws] ofs
  show ?thesis using p typed_pass[OF all] by (auto simp: go_on_def)
qed

text \<open>An instance: the sample stream has one message.\<close>

definition sample_fields :: sync_fields where
  "sample_fields = \<lparr>sf_offset = ''-1'', sf_cursor = None, sf_upToDate = False, sf_streamClosed = False\<rparr>"

definition sse_client :: "bool \<Rightarrow> client" where
  "sse_client base64Mode = (new_client sample_fields Live_sse (Some ''application/octet-stream'') False True base64Mode
     default_resilience (\<lparr>rs_status = 200, rs_headers = [], rs_body = []\<rparr>, None))\<lparr>cl_first := None\<rparr>"

definition quiet_env :: "int \<Rightarrow> int \<Rightarrow> client_event list \<Rightarrow> client_env" where
  "quiet_env t1 t2 es = \<lparr>cv_end = t1, cv_start = t2, cv_aborted = False,
     cv_startSSE = (\<lambda>ofs cu. Inr (\<lparr>rs_status = 200, rs_headers = [(''content-type'', ''text/event-stream'')], rs_body = []\<rparr>,
       Some \<lparr>it_events = es, it_throws = False\<rparr>)),
     cv_fetchNext = (\<lambda>ofs cu u. Inl Request_failed)\<rparr>"

theorem sse_binary_end_to_end_witness:
  "\<exists>es rs c'. typed_events (fst (parseSSEStream (\<lambda>x. x) [fst (sse_pass (http_env_at 9) sample_context True ''-1'' sample_server)] []))
       = Some es
     \<and> pull_events [quiet_env 0 0 []] (sse_client True) es False = Some (Some rs, Open, c') \<and> rs_body rs = ''hello''"
proof -
  let ?env = "http_env_at 9"
  let ?pass = "sse_pass ?env sample_context True ''-1'' sample_server"
  let ?rr = "\<lparr>rr_messages = [msg_at ''hello'' 10 3], rr_upToDate = True\<rparr>"
  have rd: "fst (on_store (read (js_of ?env) (rc_path sample_context) (Some ''-1'')) sample_server) = Inr ?rr" by code_simp
  obtain sv1 where r: "on_store (read (js_of ?env) (rc_path sample_context) (Some ''-1'')) sample_server = (Inr ?rr, sv1)"
    using rd by (metis prod.collapse)
  have f: "(case fst (snd ?pass) of Sse_failed e \<Rightarrow> True | _ \<Rightarrow> False) = False" by code_simp
  obtain out nxt sv' where p: "?pass = (out, nxt, sv')" by (cases ?pass) auto
  have n: "nxt \<noteq> Sse_failed e" for e using f p by auto
  have e: "cl_encoding (sse_client True)" "rr_messages ?rr \<noteq> []" "concat [out] = out"
    by (simp_all add: sse_client_def new_client_def)
  show ?thesis
    using sse_binary_end_to_end[OF r e(2) p n e(3,1), of "\<lambda>x. x" "quiet_env 0 0 []" "[]" False] p
    by (auto simp: msg_at_def)
qed

section \<open>Where the session parts from its description\<close>

text \<open>The options describe that short connections make the client fall back to long-polling. The state does
  become that of long-polling, but the iterator that has ended stays in place: the call that takes the step
  closes the stream of responses although the session is to continue.\<close>

theorem sse_fallback_ends_session:
  assumes "cl_sync c = Active_state (SSEState f n (Some start))" "cl_startSSE c" "client_continues c"
    and "cv_end env - start < minConnectionDuration (cl_resilience c)" "\<not> cv_aborted env"
    and "maxShortConnections (cl_resilience c) \<le> n + 1"
  shows "\<exists>c'. pull_events (env # envs) c [] False = Some (None, Closed, c') \<and> client_continues c'
    \<and> cl_sync c' = Active_state (LongPollState f)"
  using assms
  by (auto simp: trySSEReconnect_def handleConnectionEnd_def Let_def client_continues_def shouldContinueLive_def)

text \<open>A connection that breaks between a data event and its control event: the data is handed on with the
  offset before it, the session reconnects at that offset, and the data is handed on again.\<close>

theorem sse_interrupted_data_twice:
  "let x = Data_event (asc ''x'');
       at1 = Control_event \<lparr>ce_offset = ''1'', ce_cursor = None, ce_upToDate = Some True, ce_streamClosed = None\<rparr>;
       c = (sse_client False)\<lparr>cl_iterator := Some \<lparr>it_events = [x], it_throws = False\<rparr>\<rparr>;
       env = quiet_env 9000 9001 [x, at1]
   in (case subscribeBytes [(env, [env]), (env, [env])] c of
         Inr (calls, _) \<Rightarrow> map (\<lambda>(d, f). (d, sf_offset f)) calls | Inl _ \<Rightarrow> [])
      = [(''x'', ''-1''), (''x'', ''1'')]"
  by code_simp

end
