(* ===== verification/Materialized_State.thy ===== *)
theory Materialized_State
  imports Json
begin

text \<open>
  The materialised state of a stream of change events (state/src/materialized-state.ts): a map from types
  to maps from keys to values. A value that is missing from an event is \<open>None\<close>, JavaScript's undefined. The
  specification is the last event of a key: what a batch leaves under a key does not depend on what came
  before that event, on how the events are cut into batches, or on the events of other keys.
\<close>

section \<open>Events and state\<close>

datatype operation = Insert | Update | Upsert | Delete

record change_event =
  ev_type :: string
  ev_key :: string
  ev_value :: "json option"
  ev_operation :: operation

type_synonym materialized = "(string, (string, json option) jsmap) jsmap"

definition apply_operation :: "change_event \<Rightarrow> (string, json option) jsmap \<Rightarrow> (string, json option) jsmap" where
  "apply_operation e typeMap =
     (case ev_operation e of
        Insert \<Rightarrow> AList.update (ev_key e) (ev_value e) typeMap
      | Update \<Rightarrow> AList.update (ev_key e) (ev_value e) typeMap
      | Upsert \<Rightarrow> AList.update (ev_key e) (ev_value e) typeMap
      | Delete \<Rightarrow> AList.delete (ev_key e) typeMap)"

definition apply_event :: "change_event \<Rightarrow> materialized \<Rightarrow> materialized" where
  "apply_event e m =
     (let typeMap = (case map_of m (ev_type e) of Some tm \<Rightarrow> tm | None \<Rightarrow> [])
      in AList.update (ev_type e) (apply_operation e typeMap) m)"

fun applyBatch :: "change_event list \<Rightarrow> materialized \<Rightarrow> materialized" where
  "applyBatch [] m = m"
| "applyBatch (e # es) m = applyBatch es (apply_event e m)"

definition get_value :: "string \<Rightarrow> string \<Rightarrow> materialized \<Rightarrow> json option" where
  "get_value ty key m = (case map_of m ty of None \<Rightarrow> None | Some typeMap \<Rightarrow> (case map_of typeMap key of Some v \<Rightarrow> v | None \<Rightarrow> None))"

definition getType :: "string \<Rightarrow> materialized \<Rightarrow> (string, json option) jsmap" where
  "getType ty m = (case map_of m ty of Some typeMap \<Rightarrow> typeMap | None \<Rightarrow> [])"

definition clear_state :: "materialized \<Rightarrow> materialized" where
  "clear_state m = []"

definition typeCount :: "materialized \<Rightarrow> nat" where
  "typeCount m = length m"

definition types :: "materialized \<Rightarrow> string list" where
  "types m = map fst m"

section \<open>The last event of a key\<close>

definition concerns :: "string \<Rightarrow> string \<Rightarrow> change_event \<Rightarrow> bool" where
  "concerns ty key e \<longleftrightarrow> ev_type e = ty \<and> ev_key e = key"

definition entry :: "string \<Rightarrow> string \<Rightarrow> materialized \<Rightarrow> json option option" where
  "entry ty key m = map_of (getType ty m) key"

definition written :: "change_event \<Rightarrow> json option option" where
  "written e = (if ev_operation e = Delete then None else Some (ev_value e))"

lemma entry_apply: "entry ty key (apply_event e m) = (if concerns ty key e then written e else entry ty key m)"
  by (auto simp: entry_def getType_def apply_event_def apply_operation_def concerns_def written_def Let_def
      update_conv' delete_conv' map_of_eq_None_iff split: operation.splits option.splits)

lemma entry_batch:
  "entry ty key (applyBatch es m) =
     (case filter (concerns ty key) es of [] \<Rightarrow> entry ty key m | x # xs \<Rightarrow> written (last (x # xs)))"
proof (induction es arbitrary: m)
  case (Cons e es)
  then show ?case by (cases "filter (concerns ty key) es") (auto simp: entry_apply)
qed simp

lemma types_apply: "types (apply_event e m) = (if ev_type e \<in> set (types m) then types m else types m @ [ev_type e])"
  by (simp add: types_def apply_event_def Let_def update_keys)

lemma types_batch: "set (types (applyBatch es m)) = set (types m) \<union> ev_type ` set es"
  by (induction es arbitrary: m) (auto simp: types_apply)

lemma types_distinct: "distinct (types m) \<Longrightarrow> distinct (types (applyBatch es m))"
  by (induction es arbitrary: m) (simp_all add: types_apply)

lemma get_entry: "get_value ty key m = (case entry ty key m of Some v \<Rightarrow> v | None \<Rightarrow> None)"
  by (simp add: get_value_def entry_def getType_def split: option.splits)

lemma batches_compose: "applyBatch (es @ fs) m = applyBatch fs (applyBatch es m)"
  by (induction es arbitrary: m) simp_all

section \<open>Property\<close>

text \<open>C32. The materialised state after any batches from the empty state is that of the last event of each key:
  a value is readable under a key exactly if the last event of that type and key wrote it, a key is listed
  exactly if that event is not a deletion, and the types are those of the events, each counted once.\<close>

theorem state_is_last_write:
  "get_value ty key (fold applyBatch batches []) =
     (case filter (concerns ty key) (concat batches) of [] \<Rightarrow> None
      | x # xs \<Rightarrow> if ev_operation (last (x # xs)) = Delete then None else ev_value (last (x # xs)))
   \<and> (key \<in> fst ` set (getType ty (fold applyBatch batches []))
      \<longleftrightarrow> (let xs = filter (concerns ty key) (concat batches) in xs \<noteq> [] \<and> ev_operation (last xs) \<noteq> Delete))
   \<and> typeCount (fold applyBatch batches []) = card (ev_type ` set (concat batches))"
proof -
  have "fold applyBatch bs m = applyBatch (concat bs) m" for bs m
    by (induction bs arbitrary: m) (simp_all add: batches_compose)
  then have b: "fold applyBatch batches [] = applyBatch (concat batches) []" .
  have none: "entry ty key [] = None" by (simp add: entry_def getType_def)
  have keys: "key \<in> fst ` set (getType ty m) \<longleftrightarrow> entry ty key m \<noteq> None" for m
    by (auto simp: entry_def map_of_eq_None_iff)
  have "typeCount (applyBatch (concat batches) []) = card (set (types (applyBatch (concat batches) [])))"
    using types_distinct[of "[]" "concat batches"] distinct_card[of "types (applyBatch (concat batches) [])"]
    by (simp add: typeCount_def types_def)
  then show ?thesis
    unfolding b keys get_entry entry_batch none types_batch
    by (auto simp: written_def types_def Let_def split: list.splits)
qed

end
