(* ===== verification/Client_Producer.thy ===== *)
theory Client_Producer
  imports Client_Response Producers
begin

text \<open>
  The idempotent producer of the client (client/src/idempotent-producer.ts): batching of appends, the queue
  of batches with its limit of requests in flight, the answers of the server with the retry of a request
  that overtook an earlier one and the automatic claim of a newer epoch, and the closing of the stream.

  A method runs to its first await; what follows an await is an operation of its own: the answer to a
  request (\<open>handle_reply\<close>), a failed request, the end of a wait for earlier batches (\<open>resume_wait\<close>), the end of
  the barrier of an automatic claim (\<open>push_deferred\<close>). A batch in the hands of a worker is a flight with a
  number; the waiters of a sequence number are numbers of flights. \<^verbatim>\<open>fastq\<close> runs at most \<open>pr_maxInFlight\<close> workers
  and starts the oldest waiting task when one ends. \<open>pr_sent\<close> lists the requests handed to fetch, \<open>pr_errors\<close>
  what workers failed with, \<open>pr_pushed\<close> the batches with the epoch in which they were given their number.
  Numbers in the headers of the server are natural.
\<close>

section \<open>State\<close>

record batch_task =
  bt_batch :: "bytes list"
  bt_seq :: nat

datatype producer_error =
    Stale_epoch nat
  | Sequence_gap nat nat
  | Refused nat
  | Network_error
  | Producer_closed
  | Producer_aborted

record seq_state =
  sq_resolved :: bool
  sq_error :: "producer_error option"
  sq_waiters :: "nat list"

text \<open>A flight waits for an answer, for the sequence numbers listed, or has been told how its wait ended.\<close>

datatype phase =
    Sending
  | Waiting "nat list"
  | Waited "producer_error option"

record flight =
  fl_id :: nat
  fl_task :: batch_task
  fl_epoch :: nat
  fl_sendEpoch :: nat
  fl_sendSeq :: nat
  fl_phase :: phase

record producer_request =
  pq_flight :: "nat option"
  pq_epoch :: nat
  pq_seq :: nat
  pq_body :: "bytes option"
  pq_close :: bool

record producer =
  pr_epoch :: nat
  pr_nextSeq :: nat
  pr_autoClaim :: bool
  pr_maxBatchBytes :: nat
  pr_maxInFlight :: nat
  pr_contentType :: "string option"
  pr_pending :: "bytes list"
  pr_batchBytes :: nat
  pr_linger :: bool
  pr_queue :: "batch_task list"
  pr_flights :: "flight list"
  pr_nextFlight :: nat
  pr_deferred :: "bytes list list"
  pr_closed :: bool
  pr_closeResult :: "string option"
  pr_finalMessage :: "bytes option"
  pr_lastOffset :: "string option"
  pr_epochClaimed :: bool
  pr_seqState :: "(nat, (nat, seq_state) jsmap) jsmap"
  pr_sent :: "producer_request list"
  pr_errors :: "producer_error list"
  pr_pushed :: "(nat \<times> bytes list) list"

text \<open>The constructor, with its checks of the options.\<close>

definition new_producer :: "string option \<Rightarrow> int \<Rightarrow> bool \<Rightarrow> int \<Rightarrow> int \<Rightarrow> int \<Rightarrow> producer option" where
  "new_producer ct ep autoClaim maxBatchBytes maxInFlight lingerMs =
     (if ep < 0 \<or> maxBatchBytes \<le> 0 \<or> maxInFlight \<le> 0 \<or> lingerMs < 0 then None
      else Some \<lparr>pr_epoch = nat ep, pr_nextSeq = 0, pr_autoClaim = autoClaim, pr_maxBatchBytes = nat maxBatchBytes,
        pr_maxInFlight = nat maxInFlight, pr_contentType = ct, pr_pending = [], pr_batchBytes = 0, pr_linger = False,
        pr_queue = [], pr_flights = [], pr_nextFlight = 0, pr_deferred = [], pr_closed = False, pr_closeResult = None,
        pr_finalMessage = None, pr_lastOffset = None, pr_epochClaimed = (\<not> autoClaim), pr_seqState = [], pr_sent = [],
        pr_errors = [], pr_pushed = []\<rparr>)"

section \<open>Requests\<close>

definition stream_type :: "producer \<Rightarrow> string" where
  "stream_type p = (case pr_contentType p of Some ct \<Rightarrow> ct | None \<Rightarrow> ''application/octet-stream'')"

definition producer_isJson :: "producer \<Rightarrow> bool" where
  "producer_isJson p \<longleftrightarrow> normalizeContentType (Some (stream_type p)) = ''application/json''"

definition batch_body :: "bool \<Rightarrow> bytes list \<Rightarrow> bytes" where
  "batch_body isJson batch =
     (if isJson then text_encode ([91] @ join_comma (map text_decode batch) @ [93]) else concat batch)"

definition send_flight :: "flight \<Rightarrow> producer \<Rightarrow> producer" where
  "send_flight f p =
     p\<lparr>pr_sent := pr_sent p @ [\<lparr>pq_flight = Some (fl_id f), pq_epoch = fl_sendEpoch f, pq_seq = fl_sendSeq f,
        pq_body = Some (batch_body (producer_isJson p) (bt_batch (fl_task f))), pq_close = False\<rparr>]\<rparr>"

definition set_flight :: "flight \<Rightarrow> producer \<Rightarrow> producer" where
  "set_flight f p = p\<lparr>pr_flights := map (\<lambda>g. if fl_id g = fl_id f then f else g) (pr_flights p)\<rparr>"

section \<open>The queue\<close>

text \<open>The worker takes the epoch of the moment it starts.\<close>

definition start_worker :: "batch_task \<Rightarrow> producer \<Rightarrow> producer" where
  "start_worker task p =
     (let f = \<lparr>fl_id = pr_nextFlight p, fl_task = task, fl_epoch = pr_epoch p, fl_sendEpoch = pr_epoch p,
               fl_sendSeq = bt_seq task, fl_phase = Sending\<rparr>
      in send_flight f (p\<lparr>pr_flights := pr_flights p @ [f], pr_nextFlight := pr_nextFlight p + 1\<rparr>))"

definition queue_push :: "batch_task \<Rightarrow> producer \<Rightarrow> producer" where
  "queue_push task p =
     (if length (pr_flights p) < pr_maxInFlight p then start_worker task p
      else p\<lparr>pr_queue := pr_queue p @ [task]\<rparr>)"

definition queue_release :: "flight \<Rightarrow> producer \<Rightarrow> producer" where
  "queue_release f p =
     (let p1 = p\<lparr>pr_flights := filter (\<lambda>g. fl_id g \<noteq> fl_id f) (pr_flights p)\<rparr>
      in case pr_queue p1 of [] \<Rightarrow> p1 | task # rest \<Rightarrow> start_worker task (p1\<lparr>pr_queue := rest\<rparr>))"

definition inFlightCount :: "producer \<Rightarrow> nat" where
  "inFlightCount p = length (pr_queue p) + length (pr_flights p)"

definition pushBatch :: "bytes list \<Rightarrow> producer \<Rightarrow> producer" where
  "pushBatch batch p =
     queue_push \<lparr>bt_batch = batch, bt_seq = pr_nextSeq p\<rparr>
       (p\<lparr>pr_nextSeq := pr_nextSeq p + 1, pr_pushed := pr_pushed p @ [(pr_epoch p, batch)]\<rparr>)"

definition enqueuePendingBatch :: "producer \<Rightarrow> producer" where
  "enqueuePendingBatch p =
     (if pr_pending p = [] then p
      else (let batch = pr_pending p; p1 = p\<lparr>pr_pending := [], pr_batchBytes := 0\<rparr>
            in if pr_autoClaim p1 \<and> \<not> pr_epochClaimed p1 \<and> inFlightCount p1 > 0
               then p1\<lparr>pr_deferred := pr_deferred p1 @ [batch]\<rparr>
               else pushBatch batch p1))"

text \<open>The queue has drained: the batches behind the barrier are pushed, one continuation after the other.\<close>

definition push_deferred :: "producer \<Rightarrow> producer" where
  "push_deferred p =
     (case pr_deferred p of [] \<Rightarrow> p | batch # rest \<Rightarrow> pushBatch batch (p\<lparr>pr_deferred := rest\<rparr>))"

section \<open>Appending and flushing\<close>

definition append_body :: "bytes \<Rightarrow> producer \<Rightarrow> producer_error + producer" where
  "append_body body p =
     (if pr_closed p then Inl Producer_closed
      else (let p1 = p\<lparr>pr_pending := pr_pending p @ [body], pr_batchBytes := pr_batchBytes p + length body\<rparr>
            in Inr (if pr_batchBytes p1 \<ge> pr_maxBatchBytes p1 then enqueuePendingBatch p1
                    else p1\<lparr>pr_linger := True\<rparr>)))"

definition linger_fires :: "producer \<Rightarrow> producer" where
  "linger_fires p = enqueuePendingBatch (p\<lparr>pr_linger := False\<rparr>)"

definition flush :: "producer \<Rightarrow> producer" where
  "flush p = enqueuePendingBatch (p\<lparr>pr_linger := False\<rparr>)"

text \<open>What the loop at the end of \<^verbatim>\<open>flush\<close> waits for.\<close>

definition drained :: "producer \<Rightarrow> bool" where
  "drained p \<longleftrightarrow> inFlightCount p = 0 \<and> pr_deferred p = []"

definition detach :: "producer \<Rightarrow> producer" where
  "detach p = (if pr_closed p then p else flush (p\<lparr>pr_closed := True\<rparr>))"

text \<open>\<^verbatim>\<open>restart\<close> after its flush.\<close>

definition restart :: "producer \<Rightarrow> producer" where
  "restart p = p\<lparr>pr_epoch := pr_epoch p + 1, pr_nextSeq := 0\<rparr>"

definition rejectPendingBatch :: "producer_error \<Rightarrow> producer \<Rightarrow> producer" where
  "rejectPendingBatch e p =
     p\<lparr>pr_errors := (if pr_pending p \<noteq> [] then pr_errors p @ [e] else pr_errors p), pr_pending := [], pr_batchBytes := 0,
       pr_linger := False\<rparr>"

section \<open>Sequence numbers\<close>

definition recordSuccessfulOffset :: "string \<Rightarrow> producer \<Rightarrow> producer" where
  "recordSuccessfulOffset offset p =
     (if offset \<noteq> [] \<and> (case pr_lastOffset p of None \<Rightarrow> True | Some l \<Rightarrow> l = [] \<or> l < offset)
      then p\<lparr>pr_lastOffset := Some offset\<rparr> else p)"

definition wake_flight :: "nat \<Rightarrow> producer_error option \<Rightarrow> nat list \<Rightarrow> flight \<Rightarrow> flight" where
  "wake_flight seq err waiters f =
     (case fl_phase f of
        Waiting ss \<Rightarrow>
          if fl_id f \<notin> set waiters then f
          else (case err of
                  Some e \<Rightarrow> f\<lparr>fl_phase := Waited (Some e)\<rparr>
                | None \<Rightarrow> f\<lparr>fl_phase := (let rest = filter (\<lambda>s. s \<noteq> seq) ss in if rest = [] then Waited None else Waiting rest)\<rparr>)
      | _ \<Rightarrow> f)"

definition seq_map :: "nat \<Rightarrow> producer \<Rightarrow> (nat, seq_state) jsmap" where
  "seq_map ep p = (case map_of (pr_seqState p) ep of Some m \<Rightarrow> m | None \<Rightarrow> [])"

definition signalSeqComplete :: "nat \<Rightarrow> nat \<Rightarrow> producer_error option \<Rightarrow> producer \<Rightarrow> producer" where
  "signalSeqComplete ep seq err p =
     (let epochMap = seq_map ep p;
          waiters = (case map_of epochMap seq of Some st \<Rightarrow> sq_waiters st | None \<Rightarrow> []);
          marked = AList.update seq \<lparr>sq_resolved = True, sq_error = err, sq_waiters = []\<rparr> epochMap;
          cleanupThreshold = int seq - int (pr_maxInFlight p * 3);
          cleaned = (if cleanupThreshold > 0 then filter (\<lambda>(oldSeq, st). \<not> int oldSeq < cleanupThreshold) marked else marked)
      in p\<lparr>pr_seqState := AList.update ep cleaned (pr_seqState p),
           pr_flights := map (wake_flight seq err waiters) (pr_flights p)\<rparr>)"

datatype wait_outcome = Resolved | Rejected producer_error | Unsettled

definition waitForSeq :: "nat \<Rightarrow> nat \<Rightarrow> nat \<Rightarrow> producer \<Rightarrow> wait_outcome \<times> producer" where
  "waitForSeq ep seq fid p =
     (let epochMap = seq_map ep p
      in case map_of epochMap seq of
           Some st \<Rightarrow>
             if sq_resolved st then (case sq_error st of Some e \<Rightarrow> Rejected e | None \<Rightarrow> Resolved, p)
             else (Unsettled, p\<lparr>pr_seqState := AList.update ep
                     (AList.update seq (st\<lparr>sq_waiters := sq_waiters st @ [fid]\<rparr>) epochMap) (pr_seqState p)\<rparr>)
         | None \<Rightarrow> (Unsettled, p\<lparr>pr_seqState := AList.update ep
                     (AList.update seq \<lparr>sq_resolved = False, sq_error = None, sq_waiters = [fid]\<rparr> epochMap) (pr_seqState p)\<rparr>))"

text \<open>The loop that collects the promises, and \<^verbatim>\<open>Promise.all\<close> on them.\<close>

fun wait_all :: "nat \<Rightarrow> nat list \<Rightarrow> nat \<Rightarrow> producer \<Rightarrow> (nat \<times> wait_outcome) list \<times> producer" where
  "wait_all ep [] fid p = ([], p)"
| "wait_all ep (s # ss) fid p =
     (case waitForSeq ep s fid p of
        (r, p1) \<Rightarrow> (case wait_all ep ss fid p1 of (rs, p2) \<Rightarrow> ((s, r) # rs, p2)))"

definition promise_all :: "(nat \<times> wait_outcome) list \<Rightarrow> phase" where
  "promise_all rs =
     (case List.map_filter (\<lambda>(s, r). case r of Rejected e \<Rightarrow> Some e | _ \<Rightarrow> None) rs of
        e # _ \<Rightarrow> Waited (Some e)
      | [] \<Rightarrow> (case List.map_filter (\<lambda>(s, r). if r = Unsettled then Some s else None) rs of
                 [] \<Rightarrow> Waited None | ss \<Rightarrow> Waiting ss))"

section \<open>Answers\<close>

definition batch_done :: "string \<Rightarrow> flight \<Rightarrow> producer \<Rightarrow> producer" where
  "batch_done offset f p =
     queue_release f (signalSeqComplete (fl_epoch f) (bt_seq (fl_task f)) None
       ((recordSuccessfulOffset offset p)\<lparr>pr_epochClaimed := True\<rparr>))"

definition batch_failed :: "producer_error \<Rightarrow> flight \<Rightarrow> producer \<Rightarrow> producer" where
  "batch_failed e f p =
     queue_release f ((signalSeqComplete (fl_epoch f) (bt_seq (fl_task f)) (Some e) p)\<lparr>pr_errors := pr_errors p @ [e]\<rparr>)"

definition header_nat :: "http_response \<Rightarrow> string \<Rightarrow> nat \<Rightarrow> nat" where
  "header_nat rs name dflt =
     (case get_header rs name of
        Some s \<Rightarrow> if s = [] then dflt else (case js_parseInt s of Some n \<Rightarrow> nat n | None \<Rightarrow> dflt)
      | None \<Rightarrow> dflt)"

text \<open>The rest of \<^verbatim>\<open>doSendBatch\<close> once the answer is there.\<close>

definition handle_reply :: "http_response \<Rightarrow> flight \<Rightarrow> producer \<Rightarrow> producer" where
  "handle_reply rs f p =
     (if rs_status rs = 204 then batch_done [] f p
      else if rs_status rs = 200 then
        batch_done (case get_header rs STREAM_OFFSET_HEADER of Some x \<Rightarrow> x | None \<Rightarrow> []) f p
      else if rs_status rs = 403 then
        (let currentEpoch = header_nat rs PRODUCER_EPOCH_HEADER (fl_sendEpoch f)
         in if pr_autoClaim p then
              (let newEpoch = currentEpoch + 1; f1 = f\<lparr>fl_sendEpoch := newEpoch, fl_sendSeq := 0, fl_phase := Sending\<rparr>
               in send_flight f1 (set_flight f1 (p\<lparr>pr_epoch := newEpoch, pr_nextSeq := 1\<rparr>)))
            else batch_failed (Stale_epoch currentEpoch) f p)
      else if rs_status rs = 409 then
        (let expectedSeq = header_nat rs PRODUCER_EXPECTED_SEQ_HEADER 0
         in if expectedSeq < fl_sendSeq f then
              (let (rs', p1) = wait_all (fl_sendEpoch f) [expectedSeq..<fl_sendSeq f] (fl_id f) p
               in set_flight (f\<lparr>fl_phase := promise_all rs'\<rparr>) p1)
            else batch_failed (Sequence_gap expectedSeq (header_nat rs PRODUCER_RECEIVED_SEQ_HEADER (fl_sendSeq f))) f p)
      else batch_failed (Refused (rs_status rs)) f p)"

definition resume_wait :: "flight \<Rightarrow> producer \<Rightarrow> producer" where
  "resume_wait f p =
     (case fl_phase f of
        Waited None \<Rightarrow> (let f1 = f\<lparr>fl_phase := Sending\<rparr> in send_flight f1 (set_flight f1 p))
      | Waited (Some e) \<Rightarrow> batch_failed e f p
      | _ \<Rightarrow> p)"

section \<open>Closing\<close>

text \<open>\<^verbatim>\<open>close\<close> up to its flush, unless the result is there already; then \<^verbatim>\<open>doClose\<close> sends its request and takes
  the answer, which after a claim is a request again.\<close>

definition close_start :: "bytes option \<Rightarrow> producer \<Rightarrow> string + producer" where
  "close_start finalMessage p =
     (if pr_closed p then (case pr_closeResult p of Some r \<Rightarrow> Inl r | None \<Rightarrow> Inr (flush p))
      else Inr (flush (p\<lparr>pr_closed := True, pr_finalMessage := finalMessage\<rparr>)))"

definition doClose :: "producer \<Rightarrow> producer" where
  "doClose p =
     p\<lparr>pr_sent := pr_sent p @ [\<lparr>pq_flight = None, pq_epoch = pr_epoch p, pq_seq = pr_nextSeq p,
        pq_body = map_option (\<lambda>m. batch_body (producer_isJson p) [m]) (pr_finalMessage p), pq_close = True\<rparr>]\<rparr>"

definition close_reply :: "http_response \<Rightarrow> producer \<Rightarrow> (producer_error + string option) \<times> producer" where
  "close_reply rs p =
     (if rs_status rs = 204 \<or> rs_status rs = 200 then
        (let finalOffset = (case get_header rs STREAM_OFFSET_HEADER of Some x \<Rightarrow> x | None \<Rightarrow> [])
         in (Inr (Some finalOffset),
             (recordSuccessfulOffset finalOffset (p\<lparr>pr_nextSeq := pr_nextSeq p + 1\<rparr>))\<lparr>pr_closeResult := Some finalOffset\<rparr>))
      else if rs_status rs = 403 then
        (let currentEpoch = header_nat rs PRODUCER_EPOCH_HEADER (pr_epoch p)
         in if pr_autoClaim p then (Inr None, doClose (p\<lparr>pr_epoch := currentEpoch + 1, pr_nextSeq := 0\<rparr>))
            else (Inl (Stale_epoch currentEpoch), p))
      else (Inl (Refused (rs_status rs)), p))"

end
