(* ===== verification/Producer_Delivery.thy ===== *)
theory Producer_Delivery
  imports Client_Producer "HOL-Library.Sublist"
begin

text \<open>
  The idempotent producer against the server's validation of producers: requests arrive in any order, late,
  several times or never, answers get lost, the server may refuse. Without automatic claims, what the
  server stores is a subsequence of the batches in the order of their appends, each at most once, and
  when the producer has drained without an error it is all of them. With automatic claims, batches can be
  lost (\<open>autoclaim_loses_batch\<close>).
\<close>

section \<open>The system\<close>

text \<open>What the server answers to an append of a producer, by the result of its validation
  (\<^verbatim>\<open>handleAppend\<close>): this is \<open>result_response\<close> on a stream that is not closed.\<close>

definition producer_response :: "string \<Rightarrow> nat \<Rightarrow> nat \<Rightarrow> producer_validation_result \<Rightarrow> http_response" where
  "producer_response offset ep seq v =
     (case v of
        Accepted _ _ _ \<Rightarrow> respond 200 [(STREAM_OFFSET_HEADER, offset), (PRODUCER_EPOCH_HEADER, nat_string ep), (PRODUCER_SEQ_HEADER, nat_string seq)]
      | Duplicate l \<Rightarrow> (case duplicate_headers ep l of None \<Rightarrow> type_error | Some hs \<Rightarrow> respond 204 hs)
      | StaleEpoch currentEpoch \<Rightarrow> stale_response currentEpoch
      | InvalidEpochSeq \<Rightarrow> plain 400 ''New epoch must start with sequence 0''
      | SequenceGap expectedSeq receivedSeq \<Rightarrow> gap_response expectedSeq receivedSeq
      | StreamClosed \<Rightarrow> type_error)"

lemma producer_response_is:
  "fst (result_response env path (Some (i, ep, seq))
     \<lparr>ar_message = (if is_accepted v then Some m else None), ar_producerResult = Some v, ar_streamClosed = False\<rparr> sv)
   = producer_response (m_offset m) ep seq v"
  by (auto simp: result_response_def producer_response_def is_accepted_def set_if_def split: producer_validation_result.splits option.splits)

record producer_system =
  sy_producer :: producer
  sy_server :: "producer_state option"
  sy_log :: "bytes list"
  sy_replies :: "(producer_request \<times> http_response) list"
  sy_appended :: "bytes list"

text \<open>\<open>Serve k\<close> is the arrival of the k-th request ever sent, at any time and any number of times; \<open>Refuse\<close> answers
  one with any other status; \<open>Answer\<close> gives a flight an answer to its request, \<open>Lose\<close> fails the request.\<close>

datatype system_op =
    Append bytes
  | Linger
  | Flush
  | Detach
  | Restart
  | Abort
  | Push_deferred
  | Serve nat int string
  | Refuse nat http_response
  | Answer nat nat
  | Lose nat
  | Resume nat

definition find_flight :: "nat \<Rightarrow> producer \<Rightarrow> flight option" where
  "find_flight i p = find (\<lambda>f. fl_id f = i) (pr_flights p)"

definition answers :: "producer_request \<Rightarrow> flight \<Rightarrow> bool" where
  "answers r f \<longleftrightarrow> fl_phase f = Sending \<and> pq_flight r = Some (fl_id f) \<and> pq_epoch r = fl_sendEpoch f \<and> pq_seq r = fl_sendSeq f"

type_synonym validator = "int \<Rightarrow> producer_state option \<Rightarrow> string \<Rightarrow> nat \<Rightarrow> nat \<Rightarrow> producer_validation_result"

definition serve :: "validator \<Rightarrow> string \<Rightarrow> int \<Rightarrow> string \<Rightarrow> producer_request \<Rightarrow> producer_system \<Rightarrow> producer_system" where
  "serve decide i t offset r s =
     (let v = decide t (sy_server s) i (pq_epoch r) (pq_seq r);
          s1 = s\<lparr>sy_replies := sy_replies s @ [(r, producer_response offset (pq_epoch r) (pq_seq r) v)]\<rparr>
      in case v of
           Accepted _ st _ \<Rightarrow> s1\<lparr>sy_server := Some st, sy_log := sy_log s @ [the (pq_body r)]\<rparr>
         | _ \<Rightarrow> s1)"

definition on_producer :: "(producer \<Rightarrow> producer) \<Rightarrow> producer_system \<Rightarrow> producer_system" where
  "on_producer g s = s\<lparr>sy_producer := g (sy_producer s)\<rparr>"

definition on_flight :: "nat \<Rightarrow> (flight \<Rightarrow> producer \<Rightarrow> producer) \<Rightarrow> producer_system \<Rightarrow> producer_system" where
  "on_flight i g s = (case find_flight i (sy_producer s) of Some f \<Rightarrow> on_producer (g f) s | None \<Rightarrow> s)"

fun system_step :: "validator \<Rightarrow> string \<Rightarrow> system_op \<Rightarrow> producer_system \<Rightarrow> producer_system" where
  "system_step decide i (Append b) s =
     (case append_body b (sy_producer s) of Inr p \<Rightarrow> s\<lparr>sy_producer := p, sy_appended := sy_appended s @ [b]\<rparr> | Inl _ \<Rightarrow> s)"
| "system_step decide i Linger s = (if pr_linger (sy_producer s) then on_producer linger_fires s else s)"
| "system_step decide i Flush s = on_producer flush s"
| "system_step decide i Detach s = on_producer detach s"
| "system_step decide i Restart s =
     (if drained (sy_producer s) \<and> pr_pending (sy_producer s) = [] then on_producer restart s else s)"
| "system_step decide i Abort s = on_producer (rejectPendingBatch Producer_aborted) s"
| "system_step decide i Push_deferred s = (if inFlightCount (sy_producer s) = 0 then on_producer push_deferred s else s)"
| "system_step decide i (Serve k t offset) s =
     (if k < length (pr_sent (sy_producer s)) then serve decide i t offset (pr_sent (sy_producer s) ! k) s else s)"
| "system_step decide i (Refuse k rs) s =
     (if k < length (pr_sent (sy_producer s)) \<and> rs_status rs \<noteq> 200 \<and> rs_status rs \<noteq> 204
      then s\<lparr>sy_replies := sy_replies s @ [(pr_sent (sy_producer s) ! k, rs)]\<rparr> else s)"
| "system_step decide i (Answer j k) s =
     on_flight j (\<lambda>f p. if k < length (sy_replies s) \<and> answers (fst (sy_replies s ! k)) f
                        then handle_reply (snd (sy_replies s ! k)) f p else p) s"
| "system_step decide i (Lose j) s = on_flight j (\<lambda>f p. if fl_phase f = Sending then batch_failed Network_error f p else p) s"
| "system_step decide i (Resume j) s = on_flight j resume_wait s"

definition system_start :: "producer \<Rightarrow> producer_system" where
  "system_start p = \<lparr>sy_producer = p, sy_server = None, sy_log = [], sy_replies = [], sy_appended = []\<rparr>"

definition system_run :: "validator \<Rightarrow> string \<Rightarrow> producer \<Rightarrow> system_op list \<Rightarrow> producer_system" where
  "system_run decide i p ops = fold (system_step decide i) ops (system_start p)"

section \<open>What the operations do to the producer\<close>

definition batches_of :: "nat \<Rightarrow> (nat \<times> bytes list) list \<Rightarrow> bytes list list" where
  "batches_of e ps = map snd (filter (\<lambda>x. fst x = e) ps)"

definition numbered :: "producer \<Rightarrow> nat \<Rightarrow> nat \<Rightarrow> bytes list \<Rightarrow> bool" where
  "numbered p e q b \<longleftrightarrow> q < length (batches_of e (pr_pushed p)) \<and> batches_of e (pr_pushed p) ! q = b"

definition outstanding :: "producer \<Rightarrow> (nat \<times> nat) set" where
  "outstanding p = (\<lambda>t. (pr_epoch p, bt_seq t)) ` set (pr_queue p) \<union> (\<lambda>f. (fl_epoch f, bt_seq (fl_task f))) ` set (pr_flights p)"

definition flight_ok :: "producer \<Rightarrow> flight \<Rightarrow> bool" where
  "flight_ok p f \<longleftrightarrow> fl_epoch f = pr_epoch p \<and> fl_sendEpoch f = pr_epoch p \<and> fl_sendSeq f = bt_seq (fl_task f)
     \<and> numbered p (pr_epoch p) (bt_seq (fl_task f)) (bt_batch (fl_task f)) \<and> fl_id f < pr_nextFlight p"

definition request_ok :: "producer \<Rightarrow> producer_request \<Rightarrow> bool" where
  "request_ok p r \<longleftrightarrow> (\<exists>b. numbered p (pq_epoch r) (pq_seq r) b \<and> pq_body r = Some (batch_body (producer_isJson p) b))"

definition producer_inv :: "producer \<Rightarrow> bool" where
  "producer_inv p \<longleftrightarrow> \<not> pr_autoClaim p \<and> pr_deferred p = []
     \<and> sorted (map fst (pr_pushed p)) \<and> (\<forall>x\<in>set (pr_pushed p). fst x \<le> pr_epoch p)
     \<and> pr_nextSeq p = length (batches_of (pr_epoch p) (pr_pushed p))
     \<and> (\<forall>t\<in>set (pr_queue p). numbered p (pr_epoch p) (bt_seq t) (bt_batch t))
     \<and> (\<forall>f\<in>set (pr_flights p). flight_ok p f) \<and> distinct (map fl_id (pr_flights p))
     \<and> (\<forall>r\<in>set (pr_sent p). request_ok p r)"

lemma batches_of_snoc: "batches_of e (ps @ [(e', b)]) = batches_of e ps @ (if e' = e then [b] else [])"
  by (simp add: batches_of_def)

lemma isJson_eq: "pr_contentType q = pr_contentType p \<Longrightarrow> producer_isJson q = producer_isJson p"
  by (simp add: producer_isJson_def stream_type_def)

lemma numbered_eq: "pr_pushed q = pr_pushed p \<Longrightarrow> numbered q = numbered p"
  by (simp add: numbered_def fun_eq_iff)

text \<open>The invariant depends on few fields, and requests and flights may go away.\<close>

lemma producer_inv_mono:
  assumes "producer_inv p" "pr_autoClaim q = pr_autoClaim p" "pr_deferred q = pr_deferred p" "pr_pushed q = pr_pushed p"
    "pr_epoch q = pr_epoch p" "pr_nextSeq q = pr_nextSeq p" "pr_contentType q = pr_contentType p"
    "pr_nextFlight q = pr_nextFlight p" "pr_sent q = pr_sent p" "set (pr_queue q) \<subseteq> set (pr_queue p)"
    "\<forall>f\<in>set (pr_flights q). flight_ok p f" "distinct (map fl_id (pr_flights q))"
  shows "producer_inv q"
  using assms by (auto simp: producer_inv_def flight_ok_def request_ok_def numbered_eq[OF assms(4)] isJson_eq[OF assms(7)])

lemma producer_inv_same:
  assumes "producer_inv p" "pr_autoClaim q = pr_autoClaim p" "pr_deferred q = pr_deferred p" "pr_pushed q = pr_pushed p"
    "pr_epoch q = pr_epoch p" "pr_nextSeq q = pr_nextSeq p" "pr_contentType q = pr_contentType p"
    "pr_nextFlight q = pr_nextFlight p" "pr_sent q = pr_sent p" "pr_queue q = pr_queue p" "pr_flights q = pr_flights p"
  shows "producer_inv q"
  by (rule producer_inv_mono[OF assms(1)]) (use assms in \<open>simp_all add: producer_inv_def\<close>)

lemma send_flight_simps [simp]:
  "pr_autoClaim (send_flight f p) = pr_autoClaim p" "pr_deferred (send_flight f p) = pr_deferred p"
  "pr_pushed (send_flight f p) = pr_pushed p" "pr_epoch (send_flight f p) = pr_epoch p" "pr_nextSeq (send_flight f p) = pr_nextSeq p"
  "pr_contentType (send_flight f p) = pr_contentType p" "pr_nextFlight (send_flight f p) = pr_nextFlight p"
  "pr_queue (send_flight f p) = pr_queue p" "pr_flights (send_flight f p) = pr_flights p" "pr_errors (send_flight f p) = pr_errors p"
  "pr_pending (send_flight f p) = pr_pending p"
  by (simp_all add: send_flight_def)

lemma send_flight_inv: "producer_inv p \<Longrightarrow> flight_ok p f \<Longrightarrow> producer_inv (send_flight f p)"
  using isJson_eq[of "send_flight f p" p] numbered_eq[of "send_flight f p" p]
  by (auto simp: producer_inv_def flight_ok_def request_ok_def) (auto simp: send_flight_def)

lemma start_worker_inv:
  assumes "producer_inv p" "numbered p (pr_epoch p) (bt_seq t) (bt_batch t)"
  shows "producer_inv (start_worker t p)"
proof -
  define f where "f = \<lparr>fl_id = pr_nextFlight p, fl_task = t, fl_epoch = pr_epoch p, fl_sendEpoch = pr_epoch p,
      fl_sendSeq = bt_seq t, fl_phase = Sending\<rparr>"
  define q where "q = p\<lparr>pr_flights := pr_flights p @ [f], pr_nextFlight := pr_nextFlight p + 1\<rparr>"
  have n: "numbered q = numbered p" "producer_isJson q = producer_isJson p"
    by (simp_all add: q_def numbered_def fun_eq_iff producer_isJson_def stream_type_def)
  have "flight_ok q f" using assms(2) n(1) by (simp add: flight_ok_def q_def f_def)
  moreover have "producer_inv q"
    using assms by (auto simp: producer_inv_def flight_ok_def request_ok_def n) (auto simp: q_def f_def less_Suc_eq)
  ultimately show ?thesis using send_flight_inv by (simp add: start_worker_def Let_def q_def f_def)
qed

lemma start_worker_simps [simp]:
  "pr_pushed (start_worker t p) = pr_pushed p" "pr_epoch (start_worker t p) = pr_epoch p" "pr_errors (start_worker t p) = pr_errors p"
  "pr_pending (start_worker t p) = pr_pending p" "pr_queue (start_worker t p) = pr_queue p" "pr_contentType (start_worker t p) = pr_contentType p"
  by (simp_all add: start_worker_def Let_def)

lemma start_worker_outstanding: "outstanding (start_worker t p) = insert (pr_epoch p, bt_seq t) (outstanding p)"
  by (auto simp: outstanding_def start_worker_def Let_def)

lemma queue_push_inv:
  assumes "producer_inv p" "numbered p (pr_epoch p) (bt_seq t) (bt_batch t)"
  shows "producer_inv (queue_push t p)"
  using assms start_worker_inv[OF assms] isJson_eq[of "p\<lparr>pr_queue := pr_queue p @ [t]\<rparr>" p] numbered_eq[of "p\<lparr>pr_queue := pr_queue p @ [t]\<rparr>" p]
  by (auto simp: queue_push_def producer_inv_def flight_ok_def request_ok_def)

lemma queue_push_outstanding: "outstanding (queue_push t p) = insert (pr_epoch p, bt_seq t) (outstanding p)"
  by (auto simp: queue_push_def start_worker_outstanding) (auto simp: outstanding_def)

lemma queue_push_simps [simp]:
  "pr_pushed (queue_push t p) = pr_pushed p" "pr_epoch (queue_push t p) = pr_epoch p" "pr_errors (queue_push t p) = pr_errors p"
  "pr_pending (queue_push t p) = pr_pending p" "pr_contentType (queue_push t p) = pr_contentType p"
  by (simp_all add: queue_push_def)

lemma numbered_pushed:
  "pr_pushed q = pr_pushed p @ [x] \<Longrightarrow> numbered p e n b \<Longrightarrow> numbered q e n b"
  by (cases x) (auto simp: numbered_def batches_of_snoc nth_append)

lemma pushBatch_inv: "producer_inv p \<Longrightarrow> producer_inv (pushBatch batch p)"
proof -
  assume p: "producer_inv p"
  define q where "q = p\<lparr>pr_nextSeq := pr_nextSeq p + 1, pr_pushed := pr_pushed p @ [(pr_epoch p, batch)]\<rparr>"
  have n: "numbered p e k b \<Longrightarrow> numbered q e k b" for e k b by (rule numbered_pushed) (simp_all add: q_def)
  have j: "producer_isJson q = producer_isJson p" by (rule isJson_eq) (simp add: q_def)
  have f: "flight_ok p f \<Longrightarrow> flight_ok q f" for f using n by (simp add: flight_ok_def) (simp add: q_def)
  have r: "request_ok p x \<Longrightarrow> request_ok q x" for x using n j by (auto simp: request_ok_def)
  have [simp]: "pr_autoClaim q = pr_autoClaim p" "pr_deferred q = pr_deferred p" "pr_epoch q = pr_epoch p" "pr_queue q = pr_queue p"
    "pr_flights q = pr_flights p" "pr_sent q = pr_sent p" "pr_nextSeq q = pr_nextSeq p + 1"
    "pr_pushed q = pr_pushed p @ [(pr_epoch p, batch)]" by (simp_all add: q_def)
  have "producer_inv q" using p n f r by (simp add: producer_inv_def sorted_append batches_of_snoc)
  moreover have "numbered q (pr_epoch q) (pr_nextSeq p) batch"
    using p by (simp add: numbered_def batches_of_snoc producer_inv_def)
  ultimately show ?thesis unfolding pushBatch_def q_def[symmetric] by (intro queue_push_inv) simp_all
qed

lemma pushBatch_effect:
  "pr_pushed (pushBatch batch p) = pr_pushed p @ [(pr_epoch p, batch)]" "pr_errors (pushBatch batch p) = pr_errors p"
  "pr_pending (pushBatch batch p) = pr_pending p" "pr_contentType (pushBatch batch p) = pr_contentType p"
  "outstanding (pushBatch batch p) = insert (pr_epoch p, pr_nextSeq p) (outstanding p)"
  unfolding pushBatch_def queue_push_outstanding by (simp_all add: outstanding_def)

lemma wake_flight_simps [simp]:
  "fl_id (wake_flight q e ws f) = fl_id f" "fl_task (wake_flight q e ws f) = fl_task f" "fl_epoch (wake_flight q e ws f) = fl_epoch f"
  "fl_sendEpoch (wake_flight q e ws f) = fl_sendEpoch f" "fl_sendSeq (wake_flight q e ws f) = fl_sendSeq f"
  by (simp_all add: wake_flight_def Let_def split: phase.splits option.splits)

lemma signal_simps [simp]:
  "pr_autoClaim (signalSeqComplete ep q e p) = pr_autoClaim p" "pr_deferred (signalSeqComplete ep q e p) = pr_deferred p"
  "pr_pushed (signalSeqComplete ep q e p) = pr_pushed p" "pr_epoch (signalSeqComplete ep q e p) = pr_epoch p"
  "pr_nextSeq (signalSeqComplete ep q e p) = pr_nextSeq p" "pr_contentType (signalSeqComplete ep q e p) = pr_contentType p"
  "pr_nextFlight (signalSeqComplete ep q e p) = pr_nextFlight p" "pr_queue (signalSeqComplete ep q e p) = pr_queue p"
  "pr_sent (signalSeqComplete ep q e p) = pr_sent p" "pr_errors (signalSeqComplete ep q e p) = pr_errors p"
  "pr_pending (signalSeqComplete ep q e p) = pr_pending p"
  by (simp_all add: signalSeqComplete_def Let_def)

lemma signal_flights: "\<exists>ws. pr_flights (signalSeqComplete ep q e p) = map (wake_flight q e ws) (pr_flights p)"
  by (simp add: signalSeqComplete_def Let_def) blast

lemma signal_inv: "producer_inv p \<Longrightarrow> producer_inv (signalSeqComplete ep q e p)"
proof -
  assume p: "producer_inv p"
  obtain ws where w: "pr_flights (signalSeqComplete ep q e p) = map (wake_flight q e ws) (pr_flights p)" using signal_flights by blast
  show ?thesis using p by (intro producer_inv_mono[OF p]) (auto simp: w producer_inv_def flight_ok_def o_def)
qed

lemma signal_outstanding: "outstanding (signalSeqComplete ep q e p) = outstanding p"
proof -
  obtain ws where w: "pr_flights (signalSeqComplete ep q e p) = map (wake_flight q e ws) (pr_flights p)" using signal_flights by blast
  show ?thesis by (simp add: outstanding_def w image_image)
qed

definition key_of :: "flight \<Rightarrow> nat \<times> nat" where
  "key_of f = (fl_epoch f, bt_seq (fl_task f))"

lemma release_inv: "producer_inv p \<Longrightarrow> producer_inv (queue_release f p)"
proof -
  assume p: "producer_inv p"
  define q where "q = p\<lparr>pr_flights := filter (\<lambda>g. fl_id g \<noteq> fl_id f) (pr_flights p)\<rparr>"
  have fl: "\<forall>g\<in>set (pr_flights q). flight_ok p g" "distinct (map fl_id (pr_flights q))"
    using p by (auto simp: q_def producer_inv_def distinct_map_filter)
  show ?thesis
  proof (cases "pr_queue q")
    case Nil
    have "producer_inv q" by (rule producer_inv_mono[OF p]) (use fl in \<open>simp_all add: q_def\<close>)
    then show ?thesis using Nil unfolding queue_release_def q_def[symmetric] Let_def by simp
  next
    case (Cons t ts)
    have "producer_inv (q\<lparr>pr_queue := ts\<rparr>)"
      by (rule producer_inv_mono[OF p]) (use fl Cons in \<open>auto simp: q_def\<close>)
    moreover have "numbered (q\<lparr>pr_queue := ts\<rparr>) (pr_epoch (q\<lparr>pr_queue := ts\<rparr>)) (bt_seq t) (bt_batch t)"
      using p Cons by (simp add: producer_inv_def q_def numbered_def)
    ultimately show ?thesis using Cons unfolding queue_release_def q_def[symmetric] Let_def by (simp add: start_worker_inv)
  qed
qed

lemma release_effect:
  "pr_pushed (queue_release f p) = pr_pushed p" "pr_errors (queue_release f p) = pr_errors p"
  "pr_pending (queue_release f p) = pr_pending p" "pr_contentType (queue_release f p) = pr_contentType p"
  by (simp_all add: queue_release_def Let_def split: list.splits)

lemma release_outstanding:
  assumes "distinct (map fl_id (pr_flights p))" "\<exists>g\<in>set (pr_flights p). fl_id g = fl_id f \<and> key_of g = key_of f"
  shows "outstanding p \<subseteq> insert (key_of f) (outstanding (queue_release f p))"
proof -
  define q where "q = p\<lparr>pr_flights := filter (\<lambda>g. fl_id g \<noteq> fl_id f) (pr_flights p)\<rparr>"
  have q: "outstanding p \<subseteq> insert (key_of f) (outstanding q)"
  proof
    fix x assume "x \<in> outstanding p"
    moreover have "key_of g = key_of f" if "g \<in> set (pr_flights p)" "fl_id g = fl_id f" for g
      using assms that by (metis distinct_map inj_onD)
    ultimately show "x \<in> insert (key_of f) (outstanding q)" by (auto simp: outstanding_def q_def key_of_def)
  qed
  have "outstanding q \<subseteq> outstanding (queue_release f p)"
    unfolding queue_release_def q_def[symmetric] Let_def
    by (auto simp: start_worker_outstanding split: list.splits) (auto simp: outstanding_def)
  with q show ?thesis by blast
qed

text \<open>A step of a flight keeps what has been pushed; unless it reports an error, every batch that was under way
  still is, except those in \<open>K\<close>.\<close>

definition moves :: "(nat \<times> nat) set \<Rightarrow> producer \<Rightarrow> producer \<Rightarrow> bool" where
  "moves K p q \<longleftrightarrow> producer_inv q \<and> pr_pushed q = pr_pushed p \<and> pr_pending q = pr_pending p
     \<and> pr_contentType q = pr_contentType p
     \<and> (pr_errors q = [] \<longrightarrow> pr_errors p = [] \<and> outstanding p \<subseteq> K \<union> outstanding q)"

lemma moves_refl: "producer_inv p \<Longrightarrow> moves {} p p"
  by (simp add: moves_def)

lemma release_after_signal:
  assumes "producer_inv p" "f \<in> set (pr_flights p)" "pr_flights p1 = pr_flights p"
    and "producer_inv p1" "pr_queue p1 = pr_queue p" "pr_epoch p1 = pr_epoch p"
  shows "outstanding p \<subseteq> insert (key_of f) (outstanding (queue_release f (signalSeqComplete ep q e p1)))"
proof -
  obtain ws where w: "pr_flights (signalSeqComplete ep q e p1) = map (wake_flight q e ws) (pr_flights p1)" using signal_flights by blast
  have "outstanding p = outstanding (signalSeqComplete ep q e p1)"
    by (simp add: signal_outstanding) (simp add: outstanding_def assms)
  also have "\<dots> \<subseteq> insert (key_of f) (outstanding (queue_release f (signalSeqComplete ep q e p1)))"
    using assms(1,2,3) by (intro release_outstanding) (auto simp: w producer_inv_def o_def key_of_def intro!: bexI[of _ f])
  finally show ?thesis .
qed

lemma recorded_simps [simp]:
  "pr_autoClaim (recordSuccessfulOffset x p) = pr_autoClaim p" "pr_deferred (recordSuccessfulOffset x p) = pr_deferred p"
  "pr_pushed (recordSuccessfulOffset x p) = pr_pushed p" "pr_epoch (recordSuccessfulOffset x p) = pr_epoch p"
  "pr_nextSeq (recordSuccessfulOffset x p) = pr_nextSeq p" "pr_contentType (recordSuccessfulOffset x p) = pr_contentType p"
  "pr_nextFlight (recordSuccessfulOffset x p) = pr_nextFlight p" "pr_queue (recordSuccessfulOffset x p) = pr_queue p"
  "pr_sent (recordSuccessfulOffset x p) = pr_sent p" "pr_errors (recordSuccessfulOffset x p) = pr_errors p"
  "pr_pending (recordSuccessfulOffset x p) = pr_pending p" "pr_flights (recordSuccessfulOffset x p) = pr_flights p"
  by (simp_all add: recordSuccessfulOffset_def)

lemma batch_done_moves:
  assumes "producer_inv p" "f \<in> set (pr_flights p)"
  shows "moves {key_of f} p (batch_done x f p)"
proof -
  define p1 where "p1 = (recordSuccessfulOffset x p)\<lparr>pr_epochClaimed := True\<rparr>"
  have "producer_inv p1" by (rule producer_inv_mono[OF assms(1)]) (use assms in \<open>simp_all add: p1_def producer_inv_def\<close>)
  then show ?thesis
    using release_after_signal[OF assms, of p1] release_inv signal_inv
    unfolding moves_def batch_done_def p1_def[symmetric] by (simp add: release_effect) (simp add: p1_def)
qed

lemma batch_failed_moves:
  assumes "producer_inv p" "f \<in> set (pr_flights p)"
  shows "moves {} p (batch_failed e f p)"
proof -
  have "producer_inv ((signalSeqComplete ep q (Some e) p)\<lparr>pr_errors := es\<rparr>)" for ep q es
  proof (rule producer_inv_mono[OF signal_inv[OF assms(1), of ep q "Some e"]])
    show "\<forall>f\<in>set (pr_flights ((signalSeqComplete ep q (Some e) p)\<lparr>pr_errors := es\<rparr>)). flight_ok (signalSeqComplete ep q (Some e) p) f"
      "distinct (map fl_id (pr_flights ((signalSeqComplete ep q (Some e) p)\<lparr>pr_errors := es\<rparr>)))"
      using signal_inv[OF assms(1), of ep q "Some e"] unfolding producer_inv_def by simp_all
  qed simp_all
  then show ?thesis unfolding moves_def batch_failed_def by (simp add: release_effect release_inv)
qed

lemma waitForSeq_simps [simp]:
  "pr_autoClaim (snd (waitForSeq ep q i p)) = pr_autoClaim p" "pr_deferred (snd (waitForSeq ep q i p)) = pr_deferred p"
  "pr_pushed (snd (waitForSeq ep q i p)) = pr_pushed p" "pr_epoch (snd (waitForSeq ep q i p)) = pr_epoch p"
  "pr_nextSeq (snd (waitForSeq ep q i p)) = pr_nextSeq p" "pr_contentType (snd (waitForSeq ep q i p)) = pr_contentType p"
  "pr_nextFlight (snd (waitForSeq ep q i p)) = pr_nextFlight p" "pr_queue (snd (waitForSeq ep q i p)) = pr_queue p"
  "pr_sent (snd (waitForSeq ep q i p)) = pr_sent p" "pr_errors (snd (waitForSeq ep q i p)) = pr_errors p"
  "pr_pending (snd (waitForSeq ep q i p)) = pr_pending p" "pr_flights (snd (waitForSeq ep q i p)) = pr_flights p"
  by (simp_all add: waitForSeq_def Let_def split: option.splits)

lemma wait_all_state: "\<exists>m. snd (wait_all ep ss i p) = p\<lparr>pr_seqState := m\<rparr>"
proof (induction ss arbitrary: p)
  case Nil
  show ?case by (intro exI[of _ "pr_seqState p"]) simp
next
  case (Cons s ss)
  have "\<exists>m. snd (waitForSeq ep s i p) = p\<lparr>pr_seqState := m\<rparr>"
    by (auto simp: waitForSeq_def Let_def split: option.splits intro: exI[of _ "pr_seqState p"])
  then obtain m where "snd (waitForSeq ep s i p) = p\<lparr>pr_seqState := m\<rparr>" by blast
  with Cons.IH[of "p\<lparr>pr_seqState := m\<rparr>"] show ?case by (auto split: prod.splits)
qed

lemma set_flight_moves:
  assumes "producer_inv p" "f \<in> set (pr_flights p)"
  shows "moves {} p (set_flight (f\<lparr>fl_phase := x\<rparr>) (p\<lparr>pr_seqState := m\<rparr>)) \<and> flight_ok (set_flight (f\<lparr>fl_phase := x\<rparr>) (p\<lparr>pr_seqState := m\<rparr>)) (f\<lparr>fl_phase := x\<rparr>)"
proof -
  let ?g = "\<lambda>g. if fl_id g = fl_id (f\<lparr>fl_phase := x\<rparr>) then f\<lparr>fl_phase := x\<rparr> else g"
  have same: "g = f" if "g \<in> set (pr_flights p)" "fl_id g = fl_id f" for g
    using assms that by (metis distinct_map inj_onD producer_inv_def)
  have ids: "map fl_id (map ?g (pr_flights p)) = map fl_id (pr_flights p)" by simp
  have "distinct (map fl_id (map ?g (pr_flights p)))" unfolding ids using assms(1) by (simp add: producer_inv_def)
  then have "producer_inv (set_flight (f\<lparr>fl_phase := x\<rparr>) (p\<lparr>pr_seqState := m\<rparr>))"
    using assms by (intro producer_inv_mono[OF assms(1)]) (auto simp: set_flight_def producer_inv_def flight_ok_def)
  moreover have "outstanding (set_flight (f\<lparr>fl_phase := x\<rparr>) (p\<lparr>pr_seqState := m\<rparr>)) = outstanding p"
  proof -
    have "(\<lambda>f. (fl_epoch f, bt_seq (fl_task f))) ` set (map ?g (pr_flights p)) = (\<lambda>f. (fl_epoch f, bt_seq (fl_task f))) ` set (pr_flights p)"
      unfolding set_map image_image by (rule image_cong[OF refl]) (use same in auto)
    then show ?thesis by (simp add: outstanding_def set_flight_def)
  qed
  moreover have "flight_ok p f" using assms by (simp add: producer_inv_def)
  then have "flight_ok (set_flight (f\<lparr>fl_phase := x\<rparr>) (p\<lparr>pr_seqState := m\<rparr>)) (f\<lparr>fl_phase := x\<rparr>)"
    by (simp add: set_flight_def flight_ok_def numbered_def)
  ultimately show ?thesis by (simp add: moves_def) (simp add: set_flight_def)
qed

lemma send_moves: "moves K p q \<Longrightarrow> flight_ok q f \<Longrightarrow> moves K p (send_flight f q)"
  by (auto simp: moves_def send_flight_inv outstanding_def)

lemma handle_reply_moves:
  assumes "producer_inv p" "f \<in> set (pr_flights p)"
  shows "moves (if rs_status rs = 204 \<or> rs_status rs = 200 then {key_of f} else {}) p (handle_reply rs f p)"
proof -
  note d = batch_done_moves[OF assms] batch_failed_moves[OF assms]
  have a: "\<not> pr_autoClaim p" using assms(1) by (simp add: producer_inv_def)
  show ?thesis
  proof (cases "rs_status rs = 409 \<and> header_nat rs PRODUCER_EXPECTED_SEQ_HEADER 0 < fl_sendSeq f")
    case True
    obtain os p1 where w: "wait_all (fl_sendEpoch f) [header_nat rs PRODUCER_EXPECTED_SEQ_HEADER 0..<fl_sendSeq f] (fl_id f) p = (os, p1)"
      by fastforce
    with wait_all_state obtain m where "p1 = p\<lparr>pr_seqState := m\<rparr>" by (metis snd_conv)
    then show ?thesis using True w set_flight_moves[OF assms] by (simp add: handle_reply_def Let_def)
  qed (use a d in \<open>auto simp: handle_reply_def Let_def\<close>)
qed

lemma resume_wait_moves:
  assumes "producer_inv p" "f \<in> set (pr_flights p)"
  shows "moves {} p (resume_wait f p)"
proof -
  have [simp]: "p\<lparr>pr_seqState := pr_seqState p\<rparr> = p" by simp
  have "moves {} p (set_flight (f\<lparr>fl_phase := Sending\<rparr>) p)" "flight_ok (set_flight (f\<lparr>fl_phase := Sending\<rparr>) p) (f\<lparr>fl_phase := Sending\<rparr>)"
    using set_flight_moves[OF assms, of Sending "pr_seqState p"] by simp_all
  then show ?thesis
    using send_moves batch_failed_moves[OF assms] moves_refl[OF assms(1)]
    by (auto simp: resume_wait_def Let_def split: phase.splits option.splits)
qed

text \<open>The other operations push the pending batch, or leave the batches alone.\<close>

definition pushes :: "producer \<Rightarrow> producer \<Rightarrow> bool" where
  "pushes p q \<longleftrightarrow> producer_inv q \<and> pr_contentType q = pr_contentType p \<and> pr_errors q = pr_errors p
     \<and> (pr_pushed q = pr_pushed p \<and> pr_pending q = pr_pending p \<and> outstanding q = outstanding p
        \<or> pr_pushed q = pr_pushed p @ [(pr_epoch p, pr_pending p)] \<and> pr_pending q = []
          \<and> outstanding q = insert (pr_epoch p, pr_nextSeq p) (outstanding p))"

lemma enqueue_pushes: "producer_inv p \<Longrightarrow> pushes p (enqueuePendingBatch p)"
proof -
  assume p: "producer_inv p"
  have "producer_inv (p\<lparr>pr_pending := [], pr_batchBytes := 0\<rparr>)" by (rule producer_inv_same[OF p]) simp_all
  moreover have "\<not> pr_autoClaim p" using p by (simp add: producer_inv_def)
  ultimately show ?thesis using p
    by (auto simp: pushes_def enqueuePendingBatch_def Let_def pushBatch_inv pushBatch_effect) (auto simp: outstanding_def)
qed

lemma pushes_shift:
  assumes "pushes q r" "pr_pushed q = pr_pushed p" "pr_pending q = pr_pending p" "pr_contentType q = pr_contentType p"
    "pr_errors q = pr_errors p" "pr_epoch q = pr_epoch p" "pr_nextSeq q = pr_nextSeq p" "pr_queue q = pr_queue p" "pr_flights q = pr_flights p"
  shows "pushes p r"
  using assms by (auto simp: pushes_def outstanding_def)

lemma flush_pushes: "producer_inv p \<Longrightarrow> pushes p (flush p)" "producer_inv p \<Longrightarrow> pushes p (linger_fires p)"
  "producer_inv p \<Longrightarrow> pushes p (detach p)"
proof -
  assume p: "producer_inv p"
  have i: "producer_inv (p\<lparr>pr_linger := b\<rparr>)" "producer_inv (p\<lparr>pr_closed := True, pr_linger := b\<rparr>)" for b
    by (rule producer_inv_same[OF p]; simp)+
  have e: "pushes p (enqueuePendingBatch (p\<lparr>pr_linger := False\<rparr>))" "pushes p (enqueuePendingBatch (p\<lparr>pr_closed := True, pr_linger := False\<rparr>))"
    by (rule pushes_shift[OF enqueue_pushes[OF i(1)]]; simp) (rule pushes_shift[OF enqueue_pushes[OF i(2)]]; simp)
  show "pushes p (flush p)" "pushes p (linger_fires p)" using e(1) by (simp_all add: flush_def linger_fires_def)
  show "pushes p (detach p)" using e(2) p by (simp add: detach_def flush_def pushes_def)
qed

section \<open>What the server has\<close>

fun covered :: "producer_state option \<Rightarrow> nat \<times> nat \<Rightarrow> bool" where
  "covered None x \<longleftrightarrow> False"
| "covered (Some st) (e, q) \<longleftrightarrow> e < ps_epoch st \<or> e = ps_epoch st \<and> q \<le> ps_lastSeq st"

definition bodies :: "producer \<Rightarrow> (nat \<times> bytes list) list \<Rightarrow> bytes list" where
  "bodies p ps = map (\<lambda>x. batch_body (producer_isJson p) (snd x)) ps"

definition earlier :: "nat \<Rightarrow> producer \<Rightarrow> bytes list" where
  "earlier e p = bodies p (filter (\<lambda>x. fst x < e) (pr_pushed p))"

fun stored_ok :: "producer \<Rightarrow> producer_state option \<Rightarrow> bytes list \<Rightarrow> bool" where
  "stored_ok p None log \<longleftrightarrow> log = []"
| "stored_ok p (Some st) log \<longleftrightarrow> ps_lastSeq st < length (batches_of (ps_epoch st) (pr_pushed p))
     \<and> (\<exists>old. log = old @ map (batch_body (producer_isJson p)) (take (Suc (ps_lastSeq st)) (batches_of (ps_epoch st) (pr_pushed p)))
          \<and> subseq old (earlier (ps_epoch st) p) \<and> (pr_errors p = [] \<longrightarrow> old = earlier (ps_epoch st) p))"

definition all_under_way :: "producer \<Rightarrow> producer_state option \<Rightarrow> bool" where
  "all_under_way p st \<longleftrightarrow>
     (\<forall>e q. q < length (batches_of e (pr_pushed p)) \<longrightarrow> covered st (e, q) \<or> (e, q) \<in> outstanding p)"

definition system_inv :: "producer_system \<Rightarrow> bool" where
  "system_inv s \<longleftrightarrow> producer_inv (sy_producer s) \<and> stored_ok (sy_producer s) (sy_server s) (sy_log s)
     \<and> (\<forall>(r, rs)\<in>set (sy_replies s). rs_status rs = 204 \<or> rs_status rs = 200 \<longrightarrow> covered (sy_server s) (pq_epoch r, pq_seq r))
     \<and> (pr_errors (sy_producer s) = [] \<longrightarrow> all_under_way (sy_producer s) (sy_server s)
          \<and> concat (map snd (pr_pushed (sy_producer s))) @ pr_pending (sy_producer s) = sy_appended s)"

lemma sorted_epochs:
  fixes ps :: "(nat \<times> 'b) list"
  assumes "sorted (map fst ps)"
  shows "ps = filter (\<lambda>x. fst x < e) ps @ filter (\<lambda>x. fst x = e) ps @ filter (\<lambda>x. fst x > e) ps"
  using assms
proof (induction ps)
  case (Cons x ps)
  consider "fst x < e" | "fst x = e" "filter (\<lambda>x. fst x < e) ps = []"
    | "fst x > e" "filter (\<lambda>x. fst x < e) ps = []" "filter (\<lambda>x. fst x = e) ps = []"
    using Cons.prems by (fastforce simp: filter_empty_conv)
  then show ?case using Cons by cases auto
qed simp

lemma bodies_append [simp]: "bodies p (xs @ ys) = bodies p xs @ bodies p ys"
  by (simp add: bodies_def)

lemma bodies_epoch: "bodies p (filter (\<lambda>x. fst x = e) ps) = map (batch_body (producer_isJson p)) (batches_of e ps)"
  by (simp add: bodies_def batches_of_def)

lemma earlier_next:
  assumes "sorted (map fst (pr_pushed p))" "e < e'"
  shows "earlier e' p = earlier e p @ map (batch_body (producer_isJson p)) (batches_of e (pr_pushed p))
    @ bodies p (filter (\<lambda>x. fst x < e' \<and> e < fst x) (pr_pushed p))"
proof -
  let ?ps = "filter (\<lambda>x. fst x < e') (pr_pushed p)"
  have "sorted (map fst ?ps)" using assms(1) by (rule sorted_filter)
  from arg_cong[OF sorted_epochs[OF this, of e], of "bodies p"]
  have "bodies p ?ps = bodies p (filter (\<lambda>x. fst x < e) ?ps) @ bodies p (filter (\<lambda>x. fst x = e) ?ps)
      @ bodies p (filter (\<lambda>x. fst x > e) ?ps)" by (simp only: bodies_append)
  moreover have "filter (\<lambda>x. fst x < e) ?ps = filter (\<lambda>x. fst x < e) (pr_pushed p)"
    "filter (\<lambda>x. fst x = e) ?ps = filter (\<lambda>x. fst x = e) (pr_pushed p)"
    using assms(2) by (auto intro!: filter_cong)
  ultimately show ?thesis unfolding earlier_def by (simp add: bodies_epoch)
qed

lemma pushed_epochs:
  assumes "producer_inv p"
  shows "bodies p (pr_pushed p) = earlier e p @ map (batch_body (producer_isJson p)) (batches_of e (pr_pushed p))
    @ bodies p (filter (\<lambda>x. fst x > e) (pr_pushed p))"
  using arg_cong[OF sorted_epochs[of "pr_pushed p" e], of "bodies p"] assms
  unfolding earlier_def bodies_epoch[symmetric] by (simp only: bodies_append producer_inv_def simp_thms)

lemma stored_subseq:
  assumes "producer_inv p" "stored_ok p st log"
  shows "subseq log (bodies p (pr_pushed p))"
proof (cases st)
  case (Some s)
  let ?e = "ps_epoch s"
  obtain old where o: "log = old @ map (batch_body (producer_isJson p)) (take (Suc (ps_lastSeq s)) (batches_of ?e (pr_pushed p)))"
    "subseq old (earlier ?e p)" using assms(2) Some by auto
  have "subseq (map (batch_body (producer_isJson p)) (take (Suc (ps_lastSeq s)) (batches_of ?e (pr_pushed p))))
      (map (batch_body (producer_isJson p)) (batches_of ?e (pr_pushed p)))"
    by (intro subseq_map prefix_imp_subseq take_is_prefix)
  then have "subseq log (earlier ?e p @ map (batch_body (producer_isJson p)) (batches_of ?e (pr_pushed p)))"
    unfolding o(1) by (rule list_emb_append_mono[OF o(2)])
  then have "subseq log ((earlier ?e p @ map (batch_body (producer_isJson p)) (batches_of ?e (pr_pushed p)))
      @ bodies p (filter (\<lambda>x. fst x > ?e) (pr_pushed p)))" by (rule subseq_rev_drop_many)
  then show ?thesis unfolding pushed_epochs[OF assms(1), of ?e] by simp
qed (use assms in simp)

lemma epoch_bound:
  assumes "producer_inv p" "q < length (batches_of e (pr_pushed p))"
  shows "e \<le> pr_epoch p"
proof -
  have "filter (\<lambda>x. fst x = e) (pr_pushed p) \<noteq> []" using assms(2) by (auto simp: batches_of_def)
  then obtain x where "x \<in> set (pr_pushed p)" "fst x = e" by (auto simp: filter_empty_conv)
  then show ?thesis using assms(1) by (auto simp: producer_inv_def)
qed

lemma stored_epoch: "producer_inv p \<Longrightarrow> stored_ok p (Some st) log \<Longrightarrow> ps_epoch st \<le> pr_epoch p"
  using epoch_bound by auto

lemma stored_same:
  assumes "stored_ok p st log" "pr_pushed q = pr_pushed p" "pr_contentType q = pr_contentType p" "pr_errors q = [] \<longrightarrow> pr_errors p = []"
  shows "stored_ok q st log"
  using assms isJson_eq[OF assms(3)] by (cases st) (auto simp: earlier_def bodies_def)

lemma stored_pushed:
  assumes "producer_inv p" "stored_ok p st log" "pr_pushed q = pr_pushed p @ [(pr_epoch p, b)]" "pr_contentType q = pr_contentType p"
    "pr_errors q = pr_errors p"
  shows "stored_ok q st log"
proof (cases st)
  case (Some s)
  have e: "ps_epoch s \<le> pr_epoch p" using stored_epoch assms(1,2) Some by blast
  then have "earlier (ps_epoch s) q = earlier (ps_epoch s) p" by (simp add: earlier_def bodies_def assms isJson_eq[OF assms(4)])
  then show ?thesis using assms(2,3,5) Some by (auto simp: batches_of_snoc isJson_eq[OF assms(4)])
qed (use assms in simp)

lemma stored_complete:
  assumes "producer_inv p" "stored_ok p st log" "pr_errors p = []"
    and "\<forall>e' q. e' < e \<longrightarrow> q < length (batches_of e' (pr_pushed p)) \<longrightarrow> covered st (e', q)"
    and "\<forall>s. st = Some s \<longrightarrow> ps_epoch s < e"
  shows "log = earlier e p"
proof (cases st)
  case None
  have "batches_of e' (pr_pushed p) = []" if "e' < e" for e' using assms(4) None that by (metis covered.simps(1) length_greater_0_conv)
  then have "filter (\<lambda>x. fst x < e) (pr_pushed p) = []" by (force simp: batches_of_def filter_empty_conv)
  then show ?thesis using assms(2) None by (simp add: earlier_def bodies_def)
next
  case (Some s)
  let ?n = "length (batches_of (ps_epoch s) (pr_pushed p))"
  have l: "ps_epoch s < e" using assms(5) Some by simp
  have last: "ps_lastSeq s < ?n" using assms(2) Some by simp
  with assms(4) l Some have "?n - 1 \<le> ps_lastSeq s"
    by (metis covered.simps(2) diff_less less_irrefl_nat less_nat_zero_code not_gr_zero zero_less_one)
  with last have full: "Suc (ps_lastSeq s) = ?n" by simp
  have "batches_of e' (pr_pushed p) = []" if "e' < e" "ps_epoch s < e'" for e'
    using assms(4) Some that by (metis covered.simps(2) length_greater_0_conv less_imp_not_less less_irrefl_nat)
  then have "filter (\<lambda>x. fst x < e \<and> ps_epoch s < fst x) (pr_pushed p) = []" by (force simp: batches_of_def filter_empty_conv)
  with earlier_next[of p "ps_epoch s" e] l assms(1) Some full assms(2,3) show ?thesis
    by (auto simp: producer_inv_def bodies_def)
qed

text \<open>An accepted request extends the log with the batch of its number.\<close>

lemma stored_accept:
  assumes inv: "producer_inv p" "stored_ok p st log" "request_ok p r" "next_ok st (pq_epoch r) (pq_seq r)"
    and all: "pr_errors p = [] \<longrightarrow> all_under_way p st"
  shows "stored_ok p (Some \<lparr>ps_epoch = pq_epoch r, ps_lastSeq = pq_seq r, ps_lastUpdated = t\<rparr>) (log @ [the (pq_body r)])"
proof -
  let ?e = "pq_epoch r" let ?b = "batch_body (producer_isJson p)" let ?bs = "batches_of ?e (pr_pushed p)"
  have r: "pq_seq r < length ?bs" "pq_body r = Some (?b (?bs ! pq_seq r))" using inv(3) by (auto simp: request_ok_def numbered_def)
  show ?thesis
  proof (cases "st \<noteq> None \<and> ps_epoch (the st) = ?e")
    case True
    then obtain s where s: "st = Some s" "ps_epoch s = ?e" by auto
    with inv(4) have "pq_seq r = Suc (ps_lastSeq s)" by (auto simp: next_ok_def)
    then show ?thesis using inv(2) s r by (auto simp: take_Suc_conv_app_nth)
  next
    case False
    then have n: "pq_seq r = 0" "\<forall>s. st = Some s \<longrightarrow> ps_epoch s < ?e" using inv(4) by (auto simp: next_ok_def split: option.splits)
    have sub: "subseq log (earlier ?e p)"
    proof (cases st)
      case (Some s)
      obtain old where o: "log = old @ map ?b (take (Suc (ps_lastSeq s)) (batches_of (ps_epoch s) (pr_pushed p)))"
        "subseq old (earlier (ps_epoch s) p)" using inv(2) Some by auto
      have "subseq (map ?b (take (Suc (ps_lastSeq s)) (batches_of (ps_epoch s) (pr_pushed p)))) (map ?b (batches_of (ps_epoch s) (pr_pushed p)))"
        by (intro subseq_map prefix_imp_subseq take_is_prefix)
      then have "subseq log ((earlier (ps_epoch s) p @ map ?b (batches_of (ps_epoch s) (pr_pushed p)))
          @ bodies p (filter (\<lambda>x. fst x < ?e \<and> ps_epoch s < fst x) (pr_pushed p)))"
        unfolding o(1) by (intro subseq_rev_drop_many list_emb_append_mono[OF o(2)])
      then show ?thesis using earlier_next[of p "ps_epoch s" ?e] n Some inv(1) by (simp add: producer_inv_def)
    qed (use inv(2) in simp)
    have "log = earlier ?e p" if e: "pr_errors p = []"
    proof (rule stored_complete[OF inv(1,2) e _ n(2)], intro allI impI)
      fix e' q assume q: "e' < ?e" "q < length (batches_of e' (pr_pushed p))"
      have "(e', q) \<notin> outstanding p"
      proof -
        have "?e \<le> pr_epoch p" using epoch_bound[OF inv(1) r(1)] .
        then show ?thesis using q(1) inv(1) by (auto simp: outstanding_def producer_inv_def flight_ok_def)
      qed
      then show "covered st (e', q)" using all e q(2) by (auto simp: all_under_way_def)
    qed
    then show ?thesis using sub r n(1) by (auto simp: take_Suc_conv_app_nth)
  qed
qed

section \<open>Steps keep the invariant\<close>

lemma system_moves:
  assumes "system_inv s" "moves K (sy_producer s) q" "\<forall>k\<in>K. covered (sy_server s) k"
  shows "system_inv (s\<lparr>sy_producer := q\<rparr>)"
  using assms stored_same[of "sy_producer s" "sy_server s" "sy_log s" q]
  unfolding system_inv_def moves_def all_under_way_def by simp blast

lemma system_pushes:
  assumes "system_inv s" "pushes (sy_producer s) q"
  shows "system_inv (s\<lparr>sy_producer := q\<rparr>)"
proof (cases "pr_pushed q = pr_pushed (sy_producer s)")
  case True
  then show ?thesis using assms stored_same[of "sy_producer s" "sy_server s" "sy_log s" q]
    by (auto simp: system_inv_def pushes_def all_under_way_def)
next
  case False
  let ?p = "sy_producer s"
  have q: "producer_inv q" "pr_pushed q = pr_pushed ?p @ [(pr_epoch ?p, pr_pending ?p)]" "pr_contentType q = pr_contentType ?p"
    "pr_errors q = pr_errors ?p" "pr_pending q = []" "outstanding q = insert (pr_epoch ?p, pr_nextSeq ?p) (outstanding ?p)"
    using assms(2) False by (auto simp: pushes_def)
  have "all_under_way q (sy_server s)" if a: "all_under_way ?p (sy_server s)"
    unfolding all_under_way_def
  proof (intro allI impI)
    fix e k assume k: "k < length (batches_of e (pr_pushed q))"
    have nx: "pr_nextSeq ?p = length (batches_of (pr_epoch ?p) (pr_pushed ?p))" using assms(1) by (simp add: system_inv_def producer_inv_def)
    show "covered (sy_server s) (e, k) \<or> (e, k) \<in> outstanding q"
    proof (cases "k < length (batches_of e (pr_pushed ?p))")
      case True
      then show ?thesis using a q(6) by (auto simp: all_under_way_def)
    next
      case False
      then have "(e, k) = (pr_epoch ?p, pr_nextSeq ?p)" using k q(2) nx by (auto simp: batches_of_snoc split: if_splits)
      then show ?thesis using q(6) by simp
    qed
  qed
  then show ?thesis using assms(1) q stored_pushed[of ?p "sy_server s" "sy_log s" q] by (auto simp: system_inv_def)
qed

lemma find_flight_set: "find_flight j p = Some f \<Longrightarrow> f \<in> set (pr_flights p)"
  by (auto simp: find_flight_def find_Some_iff)

lemma on_flight_inv:
  assumes "system_inv s"
    and "\<And>f. f \<in> set (pr_flights (sy_producer s)) \<Longrightarrow> \<exists>K. moves K (sy_producer s) (g f (sy_producer s)) \<and> (\<forall>k\<in>K. covered (sy_server s) k)"
  shows "system_inv (on_flight j g s)"
  using assms system_moves[OF assms(1)] find_flight_set
  by (fastforce simp: on_flight_def on_producer_def split: option.splits)

lemma append_inv:
  assumes "system_inv s" "append_body b (sy_producer s) = Inr q"
  shows "system_inv (s\<lparr>sy_producer := q, sy_appended := sy_appended s @ [b]\<rparr>)"
proof -
  let ?p = "sy_producer s"
  define p1 where "p1 = ?p\<lparr>pr_pending := pr_pending ?p @ [b], pr_batchBytes := pr_batchBytes ?p + length b\<rparr>"
  define s1 where "s1 = s\<lparr>sy_producer := p1, sy_appended := sy_appended s @ [b]\<rparr>"
  have p1: "producer_inv p1" by (rule producer_inv_same[of ?p]) (use assms(1) in \<open>simp_all add: p1_def system_inv_def\<close>)
  have "stored_ok p1 (sy_server s) (sy_log s)"
    by (rule stored_same[of ?p]) (use assms(1) in \<open>simp_all add: p1_def system_inv_def\<close>)
  then have s1: "system_inv s1" using assms(1) p1 unfolding system_inv_def s1_def
    by (simp add: all_under_way_def) (simp add: p1_def outstanding_def)
  have "pushes p1 (enqueuePendingBatch p1)" "pushes p1 (p1\<lparr>pr_linger := True\<rparr>)"
    using enqueue_pushes[OF p1] producer_inv_same[OF p1, of "p1\<lparr>pr_linger := True\<rparr>"] by (auto simp: pushes_def outstanding_def)
  then have "pushes (sy_producer s1) q" using assms(2) by (auto simp: append_body_def Let_def p1_def s1_def split: if_splits)
  from system_pushes[OF s1 this] show ?thesis by (simp add: s1_def system_inv_def)
qed

lemma restart_inv:
  assumes "system_inv s" "drained (sy_producer s)"
  shows "system_inv (on_producer restart s)"
proof -
  let ?p = "sy_producer s"
  have d: "pr_queue ?p = []" "pr_flights ?p = []" using assms(2) by (auto simp: drained_def inFlightCount_def)
  have pi: "producer_inv ?p" using assms(1) by (simp add: system_inv_def)
  have n: "numbered (restart ?p) = numbered ?p" "producer_isJson (restart ?p) = producer_isJson ?p"
    by (simp_all add: restart_def numbered_def fun_eq_iff producer_isJson_def stream_type_def)
  have "batches_of (Suc (pr_epoch ?p)) (pr_pushed ?p) = []" using epoch_bound[OF pi] by (metis Suc_n_not_le_n length_greater_0_conv)
  then have "producer_inv (restart ?p)"
    using pi d by (auto simp: producer_inv_def request_ok_def n) (auto simp: restart_def)
  moreover have "stored_ok (restart ?p) (sy_server s) (sy_log s)"
    by (rule stored_same[of ?p]) (use assms(1) in \<open>simp_all add: restart_def system_inv_def\<close>)
  ultimately show ?thesis using assms(1) d by (auto simp: system_inv_def on_producer_def restart_def all_under_way_def outstanding_def)
qed

lemma abort_inv: "system_inv s \<Longrightarrow> system_inv (on_producer (rejectPendingBatch e) s)"
proof -
  assume s: "system_inv s"
  let ?q = "rejectPendingBatch e (sy_producer s)"
  have "producer_inv ?q" by (rule producer_inv_same[of "sy_producer s"]) (use s in \<open>simp_all add: rejectPendingBatch_def system_inv_def\<close>)
  moreover have "stored_ok ?q (sy_server s) (sy_log s)"
    by (rule stored_same[of "sy_producer s"]) (use s in \<open>simp_all add: rejectPendingBatch_def system_inv_def\<close>)
  ultimately show ?thesis using s
    by (auto simp: system_inv_def on_producer_def all_under_way_def rejectPendingBatch_def outstanding_def)
qed

section \<open>The contract of the server\<close>

text \<open>To the validation of producers the client adds that a request is called a duplicate only if its number
  has been accepted.\<close>

locale answering_validator = producer_validator +
  assumes duplicate_only: "decide t st i e n = Duplicate l \<Longrightarrow> \<exists>s. st = Some s \<and> e = ps_epoch s \<and> n \<le> ps_lastSeq s"
begin

lemma success_covered:
  assumes "rs_status (producer_response offset e n (decide t st i e n)) = 204
    \<or> rs_status (producer_response offset e n (decide t st i e n)) = 200"
  shows "(case decide t st i e n of Accepted _ s _ \<Rightarrow> covered (Some s) (e, n) | _ \<Rightarrow> covered st (e, n))"
proof (cases "decide t st i e n")
  case (Accepted b s i')
  then show ?thesis using accepted_next[OF Accepted] by auto
next
  case (Duplicate l)
  then show ?thesis using duplicate_only[OF Duplicate] by auto
qed (use assms in \<open>auto simp: producer_response_def stale_response_def gap_response_def plain_def type_error_def\<close>)

lemma covered_accepted:
  assumes "decide t st i e n = Accepted b s i'" "covered st x"
  shows "covered (Some s) x"
  using accepted_next[OF assms(1)] assms(2) by (cases x; cases st) (auto simp: next_ok_def)

lemma serve_inv:
  assumes s: "system_inv s" and r: "r \<in> set (pr_sent (sy_producer s))"
  shows "system_inv (serve decide i t offset r s)"
proof (cases "decide t (sy_server s) i (pq_epoch r) (pq_seq r)")
  case (Accepted b st i')
  let ?p = "sy_producer s"
  note a = accepted_next[OF Accepted] and c = covered_accepted[OF Accepted]
  have "stored_ok ?p (Some st) (sy_log s @ [the (pq_body r)])"
    using stored_accept[of ?p "sy_server s" "sy_log s" r t] s r a by (simp add: system_inv_def producer_inv_def)
  then show ?thesis
    using s success_covered[of offset "pq_epoch r" "pq_seq r" t "sy_server s" i] c Accepted
    by (fastforce simp: serve_def system_inv_def all_under_way_def)
qed (use s success_covered[of offset "pq_epoch r" "pq_seq r" t "sy_server s" i] in \<open>auto simp: serve_def system_inv_def\<close>)

lemma answer_moves:
  assumes "system_inv s" "f \<in> set (pr_flights (sy_producer s))"
  shows "\<exists>K. moves K (sy_producer s) (if k < length (sy_replies s) \<and> answers (fst (sy_replies s ! k)) f
      then handle_reply (snd (sy_replies s ! k)) f (sy_producer s) else sy_producer s) \<and> (\<forall>x\<in>K. covered (sy_server s) x)"
proof (cases "k < length (sy_replies s) \<and> answers (fst (sy_replies s ! k)) f")
  case True
  obtain r rs where r: "sy_replies s ! k = (r, rs)" by fastforce
  have p: "producer_inv (sy_producer s)" using assms(1) by (simp add: system_inv_def)
  have "(r, rs) \<in> set (sy_replies s)" using True r by (metis nth_mem)
  then have "rs_status rs = 204 \<or> rs_status rs = 200 \<longrightarrow> covered (sy_server s) (pq_epoch r, pq_seq r)"
    using assms(1) by (auto simp: system_inv_def)
  moreover have "(pq_epoch r, pq_seq r) = key_of f"
    using True r p assms(2) by (auto simp: answers_def key_of_def producer_inv_def flight_ok_def)
  ultimately show ?thesis using True r handle_reply_moves[OF p assms(2), of rs]
    by (intro exI[of _ "if rs_status rs = 204 \<or> rs_status rs = 200 then {key_of f} else {}"]) auto
next
  case False
  then show ?thesis using assms moves_refl by (auto simp: system_inv_def)
qed

lemma step_inv: assumes s: "system_inv s" shows "system_inv (system_step decide i a s)"
proof -
  have p: "producer_inv (sy_producer s)" using s by (simp add: system_inv_def)
  note push = system_pushes[OF s, folded on_producer_def] and f = flush_pushes[OF p]
  show ?thesis
  proof (cases a)
    case (Append b)
    then show ?thesis using append_inv[OF s] s by (auto split: sum.splits)
  next
    case (Answer j k)
    show ?thesis unfolding Answer system_step.simps by (rule on_flight_inv[OF s]) (rule answer_moves[OF s])
  next
    case (Lose j)
    show ?thesis unfolding Lose system_step.simps
      by (rule on_flight_inv[OF s]) (use batch_failed_moves[OF p] moves_refl[OF p] in \<open>auto intro!: exI[of _ "{}"]\<close>)
  next
    case (Resume j)
    show ?thesis unfolding Resume system_step.simps
      by (rule on_flight_inv[OF s]) (use resume_wait_moves[OF p] in \<open>auto intro!: exI[of _ "{}"]\<close>)
  next
    case Push_deferred
    then show ?thesis using s p by (simp add: push_deferred_def on_producer_def producer_inv_def)
  next
    case (Refuse k rs)
    then show ?thesis using s by (auto simp: system_inv_def)
  qed (use s push[of "linger_fires (sy_producer s)"] push[of "flush (sy_producer s)"] push[of "detach (sy_producer s)"] f
      restart_inv[OF s] abort_inv[OF s] serve_inv[OF s] in \<open>auto simp: on_producer_def\<close>)
qed

lemma run_inv: "system_inv s \<Longrightarrow> system_inv (fold (system_step decide i) ops s)"
  by (induction ops arbitrary: s) (simp_all add: step_inv)

end

interpretation srv_answers: answering_validator producer_decision
  by unfold_locales (auto simp: producer_decision_def split: option.splits if_splits)

interpretation cf_answers: answering_validator "\<lambda>t st i e n. cf_validateProducer st i e n t"
  unfolding cf_decision by (rule srv_answers.answering_validator_axioms)

section \<open>Property\<close>

lemma start_inv:
  assumes "new_producer ct ep False mb mf l = Some p"
  shows "system_inv (system_start p)"
  using assms by (auto simp: new_producer_def system_inv_def system_start_def producer_inv_def all_under_way_def batches_of_def split: if_splits)

lemma drained_complete:
  assumes "system_inv s" "pr_errors (sy_producer s) = []" "drained (sy_producer s)"
  shows "sy_log s = bodies (sy_producer s) (pr_pushed (sy_producer s))"
proof -
  let ?p = "sy_producer s" let ?e = "Suc (pr_epoch ?p)"
  have p: "producer_inv ?p" and st: "stored_ok ?p (sy_server s) (sy_log s)" using assms(1) by (simp_all add: system_inv_def)
  have "outstanding ?p = {}" using assms(3) by (simp add: drained_def inFlightCount_def outstanding_def)
  then have "sy_log s = earlier ?e ?p"
    using assms(1,2) stored_epoch[OF p] st
    by (intro stored_complete[OF p st assms(2)]) (auto simp: system_inv_def all_under_way_def less_Suc_eq_le)
  moreover have "filter (\<lambda>x. fst x < ?e) (pr_pushed ?p) = pr_pushed ?p"
    using p by (auto simp: producer_inv_def filter_id_conv less_Suc_eq_le)
  ultimately show ?thesis by (simp add: earlier_def)
qed


section \<open>Instances\<close>

definition plain_producer :: "bool \<Rightarrow> nat \<Rightarrow> producer" where
  "plain_producer autoClaim inFlight = the (new_producer (Some ''text/plain'') 0 autoClaim 1 (int inFlight) 5)"

text \<open>Two batches whose requests arrive in the wrong order: the second is refused, waits for the first and is
  sent again.\<close>

definition reordered_ops :: "system_op list" where
  "reordered_ops = [Append ''a'', Append ''b'', Serve 1 10 ''0'', Answer 1 0, Serve 0 11 ''1'', Answer 0 1, Resume 1, Serve 2 12 ''2'', Answer 1 2]"


section \<open>Where the producer parts from its promise\<close>

text \<open>A producer has claimed epoch 0 with a first batch; another one claims epoch 3. Of the next two batches both
  are refused as stale, both claim epoch 4 with number 0, and the second is taken for a duplicate of the
  first. It is lost, and reported as sent.\<close>

theorem autoclaim_loses_batch:
  "let s1 = system_run producer_decision ''w'' (plain_producer True 5) [Append ''x'', Serve 0 1 ''1'', Answer 0 0];
       s2 = s1\<lparr>sy_server := Some \<lparr>ps_epoch = 3, ps_lastSeq = 0, ps_lastUpdated = 2\<rparr>\<rparr>;
       s = fold (system_step producer_decision ''w'') [Append ''a'', Append ''b'', Serve 1 10 ''1'', Serve 2 11 ''1'', Answer 1 1, Answer 2 2,
             Serve 3 12 ''2'', Serve 4 13 ''2'', Answer 1 3, Answer 2 4] s2
   in sy_log s = [''x'', ''a''] \<and> drained (sy_producer s) \<and> pr_pending (sy_producer s) = [] \<and> pr_errors (sy_producer s) = []
      \<and> sy_appended s = [''x'', ''a'', ''b'']"
  by code_simp

text \<open>The answer of the server to an append on a closed stream is a conflict without an expected number. The
  producer takes it for a gap after number 0: when the earlier batches are known to be sent it sends the
  batch again at once, and so on without end; when the oldest of them have been forgotten it waits for
  them for ever. No error is reported.\<close>

definition send_ok :: "nat \<Rightarrow> system_op list" where
  "send_ok n = concat (map (\<lambda>k. [Append ''a'', Serve k 1 ''1'', Answer k k]) [0..<n])"

theorem closed_stream_retried_forever:
  "let s0 = system_run producer_decision ''w'' (plain_producer False 1) (send_ok 1 @ [Append ''b'', Refuse 1 (closed_response ''1''), Answer 1 1]);
       s1 = fold (system_step producer_decision ''w'') [Resume 1, Refuse 2 (closed_response ''1''), Answer 1 2] s0
   in pr_flights (sy_producer s1) = pr_flights (sy_producer s0) \<and> pr_seqState (sy_producer s1) = pr_seqState (sy_producer s0)
      \<and> pr_flights (sy_producer s0) \<noteq> [] \<and> pr_errors (sy_producer s1) = [] \<and> length (pr_sent (sy_producer s1)) = 3"
  by code_simp

theorem closed_stream_awaited_forever:
  "let s = system_run producer_decision ''w'' (plain_producer False 1) (send_ok 5 @ [Append ''b'', Refuse 5 (closed_response ''1''), Answer 5 5])
   in map fl_phase (pr_flights (sy_producer s)) = [Waiting [0]] \<and> pr_queue (sy_producer s) = [] \<and> pr_errors (sy_producer s) = []"
  by code_simp

end
