(* ===== verification/Cf_Props.thy ===== *)
theory Cf_Props
  imports Cf_Store
begin

text \<open>
  The Cloudflare storage under any sequence of its operations: the payloads appended since the stream was
  created are what a reader collects. The JSON helpers are those of the reference server.
\<close>

section \<open>Equivalence with the reference server\<close>

lemma cf_json_same: "cf_processJsonAppend = processJsonAppend"
  by (simp add: fun_eq_iff cf_processJsonAppend_def processJsonAppend_def)

lemma cf_fragment_same: "decodeStoredJsonFragment = decodeStoredJsonMessage"
  by (simp add: fun_eq_iff decodeStoredJsonFragment_def decodeStoredJsonMessage_def strip_comma_def Let_def)

lemma cf_advance_same: "cf_advanceOffset = advance_offset"
  by (simp add: fun_eq_iff cf_advanceOffset_def advance_offset_def)

section \<open>Operations in sequence\<close>

datatype cf_op =
    Create string cf_create_options
  | Purge
  | Touch int
  | Append_message bytes int
  | Set_lastSeq string
  | Set_closed "(string \<times> nat \<times> nat) option"
  | Set_softDeleted
  | Insert_edge string string
  | Delete_edge string
  | Put_intent string string string
  | Delete_intent string
  | Enqueue_release string string "string option"
  | Dequeue_release string
  | Get_producer string int
  | Commit_producer string producer_state

text \<open>The callers pass the current offset of the metadata to \<open>appendMessage\<close>. \<open>None\<close> is a statement that failed.\<close>

fun cf_step :: "cf_op \<Rightarrow> cf_db \<Rightarrow> cf_db option" where
  "cf_step (Create g opts) db = createMeta g opts db"
| "cf_step Purge db = Some (purge db)"
| "cf_step (Touch t) db = Some (cf_touchAccess t db)"
| "cf_step (Append_message d t) db =
     (case db_meta db of None \<Rightarrow> None | Some m \<Rightarrow> map_option snd (appendMessage (cm_currentOffset m) d t db))"
| "cf_step (Set_lastSeq x) db = Some (setLastSeq x db)"
| "cf_step (Set_closed x) db = Some (setClosed x db)"
| "cf_step Set_softDeleted db = Some (setSoftDeleted db)"
| "cf_step (Insert_edge e fo) db = Some (snd (insertForkEdge e fo db))"
| "cf_step (Delete_edge e) db = Some (deleteForkEdge e db)"
| "cf_step (Put_intent e pp k) db = Some (putForkIntent e pp k db)"
| "cf_step (Delete_intent e) db = Some (deleteForkIntent e db)"
| "cf_step (Enqueue_release e pp g) db = Some (enqueueGcRelease e pp g db)"
| "cf_step (Dequeue_release e) db = Some (dequeueGcRelease e db)"
| "cf_step (Get_producer i t) db = Some (snd (getProducerState i t db))"
| "cf_step (Commit_producer i st) db = Some (cf_commitProducerState i st db)"

fun cf_log :: "cf_op \<Rightarrow> bytes list \<Rightarrow> bytes list" where
  "cf_log (Append_message d t) log = log @ [d]"
| "cf_log Purge log = []"
| "cf_log _ log = log"

text \<open>An operation fits when it does not create a stream twice or append to none, the offset of a fork is
  one the source has, and the offsets stay within their sixteen digits.\<close>

fun cf_fits :: "cf_op \<Rightarrow> cf_db \<Rightarrow> bool" where
  "cf_fits (Create g opts) db \<longleftrightarrow> db_meta db = None
     \<and> (case (cc_forkedFrom opts, cc_forkOffset opts) of (Some _, Some fo) \<Rightarrow> canonical fo | _ \<Rightarrow> True)"
| "cf_fits (Append_message d t) db \<longleftrightarrow>
     (case db_meta db of None \<Rightarrow> False | Some m \<Rightarrow> off_val (cm_currentOffset m) + FRAME_OVERHEAD + length d < MAX_OFFSET)"
| "cf_fits _ db \<longleftrightarrow> True"

fun cf_run :: "cf_op list \<Rightarrow> cf_db \<times> bytes list \<Rightarrow> (cf_db \<times> bytes list) option" where
  "cf_run [] s = Some s"
| "cf_run (a # as) (db, log) =
     (case cf_step a db of None \<Rightarrow> None | Some db' \<Rightarrow> cf_run as (db', cf_log a log))"

fun cf_run_fits :: "cf_op list \<Rightarrow> cf_db \<Rightarrow> bool" where
  "cf_run_fits [] db \<longleftrightarrow> True"
| "cf_run_fits (a # as) db \<longleftrightarrow> cf_fits a db \<and> (case cf_step a db of None \<Rightarrow> True | Some db' \<Rightarrow> cf_run_fits as db')"

text \<open>A reader that asks again after the last offset it has seen, as long as a read was cut short.\<close>

fun follow_reads :: "nat \<Rightarrow> nat \<Rightarrow> string option \<Rightarrow> cf_db \<Rightarrow> (string \<times> bytes) list list option" where
  "follow_reads 0 budget after db = None"
| "follow_reads (Suc n) budget after db =
     (case readMessages after budget db of
        (ms, capped) \<Rightarrow>
          if capped then (if ms = [] then None else map_option (Cons ms) (follow_reads n budget (Some (fst (last ms))) db))
          else Some [ms])"

section \<open>The loop over the rows\<close>

lemma read_rows_prefix:
  "read_rows limit budget allow n b rows = (ms, capped) \<Longrightarrow> \<exists>rest. rows = ms @ rest \<and> (capped \<longleftrightarrow> rest \<noteq> [])"
  by (induction limit budget allow n b rows arbitrary: ms capped rule: read_rows.induct)
    (auto split: if_splits prod.splits)

lemma read_rows_budget:
  "read_rows None (Some b) allow n k rows = (ms, capped) \<Longrightarrow> 0 < n \<Longrightarrow> ms \<noteq> [] \<Longrightarrow> k + sum_list (map (length \<circ> snd) ms) \<le> b"
proof (induction "None :: nat option" "Some b" allow n k rows arbitrary: ms capped rule: read_rows.induct)
  case (2 allow n k ofs data rows)
  obtain ms' c' where r: "read_rows None (Some b) allow (n + 1) (k + length data) rows = (ms', c')" by fastforce
  with 2 show ?case by (cases "ms' = []") (auto split: if_splits)
qed simp

definition chunk_ok :: "nat \<Rightarrow> (string \<times> bytes) list \<Rightarrow> bool" where
  "chunk_ok budget ms \<longleftrightarrow> length ms \<le> 1 \<or> sum_list (map (length \<circ> snd) ms) \<le> budget"

lemma read_rows_first:
  assumes "read_rows None (Some b) True 0 0 rows = (ms, capped)"
  shows "chunk_ok b ms" "rows \<noteq> [] \<Longrightarrow> ms \<noteq> []"
proof -
  show "rows \<noteq> [] \<Longrightarrow> ms \<noteq> []" using assms by (cases rows) (auto split: prod.splits)
  show "chunk_ok b ms"
  proof (cases rows)
    case (Cons r rs)
    obtain ofs data where r: "r = (ofs, data)" by fastforce
    obtain ms' c' where q: "read_rows None (Some b) True 1 (length data) rs = (ms', c')" by fastforce
    then have "ms = (ofs, data) # ms'" using assms Cons r by simp
    then show ?thesis using read_rows_budget[OF q] by (auto simp: chunk_ok_def)
  qed (use assms in \<open>simp add: chunk_ok_def\<close>)
qed

section \<open>The invariant\<close>

definition db_ok :: "cf_db \<Rightarrow> bytes list \<Rightarrow> bool" where
  "db_ok db log \<longleftrightarrow> map (fst \<circ> snd) (db_messages db) = log \<and> sorted_wrt (<) (map fst (db_messages db))
     \<and> (\<forall>x\<in>set (db_messages db). canonical (fst x))
     \<and> (case db_meta db of None \<Rightarrow> db_messages db = []
        | Some m \<Rightarrow> canonical (cm_currentOffset m) \<and> (\<forall>x\<in>set (db_messages db). fst x \<le> cm_currentOffset m))"

lemma db_ok_meta: "db_ok db log \<Longrightarrow> (\<And>m. cm_currentOffset (f m) = cm_currentOffset m) \<Longrightarrow> db_ok (update_meta f db) log"
  by (auto simp: db_ok_def update_meta_def split: option.splits)

lemma append_ok:
  assumes ok: "db_ok db log" and m: "db_meta db = Some m"
    and fits: "off_val (cm_currentOffset m) + FRAME_OVERHEAD + length d < MAX_OFFSET"
  shows "\<exists>ofs db'. appendMessage (cm_currentOffset m) d t db = Some (ofs, db') \<and> db_ok db' (log @ [d])"
proof -
  let ?new = "advance_offset (cm_currentOffset m) (length d)"
  have new: "canonical ?new" "cm_currentOffset m < ?new" using advance_canonical[OF _ fits] ok m by (auto simp: db_ok_def)
  have "\<forall>x\<in>set (db_messages db). fst x < ?new" using ok m new(2) by (fastforce simp: db_ok_def)
  then have fresh: "?new \<notin> fst ` set (db_messages db)" "\<forall>x\<in>set (db_messages db). fst x < ?new" by auto
  then show ?thesis using ok m new
    by (auto simp: appendMessage_def Let_def cf_advance_same db_ok_def update_meta_def sorted_wrt_append less_imp_le)
qed

lemma step_ok:
  assumes "db_ok db log" "cf_fits a db"
  shows "\<exists>db'. cf_step a db = Some db' \<and> db_ok db' (cf_log a log)"
proof (cases a)
  case (Append_message d t)
  then show ?thesis using append_ok[OF assms(1)] assms(2) by (fastforce split: option.splits)
next
  case (Create g opts)
  then show ?thesis using assms by (auto simp: createMeta_def db_ok_def split: option.splits)
qed (use assms in \<open>auto simp: cf_touchAccess_def setLastSeq_def setClosed_def setSoftDeleted_def intro!: db_ok_meta\<close>,
    auto simp: db_ok_def purge_def insertForkEdge_def deleteForkEdge_def putForkIntent_def deleteForkIntent_def
      enqueueGcRelease_def dequeueGcRelease_def getProducerState_def cf_commitProducerState_def Let_def split: option.splits)

lemma run_ok:
  "db_ok db log \<Longrightarrow> cf_run_fits as db \<Longrightarrow> \<exists>db' log'. cf_run as (db, log) = Some (db', log') \<and> db_ok db' log'"
proof (induction as arbitrary: db log)
  case (Cons a as)
  then obtain db1 where s: "cf_step a db = Some db1" "db_ok db1 (cf_log a log)" using step_ok by fastforce
  then show ?case using Cons.IH[OF s(2)] Cons.prems(2) by simp
qed simp

section \<open>Reading\<close>

definition all_rows :: "cf_db \<Rightarrow> (string \<times> bytes) list" where
  "all_rows db = map (\<lambda>(ofs, data, t). (ofs, data)) (db_messages db)"

lemma rows_after_filter:
  assumes "db_ok db log"
  shows "rows_after a None db = filter (\<lambda>r. a < fst r) (all_rows db)"
proof -
  let ?f = "filter (\<lambda>(ofs, data, t). a < ofs) (db_messages db)"
  have "sorted_wrt (<) (map fst ?f)" using assms by (auto simp: db_ok_def sorted_wrt_map intro: sorted_wrt_filter)
  then have "sort_key fst ?f = ?f" by (simp add: sort_key_id_if_sorted strict_sorted_imp_sorted)
  moreover have "?f = filter (\<lambda>x. a < fst x) (db_messages db)" by (rule filter_cong) auto
  moreover have "(\<lambda>x. a < fst (case x of (ofs, data, t) \<Rightarrow> (ofs, data))) = (\<lambda>x :: string \<times> bytes \<times> int. a < fst x)" by auto
  ultimately show ?thesis by (simp add: rows_after_def all_rows_def filter_map o_def)
qed

lemma all_rows_facts:
  assumes "db_ok db log"
  shows "map snd (all_rows db) = log" "sorted_wrt (<) (map fst (all_rows db))" "\<forall>r\<in>set (all_rows db). canonical (fst r)"
  using assms by (auto simp: all_rows_def db_ok_def o_def case_prod_beta)

lemma canonical_text: assumes "canonical s" shows "s \<noteq> ''-1''" "[] < s"
proof -
  have "s = replicate 16 CHR ''0'' @ ''_'' @ padStart 16 CHR ''0'' (nat_string (off_val s))"
    using assms by (metis canonical_def off_eq)
  then obtain r where "s = CHR ''0'' # r" by (simp add: numeral_eq_Suc)
  then show "s \<noteq> ''-1''" "[] < s" by simp_all
qed

lemma rows_rest:
  assumes "sorted_wrt (<) (map fst (ms @ rest))" "ms \<noteq> []"
  shows "filter (\<lambda>r. fst (last ms) < fst r) (ms @ rest) = (rest :: ('a :: linorder \<times> 'b) list)"
proof -
  have "\<forall>x\<in>set ms. fst x \<le> fst (last ms)"
    using assms by (cases ms rule: rev_cases) (auto simp: sorted_wrt_append)
  moreover have "\<forall>x\<in>set rest. fst (last ms) < fst x" using assms by (auto simp: sorted_wrt_append)
  ultimately show ?thesis by (auto simp: filter_empty_conv filter_id_conv)
qed

lemma follow_reads_all:
  assumes ok: "db_ok db log"
  shows "length (rows_after a None db) < n \<Longrightarrow> a = (case after of None \<Rightarrow> [] | Some x \<Rightarrow> if x = ''-1'' then [] else x)
    \<Longrightarrow> \<exists>cs. follow_reads n budget after db = Some cs \<and> concat cs = rows_after a None db \<and> (\<forall>c\<in>set cs. chunk_ok budget c)"
proof (induction n arbitrary: a after)
  case (Suc n)
  obtain ms capped where r: "readMessages after budget db = (ms, capped)" by fastforce
  have rr: "read_rows None (Some budget) True 0 0 (rows_after a None db) = (ms, capped)"
    using r Suc.prems(2) by (simp add: readMessages_def readMessagesRange_def Let_def)
  from read_rows_prefix[OF this] obtain rest where rest: "rows_after a None db = ms @ rest" "capped \<longleftrightarrow> rest \<noteq> []" by blast
  note first = read_rows_first[OF rr]
  show ?case
  proof (cases capped)
    case False
    then show ?thesis using r rest first(1) by auto
  next
    case True
    then have ne: "ms \<noteq> []" "rest \<noteq> []" using first(2) rest by auto
    let ?l = "fst (last ms)"
    have mem: "last ms \<in> set (all_rows db)" "a < ?l"
      using ne(1) rest(1) rows_after_filter[OF ok, of a] by (metis (no_types, lifting) UnCI last_in_set mem_Collect_eq set_append set_filter)+
    then have "canonical ?l" using all_rows_facts(3)[OF ok] by blast
    then have plain: "?l \<noteq> ''-1''" by (rule canonical_text)
    have sorted: "sorted_wrt (<) (map fst (ms @ rest))"
      unfolding rest(1)[symmetric] rows_after_filter[OF ok]
      using all_rows_facts(2)[OF ok] by (simp add: sorted_wrt_map sorted_wrt_filter)
    have "rows_after ?l None db = filter (\<lambda>r. ?l < fst r) (rows_after a None db)"
      using mem(2) by (auto simp: rows_after_filter[OF ok] intro!: filter_cong)
    then have nxt: "rows_after ?l None db = rest" using rows_rest[OF sorted ne(1)] rest(1) by simp
    have "length (rows_after ?l None db) < n" using Suc.prems(1) rest(1) ne(1) nxt by (cases ms) auto
    from Suc.IH[OF this, of "Some ?l"] plain obtain cs where
      "follow_reads n budget (Some ?l) db = Some cs" "concat cs = rest" "\<forall>c\<in>set cs. chunk_ok budget c" using nxt by auto
    then show ?thesis using r True ne(1) rest(1) first(1) by auto
  qed
qed simp

section \<open>Property\<close>

text \<open>C35. On the Cloudflare storage, after any operations, no append fails on a key, and a reader with any
  byte budget who asks again after the last offset seen, at most once more than there are messages, gets
  exactly the payloads appended since the stream was created, in order, each read being one message or
  within the budget.\<close>

theorem cf_reads_complete:
  assumes "cf_run_fits ops empty_db"
  shows "\<exists>db log cs. cf_run ops (empty_db, []) = Some (db, log)
    \<and> follow_reads (length log + 1) budget None db = Some cs
    \<and> map snd (concat cs) = log \<and> sorted_wrt (<) (map fst (concat cs)) \<and> (\<forall>c\<in>set cs. chunk_ok budget c)"
proof -
  have "db_ok empty_db []" by (simp add: db_ok_def empty_db_def)
  from run_ok[OF this assms] obtain db log where r: "cf_run ops (empty_db, []) = Some (db, log)" "db_ok db log" by blast
  have "filter (\<lambda>r. [] < fst r) (all_rows db) = all_rows db"
    using all_rows_facts(3)[OF r(2)] canonical_text(2) by (simp add: filter_id_conv)
  then have rows: "rows_after [] None db = all_rows db" using rows_after_filter[OF r(2)] by simp
  have l: "length (all_rows db) = length log" using r(2) by (auto simp: all_rows_def db_ok_def)
  show ?thesis using all_rows_facts(1,2)[OF r(2)] r(1) follow_reads_all[OF r(2), of "[]" "length log + 1" None budget] rows l by auto
qed

text \<open>A stream with two messages and a read of three bytes at a time.\<close>

definition cf_ops :: "cf_op list" where
  "cf_ops = [Create ''g'' \<lparr>cc_contentType = Some ''text/plain'', cc_ttlSeconds = None, cc_expiresAt = None, cc_closed = False,
       cc_now = 1, cc_forkedFrom = None, cc_forkOffset = None, cc_forkSubOffset = None, cc_forkEdgeId = None, cc_forkSourceGen = None\<rparr>,
     Append_message ''hello'' 2, Touch 3, Append_message ''x'' 4]"

theorem cf_reads_complete_witness:
  "\<exists>db cs. cf_run cf_ops (empty_db, []) = Some (db, [''hello'', ''x'']) \<and> follow_reads 3 3 None db = Some cs
    \<and> map snd (concat cs) = [''hello'', ''x''] \<and> (\<forall>c\<in>set cs. chunk_ok 3 c)"
proof -
  have f: "cf_run_fits cf_ops empty_db" by code_simp
  have l: "map_option snd (cf_run cf_ops (empty_db, [])) = Some [''hello'', ''x'']" by code_simp
  obtain db log cs where c: "cf_run cf_ops (empty_db, []) = Some (db, log)" "follow_reads (length log + 1) 3 None db = Some cs"
    "map snd (concat cs) = log" "\<forall>c\<in>set cs. chunk_ok 3 c" using cf_reads_complete[OF f, of 3] by blast
  then have "log = [''hello'', ''x'']" "length log + 1 = 3" using l by simp_all
  then show ?thesis using c by metis
qed

end
