(* ===== verification/Cf_Object.thy ===== *)
theory Cf_Object
  imports Cf_Store Sse
begin

text \<open>
  The durable object of a stream on Cloudflare (server-cloudflare/src/stream-object.ts): its handlers on the
  storage of \<open>Cf_Store\<close>, its waiting readers and its alarm. A durable object runs one event at a time between
  awaits of remote calls; a handler is a function up to such an await, and the remote reads of a fork are
  an argument. A waiter is named by a number, its outcome is put into \<open>ob_resolved\<close>. The headers that every
  response carries are those of \<open>cf_standard_headers\<close>. A \<^verbatim>\<open>content-length\<close> is taken to be that of the body, as HTTP
  requires.
\<close>

section \<open>The object\<close>

record cf_env =
  ke_js :: js_env
  ke_jitter :: nat
  ke_origin :: string
  ke_uuid :: string
  ke_id :: string

record cf_waiter =
  wt_id :: nat
  wt_offset :: string

record cf_wait_result =
  cw_messages :: "(string \<times> bytes) list"
  cw_timedOut :: bool
  cw_streamClosed :: bool
  cw_capped :: bool

record cf_object =
  ob_db :: cf_db
  ob_waiters :: "cf_waiter list"
  ob_nextWaiter :: nat
  ob_resolved :: "(nat \<times> cf_wait_result) list"
  ob_lastArmed :: "int option"
  ob_alarm :: "int option"

abbreviation ke_now :: "cf_env \<Rightarrow> int" where
  "ke_now env \<equiv> now (ke_js env)"

definition new_object :: cf_object where
  "new_object = \<lparr>ob_db = empty_db, ob_waiters = [], ob_nextWaiter = 0, ob_resolved = [], ob_lastArmed = None, ob_alarm = None\<rparr>"

definition on_db :: "(cf_db \<Rightarrow> cf_db) \<Rightarrow> cf_object \<Rightarrow> cf_object" where
  "on_db f ob = ob\<lparr>ob_db := f (ob_db ob)\<rparr>"

abbreviation ob_meta :: "cf_object \<Rightarrow> cf_meta option" where
  "ob_meta ob \<equiv> db_meta (ob_db ob)"

definition MAX_BODY_BYTES :: nat where "MAX_BODY_BYTES = 1900000"
definition MAX_TTL_SECONDS :: nat where "MAX_TTL_SECONDS = 3153600000"
definition MAX_READ_BATCH_BYTES :: nat where "MAX_READ_BATCH_BYTES = 4 * 1024 * 1024"
definition MAX_SSE_LIFETIME_MS :: int where "MAX_SSE_LIFETIME_MS = 60000"
definition MAX_OFFSET_CAP :: string where "MAX_OFFSET_CAP = ''9999999999999999_9999999999999999''"

section \<open>Responses\<close>

definition cf_standard_headers :: "(string, string) jsmap" where
  "cf_standard_headers =
     [(''access-control-allow-origin'', ''*''), (''access-control-allow-methods'', ''GET, POST, PUT, DELETE, HEAD, OPTIONS''),
      (''access-control-allow-headers'', ''content-type, authorization, If-None-Match, Stream-Seq, Stream-TTL, Stream-Expires-At, Stream-Closed, Producer-Id, Producer-Epoch, Producer-Seq, Stream-Forked-From, Stream-Fork-Offset, Stream-Fork-Sub-Offset''),
      (''access-control-expose-headers'', ''Stream-Next-Offset, Stream-Cursor, Stream-Up-To-Date, Stream-Closed, Producer-Epoch, Producer-Seq, Producer-Expected-Seq, Producer-Received-Seq, etag, content-type, content-encoding, vary''),
      (''x-content-type-options'', ''nosniff''), (''cross-origin-resource-policy'', ''cross-origin'')]"

definition cf_respond :: "nat \<Rightarrow> (string, string) jsmap \<Rightarrow> bytes \<Rightarrow> http_response" where
  "cf_respond status headers body =
     \<lparr>rs_status = status, rs_headers = headers @ cf_standard_headers,
      rs_body = (if status = 204 \<or> status = 304 then [] else body)\<rparr>"

definition cf_text :: "nat \<Rightarrow> string \<Rightarrow> (string, string) jsmap \<Rightarrow> http_response" where
  "cf_text status message extra = cf_respond status ((''content-type'', ''text/plain'') # extra) message"

definition cf_makeEtag :: "cf_env \<Rightarrow> string \<Rightarrow> string \<Rightarrow> bool \<Rightarrow> string" where
  "cf_makeEtag env startOffset endOffset isClosed =
     ''\"'' @ base64 (ke_id env) @ '':'' @ startOffset @ '':'' @ endOffset @ (if isClosed then '':c'' else []) @ ''\"''"

definition cf_readBody :: "http_request \<Rightarrow> bytes option" where
  "cf_readBody req = (if length (rq_body req) > MAX_BODY_BYTES then None else Some (rq_body req))"

section \<open>The alarm\<close>

definition armAlarmAt :: "cf_env \<Rightarrow> int \<Rightarrow> cf_object \<Rightarrow> cf_object" where
  "armAlarmAt env target ob =
     (let pending = (case ob_lastArmed ob of Some a \<Rightarrow> if a > ke_now env then Some a else None | None \<Rightarrow> None)
      in if (case pending of Some a \<Rightarrow> a \<le> target + 500 | None \<Rightarrow> False) then ob
         else ob\<lparr>ob_alarm := Some target, ob_lastArmed := Some target\<rparr>)"

definition syncExpiryAlarm :: "cf_env \<Rightarrow> cf_object \<Rightarrow> cf_object" where
  "syncExpiryAlarm env ob =
     (case ob_meta ob of
        None \<Rightarrow> ob
      | Some m \<Rightarrow> (case expiryTime (ke_js env) m of None \<Rightarrow> ob | Some expiry \<Rightarrow> armAlarmAt env expiry ob))"

definition touch :: "cf_env \<Rightarrow> cf_object \<Rightarrow> cf_object" where
  "touch env ob = syncExpiryAlarm env (on_db (cf_touchAccess (ke_now env)) ob)"

section \<open>Waiting readers\<close>

definition resolve_waiter :: "cf_waiter \<Rightarrow> (string \<times> bytes) list \<times> bool \<Rightarrow> cf_object \<Rightarrow> cf_object" where
  "resolve_waiter w batch ob =
     ob\<lparr>ob_waiters := filter (\<lambda>x. wt_id x \<noteq> wt_id w) (ob_waiters ob),
        ob_resolved := ob_resolved ob @ [(wt_id w,
          \<lparr>cw_messages = fst batch, cw_timedOut = False,
           cw_streamClosed = ((case ob_meta ob of Some m \<Rightarrow> cm_closed m | None \<Rightarrow> False) \<and> fst batch = []), cw_capped = snd batch\<rparr>)]\<rparr>"

definition waiter_timeout :: "cf_waiter \<Rightarrow> cf_object \<Rightarrow> cf_object" where
  "waiter_timeout w ob =
     ob\<lparr>ob_waiters := filter (\<lambda>x. wt_id x \<noteq> wt_id w) (ob_waiters ob),
        ob_resolved := ob_resolved ob @ [(wt_id w,
          \<lparr>cw_messages = [], cw_timedOut = True,
           cw_streamClosed = (case ob_meta ob of Some m \<Rightarrow> cm_closed m | None \<Rightarrow> False), cw_capped = False\<rparr>)]\<rparr>"

definition waiter_after :: "string \<Rightarrow> string option" where
  "waiter_after offset = (if offset = ''-1'' then None else Some offset)"

fun notify_waiters :: "cf_waiter list \<Rightarrow> cf_object \<Rightarrow> cf_object" where
  "notify_waiters [] ob = ob"
| "notify_waiters (w # ws) ob =
     (let batch = readMessages (waiter_after (wt_offset w)) MAX_READ_BATCH_BYTES (ob_db ob)
      in notify_waiters ws (if fst batch \<noteq> [] then resolve_waiter w batch ob else ob))"

definition notifyAppend :: "cf_object \<Rightarrow> cf_object" where
  "notifyAppend ob = notify_waiters (ob_waiters ob) ob"

definition notifyClosed :: "cf_object \<Rightarrow> cf_object" where
  "notifyClosed ob = fold (\<lambda>w. resolve_waiter w ([], False)) (ob_waiters ob) ob"

definition cancelWaiters :: "cf_object \<Rightarrow> cf_object" where
  "cancelWaiters ob = (fold (\<lambda>w. resolve_waiter w ([], False)) (ob_waiters ob) ob)\<lparr>ob_waiters := []\<rparr>"

section \<open>Expiry and deletion\<close>

text \<open>\<^verbatim>\<open>purgeStream\<close> up to the remote calls of \<^verbatim>\<open>processGcReleases\<close>: the release of the fork's edge is queued and
  the alarm armed that retries it.\<close>

definition flushGcReleases :: "cf_env \<Rightarrow> cf_object \<Rightarrow> cf_object" where
  "flushGcReleases env ob =
     (if pendingGcReleases (ob_db ob) = [] then ob else armAlarmAt env (ke_now env + 5000) ob)"

definition purgeStream :: "cf_env \<Rightarrow> cf_meta \<Rightarrow> cf_object \<Rightarrow> cf_object" where
  "purgeStream env m ob =
     (let ob1 = cancelWaiters (on_db purge ob); ob2 = ob1\<lparr>ob_alarm := None, ob_lastArmed := None\<rparr>;
          ob3 = (case (cm_forkedFrom m, cm_forkEdgeId m) of
                   (Some q, Some e) \<Rightarrow> on_db (enqueueGcRelease e q (cm_forkSourceGen m)) ob2 | _ \<Rightarrow> ob2)
      in flushGcReleases env ob3)"

definition getMeta :: "cf_env \<Rightarrow> cf_object \<Rightarrow> cf_meta option \<times> cf_object" where
  "getMeta env ob =
     (case ob_meta ob of
        None \<Rightarrow> (None, ob)
      | Some m \<Rightarrow>
          if cf_isExpired (ke_js env) m (ke_now env) then
            (if forkEdgeCount (ob_db ob) > 0
             then (Some (m\<lparr>cm_softDeleted := True\<rparr>), if cm_softDeleted m then ob else on_db setSoftDeleted ob)
             else (None, purgeStream env m ob))
          else (Some m, ob))"

definition cf_handleDelete :: "cf_env \<Rightarrow> cf_object \<Rightarrow> http_response \<times> cf_object" where
  "cf_handleDelete env ob =
     (case getMeta env ob of
        (None, ob1) \<Rightarrow> (cf_text 404 ''Stream not found'' [], ob1)
      | (Some m, ob1) \<Rightarrow>
          if cm_softDeleted m then (cf_text 410 ''Stream is gone'' [], ob1)
          else if forkEdgeCount (ob_db ob1) > 0 then (cf_respond 204 [] [], notifyClosed (on_db setSoftDeleted ob1))
          else (cf_respond 204 [] [], purgeStream env m ob1))"

text \<open>The alarm, after the remote calls that compensate intents and deliver releases.\<close>

definition alarm_expiry :: "cf_env \<Rightarrow> cf_object \<Rightarrow> cf_object" where
  "alarm_expiry env ob =
     (case ob_meta ob of
        None \<Rightarrow> ob
      | Some m \<Rightarrow>
          if cf_isExpired (ke_js env) m (ke_now env) then
            (if forkEdgeCount (ob_db ob) > 0 then (if cm_softDeleted m then ob else on_db setSoftDeleted ob)
             else purgeStream env m ob)
          else syncExpiryAlarm env ob)"

section \<open>The remote interface\<close>

datatype fork_error = Fork_not_found | Fork_soft_deleted | Fork_type_mismatch | Fork_invalid_offset | Fork_no_edge_id

record acquired =
  aq_forkOffset :: string
  aq_contentType :: "string option"
  aq_ttlSeconds :: "nat option"
  aq_expiresAt :: "string option"
  aq_generation :: string

definition acquired_of :: "string \<Rightarrow> cf_meta \<Rightarrow> acquired" where
  "acquired_of fo m = \<lparr>aq_forkOffset = fo, aq_contentType = cm_contentType m, aq_ttlSeconds = cm_ttlSeconds m,
     aq_expiresAt = cm_expiresAt m, aq_generation = cm_generation m\<rparr>"

definition forkAcquire :: "cf_env \<Rightarrow> string \<Rightarrow> string option \<Rightarrow> string option \<Rightarrow> cf_object \<Rightarrow> (fork_error + acquired) \<times> cf_object" where
  "forkAcquire env edgeId fo contentTypeProvided ob =
     (if edgeId = [] then (Inl Fork_no_edge_id, ob)
      else case (getForkEdge edgeId (ob_db ob), ob_meta ob) of
        (Some existing, Some m) \<Rightarrow> (Inr (acquired_of existing m), ob)
      | _ \<Rightarrow>
          (case getMeta env ob of
             (None, ob1) \<Rightarrow> (Inl Fork_not_found, ob1)
           | (Some m, ob1) \<Rightarrow>
               if cm_softDeleted m then (Inl Fork_soft_deleted, ob1)
               else if (case contentTypeProvided of Some c \<Rightarrow> trim c \<noteq> [] \<and> normalizeContentType (Some c) \<noteq> normalizeContentType (cm_contentType m)
                        | None \<Rightarrow> False) then (Inl Fork_type_mismatch, ob1)
               else (let forkOffset = (case fo of Some x \<Rightarrow> x | None \<Rightarrow> cm_currentOffset m)
                     in if forkOffset < ZERO_OFFSET \<or> cm_currentOffset m < forkOffset then (Inl Fork_invalid_offset, ob1)
                        else (let (recorded, db1) = insertForkEdge edgeId forkOffset (ob_db ob1)
                              in (Inr (acquired_of recorded m), ob1\<lparr>ob_db := db1\<rparr>)))))"

text \<open>\<open>None\<close> is the exception for an empty identifier.\<close>

definition forkRelease :: "cf_env \<Rightarrow> string \<Rightarrow> string option \<Rightarrow> cf_object \<Rightarrow> cf_object option" where
  "forkRelease env edgeId sourceGeneration ob =
     (if edgeId = [] then None
      else Some (case ob_meta ob of
        None \<Rightarrow> ob
      | Some m \<Rightarrow>
          if sourceGeneration \<noteq> None \<and> sourceGeneration \<noteq> Some (cm_generation m) then ob
          else if getForkEdge edgeId (ob_db ob) = None then ob
          else (let ob1 = on_db (deleteForkEdge edgeId) ob
                in if forkEdgeCount (ob_db ob1) = 0 \<and> cm_softDeleted m then purgeStream env m ob1 else ob1)))"

section \<open>POST\<close>

definition cf_parse_producer :: "http_request \<Rightarrow> http_response + (string \<times> nat \<times> nat) option" where
  "cf_parse_producer req =
     (case (header req PRODUCER_ID_HEADER, header req PRODUCER_EPOCH_HEADER, header req PRODUCER_SEQ_HEADER) of
        (None, None, None) \<Rightarrow> Inr None
      | (Some producerId, Some epochStr, Some seqStr) \<Rightarrow>
          if producerId = [] then Inl (cf_text 400 ''Invalid Producer-Id: must not be empty'' [])
          else (case safe_integer epochStr of
                  None \<Rightarrow> Inl (cf_text 400 ''Invalid Producer-Epoch: must be a non-negative integer'' [])
                | Some ep \<Rightarrow>
                    (case safe_integer seqStr of
                       None \<Rightarrow> Inl (cf_text 400 ''Invalid Producer-Seq: must be a non-negative integer'' [])
                     | Some sq \<Rightarrow> Inr (Some (producerId, ep, sq))))
      | _ \<Rightarrow> Inl (cf_text 400
          ''All producer headers (Producer-Id, Producer-Epoch, Producer-Seq) must be provided together'' []))"

definition cf_producer_headers :: "nat \<Rightarrow> nat \<Rightarrow> (string, string) jsmap" where
  "cf_producer_headers ep sq = [(PRODUCER_EPOCH_HEADER, nat_string ep), (PRODUCER_SEQ_HEADER, nat_string sq)]"

definition cf_closed_text :: "string \<Rightarrow> http_response" where
  "cf_closed_text tail = cf_text 409 ''Stream is closed'' [(STREAM_CLOSED_HEADER, ''true''), (STREAM_OFFSET_HEADER, tail)]"

definition producerFailureResponse :: "producer_validation_result \<Rightarrow> nat \<Rightarrow> bool \<Rightarrow> cf_object \<Rightarrow> http_response" where
  "producerFailureResponse v ep isCloseOnly ob =
     (case v of
        Duplicate l \<Rightarrow>
          cf_respond 204
            ((PRODUCER_EPOCH_HEADER, nat_string ep) # (PRODUCER_SEQ_HEADER, num_str l) #
             (if isCloseOnly then
                (STREAM_OFFSET_HEADER, case ob_meta ob of Some m \<Rightarrow> cm_currentOffset m | None \<Rightarrow> []) #
                (if (case ob_meta ob of Some m \<Rightarrow> cm_closed m | None \<Rightarrow> False) then [(STREAM_CLOSED_HEADER, ''true'')] else [])
              else [])) []
      | StaleEpoch currentEpoch \<Rightarrow> cf_text 403 ''Stale producer epoch'' [(PRODUCER_EPOCH_HEADER, nat_string currentEpoch)]
      | InvalidEpochSeq \<Rightarrow> cf_text 400 ''New epoch must start with sequence 0'' []
      | SequenceGap expectedSeq receivedSeq \<Rightarrow>
          cf_text 409 ''Producer sequence gap'' [(PRODUCER_EXPECTED_SEQ_HEADER, nat_string expectedSeq),
            (PRODUCER_RECEIVED_SEQ_HEADER, nat_string receivedSeq)]
      | _ \<Rightarrow> cf_closed_text (case ob_meta ob of Some m \<Rightarrow> cm_currentOffset m | None \<Rightarrow> []))"

definition cf_validate :: "cf_env \<Rightarrow> string \<times> nat \<times> nat \<Rightarrow> cf_object \<Rightarrow> producer_validation_result \<times> cf_object" where
  "cf_validate env who ob =
     (case who of
        (i, ep, sq) \<Rightarrow>
          (case getProducerState i (ke_now env) (ob_db ob) of
             (st, db1) \<Rightarrow> (cf_validateProducer st i ep sq (ke_now env), ob\<lparr>ob_db := db1\<rparr>)))"

definition cf_commit :: "producer_validation_result option \<Rightarrow> cf_db \<Rightarrow> cf_db" where
  "cf_commit v db = (case v of Some (Accepted _ st i) \<Rightarrow> cf_commitProducerState i st db | _ \<Rightarrow> db)"

definition handleCloseOnly :: "cf_env \<Rightarrow> (string \<times> nat \<times> nat) option \<Rightarrow> cf_object \<Rightarrow> http_response \<times> cf_object" where
  "handleCloseOnly env who ob =
     (case getMeta env ob of
        (None, ob1) \<Rightarrow> (cf_text 404 ''Stream not found'' [], ob1)
      | (Some m, ob1) \<Rightarrow>
          if cm_softDeleted m then (cf_text 410 ''Stream is gone'' [], ob1)
          else (let closed_headers = [(STREAM_OFFSET_HEADER, cm_currentOffset m), (STREAM_CLOSED_HEADER, ''true'')]
                in case who of
                     None \<Rightarrow> (cf_respond 204 closed_headers [], notifyClosed (touch env (on_db (setClosed None) ob1)))
                   | Some (i, ep, sq) \<Rightarrow>
                       if cm_closed m then
                         (if cm_closedBy m = Some (i, ep, sq)
                          then (cf_respond 204 (closed_headers @ cf_producer_headers ep sq) [], ob1)
                          else (cf_closed_text (cm_currentOffset m), ob1))
                       else (case cf_validate env (i, ep, sq) ob1 of
                               (v, ob2) \<Rightarrow>
                                 if \<not> is_accepted v then (producerFailureResponse v ep True ob2, ob2)
                                 else (cf_respond 204 (closed_headers @ cf_producer_headers ep sq) [],
                                       notifyClosed (touch env (on_db (setClosed (Some (i, ep, sq)) \<circ> cf_commit (Some v)) ob2))))))"

text \<open>What an append stores, or the refusal of its JSON.\<close>

definition cf_payload :: "cf_env \<Rightarrow> string option \<Rightarrow> bytes \<Rightarrow> bool \<Rightarrow> http_response + bytes" where
  "cf_payload env ct body isInitialCreate =
     (if normalizeContentType ct = ''application/json'' then
        (case cf_processJsonAppend (num_canon (ke_js env)) body isInitialCreate of
           Inl Invalid_JSON \<Rightarrow> Inl (cf_text 400 ''Invalid JSON'' [])
         | Inl _ \<Rightarrow> Inl (cf_text 400 ''Empty arrays are not allowed'' [])
         | Inr d \<Rightarrow> if length d > MAX_BODY_BYTES then Inl (cf_text 413 ''Payload too large'' []) else Inr d)
      else Inr body)"

text \<open>The writes of an append: \<open>None\<close> is a failed statement, an exception.\<close>

definition cf_append_writes ::
  "cf_env \<Rightarrow> cf_meta \<Rightarrow> bytes \<Rightarrow> producer_validation_result option \<Rightarrow> string option \<Rightarrow> bool \<Rightarrow> (string \<times> nat \<times> nat) option
     \<Rightarrow> cf_object \<Rightarrow> (string \<times> cf_object) option" where
  "cf_append_writes env m payload v seq closing who ob =
     (case appendMessage (cm_currentOffset m) payload (ke_now env) (ob_db ob) of
        None \<Rightarrow> None
      | Some (newOffset, db1) \<Rightarrow>
          (let db2 = cf_commit v db1;
               db3 = (case seq of Some x \<Rightarrow> setLastSeq x db2 | None \<Rightarrow> db2);
               db4 = (if closing then setClosed who db3 else db3);
               ob1 = notifyAppend (touch env (ob\<lparr>ob_db := db4\<rparr>))
           in Some (newOffset, if closing then notifyClosed ob1 else ob1)))"

definition cf_store_append ::
  "cf_env \<Rightarrow> string option \<Rightarrow> bytes \<Rightarrow> bool \<Rightarrow> (string \<times> nat \<times> nat) option \<Rightarrow> producer_validation_result option
     \<Rightarrow> cf_meta \<Rightarrow> cf_object \<Rightarrow> http_response option \<times> cf_object" where
  "cf_store_append env seq body closing who v m ob =
     (if (case (seq, cm_lastSeq m) of (Some x, Some l) \<Rightarrow> x \<le> l | _ \<Rightarrow> False) then (Some (cf_text 409 ''Sequence conflict'' []), ob)
      else (case cf_payload env (cm_contentType m) body False of
              Inl rs \<Rightarrow> (Some rs, ob)
            | Inr payload \<Rightarrow>
                (case cf_append_writes env m payload v seq closing who ob of
                   None \<Rightarrow> (None, ob)
                 | Some (newOffset, ob1) \<Rightarrow>
                     (Some (cf_respond (if who \<noteq> None then 200 else 204)
                        ((STREAM_OFFSET_HEADER, newOffset) #
                         (case who of Some (i, ep, sq) \<Rightarrow> cf_producer_headers ep sq | None \<Rightarrow> []) @
                         (if closing then [(STREAM_CLOSED_HEADER, ''true'')] else [])) []), ob1))))"

definition cf_append :: "cf_env \<Rightarrow> http_request \<Rightarrow> bytes \<Rightarrow> bool \<Rightarrow> (string \<times> nat \<times> nat) option
     \<Rightarrow> cf_meta \<Rightarrow> cf_object \<Rightarrow> http_response option \<times> cf_object" where
  "cf_append env req body closing who m ob =
     (let seq = header req STREAM_SEQ_HEADER;
          (v, ob1) = (case who of None \<Rightarrow> (None, ob) | Some x \<Rightarrow> (case cf_validate env x ob of (r, o1) \<Rightarrow> (Some r, o1)))
      in case (v, who) of
           (Some r, Some (i, ep, sq)) \<Rightarrow>
             if \<not> is_accepted r then (Some (producerFailureResponse r ep False ob1), ob1)
             else cf_store_append env seq body closing who v m ob1
         | _ \<Rightarrow> cf_store_append env seq body closing who v m ob1)"

text \<open>A response of \<open>None\<close> is an exception.\<close>

definition cf_handlePost :: "cf_env \<Rightarrow> http_request \<Rightarrow> cf_object \<Rightarrow> http_response option \<times> cf_object" where
  "cf_handlePost env req ob =
     (let closing = (toLowerCase (case header req STREAM_CLOSED_HEADER of Some x \<Rightarrow> x | None \<Rightarrow> []) = ''true'')
      in case cf_readBody req of
           None \<Rightarrow> (Some (cf_text 413 ''Payload too large'' []), ob)
         | Some body \<Rightarrow>
             (case cf_parse_producer req of
                Inl rs \<Rightarrow> (Some rs, ob)
              | Inr who \<Rightarrow>
                  if body = [] \<and> closing then (case handleCloseOnly env who ob of (rs, ob1) \<Rightarrow> (Some rs, ob1))
                  else if body = [] then (Some (cf_text 400 ''Empty body'' []), ob)
                  else (case header req ''content-type'' of
                          None \<Rightarrow> (Some (cf_text 400 ''Content-Type header is required'' []), ob)
                        | Some ct \<Rightarrow>
                            (case getMeta env ob of
                               (None, ob1) \<Rightarrow> (Some (cf_text 404 ''Stream not found'' []), ob1)
                             | (Some m, ob1) \<Rightarrow>
                                 if cm_softDeleted m then (Some (cf_text 410 ''Stream is gone'' []), ob1)
                                 else if cm_closed m then
                                   (case who of
                                      Some (i, ep, sq) \<Rightarrow>
                                        if cm_closedBy m = Some (i, ep, sq)
                                        then (Some (cf_respond 204 ([(STREAM_OFFSET_HEADER, cm_currentOffset m), (STREAM_CLOSED_HEADER, ''true'')]
                                               @ cf_producer_headers ep sq) []), ob1)
                                        else (Some (cf_closed_text (cm_currentOffset m)), ob1)
                                    | None \<Rightarrow> (Some (cf_closed_text (cm_currentOffset m)), ob1))
                                 else if cm_contentType m \<noteq> None \<and> normalizeContentType (Some ct) \<noteq> normalizeContentType (cm_contentType m)
                                 then (Some (cf_text 409 ''Content-type mismatch'' []), ob1)
                                 else cf_append env req body closing who m ob1))))"

section \<open>PUT\<close>

record cf_requested =
  rc_contentType :: "string option"
  rc_ttlSeconds :: "nat option"
  rc_expiresAt :: "string option"
  rc_createClosed :: bool
  rc_forkedFrom :: "string option"
  rc_forkOffsetHeader :: "string option"
  rc_forkSubOffset :: "nat option"

definition cf_parse_put :: "cf_env \<Rightarrow> http_request \<Rightarrow> http_response + cf_requested" where
  "cf_parse_put env req =
     (let ct = header req ''content-type''; forkedFrom = header req STREAM_FORKED_FROM_HEADER;
          forkOffsetHeader = header req STREAM_FORK_OFFSET_HEADER; subHeader = header req STREAM_FORK_SUB_OFFSET_HEADER;
          ttlHeader = header req STREAM_TTL_HEADER; expiresAtHeader = header req STREAM_EXPIRES_AT_HEADER;
          usable = (case ct of Some c \<Rightarrow> trim c \<noteq> [] \<and> media_type_prefix c | None \<Rightarrow> False)
      in if ttlHeader \<noteq> None \<and> expiresAtHeader \<noteq> None then Inl (cf_text 400 ''Cannot specify both Stream-TTL and Stream-Expires-At'' [])
         else if ttlHeader \<noteq> None \<and> (\<not> canonical_integer_pattern (the ttlHeader) \<or> digits_val (the ttlHeader) \<ge> 2 ^ 53
                \<or> digits_val (the ttlHeader) > MAX_TTL_SECONDS)
         then Inl (cf_text 400 ''Invalid Stream-TTL value'' [])
         else if expiresAtHeader \<noteq> None \<and> date_ms (ke_js env) (the expiresAtHeader) = None
         then Inl (cf_text 400 ''Invalid Stream-Expires-At timestamp'' [])
         else if forkOffsetHeader \<noteq> None \<and> \<not> offset_pattern (the forkOffsetHeader)
         then Inl (cf_text 400 ''Invalid Stream-Fork-Offset format'' [])
         else if subHeader \<noteq> None \<and> forkedFrom = None
         then Inl (cf_text 400 ''Stream-Fork-Sub-Offset requires Stream-Forked-From'' [])
         else if subHeader \<noteq> None \<and> \<not> canonical_integer_pattern (the subHeader)
         then Inl (cf_text 400 ''Invalid Stream-Fork-Sub-Offset format'' [])
         else Inr \<lparr>rc_contentType = (if usable then ct else if forkedFrom \<noteq> None then None else Some ''application/octet-stream''),
                   rc_ttlSeconds = map_option digits_val ttlHeader, rc_expiresAt = expiresAtHeader,
                   rc_createClosed = (toLowerCase (case header req STREAM_CLOSED_HEADER of Some x \<Rightarrow> x | None \<Rightarrow> []) = ''true''),
                   rc_forkedFrom = forkedFrom, rc_forkOffsetHeader = forkOffsetHeader, rc_forkSubOffset = map_option digits_val subHeader\<rparr>)"

definition or_octets :: "string \<Rightarrow> string" where
  "or_octets ct = (if ct = [] then ''application/octet-stream'' else ct)"

definition existingStreamResponse :: "cf_meta \<Rightarrow> cf_requested \<Rightarrow> http_response" where
  "existingStreamResponse m req =
     (if cm_softDeleted m then
        cf_text 409 (''stream was deleted but still has active forks '' @ map char_of [226 :: nat, 128, 148]
          @ '' path cannot be reused until all forks are removed'') []
      else if (rc_contentType req = None \<and> rc_forkedFrom req \<noteq> None \<and> rc_forkedFrom req = cm_forkedFrom m
               \<or> or_octets (normalizeContentType (rc_contentType req)) = or_octets (normalizeContentType (cm_contentType m)))
            \<and> rc_ttlSeconds req = cm_ttlSeconds m \<and> rc_expiresAt req = cm_expiresAt m \<and> rc_createClosed req = cm_closed m
            \<and> rc_forkedFrom req = cm_forkedFrom m
            \<and> (rc_forkOffsetHeader req = None \<or> rc_forkOffsetHeader req = cm_forkOffset m)
            \<and> or_zero (rc_forkSubOffset req) = or_zero (cm_forkSubOffset m)
      then cf_respond 200
        ([(''content-type'', case cm_contentType m of Some c \<Rightarrow> c
             | None \<Rightarrow> (case rc_contentType req of Some c \<Rightarrow> c | None \<Rightarrow> ''application/octet-stream'')),
          (STREAM_OFFSET_HEADER, cm_currentOffset m)] @ (if cm_closed m then [(STREAM_CLOSED_HEADER, ''true'')] else [])) []
      else cf_text 409 ''Stream already exists with different configuration'' [])"

definition put_headers :: "cf_env \<Rightarrow> string \<Rightarrow> string \<Rightarrow> string \<Rightarrow> bool \<Rightarrow> (string, string) jsmap" where
  "put_headers env path ct ofs createClosed =
     [(''content-type'', ct), (STREAM_OFFSET_HEADER, ofs), (''location'', ke_origin env @ path)]
     @ (if createClosed then [(STREAM_CLOSED_HEADER, ''true'')] else [])"

text \<open>An append of initial data, when there is any; \<open>None\<close> is an exception.\<close>

definition append_initial :: "cf_env \<Rightarrow> bytes option \<Rightarrow> (string \<times> cf_db) option \<Rightarrow> (string \<times> cf_db) option" where
  "append_initial env payload r =
     (case (r, payload) of
        (Some (ofs, db), Some d) \<Rightarrow> if d = [] then Some (ofs, db) else appendMessage ofs d (ke_now env) db
      | _ \<Rightarrow> r)"

definition initial_payload :: "cf_env \<Rightarrow> string option \<Rightarrow> bytes \<Rightarrow> http_response + bytes option" where
  "initial_payload env ct body =
     (if body = [] then Inr None
      else (case cf_payload env ct body True of Inl rs \<Rightarrow> Inl rs | Inr d \<Rightarrow> Inr (Some d)))"

text \<open>A PUT that is no fork, or of a stream that exists: \<open>Inr\<close> hands a fork over to \<^verbatim>\<open>createFork\<close>.\<close>

definition cf_handlePut ::
  "cf_env \<Rightarrow> string \<Rightarrow> http_request \<Rightarrow> cf_object \<Rightarrow> (http_response option + cf_requested \<times> bytes) \<times> cf_object" where
  "cf_handlePut env path req ob =
     (case cf_readBody req of
        None \<Rightarrow> (Inl (Some (cf_text 413 ''Payload too large'' [])), ob)
      | Some body \<Rightarrow>
          (case cf_parse_put env req of
             Inl rs \<Rightarrow> (Inl (Some rs), ob)
           | Inr requested \<Rightarrow>
               (case getMeta env ob of
                  (Some m, ob1) \<Rightarrow> (Inl (Some (existingStreamResponse m requested)), ob1)
                | (None, ob1) \<Rightarrow>
                    (case ob_meta ob1 of
                       Some m \<Rightarrow> (Inl (Some (existingStreamResponse m requested)), ob1)
                     | None \<Rightarrow>
                         if rc_forkedFrom requested \<noteq> None then (Inr (requested, body), ob1)
                         else (let ct = (case rc_contentType requested of Some c \<Rightarrow> c | None \<Rightarrow> ''application/octet-stream'')
                               in case initial_payload env (Some ct) body of
                                    Inl rs \<Rightarrow> (Inl (Some rs), ob1)
                                  | Inr payload \<Rightarrow>
                                      (case createMeta (ke_uuid env)
                                              \<lparr>cc_contentType = Some ct, cc_ttlSeconds = rc_ttlSeconds requested,
                                               cc_expiresAt = rc_expiresAt requested, cc_closed = rc_createClosed requested,
                                               cc_now = ke_now env, cc_forkedFrom = None, cc_forkOffset = None,
                                               cc_forkSubOffset = None, cc_forkEdgeId = None, cc_forkSourceGen = None\<rparr> (ob_db ob1) of
                                         None \<Rightarrow> (Inl None, ob1)
                                       | Some db1 \<Rightarrow>
                                           (case append_initial env payload (Some (case db_meta db1 of Some m \<Rightarrow> cm_currentOffset m | None \<Rightarrow> [], db1)) of
                                              None \<Rightarrow> (Inl None, ob1\<lparr>ob_db := db1\<rparr>)
                                            | Some (ofs, db2) \<Rightarrow>
                                                (Inl (Some (cf_respond 201 (put_headers env path ct ofs (rc_createClosed requested)) [])),
                                                 syncExpiryAlarm env (ob1\<lparr>ob_db := db2\<rparr>)))))))))"

section \<open>Forks\<close>

definition params_key :: "string \<Rightarrow> string option \<Rightarrow> string" where
  "params_key source fo =
     map char_of (stringify (JArr [JStr (asc source), case fo of Some x \<Rightarrow> JStr (asc x) | None \<Rightarrow> JNull]))"

text \<open>\<^verbatim>\<open>createFork\<close> up to its first remote call: a refusal, or the edge that is to be acquired. The identifier
  for a new edge is drawn from the environment.\<close>

definition createFork_begin :: "cf_env \<Rightarrow> string \<Rightarrow> cf_requested \<Rightarrow> cf_object \<Rightarrow> (http_response + string) \<times> cf_object" where
  "createFork_begin env path req ob =
     (if rc_forkedFrom req = Some path then (Inl (cf_text 404 ''Source stream not found'' []), ob)
      else (let q = the (rc_forkedFrom req); key = params_key q (rc_forkOffsetHeader req)
            in case getForkIntent key (ob_db ob) of
                 Some e \<Rightarrow> (Inr e, ob)
               | None \<Rightarrow> (Inr (ke_uuid env), armAlarmAt env (ke_now env + 5000) (on_db (putForkIntent (ke_uuid env) q key) ob))))"

fun fork_refusal :: "fork_error \<Rightarrow> http_response option" where
  "fork_refusal Fork_not_found = Some (cf_text 404 ''Source stream not found'' [])"
| "fork_refusal Fork_soft_deleted = Some (cf_text 409 ''source stream was deleted but still has active forks'' [])"
| "fork_refusal Fork_type_mismatch = Some (cf_text 409 ''Content type mismatch with source stream'' [])"
| "fork_refusal Fork_invalid_offset = Some (cf_text 400 ''Fork offset beyond source stream length'' [])"
| "fork_refusal Fork_no_edge_id = None"

text \<open>A refused acquire: there is no reference, so the intent goes.\<close>

definition createFork_refused :: "string \<Rightarrow> fork_error \<Rightarrow> cf_object \<Rightarrow> http_response option \<times> cf_object" where
  "createFork_refused e err ob = (fork_refusal err, if fork_refusal err = None then ob else on_db (deleteForkIntent e) ob)"

definition release_edge :: "cf_env \<Rightarrow> string \<Rightarrow> string \<Rightarrow> string \<Rightarrow> cf_object \<Rightarrow> cf_object" where
  "release_edge env e q g ob = flushGcReleases env (on_db (deleteForkIntent e \<circ> enqueueGcRelease e q (Some g)) ob)"

text \<open>The leading part of the source's next message; \<open>None\<close> is an invalid sub-offset.\<close>

definition sub_prefix :: "cf_env \<Rightarrow> bool \<Rightarrow> nat \<Rightarrow> (string \<times> bytes) list \<Rightarrow> bytes option" where
  "sub_prefix env isJson n past =
     (case past of
        [] \<Rightarrow> None
      | (ofs, d) # _ \<Rightarrow>
          if isJson then
            (case json_parse (num_canon (ke_js env)) ([91] @ strip_comma (text_decode d) @ [93]) of
               Some (JArr vs) \<Rightarrow> if n > length vs then None else Some (text_encode (join_comma (map stringify (take n vs)) @ [44]))
             | _ \<Rightarrow> None)
          else if n > length d then None else Some (take n d))"

text \<open>What a fork takes over from its source.\<close>

definition fork_contentType :: "cf_requested \<Rightarrow> acquired \<Rightarrow> string option" where
  "fork_contentType req aq =
     (case rc_contentType req of Some c \<Rightarrow> if trim c \<noteq> [] then Some c else aq_contentType aq | None \<Rightarrow> aq_contentType aq)"

definition fork_options :: "cf_env \<Rightarrow> cf_requested \<Rightarrow> string \<Rightarrow> acquired \<Rightarrow> cf_create_options" where
  "fork_options env req e aq =
     (let inherits = (rc_ttlSeconds req = None \<and> rc_expiresAt req = None); sub = or_zero (rc_forkSubOffset req)
      in \<lparr>cc_contentType = fork_contentType req aq, cc_ttlSeconds = (if inherits then aq_ttlSeconds aq else rc_ttlSeconds req),
          cc_expiresAt = (if inherits \<and> aq_ttlSeconds aq = None then aq_expiresAt aq else rc_expiresAt req),
          cc_closed = rc_createClosed req, cc_now = ke_now env, cc_forkedFrom = rc_forkedFrom req,
          cc_forkOffset = Some (aq_forkOffset aq), cc_forkSubOffset = (if sub > 0 then Some sub else None), cc_forkEdgeId = Some e,
          cc_forkSourceGen = Some (aq_generation aq)\<rparr>)"

text \<open>The rest of \<^verbatim>\<open>createFork\<close> after the answer of the source and, for a sub-offset, the read of its next message
  (\<open>past\<close>); a response of \<open>None\<close> is the exception of a failed statement.\<close>

definition createFork_finish ::
  "cf_env \<Rightarrow> string \<Rightarrow> cf_requested \<Rightarrow> bytes \<Rightarrow> string \<Rightarrow> acquired \<Rightarrow> (string \<times> bytes) list \<Rightarrow> cf_object \<Rightarrow> http_response option \<times> cf_object" where
  "createFork_finish env path req body e aq past ob =
     (let release = release_edge env e (the (rc_forkedFrom req)) (aq_generation aq); ct = fork_contentType req aq;
          sub = or_zero (rc_forkSubOffset req); prefix = sub_prefix env (normalizeContentType ct = ''application/json'') sub past
      in if sub > 0 \<and> prefix = None then (Some (cf_text 400 ''Invalid fork sub-offset'' []), release ob)
         else (case initial_payload env ct body of
             Inl rs \<Rightarrow> (Some rs, release ob)
           | Inr payload \<Rightarrow>
               (case ob_meta ob of
                  Some raced \<Rightarrow>
                    (Some (existingStreamResponse raced req),
                     if cm_forkEdgeId raced = Some e then on_db (deleteForkIntent e) ob else release ob)
                | None \<Rightarrow>
                    (case createMeta (ke_uuid env) (fork_options env req e aq) (ob_db ob) of
                       None \<Rightarrow> (None, release ob)
                     | Some db1 \<Rightarrow>
                         (case append_initial env payload
                                 (append_initial env (if sub > 0 then prefix else None) (Some (aq_forkOffset aq, db1))) of
                            None \<Rightarrow> (None, release (ob\<lparr>ob_db := db1\<rparr>))
                          | Some (ofs, db2) \<Rightarrow>
                              (Some (cf_respond 201 (put_headers env path (case ct of Some c \<Rightarrow> c | None \<Rightarrow> ''application/octet-stream'') ofs
                                 (rc_createClosed req)) []),
                               syncExpiryAlarm env (on_db (deleteForkIntent e) (ob\<lparr>ob_db := db2\<rparr>))))))))"

text \<open>\<^verbatim>\<open>processForkIntents\<close>: the intents it goes through, the arguments of the repeated acquire, and what follows an answer
  or a failed call.\<close>

definition reconcile_list :: "cf_object \<Rightarrow> (string \<times> string \<times> string) list" where
  "reconcile_list ob = (if ob_meta ob \<noteq> None then [] else pendingForkIntents (ob_db ob))"

definition intent_offset :: "cf_env \<Rightarrow> string \<Rightarrow> string option" where
  "intent_offset env key =
     (case json_parse (num_canon (ke_js env)) (asc key) of Some (JArr [_, JStr x]) \<Rightarrow> Some (map char_of x) | _ \<Rightarrow> None)"

definition reconcile_failed :: "cf_env \<Rightarrow> cf_object \<Rightarrow> cf_object" where
  "reconcile_failed env ob = armAlarmAt env (ke_now env + 5000) ob"

definition reconcile_answer :: "cf_env \<Rightarrow> string \<Rightarrow> string \<Rightarrow> fork_error + acquired \<Rightarrow> cf_object \<Rightarrow> cf_object" where
  "reconcile_answer env e q r ob =
     (case r of
        Inr aq \<Rightarrow> on_db (deleteForkIntent e \<circ> enqueueGcRelease e q (Some (aq_generation aq))) ob
      | Inl err \<Rightarrow> if fork_refusal err = None then reconcile_failed env ob else on_db (deleteForkIntent e) ob)"

section \<open>Reads\<close>

text \<open>\<open>remote q after cap limit budget\<close> is the answer of the source's \<^verbatim>\<open>readRange\<close>.\<close>

type_synonym read_batch = "(string \<times> bytes) list \<times> bool"
type_synonym remote_read = "string \<Rightarrow> string option \<Rightarrow> string \<Rightarrow> nat option \<Rightarrow> nat \<Rightarrow> read_batch"

text \<open>The own messages after what the fork inherits, with what is left of limit and budget.\<close>

definition read_own :: "(string \<times> bytes) list \<Rightarrow> string option \<Rightarrow> string option \<Rightarrow> nat option \<Rightarrow> nat \<Rightarrow> cf_db \<Rightarrow> read_batch" where
  "read_own out after cap limit budget db =
     (case readMessagesRange after cap (map_option (\<lambda>l. l - length out) limit) (Some budget) (out = []) db of
        (ms, capped) \<Rightarrow> (out @ ms, capped))"

definition read_segments :: "remote_read \<Rightarrow> string \<Rightarrow> string \<Rightarrow> string option \<Rightarrow> string option \<Rightarrow> nat option \<Rightarrow> nat \<Rightarrow> cf_db \<Rightarrow> read_batch" where
  "read_segments remote q fo after capOffset limit byteBudget db =
     (let cap = (case capOffset of None \<Rightarrow> fo | Some c \<Rightarrow> if fo < c then fo else c);
          (inherited, capped) = remote q after cap limit byteBudget;
          size = sum_list (map (length \<circ> snd) inherited)
      in if capped then (inherited, True)
         else if (case limit of Some l \<Rightarrow> length inherited \<ge> l | None \<Rightarrow> False) then (take (the limit) inherited, True)
         else if byteBudget \<le> size \<and> inherited \<noteq> [] then (inherited, True)
         else read_own inherited after capOffset limit (byteBudget - size) db)"

definition inherits_range :: "cf_meta \<Rightarrow> string option \<Rightarrow> (string \<times> string) option" where
  "inherits_range m after =
     (case (cm_forkedFrom m, cm_forkOffset m) of
        (Some q, Some fo) \<Rightarrow> if (case after of None \<Rightarrow> True | Some a \<Rightarrow> a < fo) then Some (q, fo) else None
      | _ \<Rightarrow> None)"

text \<open>After the call the row of metadata is read again: a stream that has gone gives nothing, another generation starts
  over.\<close>

definition readStitched :: "remote_read \<Rightarrow> cf_meta \<Rightarrow> string option \<Rightarrow> string option \<Rightarrow> nat option \<Rightarrow> nat \<Rightarrow> cf_db \<Rightarrow> read_batch" where
  "readStitched remote m afterOffset capOffset limit byteBudget db =
     (let after = (if afterOffset = Some ''-1'' then None else afterOffset);
          own = read_own [] after capOffset limit byteBudget db;
          stitched = (\<lambda>(q, fo). read_segments remote q fo after capOffset limit byteBudget db)
      in case inherits_range m after of
           None \<Rightarrow> own
         | Some seg \<Rightarrow>
             (case db_meta db of
                None \<Rightarrow> ([], False)
              | Some current \<Rightarrow>
                  if cm_generation current = cm_generation m then stitched seg
                  else (case inherits_range current after of None \<Rightarrow> own | Some seg' \<Rightarrow> stitched seg')))"

text \<open>\<^verbatim>\<open>readRange\<close>, the source's side of such a call.\<close>

definition readRange :: "remote_read \<Rightarrow> string option \<Rightarrow> string \<Rightarrow> nat option \<Rightarrow> nat \<Rightarrow> cf_db \<Rightarrow> read_batch" where
  "readRange remote afterOffset capOffset limit byteBudget db =
     (case db_meta db of None \<Rightarrow> ([], False) | Some m \<Rightarrow> readStitched remote m afterOffset (Some capOffset) limit byteBudget db)"

definition readStream :: "remote_read \<Rightarrow> cf_meta \<Rightarrow> string option \<Rightarrow> cf_db \<Rightarrow> read_batch" where
  "readStream remote m afterOffset db = readStitched remote m afterOffset None None MAX_READ_BATCH_BYTES db"

section \<open>HEAD and GET\<close>

definition cf_handleHead :: "cf_env \<Rightarrow> cf_object \<Rightarrow> http_response \<times> cf_object" where
  "cf_handleHead env ob =
     (case getMeta env ob of
        (None, ob1) \<Rightarrow> (cf_respond 404 [(''content-type'', ''text/plain'')] [], ob1)
      | (Some m, ob1) \<Rightarrow>
          if cm_softDeleted m then (cf_respond 410 [(''content-type'', ''text/plain'')] [], ob1)
          else (cf_respond 200
            ([(STREAM_OFFSET_HEADER, cm_currentOffset m), (''cache-control'', ''no-store'')]
             @ (case cm_contentType m of Some c \<Rightarrow> [(''content-type'', c)] | None \<Rightarrow> [])
             @ (if cm_closed m then [(STREAM_CLOSED_HEADER, ''true'')] else [])
             @ (case cm_ttlSeconds m of Some n \<Rightarrow> [(STREAM_TTL_HEADER, nat_string n)] | None \<Rightarrow> [])
             @ (case cm_expiresAt m of Some x \<Rightarrow> [(STREAM_EXPIRES_AT_HEADER, x)] | None \<Rightarrow> [])
             @ [(''etag'', cf_makeEtag env ''-1'' (cm_currentOffset m) (cm_closed m))]) [], ob1))"

definition cf_isJson :: "cf_meta \<Rightarrow> bool" where
  "cf_isJson m \<longleftrightarrow> normalizeContentType (cm_contentType m) = ''application/json''"

definition cf_cursor :: "cf_env \<Rightarrow> http_request \<Rightarrow> string" where
  "cf_cursor env req = cf_generateResponseCursor (ke_now env) (ke_jitter env) (query req ''cursor'')"

definition cf_get_error :: "http_request \<Rightarrow> http_response option" where
  "cf_get_error req =
     (let offsetParam = query req ''offset''; live = query req ''live''
      in if offsetParam = Some [] then Some (cf_text 400 ''Empty offset parameter'' [])
         else if length (filter (\<lambda>(k, v). k = ''offset'') (rq_query req)) > 1
         then Some (cf_text 400 ''Multiple offset parameters not allowed'' [])
         else if (case offsetParam of Some x \<Rightarrow> \<not> valid_read_offset x | None \<Rightarrow> False) then Some (cf_text 400 ''Invalid offset format'' [])
         else if live = Some ''sse'' \<and> offsetParam = None then Some (cf_text 400 ''SSE requires offset parameter'' [])
         else if live = Some ''long-poll'' \<and> offsetParam = None then Some (cf_text 400 ''Long-poll requires offset parameter'' [])
         else None)"

text \<open>The end of \<^verbatim>\<open>handleGet\<close>; the metadata are read again, since a wait may have gone by.\<close>

definition cf_get_response :: "cf_env \<Rightarrow> http_request \<Rightarrow> cf_meta \<Rightarrow> read_batch \<Rightarrow> cf_object \<Rightarrow> http_response" where
  "cf_get_response env req m batch ob =
     (let fresh = (case ob_meta ob of Some x \<Rightarrow> x | None \<Rightarrow> m); messages = fst batch; upToDate = (\<not> snd batch);
          live = (query req ''live'' = Some ''long-poll'');
          responseOffset = (if messages = [] then cm_currentOffset fresh else fst (last messages));
          closedSuffix = (cm_closed fresh \<and> responseOffset = cm_currentOffset fresh \<and> upToDate);
          tag = cf_makeEtag env (case query req ''offset'' of Some x \<Rightarrow> x | None \<Rightarrow> ''-1'') responseOffset closedSuffix
      in if header req ''if-none-match'' = Some tag then cf_respond 304 [(''etag'', tag)] []
         else cf_respond 200
           ((case cm_contentType fresh of Some c \<Rightarrow> [(''content-type'', c)] | None \<Rightarrow> [])
            @ [(STREAM_OFFSET_HEADER, responseOffset)]
            @ (if live then [(STREAM_CURSOR_HEADER, cf_cursor env req)] else [])
            @ (if upToDate then [(STREAM_UP_TO_DATE_HEADER, ''true'')] else [])
            @ (if closedSuffix then [(STREAM_CLOSED_HEADER, ''true'')] else [])
            @ [(''etag'', tag)]
            @ (if live then [] else [(''cache-control'', ''public, max-age=60, stale-while-revalidate=300'')]))
           (if cf_isJson fresh then cf_formatJsonMessages (map snd messages) else concatBytes (map snd messages)))"

text \<open>\<^verbatim>\<open>waitForMessages\<close>: an answer at once, or the number of a waiter.\<close>

definition cf_waitForMessages :: "remote_read \<Rightarrow> string \<Rightarrow> cf_object \<Rightarrow> (cf_wait_result + nat) \<times> cf_object" where
  "cf_waitForMessages remote offset ob =
     (let found = (\<lambda>b. Inl \<lparr>cw_messages = fst b, cw_timedOut = False, cw_streamClosed = False, cw_capped = snd b\<rparr>);
          inherited = (case ob_meta ob of
             Some m \<Rightarrow>
               (case (cm_forkedFrom m, cm_forkOffset m) of
                  (Some q, Some fo) \<Rightarrow> if offset \<noteq> ''-1'' \<and> offset < fo then Some (readStream remote m (Some offset) (ob_db ob)) else None
                | _ \<Rightarrow> None)
           | None \<Rightarrow> None);
          whole = (case ob_meta ob of
             Some m \<Rightarrow> if cm_forkedFrom m \<noteq> None \<and> offset = ''-1'' then Some (readStream remote m None (ob_db ob)) else None
           | None \<Rightarrow> None);
          initial = readMessages (waiter_after offset) MAX_READ_BATCH_BYTES (ob_db ob)
      in case inherited of
           Some b \<Rightarrow> (found b, ob)
         | None \<Rightarrow>
             if (case whole of Some b \<Rightarrow> fst b \<noteq> [] | None \<Rightarrow> False) then (found (the whole), ob)
             else if fst initial \<noteq> [] then (found initial, ob)
             else (case ob_meta ob of
                     None \<Rightarrow> (Inl \<lparr>cw_messages = [], cw_timedOut = False, cw_streamClosed = False, cw_capped = False\<rparr>, ob)
                   | Some m \<Rightarrow>
                       if cm_closed m \<and> offset = cm_currentOffset m
                       then (Inl \<lparr>cw_messages = [], cw_timedOut = False, cw_streamClosed = True, cw_capped = False\<rparr>, ob)
                       else (Inr (ob_nextWaiter ob),
                             ob\<lparr>ob_waiters := ob_waiters ob @ [\<lparr>wt_id = ob_nextWaiter ob, wt_offset = offset\<rparr>],
                                ob_nextWaiter := ob_nextWaiter ob + 1\<rparr>)))"

text \<open>A long-poll after its wait.\<close>

definition cf_get_resume :: "cf_env \<Rightarrow> http_request \<Rightarrow> cf_meta \<Rightarrow> string \<Rightarrow> cf_wait_result \<Rightarrow> cf_object \<Rightarrow> http_response \<times> cf_object" where
  "cf_get_resume env req m waitOffset r ob =
     (let ob1 = touch env ob;
          tail = [(STREAM_OFFSET_HEADER, waitOffset), (STREAM_UP_TO_DATE_HEADER, ''true''), (STREAM_CURSOR_HEADER, cf_cursor env req)]
      in if cw_streamClosed r \<and> cw_messages r = [] then (cf_respond 204 (tail @ [(STREAM_CLOSED_HEADER, ''true'')]) [], ob1)
         else if cw_timedOut r then
           (cf_respond 204 (tail @ (if (case ob_meta ob1 of Some x \<Rightarrow> cm_closed x | None \<Rightarrow> False) then [(STREAM_CLOSED_HEADER, ''true'')] else [])) [], ob1)
         else (cf_get_response env req m (cw_messages r, cw_capped r) ob1, ob1))"

datatype cf_get = Get_answer http_response | Get_wait cf_meta string "cf_wait_result + nat" | Get_sse cf_meta string bool

definition cf_handleGet :: "cf_env \<Rightarrow> remote_read \<Rightarrow> http_request \<Rightarrow> cf_object \<Rightarrow> cf_get \<times> cf_object" where
  "cf_handleGet env remote req ob =
     (case getMeta env ob of
        (None, ob1) \<Rightarrow> (Get_answer (cf_text 404 ''Stream not found'' []), ob1)
      | (Some m, ob1) \<Rightarrow>
          if cm_softDeleted m then (Get_answer (cf_text 410 ''Stream is gone'' []), ob1)
          else (case cf_get_error req of
             Some rs \<Rightarrow> (Get_answer rs, ob1)
           | None \<Rightarrow>
               (let offsetParam = query req ''offset''; live = query req ''live'';
                    effective = (if offsetParam = Some ''now'' then Some (cm_currentOffset m) else offsetParam);
                    ct = normalizeContentType (cm_contentType m)
                in if live = Some ''sse'' then
                     (Get_sse m (the effective) (\<not> (startsWith ct ''text/'' \<or> ct = ''application/json'')), ob1)
                   else if offsetParam = Some ''now'' \<and> live \<noteq> Some ''long-poll'' then
                     (Get_answer (cf_respond 200
                        ([(STREAM_OFFSET_HEADER, cm_currentOffset m), (STREAM_UP_TO_DATE_HEADER, ''true''), (''cache-control'', ''no-store'')]
                         @ (case cm_contentType m of Some c \<Rightarrow> [(''content-type'', c)] | None \<Rightarrow> [])
                         @ (if cm_closed m then [(STREAM_CLOSED_HEADER, ''true'')] else [])) (if cf_isJson m then ''[]'' else [])),
                      touch env ob1)
                   else (let batch = readStream remote m effective (ob_db ob1); ob2 = touch env ob1;
                             caughtUp = (effective = Some (cm_currentOffset m) \<or> offsetParam = Some ''now'')
                         in if live = Some ''long-poll'' \<and> caughtUp \<and> fst batch = [] then
                              (if cm_closed m then
                                 (Get_answer (cf_respond 204 [(STREAM_OFFSET_HEADER, cm_currentOffset m), (STREAM_UP_TO_DATE_HEADER, ''true''),
                                    (STREAM_CLOSED_HEADER, ''true'')] []), ob2)
                               else (case cf_waitForMessages remote (the effective) ob2 of
                                       (r, ob3) \<Rightarrow> (Get_wait m (the effective) r, ob3)))
                            else (Get_answer (cf_get_response env req m batch ob2), ob2)))))"

section \<open>Event streams\<close>

datatype pump_next = Pump_end | Pump_again string | Pump_wait string "cf_wait_result + nat"

definition same_generation :: "string \<Rightarrow> cf_object \<Rightarrow> bool" where
  "same_generation g ob \<longleftrightarrow> (case ob_meta ob of Some m \<Rightarrow> cm_generation m = g | None \<Rightarrow> False)"

text \<open>One turn of the loop of \<^verbatim>\<open>pumpSse\<close> up to its wait: what it writes and how it goes on.\<close>

definition pumpSse ::
  "cf_env \<Rightarrow> remote_read \<Rightarrow> http_request \<Rightarrow> string \<Rightarrow> bool \<Rightarrow> bool \<Rightarrow> int \<Rightarrow> string \<Rightarrow> cf_object \<Rightarrow> utext \<times> pump_next \<times> cf_object" where
  "pumpSse env remote req g useBase64 isJson startedAt offset ob =
     (if \<not> same_generation g ob then ([], Pump_end, ob)
      else (let m = the (ob_meta ob); (messages, capped) = readStream remote m (waiter_after offset) (ob_db ob);
                fragments = map snd messages;
                payload = (if useBase64 then asc (base64 (concatBytes fragments))
                           else if isJson then text_decode (cf_formatJsonMessages fragments) else text_decode (concatBytes fragments));
                datas = (if messages = [] then [] else data_text payload);
                ob1 = touch env ob; tail = cm_currentOffset m;
                controlOffset = (if messages = [] then tail else fst (last messages));
                atTail = (\<not> capped \<and> controlOffset = tail);
                control = (if cm_closed m \<and> atTail then control_closed controlOffset
                           else control_open controlOffset (cf_cursor env req) (\<not> capped));
                frame = datas @ control_text control
            in if cm_closed m \<and> atTail then (frame, Pump_end, ob1)
               else if capped then (frame, Pump_again controlOffset, ob1)
               else if ke_now env - startedAt \<ge> MAX_SSE_LIFETIME_MS then (frame, Pump_end, ob1)
               else (case cf_waitForMessages remote controlOffset ob1 of (r, ob2) \<Rightarrow> (frame, Pump_wait controlOffset r, ob2))))"

definition pump_after_wait ::
  "cf_env \<Rightarrow> http_request \<Rightarrow> string \<Rightarrow> string \<Rightarrow> cf_wait_result \<Rightarrow> cf_object \<Rightarrow> utext \<times> pump_next \<times> cf_object" where
  "pump_after_wait env req g offset r ob =
     (let ob1 = touch env ob
      in if cw_streamClosed r \<and> cw_messages r = [] then (control_text (control_closed offset), Pump_end, ob1)
         else if cw_timedOut r then
           (if \<not> same_generation g ob1 then ([], Pump_end, ob1)
            else if cm_closed (the (ob_meta ob1)) then (control_text (control_closed offset), Pump_end, ob1)
            else (control_text (control_open offset (cf_cursor env req) True), Pump_again offset, ob1))
         else ([], Pump_again offset, ob1))"

section \<open>Dispatch\<close>

text \<open>The response that \<^verbatim>\<open>handleSse\<close> gives at once; its body is what \<^verbatim>\<open>pumpSse\<close> writes.\<close>

definition handleSse_response :: "bool \<Rightarrow> http_response" where
  "handleSse_response useBase64 =
     cf_respond 200 ([(''content-type'', ''text/event-stream''), (''cache-control'', ''no-cache''), (''connection'', ''keep-alive''),
       (''content-encoding'', ''identity'')] @ (if useBase64 then [(STREAM_SSE_DATA_ENCODING_HEADER, ''base64'')] else [])) []"

datatype cf_reply = Reply "http_response option" | Fork_create cf_requested bytes | Poll_wait cf_meta string "cf_wait_result + nat"
  | Event_stream http_response cf_meta string bool

definition cf_fetch :: "cf_env \<Rightarrow> remote_read \<Rightarrow> http_request \<Rightarrow> cf_object \<Rightarrow> cf_reply \<times> cf_object" where
  "cf_fetch env remote req ob =
     (let m = rq_method req; path = rq_path req
      in if m = ''PUT'' then
           (case cf_handlePut env path req ob of (Inl rs, ob1) \<Rightarrow> (Reply rs, ob1) | (Inr (requested, body), ob1) \<Rightarrow> (Fork_create requested body, ob1))
         else if m = ''HEAD'' then (case cf_handleHead env ob of (rs, ob1) \<Rightarrow> (Reply (Some rs), ob1))
         else if m = ''GET'' then
           (case cf_handleGet env remote req ob of
              (Get_answer rs, ob1) \<Rightarrow> (Reply (Some rs), ob1)
            | (Get_wait meta ofs r, ob1) \<Rightarrow> (Poll_wait meta ofs r, ob1)
            | (Get_sse meta ofs useBase64, ob1) \<Rightarrow> (Event_stream (handleSse_response useBase64) meta ofs useBase64, ob1))
         else if m = ''POST'' then (case cf_handlePost env req ob of (rs, ob1) \<Rightarrow> (Reply rs, ob1))
         else if m = ''DELETE'' then (case cf_handleDelete env ob of (rs, ob1) \<Rightarrow> (Reply (Some rs), ob1))
         else (Reply (Some (cf_text 405 ''Method not allowed'' [])), ob))"

end
