(* ===== verification/Cf_Forks.thy ===== *)
theory Cf_Forks
  imports Cf_Object
begin

text \<open>
  The durable objects of all streams together: forks hold references on their sources (edges), taken and
  released by remote calls that can fail, be repeated, or be interrupted between the call and what follows
  it. Only a part of an object matters for this, its \<open>view\<close>; the handlers refine an abstract change of the view
  (\<open>local_change\<close>). Shown is that a source is never purged while a live fork reads through it.
\<close>

section \<open>Views\<close>

record fork_info =
  fi_source :: string
  fi_edge :: string
  fi_generation :: "string option"
  fi_offset :: "string option"

record fork_view =
  fv_meta :: "(string \<times> fork_info option) option"
  fv_edges :: "(string, string) jsmap"
  fv_intents :: "(string, string \<times> string) jsmap"
  fv_releases :: "(string, string \<times> string option) jsmap"

definition fork_info_of :: "cf_meta \<Rightarrow> fork_info option" where
  "fork_info_of m =
     (case (cm_forkedFrom m, cm_forkEdgeId m) of
        (Some q, Some e) \<Rightarrow> Some \<lparr>fi_source = q, fi_edge = e, fi_generation = cm_forkSourceGen m, fi_offset = cm_forkOffset m\<rparr>
      | _ \<Rightarrow> None)"

definition db_view :: "cf_db \<Rightarrow> fork_view" where
  "db_view db = \<lparr>fv_meta = map_option (\<lambda>m. (cm_generation m, fork_info_of m)) (db_meta db), fv_edges = db_fork_edges db,
     fv_intents = db_fork_intents db, fv_releases = db_gc_releases db\<rparr>"

abbreviation view :: "cf_object \<Rightarrow> fork_view" where
  "view ob \<equiv> db_view (ob_db ob)"

text \<open>A stream goes only when nothing refers to it, and then queues the release of its own edge.\<close>

definition purged :: "fork_view \<Rightarrow> fork_view" where
  "purged v = v\<lparr>fv_meta := None, fv_edges := [],
     fv_releases := (case fv_meta v of
        Some (g, Some i) \<Rightarrow> insert_or_ignore (fi_edge i) (fi_source i, fi_generation i) (fv_releases v) | _ \<Rightarrow> fv_releases v)\<rparr>"

inductive local_change :: "fork_view \<Rightarrow> fork_view \<Rightarrow> bool" where
  keep: "local_change v v"
| drop: "fv_edges v = [] \<Longrightarrow> local_change v (purged v)"
| new: "fv_meta v = None \<Longrightarrow> local_change v (v\<lparr>fv_meta := Some (g, None)\<rparr>)"

section \<open>What handlers do to the view\<close>

lemma update_meta_view:
  "(\<And>m. cm_generation (f m) = cm_generation m \<and> fork_info_of (f m) = fork_info_of m) \<Longrightarrow> db_view (update_meta f db) = db_view db"
  by (simp add: db_view_def update_meta_def option.map_comp o_def)

lemma db_views [simp]:
  "db_view (cf_touchAccess t db) = db_view db" "db_view (setSoftDeleted db) = db_view db" "db_view (setLastSeq x db) = db_view db"
  "db_view (setClosed c db) = db_view db" "db_view (cf_commitProducerState i st db) = db_view db"
  "db_view (snd (getProducerState i t db)) = db_view db" "db_view (cf_commit v db) = db_view db"
  by (simp_all add: cf_touchAccess_def setSoftDeleted_def setLastSeq_def setClosed_def update_meta_view fork_info_of_def
      cf_commitProducerState_def getProducerState_def cf_commit_def Let_def split: option.splits producer_validation_result.splits)
    (simp_all add: db_view_def)

lemma append_view: "appendMessage ofs d t db = Some (ofs', db') \<Longrightarrow> db_view db' = db_view db"
proof -
  assume "appendMessage ofs d t db = Some (ofs', db')"
  then have "db' = update_meta (\<lambda>m. m\<lparr>cm_currentOffset := ofs'\<rparr>) (db\<lparr>db_messages := db_messages db @ [(ofs', d, t)]\<rparr>)"
    by (auto simp: appendMessage_def Let_def split: if_splits)
  moreover have "db_view (update_meta (\<lambda>m. m\<lparr>cm_currentOffset := ofs'\<rparr>) x) = db_view x" for x
    by (rule update_meta_view) (simp add: fork_info_of_def split: option.splits)
  ultimately show ?thesis by (simp add: db_view_def)
qed

lemma initial_view: "append_initial env pl (Some (ofs, db)) = Some (ofs', db') \<Longrightarrow> db_view db' = db_view db"
  using append_view by (auto simp: append_initial_def split: option.splits if_splits)

lemma resolve_db [simp]: "ob_db (resolve_waiter w b ob) = ob_db ob"
  by (simp add: resolve_waiter_def)

lemma fold_resolve_db [simp]: "ob_db (fold (\<lambda>w. resolve_waiter w b) ws ob) = ob_db ob"
  by (induction ws arbitrary: ob) simp_all

lemma notify_db [simp]: "ob_db (notify_waiters ws ob) = ob_db ob"
  by (induction ws arbitrary: ob) (simp_all add: Let_def)

lemma object_db [simp]:
  "ob_db (notifyAppend ob) = ob_db ob" "ob_db (notifyClosed ob) = ob_db ob" "ob_db (cancelWaiters ob) = ob_db ob"
  "ob_db (armAlarmAt env t ob) = ob_db ob" "ob_db (flushGcReleases env ob) = ob_db ob" "ob_db (syncExpiryAlarm env ob) = ob_db ob"
  "ob_db (on_db f ob) = f (ob_db ob)" "ob_db (touch env ob) = cf_touchAccess (ke_now env) (ob_db ob)"
  by (simp_all add: notifyAppend_def notifyClosed_def cancelWaiters_def armAlarmAt_def flushGcReleases_def syncExpiryAlarm_def
      on_db_def touch_def Let_def split: option.splits)

lemma purge_view:
  assumes "ob_meta ob = Some m"
  shows "view (purgeStream env m ob) = purged (view ob)"
  using assms
  by (auto simp: purgeStream_def Let_def db_view_def purged_def purge_def enqueueGcRelease_def fork_info_of_def split: option.splits)

lemma soft_meta:
  "ob_meta ob = Some m \<Longrightarrow> db_meta (setSoftDeleted (ob_db ob)) = Some (m\<lparr>cm_softDeleted := True\<rparr>)"
  "fork_info_of (m\<lparr>cm_softDeleted := True\<rparr>) = fork_info_of m"
  by (simp_all add: setSoftDeleted_def update_meta_def fork_info_of_def split: option.splits)

lemma getMeta_view:
  assumes "getMeta env ob = (r, ob1)"
  shows "local_change (view ob) (view ob1) \<and> (r \<noteq> None \<longrightarrow> view ob1 = view ob) \<and> (r = None \<longrightarrow> ob_meta ob1 = None)
    \<and> (\<forall>m. r = Some m \<longrightarrow> (\<exists>m'. ob_meta ob1 = Some m' \<and> cm_generation m = cm_generation m' \<and> fork_info_of m = fork_info_of m'
      \<and> cm_currentOffset m = cm_currentOffset m'))"
proof (cases "ob_meta ob")
  case (Some m)
  have gone: "ob_meta (purgeStream env m ob) = None"
    by (simp add: purgeStream_def Let_def purge_def enqueueGcRelease_def split: option.splits)
  have "local_change (view ob) (view (purgeStream env m ob))" if "forkEdgeCount (ob_db ob) = 0"
    unfolding purge_view[OF Some] using that by (intro local_change.drop) (simp add: forkEdgeCount_def db_view_def)
  then show ?thesis using assms Some gone
    by (auto simp: getMeta_def local_change.keep soft_meta split: if_splits)
qed (use assms in \<open>auto simp: getMeta_def local_change.keep\<close>)

text \<open>The handlers that make no remote call.\<close>

lemma local_keep: "view ob1 = view ob \<Longrightarrow> local_change\<^sup>*\<^sup>* (view ob) (view ob1)"
  by simp

lemma delete_view: "local_change\<^sup>*\<^sup>* (view ob) (view (snd (cf_handleDelete env ob)))"
proof -
  obtain r ob1 where g: "getMeta env ob = (r, ob1)" by fastforce
  note v = getMeta_view[OF g]
  show ?thesis
  proof (cases "r = None \<or> cm_softDeleted (the r) \<or> forkEdgeCount (ob_db ob1) > 0")
    case True
    then show ?thesis using g v by (auto simp: cf_handleDelete_def split: option.splits)
  next
    case False
    then obtain m m' where m: "r = Some m" "ob_meta ob1 = Some m'" "fork_info_of m = fork_info_of m'" using v by auto
    have "view (purgeStream env m ob1) = view (purgeStream env m' ob1)"
      using m(3) by (auto simp: purgeStream_def Let_def fork_info_of_def split: option.splits)
    then have "view (purgeStream env m ob1) = purged (view ob1)" using purge_view[OF m(2)] by simp
    moreover have "local_change (view ob1) (purged (view ob1))"
      using False by (intro local_change.drop) (simp add: forkEdgeCount_def db_view_def)
    ultimately show ?thesis using False g v m(1) by (auto simp: cf_handleDelete_def)
  qed
qed

lemma alarm_view: "local_change\<^sup>*\<^sup>* (view ob) (view (alarm_expiry env ob))"
proof (cases "ob_meta ob")
  case (Some m)
  have "local_change (view ob) (view (purgeStream env m ob))" if "forkEdgeCount (ob_db ob) = 0"
    unfolding purge_view[OF Some] using that by (intro local_change.drop) (simp add: forkEdgeCount_def db_view_def)
  then show ?thesis using Some by (auto simp: alarm_expiry_def)
qed (simp add: alarm_expiry_def)

lemma store_append_view: "view (snd (cf_store_append env seq body closing who v m ob)) = view ob"
  by (auto simp: cf_store_append_def cf_append_writes_def Let_def append_view split: option.splits sum.splits if_splits)

lemma validate_view: "cf_validate env x ob = (v, ob1) \<Longrightarrow> view ob1 = view ob"
  by (cases x) (auto simp: cf_validate_def split: prod.splits dest: arg_cong[where f = "db_view \<circ> snd"])

lemma cf_append_view: "view (snd (cf_append env req body closing who m ob)) = view ob"
  using store_append_view validate_view
  by (auto simp: cf_append_def Let_def split: option.splits prod.splits)

lemma close_view: "local_change\<^sup>*\<^sup>* (view ob) (view (snd (handleCloseOnly env who ob)))"
proof -
  obtain r ob1 where g: "getMeta env ob = (r, ob1)" by fastforce
  note v = getMeta_view[OF g]
  have "view (snd (handleCloseOnly env who ob)) = view ob1"
    using g by (auto simp: handleCloseOnly_def Let_def validate_view split: option.splits prod.splits)
  then show ?thesis using v by auto
qed

lemma post_view: "local_change\<^sup>*\<^sup>* (view ob) (view (snd (cf_handlePost env req ob)))"
proof -
  obtain r ob1 where g: "getMeta env ob = (r, ob1)" by fastforce
  have l: "local_change\<^sup>*\<^sup>* (view ob) (view ob1)" using getMeta_view[OF g] by auto
  have c: "handleCloseOnly env who ob = (rs, ob2) \<Longrightarrow> local_change\<^sup>*\<^sup>* (view ob) (view ob2)" for who rs ob2
    using close_view[of ob env who] by simp
  show ?thesis
    using g l c cf_append_view by (auto simp: cf_handlePost_def Let_def split: option.splits sum.splits prod.splits)
qed

lemma created_view:
  "createMeta u opts db = Some db1 \<Longrightarrow> db_meta db = None
    \<and> db_view db1 = (db_view db)\<lparr>fv_meta := Some (u, case (cc_forkedFrom opts, cc_forkEdgeId opts) of
        (Some q, Some e) \<Rightarrow> Some \<lparr>fi_source = q, fi_edge = e, fi_generation = cc_forkSourceGen opts, fi_offset = cc_forkOffset opts\<rparr>
      | _ \<Rightarrow> None)\<rparr>"
  by (cases "cc_forkedFrom opts"; cases "cc_forkEdgeId opts"; cases "cc_forkOffset opts")
    (auto simp: createMeta_def db_view_def fork_info_of_def split: if_splits)

lemma put_view: "local_change\<^sup>*\<^sup>* (view ob) (view (snd (cf_handlePut env path req ob)))"
proof -
  obtain r ob1 where g: "getMeta env ob = (r, ob1)" by fastforce
  have l: "local_change\<^sup>*\<^sup>* (view ob) (view ob1)" using getMeta_view[OF g] by auto
  have n: "local_change\<^sup>*\<^sup>* (view ob) (db_view db1)"
    if "createMeta u opts (ob_db ob1) = Some db1" "cc_forkedFrom opts = None" for u opts db1
  proof -
    have "local_change (view ob1) (db_view db1)"
      using created_view[OF that(1)] that(2) local_change.new[of "view ob1" u] by (auto simp: db_view_def)
    then show ?thesis using l by simp
  qed
  show ?thesis
    using g l by (auto simp: cf_handlePut_def Let_def initial_view split: option.splits sum.splits prod.splits dest!: n)
qed

lemma wait_db [simp]: "ob_db (snd (cf_waitForMessages remote ofs ob)) = ob_db ob"
  by (auto simp: cf_waitForMessages_def Let_def split: option.splits)

lemma get_view: "local_change\<^sup>*\<^sup>* (view ob) (view (snd (cf_handleGet env remote req ob)))"
proof -
  obtain r ob1 where g: "getMeta env ob = (r, ob1)" by fastforce
  have l: "local_change\<^sup>*\<^sup>* (view ob) (view ob1)" using getMeta_view[OF g] by auto
  have w: "cf_waitForMessages remote ofs x = (y, x') \<Longrightarrow> ob_db x' = ob_db x" for ofs x y x' using wait_db[of remote ofs x] by simp
  have "view (snd (cf_handleGet env remote req ob)) = view ob1"
    using g by (auto simp: cf_handleGet_def Let_def split: option.splits prod.splits dest!: w)
  then show ?thesis using l by simp
qed

lemma head_view: "local_change\<^sup>*\<^sup>* (view ob) (view (snd (cf_handleHead env ob)))"
  using getMeta_view[of env ob] by (auto simp: cf_handleHead_def split: option.splits prod.splits)

section \<open>Remote calls\<close>

lemma acquire_view:
  assumes "forkAcquire env e fo ct ob = (r, ob1)"
  shows "(case r of
      Inl _ \<Rightarrow> local_change (view ob) (view ob1)
    | Inr aq \<Rightarrow> (\<exists>i x. fv_meta (view ob) = Some (aq_generation aq, i)
        \<and> view ob1 = (view ob)\<lparr>fv_edges := insert_or_ignore e x (fv_edges (view ob))\<rparr>
        \<and> map_of (fv_edges (view ob1)) e = Some (aq_forkOffset aq)))"
proof (cases "e = [] \<or> (getForkEdge e (ob_db ob) \<noteq> None \<and> ob_meta ob \<noteq> None)")
  case True
  have same: "insert_or_ignore e x (fv_edges (view ob)) = fv_edges (view ob)" if "getForkEdge e (ob_db ob) \<noteq> None" for x
    using that by (auto simp: insert_or_ignore_def getForkEdge_def db_view_def dest: map_of_SomeD intro: rev_image_eqI)
  show ?thesis
  proof (cases "e = []")
    case False
    then obtain x m where "getForkEdge e (ob_db ob) = Some x" "ob_meta ob = Some m" using True by auto
    then show ?thesis using assms False same by (auto simp: forkAcquire_def acquired_of_def db_view_def getForkEdge_def)
  qed (use assms in \<open>auto simp: forkAcquire_def local_change.keep\<close>)
next
  case False
  obtain rm ob2 where g: "getMeta env ob = (rm, ob2)" by fastforce
  note v = getMeta_view[OF g]
  have nonempty: "forkAcquire env e fo ct ob = (case (rm, ob2) of
      (None, o1) \<Rightarrow> (Inl Fork_not_found, o1)
    | (Some m, o1) \<Rightarrow>
        if cm_softDeleted m then (Inl Fork_soft_deleted, o1)
        else if (case ct of Some c \<Rightarrow> trim c \<noteq> [] \<and> normalizeContentType (Some c) \<noteq> normalizeContentType (cm_contentType m) | None \<Rightarrow> False)
        then (Inl Fork_type_mismatch, o1)
        else (let f = (case fo of Some x \<Rightarrow> x | None \<Rightarrow> cm_currentOffset m)
              in if f < ZERO_OFFSET \<or> cm_currentOffset m < f then (Inl Fork_invalid_offset, o1)
                 else (let (recorded, db1) = insertForkEdge e f (ob_db o1) in (Inr (acquired_of recorded m), o1\<lparr>ob_db := db1\<rparr>))))"
    using False g by (auto simp: forkAcquire_def split: option.splits)
  have ins: "map_of (insert_or_ignore e f t) e \<noteq> None" for f and t :: "(string, string) jsmap"
    by (auto simp: insert_or_ignore_def map_of_eq_None_iff)
  show ?thesis
  proof (cases r)
    case (Inl err)
    then show ?thesis using assms nonempty v by (auto simp: Let_def split: option.splits if_splits prod.splits)
  next
    case (Inr aq)
    then obtain m f x d where m: "rm = Some m" "insertForkEdge e f (ob_db ob2) = (x, d)" "aq = acquired_of x m" "ob1 = ob2\<lparr>ob_db := d\<rparr>"
      using assms nonempty by (auto simp: Let_def split: option.splits if_splits prod.splits)
    have same: "view ob2 = view ob" using v m(1) by simp
    obtain m' where m': "ob_meta ob2 = Some m'" "cm_generation m = cm_generation m'" "fork_info_of m = fork_info_of m'" using v m(1) by auto
    have "fv_meta (view ob2) = Some (cm_generation m, fork_info_of m)" using m' by (simp add: db_view_def)
    with same show ?thesis using Inr m ins[of f "db_fork_edges (ob_db ob2)"]
      by (auto simp: insertForkEdge_def Let_def acquired_of_def db_view_def split: option.splits)
  qed
qed

lemma release_view:
  assumes "forkRelease env e g ob = Some ob1"
  shows "view ob1 = view ob
    \<or> local_change ((view ob)\<lparr>fv_edges := AList.delete e (fv_edges (view ob))\<rparr>) (view ob1)"
proof -
  have "view ob1 = view ob \<or> (\<exists>m. ob_meta ob = Some m \<and> (let o1 = on_db (deleteForkEdge e) ob in
      ob1 = o1 \<or> forkEdgeCount (ob_db o1) = 0 \<and> ob1 = purgeStream env m o1))"
    using assms by (auto simp: forkRelease_def Let_def split: if_splits option.splits)
  moreover have d: "view (on_db (deleteForkEdge e) ob) = (view ob)\<lparr>fv_edges := AList.delete e (fv_edges (view ob))\<rparr>"
    by (simp add: db_view_def deleteForkEdge_def)
  moreover have "view (purgeStream env m (on_db (deleteForkEdge e) ob)) = purged (view (on_db (deleteForkEdge e) ob))"
    if "ob_meta ob = Some m" for m using that by (intro purge_view) (simp add: deleteForkEdge_def)
  ultimately show ?thesis
    by (auto simp: Let_def forkEdgeCount_def intro: local_change.keep) (auto simp: db_view_def deleteForkEdge_def intro!: local_change.drop)
qed

end
