(* ===== verification/Cf_Network.thy ===== *)
theory Cf_Network
  imports Cf_Forks
begin

text \<open>
  The durable objects of all streams as one machine. A step is an event of one object: a handler that makes no
  remote call, or the part of \<^verbatim>\<open>createFork\<close>, \<^verbatim>\<open>processForkIntents\<close> or \<^verbatim>\<open>processGcReleases\<close> between two remote calls. A stage is
  what the holder of the fork create lock of an object waits for. A remote call that was made may be executed
  late, again, or never, and the caller may be interrupted at every stage; what is durable stays. Steps in which
  a statement of the database fails are left out. Shown is that a stream that a live fork reads through is there,
  in the generation the fork was made from and with the fork's edge.
\<close>

section \<open>The machine\<close>

datatype fork_stage =
  Fork_calling cf_requested bytes string
| Fork_answered cf_requested bytes string "fork_error + acquired"
| Reconciling "(string \<times> string \<times> string) list"
| Reconcile_answered string string "fork_error + acquired" "(string \<times> string \<times> string) list"

record cf_net =
  nt_object :: "string \<Rightarrow> cf_object"
  nt_stage :: "string \<Rightarrow> fork_stage option"
  nt_acquires :: "(string \<times> string \<times> string option \<times> string option) list"
  nt_releases :: "(string \<times> string \<times> string \<times> string option) list"
  nt_delivered :: "(string \<times> string \<times> string \<times> string option) list"

definition init_net :: cf_net where
  "init_net = \<lparr>nt_object = \<lambda>_. new_object, nt_stage = \<lambda>_. None, nt_acquires = [], nt_releases = [], nt_delivered = []\<rparr>"

abbreviation set_object :: "string \<Rightarrow> cf_object \<Rightarrow> cf_net \<Rightarrow> cf_net" where
  "set_object p ob n \<equiv> n\<lparr>nt_object := (nt_object n)(p := ob)\<rparr>"

abbreviation set_stage :: "string \<Rightarrow> fork_stage option \<Rightarrow> cf_net \<Rightarrow> cf_net" where
  "set_stage p s n \<equiv> n\<lparr>nt_stage := (nt_stage n)(p := s)\<rparr>"

text \<open>An identifier is fresh that no object and no call under way has (\<^verbatim>\<open>crypto.randomUUID\<close>).\<close>

definition uses_edge :: "cf_object \<Rightarrow> string \<Rightarrow> bool" where
  "uses_edge ob e \<longleftrightarrow> (\<exists>m. ob_meta ob = Some m \<and> cm_forkEdgeId m = Some e) \<or> e \<in> fst ` set (db_fork_intents (ob_db ob))
     \<or> e \<in> fst ` set (db_gc_releases (ob_db ob))"

definition fresh_edge :: "cf_net \<Rightarrow> string \<Rightarrow> bool" where
  "fresh_edge n e \<longleftrightarrow> (\<forall>p. \<not> uses_edge (nt_object n p) e) \<and> e \<notin> (\<lambda>(p, q, x, g). x) ` set (nt_releases n)"

text \<open>The events of one object alone.\<close>

inductive cf_local :: "string \<Rightarrow> cf_object \<Rightarrow> cf_object \<Rightarrow> bool" for p where
  expire: "cf_local p ob (snd (getMeta env ob))"
| put: "cf_local p ob (snd (cf_handlePut env p req ob))"
| post: "cf_local p ob (snd (cf_handlePost env req ob))"
| delete: "cf_local p ob (snd (cf_handleDelete env ob))"
| head: "cf_local p ob (snd (cf_handleHead env ob))"
| get: "cf_local p ob (snd (cf_handleGet env remote req ob))"
| resume: "cf_local p ob (snd (cf_get_resume env req m waitOffset r ob))"
| pump: "cf_local p ob (snd (snd (pumpSse env remote req g useBase64 isJson startedAt offset ob)))"
| pumped: "cf_local p ob (snd (snd (pump_after_wait env req g offset r ob)))"
| waited: "cf_local p ob (waiter_timeout w ob)"
| alarm: "cf_local p ob (alarm_expiry env ob)"

inductive cf_net_step :: "cf_net \<Rightarrow> cf_net \<Rightarrow> bool" where
  event: "cf_local p (nt_object n p) ob \<Longrightarrow> cf_net_step n (set_object p ob n)"
| fork:
  "nt_stage n p = None \<Longrightarrow> rc_forkedFrom req = Some q \<Longrightarrow> fresh_edge n (ke_uuid env)
   \<Longrightarrow> createFork_begin env p req (nt_object n p) = (Inr e, ob)
   \<Longrightarrow> cf_net_step n (set_stage p (Some (Fork_calling req body e)) (set_object p ob
         (n\<lparr>nt_acquires := (q, e, rc_forkOffsetHeader req, rc_contentType req) # nt_acquires n\<rparr>)))"
| acquire:
  "nt_stage n p = Some (Fork_calling req body e) \<Longrightarrow> rc_forkedFrom req = Some q
   \<Longrightarrow> forkAcquire env e (rc_forkOffsetHeader req) (rc_contentType req) (nt_object n q) = (r, ob)
   \<Longrightarrow> cf_net_step n (set_stage p (Some (Fork_answered req body e r)) (set_object q ob n))"
| acquire_again:
  "(q, e, fo, ct) \<in> set (nt_acquires n) \<Longrightarrow> forkAcquire env e fo ct (nt_object n q) = (r, ob)
   \<Longrightarrow> cf_net_step n (set_object q ob n)"
| interrupt: "cf_net_step n (set_stage p None n)"
| refused:
  "nt_stage n p = Some (Fork_answered req body e (Inl err)) \<Longrightarrow> createFork_refused e err (nt_object n p) = (rs, ob)
   \<Longrightarrow> cf_net_step n (set_stage p None (set_object p ob n))"
| finish:
  "nt_stage n p = Some (Fork_answered req body e (Inr aq)) \<Longrightarrow> createFork_finish env p req body e aq past (nt_object n p) = (Some rs, ob)
   \<Longrightarrow> cf_net_step n (set_stage p None (set_object p ob n))"
| reconcile:
  "nt_stage n p = None \<Longrightarrow> cf_net_step n (set_stage p (Some (Reconciling (reconcile_list (nt_object n p)))) n)"
| reconcile_call:
  "nt_stage n p = Some (Reconciling ((e, q, key) # rest)) \<Longrightarrow> forkAcquire env e (intent_offset env key) None (nt_object n q) = (r, ob)
   \<Longrightarrow> cf_net_step n (set_stage p (Some (Reconcile_answered e q r rest))
         (set_object q ob (n\<lparr>nt_acquires := (q, e, intent_offset env key, None) # nt_acquires n\<rparr>)))"
| reconcile_failed:
  "nt_stage n p = Some (Reconciling ((e, q, key) # rest))
   \<Longrightarrow> cf_net_step n (set_stage p (Some (Reconciling rest)) (set_object p (reconcile_failed env (nt_object n p))
         (n\<lparr>nt_acquires := (q, e, intent_offset env key, None) # nt_acquires n\<rparr>)))"
| reconcile_answer:
  "nt_stage n p = Some (Reconcile_answered e q r rest)
   \<Longrightarrow> cf_net_step n (set_stage p (Some (Reconciling rest)) (set_object p (reconcile_answer env e q r (nt_object n p)) n))"
| reconciled: "nt_stage n p = Some (Reconciling []) \<Longrightarrow> cf_net_step n (set_stage p None n)"
| release:
  "(e, q, g) \<in> set (pendingGcReleases (ob_db (nt_object n p)))
   \<Longrightarrow> cf_net_step n (n\<lparr>nt_releases := (p, q, e, g) # nt_releases n\<rparr>)"
| deliver:
  "(p, q, e, g) \<in> set (nt_releases n) \<Longrightarrow> forkRelease env e g (nt_object n q) = Some ob
   \<Longrightarrow> cf_net_step n ((set_object q ob n)\<lparr>nt_delivered := (p, q, e, g) # nt_delivered n\<rparr>)"
| dequeue:
  "(p, q, e, g) \<in> set (nt_delivered n) \<Longrightarrow> cf_net_step n (set_object p (on_db (dequeueGcRelease e) (nt_object n p)) n)"
| release_failed: "cf_net_step n (set_object p (armAlarmAt env (ke_now env + 5000) (nt_object n p)) n)"

section \<open>Who has an edge\<close>

definition owns :: "fork_view \<Rightarrow> string \<Rightarrow> bool" where
  "owns v e \<longleftrightarrow> (\<exists>g i. fv_meta v = Some (g, Some i) \<and> fi_edge i = e)"

definition intends :: "fork_view \<Rightarrow> string \<Rightarrow> bool" where
  "intends v e \<longleftrightarrow> e \<in> fst ` set (fv_intents v)"

definition dead :: "(string \<Rightarrow> fork_view) \<Rightarrow> string set \<Rightarrow> string \<Rightarrow> bool" where
  "dead V W e \<longleftrightarrow> e \<in> W \<or> (\<exists>p. e \<in> fst ` set (fv_releases (V p)))"

definition held :: "(string \<Rightarrow> fork_view) \<Rightarrow> string \<Rightarrow> string \<Rightarrow> string \<Rightarrow> string \<Rightarrow> bool" where
  "held V q e g fo \<longleftrightarrow> (\<exists>i. fv_meta (V q) = Some (g, i)) \<and> map_of (fv_edges (V q)) e = Some fo"

definition forks_held :: "(string \<Rightarrow> fork_view) \<Rightarrow> bool" where
  "forks_held V \<longleftrightarrow> (\<forall>p g i. fv_meta (V p) = Some (g, Some i) \<longrightarrow>
     (\<exists>g' fo. fi_generation i = Some g' \<and> fi_offset i = Some fo \<and> held V (fi_source i) (fi_edge i) g' fo))"

definition one_user :: "(string \<Rightarrow> fork_view) \<Rightarrow> string set \<Rightarrow> bool" where
  "one_user V W \<longleftrightarrow>
     (\<forall>p p' e. (owns (V p) e \<or> intends (V p) e) \<and> (owns (V p') e \<or> intends (V p') e) \<longrightarrow> p = p')
     \<and> (\<forall>p e. \<not> (owns (V p) e \<and> intends (V p) e))
     \<and> (\<forall>p e. dead V W e \<longrightarrow> \<not> owns (V p) e \<and> \<not> intends (V p) e)
     \<and> (\<forall>p. distinct (map fst (fv_intents (V p))))"

fun stage_ok :: "(string \<Rightarrow> fork_view) \<Rightarrow> string set \<Rightarrow> string \<Rightarrow> fork_stage \<Rightarrow> bool" where
  "stage_ok V W p (Fork_calling req body e) \<longleftrightarrow> rc_forkedFrom req \<noteq> None \<and> intends (V p) e"
| "stage_ok V W p (Fork_answered req body e r) \<longleftrightarrow> rc_forkedFrom req \<noteq> None \<and> intends (V p) e
     \<and> (\<forall>aq. r = Inr aq \<longrightarrow> held V (the (rc_forkedFrom req)) e (aq_generation aq) (aq_forkOffset aq))"
| "stage_ok V W p (Reconciling rest) \<longleftrightarrow> distinct (map fst rest) \<and> (\<forall>e \<in> fst ` set rest. intends (V p) e \<or> dead V W e)"
| "stage_ok V W p (Reconcile_answered e q r rest) \<longleftrightarrow> distinct (e # map fst rest)
     \<and> (\<forall>e \<in> insert e (fst ` set rest). intends (V p) e \<or> dead V W e)"

definition stages_ok :: "(string \<Rightarrow> fork_view) \<Rightarrow> string set \<Rightarrow> (string \<Rightarrow> fork_stage option) \<Rightarrow> bool" where
  "stages_ok V W st \<longleftrightarrow> (\<forall>p s. st p = Some s \<longrightarrow> stage_ok V W p s)"

definition views_ok :: "(string \<Rightarrow> fork_view) \<Rightarrow> string set \<Rightarrow> (string \<Rightarrow> fork_stage option) \<Rightarrow> bool" where
  "views_ok V W st \<longleftrightarrow> forks_held V \<and> one_user V W \<and> stages_ok V W st"

section \<open>Changes of one view\<close>

text \<open>A change that keeps the references in use, and neither users nor stages gain by it.\<close>

lemma views_ok_mono:
  assumes ok: "views_ok V W st"
    and held: "\<And>q e g fo. held V q e g fo \<Longrightarrow> \<not> dead V W e \<Longrightarrow> held V' q e g fo"
    and owner: "\<And>p g i. fv_meta (V' p) = Some (g, Some i) \<Longrightarrow> fv_meta (V p) = Some (g, Some i)"
    and intents: "\<And>p. fv_intents (V' p) = fv_intents (V p)"
    and dead: "\<And>e. dead V W e \<Longrightarrow> dead V' W' e" "\<And>e. dead V' W' e \<Longrightarrow> dead V W e \<or> (\<exists>p. owns (V p) e \<and> \<not> owns (V' p) e)"
  shows "views_ok V' W' st"
proof -
  have intent: "intends (V' p) e = intends (V p) e" for p e by (simp add: intends_def intents)
  have owns: "owns (V' p) e \<Longrightarrow> owns (V p) e" for p e using owner by (fastforce simp: owns_def)
  have alive: "owns (V p) e \<or> intends (V p) e \<Longrightarrow> \<not> dead V W e" for p e using ok by (auto simp: views_ok_def one_user_def)
  have "forks_held V'"
    unfolding forks_held_def
  proof (intro allI impI)
    fix p g i
    assume "fv_meta (V' p) = Some (g, Some i)"
    then have o: "fv_meta (V p) = Some (g, Some i)" by (rule owner)
    then have "\<not> dead V W (fi_edge i)" by (intro alive[of p]) (auto simp: owns_def)
    then show "\<exists>g' fo. fi_generation i = Some g' \<and> fi_offset i = Some fo \<and> held V' (fi_source i) (fi_edge i) g' fo"
      using ok o held by (fastforce simp: views_ok_def forks_held_def)
  qed
  moreover have "one_user V' W'"
    unfolding one_user_def
  proof (intro conjI allI impI)
    have u: "owns (V p) e \<or> intends (V p) e \<Longrightarrow> owns (V p') e \<or> intends (V p') e \<Longrightarrow> p = p'" for p p' e
      using ok by (auto simp: views_ok_def one_user_def)
    show "p = p'" if "(owns (V' p) e \<or> intends (V' p) e) \<and> (owns (V' p') e \<or> intends (V' p') e)" for p p' e
      using that owns intent by (intro u[of p e]) auto
    show "\<not> (owns (V' p) e \<and> intends (V' p) e)" for p e using owns intent ok by (auto simp: views_ok_def one_user_def)
    show "\<not> owns (V' p) e" if "dead V' W' e" for p e using dead(2)[OF that] owns alive u by metis
    show "\<not> intends (V' p) e" if "dead V' W' e" for p e
      using dead(2)[OF that] intent alive u ok by (metis views_ok_def one_user_def)
    show "distinct (map fst (fv_intents (V' p)))" for p using ok intents by (simp add: views_ok_def one_user_def)
  qed
  moreover have "stage_ok V' W' p s" if "st p = Some s" for p s
  proof -
    have "stage_ok V W p s" using ok that by (auto simp: views_ok_def stages_ok_def)
    then show ?thesis using intent held alive[of p] dead(1) by (cases s) (simp_all, blast+)
  qed
  ultimately show ?thesis by (simp add: views_ok_def stages_ok_def)
qed


lemma held_upd: "held (V(p := v)) q e g fo \<longleftrightarrow> (if q = p then (\<exists>i. fv_meta v = Some (g, i)) \<and> map_of (fv_edges v) e = Some fo else held V q e g fo)"
  by (simp add: held_def)

lemma dead_upd: "dead (V(p := v)) W e \<longleftrightarrow> e \<in> W \<or> e \<in> fst ` set (fv_releases v) \<or> (\<exists>q. q \<noteq> p \<and> e \<in> fst ` set (fv_releases (V q)))"
  by (auto simp: dead_def)

lemma dead_updD: "dead (V(p := v)) W e \<Longrightarrow> dead V W e \<or> e \<in> fst ` set (fv_releases v)"
  by (auto simp: dead_def split: if_splits)

lemma dead_updI:
  "dead V W e \<Longrightarrow> (e \<in> fst ` set (fv_releases (V p)) \<Longrightarrow> e \<in> W \<or> e \<in> fst ` set (fv_releases v)) \<Longrightarrow> dead (V(p := v)) W e"
  by (metis dead_def fun_upd_other fun_upd_same)

lemma dead_same: "fv_releases v = fv_releases (V p) \<Longrightarrow> dead (V(p := v)) W e \<longleftrightarrow> dead V W e"
  by (auto simp: dead_def)

lemma in_insert_or_ignore: "x \<in> fst ` set (insert_or_ignore k v t) \<longleftrightarrow> x = k \<or> x \<in> fst ` set t"
  by (auto simp: insert_or_ignore_def)

lemma local_change_ok:
  assumes ok: "views_ok V W st" and c: "local_change (V p) v"
  shows "views_ok (V(p := v)) W st"
  using c
proof cases
  case drop
  have empty: "\<not> held V p e g fo" for e g fo using drop(2) by (simp add: held_def)
  have gone: "fv_meta v = None" "fv_intents v = fv_intents (V p)" using drop(1) by (auto simp: purged_def split: option.splits)
  have queue: "e \<in> fst ` set (fv_releases v) \<longleftrightarrow> e \<in> fst ` set (fv_releases (V p)) \<or> owns (V p) e" for e
    using drop(1) by (auto simp: purged_def owns_def in_insert_or_ignore split: option.splits)
  show ?thesis
  proof (rule views_ok_mono[OF ok])
    show "held (V(p := v)) q e g fo" if "held V q e g fo" for q e g fo using that empty by (auto simp: held_upd)
    show "fv_meta (V q) = Some (g, Some i)" if "fv_meta ((V(p := v)) q) = Some (g, Some i)" for q g i
      using that gone by (auto split: if_splits)
    show "fv_intents ((V(p := v)) q) = fv_intents (V q)" for q using gone by simp
    show "dead (V(p := v)) W e" if "dead V W e" for e using that queue[of e] unfolding dead_upd by (auto simp: dead_def)
    show "dead V W e \<or> (\<exists>q. owns (V q) e \<and> \<not> owns ((V(p := v)) q) e)" if "dead (V(p := v)) W e" for e
    proof -
      have "\<not> owns v e" using gone by (simp add: owns_def)
      then show ?thesis using that queue[of e] unfolding dead_upd by (auto simp: dead_def)
    qed
  qed
next
  case (new g)
  have "\<not> held V p e g' fo" for e g' fo using new(2) by (simp add: held_def)
  then show ?thesis
    by (intro views_ok_mono[OF ok]) (auto simp: new held_upd intends_def dead_same split: if_splits)
qed (use ok in simp)

lemma local_changes_ok: "local_change\<^sup>*\<^sup>* (V p) v \<Longrightarrow> views_ok V W st \<Longrightarrow> views_ok (V(p := v)) W st"
proof (induction rule: rtranclp_induct)
  case (step y z)
  have "views_ok ((V(p := y))(p := z)) W st"
    by (rule local_change_ok[OF step.IH[OF step.prems]]) (simp add: step.hyps)
  then show ?case by (simp only: fun_upd_upd)
qed simp

text \<open>Edges come by an acquire and go by a release, of which only dead identifiers are the subject.\<close>

lemma edges_ok:
  assumes "views_ok V W st" and "\<And>e x. map_of (fv_edges (V q)) e = Some x \<Longrightarrow> \<not> dead V W e \<Longrightarrow> map_of t e = Some x"
  shows "views_ok (V(q := V q\<lparr>fv_edges := t\<rparr>)) W st"
proof (rule views_ok_mono[OF assms(1)])
  show "held (V(q := V q\<lparr>fv_edges := t\<rparr>)) p e g fo" if "held V p e g fo" "\<not> dead V W e" for p e g fo
    using that assms(2) by (auto simp: held_upd) (auto simp: held_def)
qed (auto simp: dead_same intends_def split: if_splits)

lemma acquired_ok:
  assumes ok: "views_ok (view \<circ> obs) W st" and a: "forkAcquire env e fo ct (obs q) = (r, ob)"
  shows "views_ok (view \<circ> obs(q := ob)) W st"
    and "r = Inr aq \<Longrightarrow> held (view \<circ> obs(q := ob)) q e (aq_generation aq) (aq_forkOffset aq)"
proof -
  note v = acquire_view[OF a]
  have upd: "view \<circ> obs(q := ob) = (view \<circ> obs)(q := view ob)" by (simp add: fun_eq_iff)
  show "views_ok (view \<circ> obs(q := ob)) W st"
  proof (cases r)
    case (Inl err)
    then show ?thesis unfolding upd using v local_change_ok[OF ok, of q] by simp
  next
    case (Inr aq)
    then obtain x where x: "view ob = view (obs q)\<lparr>fv_edges := insert_or_ignore e x (fv_edges (view (obs q)))\<rparr>" using v by auto
    have "map_of (insert_or_ignore e x t) k = Some y" if "map_of t k = Some y" for k y and t :: "(string, string) jsmap"
      using that by (simp add: insert_or_ignore_def map_add_def)
    then show ?thesis unfolding upd x using edges_ok[OF ok, of q "insert_or_ignore e x (fv_edges (view (obs q)))"] by simp
  qed
  show "r = Inr aq \<Longrightarrow> held (view \<circ> obs(q := ob)) q e (aq_generation aq) (aq_forkOffset aq)"
    using v by (auto simp: held_def)
qed

lemma released_ok:
  assumes ok: "views_ok (view \<circ> obs) W st" and d: "e \<in> W" and r: "forkRelease env e g (obs q) = Some ob"
  shows "views_ok (view \<circ> obs(q := ob)) W st"
proof -
  let ?v = "view (obs q)\<lparr>fv_edges := AList.delete e (fv_edges (view (obs q)))\<rparr>"
  have upd: "view \<circ> obs(q := ob) = (view \<circ> obs)(q := view ob)" by (simp add: fun_eq_iff)
  have "map_of (AList.delete e (fv_edges (view (obs q)))) k = Some x" if "map_of (fv_edges (view (obs q))) k = Some x" "\<not> dead (view \<circ> obs) W k" for k x
    using that d by (auto simp: delete_conv' dead_def)
  then have del: "views_ok ((view \<circ> obs)(q := ?v)) W st"
    using edges_ok[OF ok, of q "AList.delete e (fv_edges (view (obs q)))"] by (simp add: comp_def)
  have triv: "(view \<circ> obs)(q := view (obs q)) = view \<circ> obs" by (simp add: fun_eq_iff)
  show ?thesis
    using release_view[OF r] local_change_ok[OF del, of q "view ob"] ok unfolding upd
    by (auto simp: triv)
qed

text \<open>What the holder of the lock does to its own object.\<close>

lemma own_ok:
  assumes ok: "views_ok V W st" and edges: "fv_edges v = fv_edges (V p)"
    and owner: "fv_meta v = fv_meta (V p) \<or> fv_meta (V p) = None \<and> (\<exists>g i g' fo. fv_meta v = Some (g, Some i) \<and> fi_generation i = Some g'
      \<and> fi_offset i = Some fo \<and> held V (fi_source i) (fi_edge i) g' fo \<and> intends (V p) (fi_edge i) \<and> \<not> intends v (fi_edge i))"
    and intent: "\<And>e. intends v e \<Longrightarrow> intends (V p) e \<or> \<not> dead V W e \<and> (\<forall>q. \<not> owns (V q) e \<and> \<not> intends (V q) e)"
    and distinct: "distinct (map fst (fv_intents v))"
    and queue: "\<And>e. e \<in> fst ` set (fv_releases v) \<Longrightarrow> dead V W e \<or> intends (V p) e \<and> \<not> intends v e \<and> \<not> owns v e"
    and mono: "\<And>e. e \<in> fst ` set (fv_releases (V p)) \<Longrightarrow> e \<in> W \<or> e \<in> fst ` set (fv_releases v)"
    and stage: "\<And>s. s' = Some s \<Longrightarrow> stage_ok (V(p := v)) W p s"
  shows "views_ok (V(p := v)) W (st(p := s'))"
proof -
  let ?V = "V(p := v)"
  have u: "owns (V a) e \<or> intends (V a) e \<Longrightarrow> owns (V b) e \<or> intends (V b) e \<Longrightarrow> a = b" for a b e
    using ok by (auto simp: views_ok_def one_user_def)
  have x: "\<not> (owns (V a) e \<and> intends (V a) e)" for a e
    using ok by (auto simp: views_ok_def one_user_def)
  have alive: "dead V W e \<Longrightarrow> \<not> owns (V a) e \<and> \<not> intends (V a) e" for a e
    using ok by (auto simp: views_ok_def one_user_def)
  have held: "held ?V q e g fo" if "held V q e g fo" for q e g fo
    using that owner edges by (auto simp: held_upd) (auto simp: held_def)
  have owns: "owns v e \<Longrightarrow> owns (V p) e \<or> intends (V p) e \<and> \<not> intends v e" for e using owner by (auto simp: owns_def)
  have dead: "dead ?V W e \<Longrightarrow> dead V W e \<or> intends (V p) e \<and> \<not> intends v e \<and> \<not> owns v e" for e
    using queue[of e] dead_updD by blast
  have dead': "dead V W e \<Longrightarrow> dead ?V W e" for e using mono[of e] dead_updI by blast
  have "forks_held ?V"
    unfolding forks_held_def using ok owner held by (auto simp: views_ok_def forks_held_def split: if_splits) (metis held)+
  moreover have "one_user ?V W"
    unfolding one_user_def
  proof (intro conjI allI impI)
    have use: "owns (?V a) e \<or> intends (?V a) e \<Longrightarrow> owns (V a) e \<or> intends (V a) e
        \<or> a = p \<and> \<not> dead V W e \<and> (\<forall>q. \<not> owns (V q) e \<and> \<not> intends (V q) e)" for a e
      using owns intent by (auto split: if_splits)
    show "a = b" if "(owns (?V a) e \<or> intends (?V a) e) \<and> (owns (?V b) e \<or> intends (?V b) e)" for a b e
      using that use[of a e] use[of b e] u[of a e b] by blast
    show "\<not> (owns (?V a) e \<and> intends (?V a) e)" for a e
      using x[of a e] owns[of e] intent[of e] by (auto split: if_splits)
    show "\<not> owns (?V a) e" if "dead ?V W e" for a e
      using dead[OF that] use[of a e] alive[of e] u[of a e p] by (auto split: if_splits)
    show "\<not> intends (?V a) e" if "dead ?V W e" for a e
      using dead[OF that] use[of a e] alive[of e] u[of a e p] by (auto split: if_splits)
    show "distinct (map fst (fv_intents (?V a)))" for a using ok distinct by (auto simp: views_ok_def one_user_def)
  qed
  moreover have "stages_ok ?V W (st(p := s'))"
    unfolding stages_ok_def
  proof (intro allI impI)
    fix a s
    assume s: "(st(p := s')) a = Some s"
    show "stage_ok ?V W a s"
    proof (cases "a = p")
      case False
      then have "stage_ok V W a s" using s ok by (auto simp: views_ok_def stages_ok_def)
      then show ?thesis using False held dead' by (cases s) auto
    qed (use s stage in simp)
  qed
  ultimately show ?thesis by (simp add: views_ok_def)
qed

section \<open>The steps\<close>

lemma local_view: "cf_local p ob ob1 \<Longrightarrow> local_change\<^sup>*\<^sup>* (view ob) (view ob1)"
proof (induction rule: cf_local.induct)
  case (expire ob env)
  then show ?case using getMeta_view[of env ob "fst (getMeta env ob)" "snd (getMeta env ob)"] by auto
next
  case (resume ob env req m waitOffset r)
  then show ?case by (simp add: cf_get_resume_def Let_def)
next
  case (pump ob env remote req g useBase64 isJson startedAt offset)
  have w: "cf_waitForMessages remote ofs x = (y, x') \<Longrightarrow> ob_db x' = ob_db x" for ofs x y x' using wait_db[of remote ofs x] by simp
  show ?case by (intro local_keep) (auto simp: pumpSse_def Let_def split: prod.splits dest!: w)
next
  case (pumped ob env req g offset r)
  then show ?case by (simp add: pump_after_wait_def Let_def)
next
  case (waited ob w)
  then show ?case by (simp add: waiter_timeout_def)
qed (rule put_view post_view delete_view head_view get_view alarm_view)+

lemma intents_view [simp]:
  "db_view (deleteForkIntent e db) = (db_view db)\<lparr>fv_intents := AList.delete e (fv_intents (db_view db))\<rparr>"
  "db_view (putForkIntent e q k db) = (db_view db)\<lparr>fv_intents := insert_or_ignore e (q, k) (fv_intents (db_view db))\<rparr>"
  "db_view (enqueueGcRelease e q g db) = (db_view db)\<lparr>fv_releases := insert_or_ignore e (q, g) (fv_releases (db_view db))\<rparr>"
  "db_view (dequeueGcRelease e db) = (db_view db)\<lparr>fv_releases := AList.delete e (fv_releases (db_view db))\<rparr>"
  by (simp_all add: db_view_def deleteForkIntent_def putForkIntent_def enqueueGcRelease_def dequeueGcRelease_def)

lemma intends_delete: "fv_intents v = AList.delete e (fv_intents w) \<Longrightarrow> intends v x \<longleftrightarrow> x \<noteq> e \<and> intends w x"
  by (auto simp: intends_def AList.delete_eq)

lemma finish_view:
  assumes "createFork_finish env p req body e aq past ob = (Some rs, ob1)" and q: "rc_forkedFrom req \<noteq> None"
  defines "v \<equiv> view ob" and "w \<equiv> (view ob)\<lparr>fv_intents := AList.delete e (fv_intents (view ob))\<rparr>"
  shows "view ob1 = w
    \<or> view ob1 = w\<lparr>fv_releases := insert_or_ignore e (the (rc_forkedFrom req), Some (aq_generation aq)) (fv_releases v)\<rparr>
    \<or> fv_meta v = None \<and> view ob1 = w\<lparr>fv_meta := Some (ke_uuid env, Some \<lparr>fi_source = the (rc_forkedFrom req), fi_edge = e,
        fi_generation = Some (aq_generation aq), fi_offset = Some (aq_forkOffset aq)\<rparr>)\<rparr>"
proof -
  have r: "view (release_edge env e q g ob) = w\<lparr>fv_releases := insert_or_ignore e (q, Some g) (fv_releases v)\<rparr>" for q g
    by (simp add: release_edge_def v_def w_def)
  have two: "append_initial env a (append_initial env b (Some (o1, db))) = Some (o2, db2) \<Longrightarrow> db_view db2 = db_view db" for a b o1 o2 db db2
  proof -
    assume a: "append_initial env a (append_initial env b (Some (o1, db))) = Some (o2, db2)"
    show "db_view db2 = db_view db"
    proof (cases "append_initial env b (Some (o1, db))")
      case None
      then show ?thesis using a by (simp add: append_initial_def)
    next
      case (Some x)
      obtain o3 db3 where x: "x = (o3, db3)" by fastforce
      show ?thesis using a initial_view[of env b o1 db o3 db3] initial_view[of env a o3 db3 o2 db2] Some x by simp
    qed
  qed
  let ?q = "the (rc_forkedFrom req)"
  let ?ct = "fork_contentType req aq"
  let ?sub = "or_zero (rc_forkSubOffset req)"
  let ?prefix = "sub_prefix env (normalizeContentType ?ct = ''application/json'') ?sub past"
  note f = assms(1)[unfolded createFork_finish_def Let_def]
  consider "ob1 = release_edge env e ?q (aq_generation aq) ob" | "ob1 = on_db (deleteForkIntent e) ob"
    | db1 a b ofs db2 where "createMeta (ke_uuid env) (fork_options env req e aq) (ob_db ob) = Some db1"
      "append_initial env a (append_initial env b (Some (aq_forkOffset aq, db1))) = Some (ofs, db2)"
      "ob1 = syncExpiryAlarm env (on_db (deleteForkIntent e) (ob\<lparr>ob_db := db2\<rparr>))"
  proof (cases "?sub > 0 \<and> ?prefix = None")
    case False
    show ?thesis
    proof (cases "initial_payload env ?ct body")
      case (Inr payload)
      show ?thesis
      proof (cases "ob_meta ob")
        case None
        note g = f[unfolded if_not_P[OF False] Inr None sum.case option.case]
        then obtain db1 where db1: "createMeta (ke_uuid env) (fork_options env req e aq) (ob_db ob) = Some db1"
          by (cases "createMeta (ke_uuid env) (fork_options env req e aq) (ob_db ob)") simp_all
        note h = g[unfolded db1 option.case]
        then show ?thesis using that(3)[OF db1]
          by (cases "append_initial env payload (append_initial env (if ?sub > 0 then ?prefix else None) (Some (aq_forkOffset aq, db1)))") auto
      next
        case (Some raced)
        show ?thesis using f[unfolded if_not_P[OF False] Inr Some sum.case option.case] that(1,2) by (auto split: if_splits)
      qed
    qed (use f that(1) False in simp)
  qed (use f that(1) in simp)
  then show ?thesis
  proof cases
    case 3
    have o: "cc_forkedFrom (fork_options env req e aq) = Some ?q" "cc_forkEdgeId (fork_options env req e aq) = Some e"
      "cc_forkSourceGen (fork_options env req e aq) = Some (aq_generation aq)" "cc_forkOffset (fork_options env req e aq) = Some (aq_forkOffset aq)"
      using q by (simp_all add: fork_options_def Let_def)
    have "fv_meta v = None" using created_view[OF 3(1)] by (simp add: v_def db_view_def)
    then show ?thesis using 3(3) two[OF 3(2)] created_view[OF 3(1)] by (simp add: w_def v_def o)
  qed (simp_all add: r, simp add: w_def)
qed

lemma begin_view:
  assumes "createFork_begin env p req ob = (Inr e, ob1)"
  shows "view ob1 = view ob \<and> intends (view ob) e
    \<or> e = ke_uuid env \<and> (\<exists>x. view ob1 = (view ob)\<lparr>fv_intents := insert_or_ignore e x (fv_intents (view ob))\<rparr>)"
proof (cases "getForkIntent (params_key (the (rc_forkedFrom req)) (rc_forkOffsetHeader req)) (ob_db ob)")
  case (Some a)
  then have "a \<in> fst ` set (db_fork_intents (ob_db ob))" by (force simp: getForkIntent_def find_Some_iff dest: nth_mem)
  then show ?thesis using assms Some by (auto simp: createFork_begin_def Let_def intends_def db_view_def split: if_splits)
next
  case None
  let ?q = "the (rc_forkedFrom req)"
  let ?k = "params_key ?q (rc_forkOffsetHeader req)"
  have e: "e = ke_uuid env" and o: "ob1 = armAlarmAt env (ke_now env + 5000) (on_db (putForkIntent (ke_uuid env) ?q ?k) ob)"
    using assms None by (auto simp: createFork_begin_def Let_def split: if_splits)
  have "view ob1 = (view ob)\<lparr>fv_intents := insert_or_ignore e (?q, ?k) (fv_intents (view ob))\<rparr>" by (simp add: e o)
  then show ?thesis using e by blast
qed

lemma fresh_view:
  assumes "fresh_edge n e"
  shows "\<not> dead (view \<circ> nt_object n) ((\<lambda>(p, q, x, g). x) ` set (nt_releases n)) e \<and> (\<forall>q. \<not> owns (view (nt_object n q)) e \<and> \<not> intends (view (nt_object n q)) e)"
proof -
  have "\<not> uses_edge (nt_object n q) e" for q using assms by (simp add: fresh_edge_def)
  then have "\<not> owns (view (nt_object n q)) e \<and> \<not> intends (view (nt_object n q)) e \<and> e \<notin> fst ` set (fv_releases (view (nt_object n q)))" for q
    by (auto simp: uses_edge_def owns_def intends_def db_view_def fork_info_of_def split: option.splits)
  then show ?thesis using assms by (auto simp: fresh_edge_def dead_def)
qed

abbreviation views :: "cf_net \<Rightarrow> string \<Rightarrow> fork_view" where
  "views n \<equiv> view \<circ> nt_object n"

definition sent :: "cf_net \<Rightarrow> string set" where
  "sent n = (\<lambda>(p, q, x, g). x) ` set (nt_releases n)"

definition net_ok :: "cf_net \<Rightarrow> bool" where
  "net_ok n \<longleftrightarrow> views_ok (views n) (sent n) (nt_stage n) \<and> set (nt_delivered n) \<subseteq> set (nt_releases n)"

lemma views_upd [simp]: "view \<circ> obs(p := ob) = (view \<circ> obs)(p := view ob)"
  by (simp add: fun_eq_iff)

text \<open>Only the stage changes.\<close>

lemma stage_only:
  assumes "views_ok V W st" and "\<And>s. s' = Some s \<Longrightarrow> stage_ok V W p s"
  shows "views_ok V W (st(p := s'))"
  using assms by (auto simp: views_ok_def stages_ok_def)

lemma stage_at: "views_ok V W st \<Longrightarrow> st p = Some s \<Longrightarrow> stage_ok V W p s"
  by (simp add: views_ok_def stages_ok_def)

lemma keys_distinct: "views_ok V W st \<Longrightarrow> distinct (map fst (fv_intents (V p)))"
  by (simp add: views_ok_def one_user_def)

text \<open>An intent goes, alone, with its edge queued for release, or with its edge taken over by the new stream.\<close>

lemma intent_dropped:
  assumes ok: "views_ok V W st" and v: "v = V p\<lparr>fv_intents := AList.delete e (fv_intents (V p))\<rparr>"
    and stage: "\<And>s. s' = Some s \<Longrightarrow> stage_ok (V(p := v)) W p s"
  shows "views_ok (V(p := v)) W (st(p := s'))"
  by (rule own_ok[OF ok _ _ _ _ _ _ stage]) (use ok in \<open>auto simp: v intends_delete dead_def keys_distinct distinct_delete\<close>)

lemma intent_released:
  assumes ok: "views_ok V W st" and e: "intends (V p) e \<or> dead V W e"
    and v: "v = V p\<lparr>fv_intents := AList.delete e (fv_intents (V p)), fv_releases := insert_or_ignore e x (fv_releases (V p))\<rparr>"
    and stage: "\<And>s. s' = Some s \<Longrightarrow> stage_ok (V(p := v)) W p s"
  shows "views_ok (V(p := v)) W (st(p := s'))"
proof (rule own_ok[OF ok _ _ _ _ _ _ stage])
  show "dead V W a \<or> intends (V p) a \<and> \<not> intends v a \<and> \<not> owns v a" if "a \<in> fst ` set (fv_releases v)" for a
  proof (cases "a = e \<and> intends (V p) e")
    case True
    then have "\<not> owns (V p) e" using ok by (auto simp: views_ok_def one_user_def)
    then show ?thesis using True v by (simp add: intends_delete owns_def)
  qed (use that e v in \<open>auto simp: in_insert_or_ignore dead_def\<close>)
qed (use ok in \<open>auto simp: v intends_delete in_insert_or_ignore keys_distinct distinct_delete\<close>)

lemma intent_taken:
  assumes ok: "views_ok V W st" and e: "intends (V p) e" and none: "fv_meta (V p) = None" and h: "held V q e g fo"
    and v: "v = V p\<lparr>fv_meta := Some (u, Some \<lparr>fi_source = q, fi_edge = e, fi_generation = Some g, fi_offset = Some fo\<rparr>),
      fv_intents := AList.delete e (fv_intents (V p))\<rparr>"
  shows "views_ok (V(p := v)) W (st(p := None))"
  by (rule own_ok[OF ok]) (use ok e none h in \<open>auto simp: v intends_delete dead_def keys_distinct distinct_delete\<close>)

lemma intent_put:
  assumes ok: "views_ok V W st" and fresh: "\<not> dead V W e \<and> (\<forall>q. \<not> owns (V q) e \<and> \<not> intends (V q) e)"
    and v: "v = V p\<lparr>fv_intents := insert_or_ignore e x (fv_intents (V p))\<rparr>" and s: "rc_forkedFrom req \<noteq> None"
  shows "views_ok (V(p := v)) W (st(p \<mapsto> Fork_calling req body e))"
proof (rule own_ok[OF ok])
  show "distinct (map fst (fv_intents v))" using keys_distinct[OF ok, of p] by (auto simp: v insert_or_ignore_def)
qed (use fresh s in \<open>auto simp: v dead_def intends_def in_insert_or_ignore\<close>)

lemma dequeued_ok:
  assumes ok: "views_ok V W st" and "e \<in> W" and v: "v = V p\<lparr>fv_releases := AList.delete e (fv_releases (V p))\<rparr>"
  shows "views_ok (V(p := v)) W st"
proof (rule views_ok_mono[OF ok])
  show "dead (V(p := v)) W a" if "dead V W a" for a
    using that assms(2) by (elim dead_updI) (auto simp: v AList.delete_eq)
  show "dead V W a \<or> (\<exists>q. owns (V q) a \<and> \<not> owns ((V(p := v)) q) a)" if "dead (V(p := v)) W a" for a
    using dead_updD[OF that] by (auto simp: v AList.delete_eq dead_def)
qed (auto simp: v held_upd split: if_splits, auto simp: held_def)

lemma answered_ok:
  assumes ok: "views_ok V W st" and s: "st p = Some (Reconcile_answered e q r rest)"
    and v: "view (reconcile_answer env e q r ob) = v" "view ob = V p"
  shows "views_ok (V(p := v)) W (st(p \<mapsto> Reconciling rest))"
proof -
  have st: "distinct (e # map fst rest)" "\<forall>a \<in> insert e (fst ` set rest). intends (V p) a \<or> dead V W a"
    using stage_at[OF ok s] by auto
  consider (release) g where "v = V p\<lparr>fv_releases := insert_or_ignore e (q, Some g) (fv_releases (V p)), fv_intents := AList.delete e (fv_intents (V p))\<rparr>"
    | (drop) "v = V p\<lparr>fv_intents := AList.delete e (fv_intents (V p))\<rparr>" | (same) "v = V p"
    using v by (cases r) (auto simp: reconcile_answer_def reconcile_failed_def split: if_splits)
  then show ?thesis
  proof cases
    case release
    then have v: "v = V p\<lparr>fv_intents := AList.delete e (fv_intents (V p)), fv_releases := insert_or_ignore e (q, Some g) (fv_releases (V p))\<rparr>"
      by simp
    have d: "dead V W a \<Longrightarrow> dead (V(p := v)) W a" for a by (erule dead_updI) (simp add: v in_insert_or_ignore)
    have i: "intends v a" if "intends (V p) a" "a \<noteq> e" for a using that by (simp add: v intends_delete)
    have "stage_ok (V(p := v)) W p (Reconciling rest)" using st d i by (auto simp: image_iff)
    then show ?thesis using st by (intro intent_released[OF ok _ v]) auto
  next
    case drop
    show ?thesis by (rule intent_dropped[OF ok drop]) (use st drop in \<open>auto simp: intends_delete dead_same\<close>)
  next
    case same
    then show ?thesis using ok st by (auto intro: stage_only)
  qed
qed

lemma finished_ok:
  assumes ok: "views_ok V W st" and s: "st p = Some (Fork_answered req body e (Inr aq))"
    and f: "createFork_finish env p req body e aq past ob = (Some rs, ob1)" and v: "view ob = V p"
  shows "views_ok (V(p := view ob1)) W (st(p := None))"
proof -
  have st: "rc_forkedFrom req \<noteq> None" "intends (V p) e" "held V (the (rc_forkedFrom req)) e (aq_generation aq) (aq_forkOffset aq)"
    using stage_at[OF ok s] by auto
  from finish_view[OF f st(1)] consider
      "view ob1 = V p\<lparr>fv_intents := AList.delete e (fv_intents (V p))\<rparr>"
    | "view ob1 = V p\<lparr>fv_intents := AList.delete e (fv_intents (V p)),
        fv_releases := insert_or_ignore e (the (rc_forkedFrom req), Some (aq_generation aq)) (fv_releases (V p))\<rparr>"
    | "fv_meta (V p) = None" "view ob1 = V p\<lparr>fv_meta := Some (ke_uuid env, Some \<lparr>fi_source = the (rc_forkedFrom req), fi_edge = e,
        fi_generation = Some (aq_generation aq), fi_offset = Some (aq_forkOffset aq)\<rparr>), fv_intents := AList.delete e (fv_intents (V p))\<rparr>"
    unfolding v by auto
  then show ?thesis
  proof cases
    case 1
    then show ?thesis by (intro intent_dropped[OF ok]) auto
  next
    case 2
    then show ?thesis using st by (intro intent_released[OF ok]) auto
  next
    case 3
    then show ?thesis by (intro intent_taken[OF ok st(2) 3(1) st(3)])
  qed
qed

lemma begun_ok:
  assumes ok: "views_ok (views n) (sent n) st" and fresh: "fresh_edge n (ke_uuid env)" and q: "rc_forkedFrom req \<noteq> None"
    and b: "createFork_begin env p req (nt_object n p) = (Inr e, ob)"
  shows "views_ok ((views n)(p := view ob)) (sent n) (st(p \<mapsto> Fork_calling req body e))"
proof (cases "view ob = view (nt_object n p) \<and> intends (view (nt_object n p)) e")
  case True
  then show ?thesis using ok q by (intro own_ok) (auto simp: keys_distinct[OF ok, of p, simplified] dead_def)
next
  case False
  then obtain x where x: "e = ke_uuid env" "view ob = view (nt_object n p)\<lparr>fv_intents := insert_or_ignore e x (fv_intents (view (nt_object n p)))\<rparr>"
    using begin_view[OF b] by blast
  show ?thesis using intent_put[OF ok, of e "view ob" x p req body] fresh_view[OF fresh] x q by (simp add: sent_def)
qed

lemma refused_ok:
  assumes ok: "views_ok (view \<circ> obs) W st" and r: "createFork_refused e err (obs p) = (rs, ob)"
  shows "views_ok ((view \<circ> obs)(p := view ob)) W (st(p := None))"
proof (cases "fork_refusal err = None")
  case True
  then have "(view \<circ> obs)(p := view ob) = view \<circ> obs" using r by (auto simp: createFork_refused_def fun_eq_iff)
  then show ?thesis using stage_only[OF ok, of None p] by simp
next
  case False
  then show ?thesis using r by (intro intent_dropped[OF ok]) (auto simp: createFork_refused_def)
qed

lemma step_net_ok:
  assumes "cf_net_step n n1" and "net_ok n"
  shows "net_ok n1"
proof -
  have ok: "views_ok (views n) (sent n) (nt_stage n)" and dl: "set (nt_delivered n) \<subseteq> set (nt_releases n)"
    using assms(2) by (simp_all add: net_ok_def)
  show ?thesis
    using assms(1)
  proof cases
    case (event p ob)
    then show ?thesis using local_changes_ok[of "views n" p "view ob", OF _ ok] local_view[OF event(2)] dl by (simp add: net_ok_def sent_def)
  next
    case (fork p req q env e ob body)
    then show ?thesis using begun_ok[OF ok fork(4) _ fork(5)] dl by (simp add: net_ok_def sent_def)
  next
    case (acquire p req body e q env r ob)
    note ac = acquired_ok[OF ok acquire(4)]
    have "views_ok (view \<circ> (nt_object n)(q := ob)) (sent n) ((nt_stage n)(p \<mapsto> Fork_answered req body e r))"
      using ac(2) stage_at[OF ac(1) acquire(2)] acquire(3) by (intro stage_only[OF ac(1)]) auto
    then show ?thesis using acquire dl by (simp add: net_ok_def sent_def)
  next
    case (acquire_again q e fo ct env r ob)
    then show ?thesis using acquired_ok(1)[OF ok] dl by (simp add: net_ok_def sent_def)
  next
    case (interrupt p)
    then show ?thesis using stage_only[OF ok, of None p] dl by (simp add: net_ok_def sent_def)
  next
    case (refused p req body e err rs ob)
    then show ?thesis using refused_ok[OF ok refused(3)] dl by (simp add: net_ok_def sent_def)
  next
    case (finish p req body e aq env past rs ob)
    then show ?thesis using finished_ok[OF ok finish(2,3)] dl by (simp add: net_ok_def sent_def)
  next
    case (reconcile p)
    have "stage_ok (views n) (sent n) p (Reconciling (reconcile_list (nt_object n p)))"
      using keys_distinct[OF ok, of p] by (auto simp: reconcile_list_def pendingForkIntents_def intends_def db_view_def)
    then have "views_ok (views n) (sent n) ((nt_stage n)(p \<mapsto> Reconciling (reconcile_list (nt_object n p))))"
      by (intro stage_only[OF ok]) (simp only: option.inject)
    then show ?thesis using reconcile dl by (simp add: net_ok_def sent_def)
  next
    case (reconcile_call p e q key rest env r ob)
    note ac = acquired_ok(1)[OF ok reconcile_call(3)]
    have "views_ok (view \<circ> (nt_object n)(q := ob)) (sent n) ((nt_stage n)(p \<mapsto> Reconcile_answered e q r rest))"
      using stage_at[OF ac reconcile_call(2)] by (intro stage_only[OF ac]) auto
    then show ?thesis using reconcile_call dl by (simp add: net_ok_def sent_def)
  next
    case (reconcile_failed p e q key rest env)
    have "stage_ok (views n) (sent n) p (Reconciling rest)" using stage_at[OF ok reconcile_failed(2)] by auto
    then have "views_ok (views n) (sent n) ((nt_stage n)(p \<mapsto> Reconciling rest))" by (intro stage_only[OF ok]) auto
    then show ?thesis using reconcile_failed dl by (simp add: net_ok_def sent_def Cf_Object.reconcile_failed_def fun_upd_idem)
  next
    case (reconcile_answer p e q r rest env)
    then show ?thesis using answered_ok[OF ok, of p e q r rest env "nt_object n p"] dl by (simp add: net_ok_def sent_def)
  next
    case (reconciled p)
    then show ?thesis using stage_only[OF ok, of None p] dl by (simp add: net_ok_def sent_def)
  next
    case (release e q g p)
    have "e \<in> fst ` set (fv_releases (views n p))" using release(2) by (force simp: pendingGcReleases_def db_view_def)
    then have "dead (views n) (insert e (sent n)) a \<longleftrightarrow> dead (views n) (sent n) a" for a by (auto simp: dead_def)
    then have "views_ok (views n) (insert e (sent n)) (nt_stage n)" by (intro views_ok_mono[OF ok]) auto
    then show ?thesis using release dl by (auto simp: net_ok_def sent_def)
  next
    case (deliver p q e g env ob)
    have "e \<in> sent n" using deliver(2) by (force simp: sent_def)
    then show ?thesis using released_ok[OF ok _ deliver(3)] deliver dl by (auto simp: net_ok_def sent_def)
  next
    case (dequeue p q e g)
    have "e \<in> sent n" using dequeue(2) dl by (force simp: sent_def)
    then have "views_ok ((views n)(p := view (on_db (dequeueGcRelease e) (nt_object n p)))) (sent n) (nt_stage n)"
      by (intro dequeued_ok[OF ok]) simp_all
    then show ?thesis using dequeue dl by (simp add: net_ok_def sent_def)
  next
    case (release_failed p env)
    then show ?thesis using ok dl by (simp add: net_ok_def sent_def fun_upd_idem)
  qed
qed

lemma reachable_net_ok: "cf_net_step\<^sup>*\<^sup>* init_net n \<Longrightarrow> net_ok n"
proof (induction rule: rtranclp_induct)
  case base
  show ?case by (auto simp: net_ok_def init_net_def views_ok_def forks_held_def one_user_def stages_ok_def owns_def intends_def dead_def
        sent_def db_view_def new_object_def empty_db_def)
qed (rule step_net_ok)

text \<open>C33. The stream that a live fork reads through is there, in the generation the fork was made from, and has
  the fork's edge with the fork's offset, in every state that requests, alarms, expiry and the calls between
  objects lead to, with calls executed late, again or never and creates interrupted at any point.\<close>

theorem cf_fork_source_retained:
  assumes "cf_net_step\<^sup>*\<^sup>* init_net n" and "ob_meta (nt_object n p) = Some m"
    and "cm_forkedFrom m = Some q" and "cm_forkEdgeId m = Some e"
  shows "\<exists>src. ob_meta (nt_object n q) = Some src \<and> cm_forkSourceGen m = Some (cm_generation src)
    \<and> getForkEdge e (ob_db (nt_object n q)) = cm_forkOffset m \<and> cm_forkOffset m \<noteq> None"
proof -
  have "views_ok (views n) (sent n) (nt_stage n)" using reachable_net_ok[OF assms(1)] by (simp add: net_ok_def)
  then have f: "forks_held (views n)" by (simp add: views_ok_def)
  have "fv_meta (views n p) = Some (cm_generation m, Some \<lparr>fi_source = q, fi_edge = e, fi_generation = cm_forkSourceGen m, fi_offset = cm_forkOffset m\<rparr>)"
    using assms by (simp add: db_view_def fork_info_of_def)
  then obtain g fo where "cm_forkSourceGen m = Some g" "cm_forkOffset m = Some fo" "held (views n) q e g fo"
    using f by (fastforce simp: forks_held_def)
  then show ?thesis by (auto simp: held_def db_view_def getForkEdge_def)
qed

text \<open>A run: \<^verbatim>\<open>/a\<close> is created, forked as \<^verbatim>\<open>/b\<close> and deleted.\<close>

definition env_uuid :: "string \<Rightarrow> cf_env" where
  "env_uuid u = \<lparr>ke_js = \<lparr>now = 1, date_ms = (\<lambda>_. None), num_canon = (\<lambda>x. x)\<rparr>, ke_jitter = 0, ke_origin = ''http://h'', ke_uuid = u, ke_id = ''i''\<rparr>"

definition put_a :: http_request where
  "put_a = \<lparr>rq_method = ''PUT'', rq_path = ''/a'', rq_query = [], rq_headers = [(''content-type'', ''text/plain'')], rq_body = ''hello''\<rparr>"

definition fork_b :: cf_requested where
  "fork_b = \<lparr>rc_contentType = None, rc_ttlSeconds = None, rc_expiresAt = None, rc_createClosed = False, rc_forkedFrom = Some ''/a'',
     rc_forkOffsetHeader = None, rc_forkSubOffset = None\<rparr>"

definition run_a :: "nat \<Rightarrow> cf_object" where
  "run_a k =
     (let a1 = snd (cf_handlePut (env_uuid ''g1'') ''/a'' put_a new_object); a2 = snd (forkAcquire (env_uuid []) ''e1'' None None a1)
      in if k = 1 then a1 else if k = 2 then a2 else snd (cf_handleDelete (env_uuid []) a2))"

definition run_aq :: "fork_error + acquired" where
  "run_aq = fst (forkAcquire (env_uuid []) ''e1'' None None (run_a 1))"

definition run_b :: "nat \<Rightarrow> cf_object" where
  "run_b k =
     (let b1 = snd (createFork_begin (env_uuid ''e1'') ''/b'' fork_b new_object)
      in if k = 1 then b1 else snd (createFork_finish (env_uuid ''g2'') ''/b'' fork_b [] ''e1'' (projr run_aq) [] b1))"

lemma run_facts:
  "db_meta (ob_db (run_a 1)) \<noteq> None" "cm_forkEdgeId (the (ob_meta (run_a 1))) = None" "db_fork_intents (ob_db (run_a 1)) = []"
  "db_gc_releases (ob_db (run_a 1)) = []" "fst (createFork_begin (env_uuid ''e1'') ''/b'' fork_b new_object) = Inr ''e1''"
  "isl run_aq = False" "fst (createFork_finish (env_uuid ''g2'') ''/b'' fork_b [] ''e1'' (projr run_aq) [] (run_b 1)) \<noteq> None"
  "map_option (\<lambda>m. (cm_forkedFrom m, cm_forkEdgeId m, cm_forkOffset m)) (ob_meta (run_b 2))
     = Some (Some ''/a'', Some ''e1'', Some ''0000000000000000_0000000000000010'')"
  "map_option cm_softDeleted (ob_meta (run_a 3)) = Some True"
  by code_simp+

lemma run_reaches:
  "cf_net_step\<^sup>*\<^sup>* init_net (init_net\<lparr>nt_object := (nt_object init_net)(''/a'' := run_a 3, ''/b'' := run_b 2),
     nt_acquires := [(''/a'', ''e1'', None, None)]\<rparr>)" (is "cf_net_step\<^sup>*\<^sup>* _ ?n5")
proof -
  let ?n1 = "init_net\<lparr>nt_object := (nt_object init_net)(''/a'' := run_a 1)\<rparr>"
  let ?w = "[(''/a'', ''e1'', None, None)]"
  let ?st = "\<lambda>s. (\<lambda>_. None)(''/b'' := s)"
  let ?n = "\<lambda>a b s. \<lparr>nt_object = (\<lambda>_. new_object)(''/a'' := run_a a, ''/b'' := run_b b), nt_stage = ?st s, nt_acquires = ?w, nt_releases = [], nt_delivered = []\<rparr>"
  have 1: "cf_net_step init_net ?n1"
  proof -
    have "run_a 1 = snd (cf_handlePut (env_uuid ''g1'') ''/a'' put_a (nt_object init_net ''/a''))" by (simp add: run_a_def init_net_def)
    then have "cf_local ''/a'' (nt_object init_net ''/a'') (run_a 1)" using cf_local.put by metis
    then show ?thesis by (rule cf_net_step.event)
  qed
  have "\<not> uses_edge (run_a 1) ''e1'' \<and> \<not> uses_edge new_object ''e1''"
    using run_facts(1-4) by (auto simp: uses_edge_def new_object_def empty_db_def)
  then have fresh: "fresh_edge ?n1 ''e1''" by (simp add: fresh_edge_def init_net_def)
  have b: "createFork_begin (env_uuid ''e1'') ''/b'' fork_b new_object = (Inr ''e1'', run_b 1)"
    using run_facts(5) by (simp add: run_b_def prod_eq_iff)
  have 2: "cf_net_step ?n1 (?n 1 1 (Some (Fork_calling fork_b [] ''e1'')))"
    using cf_net_step.fork[of ?n1 "''/b''" fork_b "''/a''" "env_uuid ''e1''" "''e1''" "run_b 1" "[]"] fresh b
    by (simp add: init_net_def fork_b_def env_uuid_def)
  have a: "forkAcquire (env_uuid []) ''e1'' None None (run_a 1) = (run_aq, run_a 2)"
    by (simp add: run_aq_def run_a_def prod_eq_iff)
  have 3: "cf_net_step (?n 1 1 (Some (Fork_calling fork_b [] ''e1''))) (?n 2 1 (Some (Fork_answered fork_b [] ''e1'' run_aq)))"
    using cf_net_step.acquire[of "?n 1 1 (Some (Fork_calling fork_b [] ''e1''))" "''/b''" fork_b "[]" "''e1''" "''/a''" "env_uuid []" run_aq "run_a 2"] a
    by (simp add: fork_b_def fun_upd_twist)
  obtain aq where aq: "run_aq = Inr aq" using run_facts(6) by (metis isl_def obj_sumE sum.disc(1))
  obtain rs where rs: "createFork_finish (env_uuid ''g2'') ''/b'' fork_b [] ''e1'' aq [] (run_b 1) = (Some rs, run_b 2)"
    using run_facts(7) by (simp add: run_b_def aq prod_eq_iff) (metis surjective_pairing)
  have 4: "cf_net_step (?n 2 1 (Some (Fork_answered fork_b [] ''e1'' run_aq))) (?n 2 2 None)"
    using cf_net_step.finish[of "?n 2 1 (Some (Fork_answered fork_b [] ''e1'' run_aq))" "''/b''" fork_b "[]" "''e1''" aq "env_uuid ''g2''" "[]" rs "run_b 2"] rs
    by (simp add: aq)
  have "cf_local ''/a'' (run_a 2) (run_a 3)" using cf_local.delete[of "''/a''" "run_a 2" "env_uuid []"] by (simp add: run_a_def)
  then have 5: "cf_net_step (?n 2 2 None) (?n 3 2 None)"
    using cf_net_step.event[of "''/a''" "?n 2 2 None" "run_a 3"] by (simp add: fun_upd_twist)
  have first: "cf_net_step x y \<Longrightarrow> cf_net_step\<^sup>*\<^sup>* y z \<Longrightarrow> cf_net_step\<^sup>*\<^sup>* x z" for x y z by (rule converse_rtranclp_into_rtranclp)
  have "cf_net_step\<^sup>*\<^sup>* init_net (?n 3 2 None)"
    by (rule first[OF 1 first[OF 2 first[OF 3 first[OF 4 first[OF 5 rtranclp.rtrancl_refl]]]]])
  moreover have "?n 3 2 None = ?n5" by (simp add: init_net_def)
  ultimately show ?thesis by simp
qed

theorem cf_fork_source_retained_witness:
  "\<exists>n src. cf_net_step\<^sup>*\<^sup>* init_net n \<and> ob_meta (nt_object n ''/a'') = Some src \<and> cm_softDeleted src
    \<and> map_option cm_forkSourceGen (ob_meta (nt_object n ''/b'')) = Some (Some (cm_generation src))
    \<and> getForkEdge ''e1'' (ob_db (nt_object n ''/a'')) = Some ''0000000000000000_0000000000000010''"
proof -
  obtain m where m: "ob_meta (run_b 2) = Some m" "cm_forkedFrom m = Some ''/a''" "cm_forkEdgeId m = Some ''e1''"
    "cm_forkOffset m = Some ''0000000000000000_0000000000000010''" using run_facts(8) by auto
  let ?n = "init_net\<lparr>nt_object := (nt_object init_net)(''/a'' := run_a 3, ''/b'' := run_b 2), nt_acquires := [(''/a'', ''e1'', None, None)]\<rparr>"
  obtain src where "ob_meta (nt_object ?n ''/a'') = Some src" "cm_forkSourceGen m = Some (cm_generation src)"
    "getForkEdge ''e1'' (ob_db (nt_object ?n ''/a'')) = cm_forkOffset m"
    using cf_fork_source_retained[OF run_reaches, of "''/b''" m "''/a''" "''e1''"] m by auto
  then show ?thesis using run_reaches m run_facts(9) by (intro exI[of _ ?n] exI[of _ src]) simp
qed

text \<open>A fork without an expiry of its own takes over the one of its source; the same request again is then refused,
  since the stored expiry is compared with the one in the request.\<close>

definition put_b :: http_request where
  "put_b = \<lparr>rq_method = ''PUT'', rq_path = ''/b'', rq_query = [], rq_headers = [(''stream-forked-from'', ''/a'')], rq_body = []\<rparr>"

definition aq_ttl :: acquired where
  "aq_ttl = \<lparr>aq_forkOffset = ZERO_OFFSET, aq_contentType = Some ''text/plain'', aq_ttlSeconds = Some 60, aq_expiresAt = None, aq_generation = ''g1''\<rparr>"

theorem cf_fork_create_not_idempotent:
  "fst (cf_handlePut (env_uuid ''g2'') ''/b'' put_b (run_b 1)) = Inr (fork_b, [])"
  "case createFork_finish (env_uuid ''g2'') ''/b'' fork_b [] ''e1'' aq_ttl [] (run_b 1) of
     (Some rs, ob1) \<Rightarrow> rs_status rs = 201 \<and> map_option rs_status (projl (fst (cf_handlePut (env_uuid ''g3'') ''/b'' put_b ob1))) = Some 409
   | _ \<Rightarrow> False"
  by code_simp+

end
