(* ===== verification/Cf_Worker.thy ===== *)
theory Cf_Worker
  imports Cf_Object
begin

text \<open>
  The router in front of the durable objects (server-cloudflare/src/handler.ts): preflight requests, the check of
  the authorization, the reserved paths, and what is done to the headers of an object's response. The object is an
  argument, a function on a state. Shown is that a request without authorization reaches no object and that
  behind a check no response is left that a shared cache may store.
\<close>

record handler_options =
  ho_auth :: "(http_request \<Rightarrow> http_response option) option"
  ho_cors :: bool
  ho_token :: "string option"

definition CORS_HEADERS :: "(string, string) jsmap" where
  "CORS_HEADERS = cf_standard_headers"

definition defaultAuth :: "string option \<Rightarrow> http_request \<Rightarrow> http_response option" where
  "defaultAuth token req =
     (case token of
        None \<Rightarrow> None
      | Some t \<Rightarrow>
          if t = [] then None
          else if header req ''authorization'' = Some (''Bearer '' @ t) then None
          else Some \<lparr>rs_status = 401, rs_headers = [(''content-type'', ''text/plain'')], rs_body = ''Unauthorized''\<rparr>)"

text \<open>The methods of \<^verbatim>\<open>Headers\<close>, whose names are compared in lower case.\<close>

definition headers_set :: "string \<Rightarrow> string \<Rightarrow> http_response \<Rightarrow> http_response" where
  "headers_set name v rs = rs\<lparr>rs_headers := filter (\<lambda>(k, _). toLowerCase k \<noteq> toLowerCase name) (rs_headers rs) @ [(name, v)]\<rparr>"

definition headers_delete :: "string \<Rightarrow> http_response \<Rightarrow> http_response" where
  "headers_delete name rs = rs\<lparr>rs_headers := filter (\<lambda>(k, _). toLowerCase k \<noteq> toLowerCase name) (rs_headers rs)\<rparr>"

definition with_cors :: "(string, string) jsmap \<Rightarrow> http_response \<Rightarrow> http_response" where
  "with_cors cors rs = fold (\<lambda>(name, v) r. if get_header r name = None then headers_set name v r else r) cors rs"

definition may_be_shared :: "http_response \<Rightarrow> bool" where
  "may_be_shared rs \<longleftrightarrow> str_includes (case get_header rs ''cache-control'' of Some c \<Rightarrow> c | None \<Rightarrow> []) ''public''"

definition authActive :: "handler_options \<Rightarrow> bool" where
  "authActive opts \<longleftrightarrow> ho_auth opts \<noteq> None \<or> (case ho_token opts of Some t \<Rightarrow> t \<noteq> [] | None \<Rightarrow> False)"

definition finalized :: "handler_options \<Rightarrow> http_response \<Rightarrow> http_response" where
  "finalized opts rs =
     (let publiclyCacheable = may_be_shared rs
      in if ho_cors opts \<and> \<not> (authActive opts \<and> publiclyCacheable) then rs
         else (let rs1 = (if ho_cors opts then rs
                          else headers_delete ''access-control-expose-headers'' (headers_delete ''access-control-allow-headers''
                            (headers_delete ''access-control-allow-methods'' (headers_delete ''access-control-allow-origin'' rs))))
               in if authActive opts \<and> publiclyCacheable then headers_set ''cache-control'' ''no-store'' rs1 else rs1))"

definition endsWith :: "string \<Rightarrow> string \<Rightarrow> bool" where
  "endsWith s x \<longleftrightarrow> drop (length s - length x) s = x"

definition createStreamsHandler ::
  "handler_options \<Rightarrow> (http_request \<Rightarrow> 's \<Rightarrow> http_response \<times> 's) \<Rightarrow> http_request \<Rightarrow> 's \<Rightarrow> http_response \<times> 's" where
  "createStreamsHandler opts fetch req st =
     (let cors = (if ho_cors opts then CORS_HEADERS else []); path = rq_path req;
          auth = (case ho_auth opts of Some a \<Rightarrow> a | None \<Rightarrow> defaultAuth (ho_token opts))
      in if rq_method req = ''OPTIONS'' then (\<lparr>rs_status = 204, rs_headers = cors, rs_body = []\<rparr>, st)
         else (case auth req of
           Some rejection \<Rightarrow> (with_cors cors rejection, st)
         | None \<Rightarrow>
             if endsWith path ''/__ds'' \<or> str_includes path ''/__ds/'' then
               (\<lparr>rs_status = 404, rs_headers = cors @ [(''content-type'', ''text/plain'')], rs_body = ''Subscription APIs are not supported''\<rparr>, st)
             else if path = ''/'' \<or> path = [] then
               (\<lparr>rs_status = 200, rs_headers = cors @ [(''content-type'', ''text/plain'')],
                 rs_body = ''Durable Streams server. Streams live at /<path>.''\<rparr>, st)
             else (case fetch req st of (rs, st1) \<Rightarrow> (finalized opts rs, st1))))"

lemma header_filtered:
  "map_of (map (\<lambda>(k, v). (toLowerCase k, v)) (filter (\<lambda>(k, _). toLowerCase k \<noteq> n) hs)) x
     = (if x = n then None else map_of (map (\<lambda>(k, v). (toLowerCase k, v)) hs) x)" for hs :: "(string, string) jsmap"
  by (induction hs) auto

lemma header_set_same: "get_header (headers_set name v rs) name = Some v"
  by (simp add: get_header_def headers_set_def header_filtered map_add_def)

lemma header_delete: "get_header (headers_delete name rs) x = (if toLowerCase x = toLowerCase name then None else get_header rs x)"
  by (simp add: get_header_def headers_delete_def header_filtered)

lemma finalized_private:
  assumes "authActive opts"
  shows "\<not> may_be_shared (finalized opts rs)"
proof (cases "may_be_shared rs")
  case True
  have "\<not> str_includes ''no-store'' ''public''" by code_simp
  then show ?thesis using True assms by (simp add: finalized_def Let_def may_be_shared_def header_set_same)
next
  case False
  have "toLowerCase ''cache-control'' \<noteq> toLowerCase ''access-control-expose-headers''" "toLowerCase ''cache-control'' \<noteq> toLowerCase ''access-control-allow-headers''"
    "toLowerCase ''cache-control'' \<noteq> toLowerCase ''access-control-allow-methods''" "toLowerCase ''cache-control'' \<noteq> toLowerCase ''access-control-allow-origin''"
    by code_simp+
  then show ?thesis using False by (simp add: finalized_def Let_def may_be_shared_def header_delete)
qed

text \<open>C34. With a token set and no other check configured, a request that does not carry it leaves every object as
  it was and is answered 401, the preflight request apart; and whatever an object answers, no response to a stream
  request says that a shared cache may store it.\<close>

theorem worker_guards_streams:
  assumes "ho_auth opts = None" "ho_token opts = Some t" "t \<noteq> []" and "rq_method req \<noteq> ''OPTIONS''"
  shows "(header req ''authorization'' \<noteq> Some (''Bearer '' @ t) \<longrightarrow>
      rs_status (fst (createStreamsHandler opts fetch req st)) = 401 \<and> snd (createStreamsHandler opts fetch req st) = st)
    \<and> \<not> may_be_shared (fst (createStreamsHandler opts fetch req st))"
proof (cases "header req ''authorization'' = Some (''Bearer '' @ t)")
  case True
  have fixed: "\<not> may_be_shared \<lparr>rs_status = k, rs_headers = (if ho_cors opts then CORS_HEADERS else []) @ [(''content-type'', ''text/plain'')], rs_body = b\<rparr>" for k b
  proof -
    have "get_header \<lparr>rs_status = k, rs_headers = CORS_HEADERS @ [(''content-type'', ''text/plain'')], rs_body = b\<rparr> ''cache-control'' = None"
      "get_header \<lparr>rs_status = k, rs_headers = [(''content-type'', ''text/plain'')], rs_body = b\<rparr> ''cache-control'' = None"
      unfolding get_header_def http_response.simps by code_simp+
    then show ?thesis by (simp add: may_be_shared_def)
  qed
  have "authActive opts" using assms by (simp add: authActive_def)
  then show ?thesis using True assms fixed finalized_private[of opts]
    by (auto simp: createStreamsHandler_def Let_def defaultAuth_def split: prod.splits)
next
  case False
  let ?rs = "\<lparr>rs_status = 401, rs_headers = [(''content-type'', ''text/plain'')], rs_body = ''Unauthorized''\<rparr>"
  have "createStreamsHandler opts fetch req st = (with_cors (if ho_cors opts then CORS_HEADERS else []) ?rs, st)"
    using False assms by (simp add: createStreamsHandler_def Let_def defaultAuth_def)
  moreover have "rs_status (with_cors CORS_HEADERS ?rs) = 401 \<and> \<not> may_be_shared (with_cors CORS_HEADERS ?rs)"
    "rs_status (with_cors [] ?rs) = 401 \<and> \<not> may_be_shared (with_cors [] ?rs)" by code_simp+
  ultimately show ?thesis using False by simp
qed

theorem worker_guards_streams_witness:
  "snd (createStreamsHandler \<lparr>ho_auth = None, ho_cors = True, ho_token = Some ''secret''\<rparr> (\<lambda>r n. (cf_text 200 ''x'' [], n + 1))
     \<lparr>rq_method = ''GET'', rq_path = ''/a'', rq_query = [], rq_headers = [], rq_body = []\<rparr> (0 :: nat)) = 0"
proof -
  have "header \<lparr>rq_method = ''GET'', rq_path = ''/a'', rq_query = [], rq_headers = [], rq_body = []\<rparr> ''authorization'' \<noteq> Some (''Bearer '' @ ''secret'')"
    by (simp add: header_def)
  then show ?thesis
    using worker_guards_streams[of "\<lparr>ho_auth = None, ho_cors = True, ho_token = Some ''secret''\<rparr>" "''secret''"
      "\<lparr>rq_method = ''GET'', rq_path = ''/a'', rq_query = [], rq_headers = [], rq_body = []\<rparr>" "\<lambda>r n. (cf_text 200 ''x'' [], n + 1)" "0 :: nat"]
    by simp
qed

end
