(* ===== verification/File_Store.thy ===== *)
theory File_Store
  imports Store_Write
begin

text \<open>
  The file-backed store (server/src/file-store.ts): the metadata of a stream in LMDB, its messages as frames in a
  log file. Both are association lists; a file has the bytes the kernel has, and a crash may cut off what was not
  synchronised. The records of LMDB are values: an operation works on the copy it read and puts it back. An
  operation is split where it awaits: \<open>fs_append_begin\<close>, \<open>write_frame\<close> and \<open>append_put\<close> are an append up to the write of its
  frame, that write, and what follows the synchronisation; \<open>fs_append\<close> is all of it with nothing in between. The name
  of a new file, the path with a time and a random part, is an argument; the pool of file handles has no effect
  on the bytes and is left out. LMDB gives its records in the order of their keys, which matters for \<open>fs_list\<close> and \<open>collectible\<close>; numbers
  of bytes are natural, and a payload of \<open>2 ^ 32\<close> bytes or more, for which \<^verbatim>\<open>writeUInt32BE\<close> throws, is outside the model.
\<close>

section \<open>State\<close>

record stream_metadata =
  md_path :: string
  md_contentType :: "string option"
  md_currentOffset :: string
  md_lastSeq :: "string option"
  md_ttlSeconds :: "nat option"
  md_expiresAt :: "string option"
  md_createdAt :: int
  md_lastAccessedAt :: int
  md_totalBytes :: nat
  md_directoryName :: string
  md_producers :: "(string, producer_state) jsmap"
  md_closed :: bool
  md_closedBy :: "closed_by option"
  md_forkedFrom :: "string option"
  md_forkOffset :: "string option"
  md_forkSubOffset :: "nat option"
  md_refCount :: int
  md_softDeleted :: bool

record file_store =
  fl_db :: "(string, stream_metadata) jsmap"
  fl_files :: "(string, bytes) jsmap"
  fl_polls :: "pending_long_poll list"
  fl_timers :: "pending_long_poll list"
  fl_resolved :: "(nat, wait_result) jsmap"
  fl_next :: nat

definition empty_file_store :: file_store where
  "empty_file_store = \<lparr>fl_db = [], fl_files = [], fl_polls = [], fl_timers = [], fl_resolved = [], fl_next = 0\<rparr>"

definition db_put :: "string \<Rightarrow> stream_metadata \<Rightarrow> file_store \<Rightarrow> file_store" where
  "db_put p m st = st\<lparr>fl_db := AList.update p m (fl_db st)\<rparr>"

definition db_remove :: "string \<Rightarrow> file_store \<Rightarrow> file_store" where
  "db_remove p st = st\<lparr>fl_db := AList.delete p (fl_db st)\<rparr>"

definition streamMetaToStream :: "stream_metadata \<Rightarrow> stream" where
  "streamMetaToStream m =
     \<lparr>s_path = md_path m, contentType = md_contentType m, messages = [], currentOffset = md_currentOffset m,
      lastSeq = md_lastSeq m, ttlSeconds = md_ttlSeconds m, expiresAt = md_expiresAt m, createdAt = md_createdAt m,
      lastAccessedAt = md_lastAccessedAt m, producers = md_producers m, closed = md_closed m, closedBy = md_closedBy m,
      forkedFrom = md_forkedFrom m, forkOffset = md_forkOffset m, forkSubOffset = None, refCount = md_refCount m,
      softDeleted = md_softDeleted m\<rparr>"

section \<open>Frames\<close>

definition be32 :: "nat \<Rightarrow> bytes" where
  "be32 n = map char_of [n div 2 ^ 24 mod 256, n div 2 ^ 16 mod 256, n div 2 ^ 8 mod 256, n mod 256]"

definition readUInt32BE :: "bytes \<Rightarrow> nat" where
  "readUInt32BE bs = foldl (\<lambda>a c. a * 256 + of_char c) 0 (take 4 bs)"

definition frame :: "bytes \<Rightarrow> bytes" where
  "frame d = be32 (length d) @ d @ [CHR 0x0A]"

text \<open>\<^verbatim>\<open>scanFileForTrueOffset\<close>: the bytes of the complete frames.\<close>

function scan_frames :: "bytes \<Rightarrow> nat" where
  "scan_frames rest =
     (if length rest < 4 then 0
      else (let frameEnd = 4 + readUInt32BE rest + 1
            in if frameEnd > length rest then 0 else frameEnd + scan_frames (drop frameEnd rest)))"
  by pat_completeness auto
termination
  by (relation "measure length") auto

declare scan_frames.simps [simp del]

definition scanFileForTrueOffset :: "bytes \<Rightarrow> string" where
  "scanFileForTrueOffset content = off (scan_frames content)"

text \<open>The part of an offset after the underscore as a number; \<open>None\<close> is NaN, with which every comparison fails.\<close>

definition byte_of :: "string \<Rightarrow> nat option" where
  "byte_of s = (case split_on CHR ''_'' s of _ # b # _ \<Rightarrow> js_Number b | _ \<Rightarrow> Some 0)"

definition num_less :: "nat option \<Rightarrow> nat option \<Rightarrow> bool" where
  "num_less a b \<longleftrightarrow> (case (a, b) of (Some x, Some y) \<Rightarrow> x < y | _ \<Rightarrow> False)"

definition num_min :: "nat option \<Rightarrow> nat option \<Rightarrow> nat option" where
  "num_min a b = (case (a, b) of (Some x, Some y) \<Rightarrow> Some (min x y) | _ \<Rightarrow> None)"

text \<open>\<^verbatim>\<open>readMessagesFromSegmentFile\<close>: \<open>pos\<close> is the logical offset of the frame's start. A missing newline at the end of
  the file is not noticed.\<close>

function readMessagesFromSegmentFile :: "bytes \<Rightarrow> nat option \<Rightarrow> nat option \<Rightarrow> nat option option \<Rightarrow> stream_message list" where
  "readMessagesFromSegmentFile rest startByte pos capByte =
     (if length rest < 4 then []
      else (let n = readUInt32BE rest
            in if 4 + n > length rest then []
               else (let logicalOffset = map_option (\<lambda>b. b + n + 5) pos
                     in if (case capByte of Some cap \<Rightarrow> num_less cap logicalOffset | None \<Rightarrow> False) then []
                        else (if num_less startByte logicalOffset
                              then [\<lparr>m_data = take n (drop 4 rest), m_offset = format_offset (Some 0) logicalOffset, m_timestamp = 0\<rparr>]
                              else [])
                          @ readMessagesFromSegmentFile (drop (4 + n + 1) rest) startByte logicalOffset capByte)))"
  by pat_completeness auto
termination
  by (relation "measure (length \<circ> fst)") auto

declare readMessagesFromSegmentFile.simps [simp del]

definition segment :: "string \<Rightarrow> file_store \<Rightarrow> bytes" where
  "segment dir st = (case map_of (fl_files st) dir of Some c \<Rightarrow> c | None \<Rightarrow> [])"

section \<open>Expiry, deletion and waiting readers\<close>

definition fs_isExpired :: "js_env \<Rightarrow> stream_metadata \<Rightarrow> bool" where
  "fs_isExpired env m \<longleftrightarrow>
     (truthy (md_expiresAt m) \<and>
        (case date_ms env (the (md_expiresAt m)) of None \<Rightarrow> True | Some expiryTime \<Rightarrow> now env \<ge> expiryTime))
     \<or> (case md_ttlSeconds m of None \<Rightarrow> False | Some ttl \<Rightarrow> now env \<ge> md_lastAccessedAt m + int ttl * 1000)"

definition fs_touchAccess :: "js_env \<Rightarrow> string \<Rightarrow> file_store \<Rightarrow> file_store" where
  "fs_touchAccess env p st =
     (case map_of (fl_db st) p of None \<Rightarrow> st | Some m \<Rightarrow> db_put p (m\<lparr>md_lastAccessedAt := now env\<rparr>) st)"

definition fs_settle :: "nat \<Rightarrow> wait_result \<Rightarrow> file_store \<Rightarrow> file_store" where
  "fs_settle i r st = (if map_of (fl_resolved st) i = None then st\<lparr>fl_resolved := fl_resolved st @ [(i, r)]\<rparr> else st)"

definition fs_unpend :: "pending_long_poll \<Rightarrow> file_store \<Rightarrow> file_store" where
  "fs_unpend q st = st\<lparr>fl_timers := filter (\<lambda>t. pl_id t \<noteq> pl_id q) (fl_timers st), fl_polls := remove1 q (fl_polls st)\<rparr>"

definition drop_edge :: "string \<Rightarrow> stream_metadata \<Rightarrow> file_store \<Rightarrow> bool \<times> file_store" where
  "drop_edge p m st =
     (let st1 = db_remove p st
      in if truthy (md_forkedFrom m) then
           (case map_of (fl_db st1) (the (md_forkedFrom m)) of
              None \<Rightarrow> (False, st1)
            | Some parent \<Rightarrow>
                (let rc = max 0 (md_refCount parent - 1)
                 in (rc = 0 \<and> md_softDeleted parent, db_put (the (md_forkedFrom m)) (parent\<lparr>md_refCount := rc\<rparr>) st1)))
         else (False, st1))"

text \<open>
  \<^verbatim>\<open>deleteWithCascade\<close> resolves the waiting readers before it removes the record, and the callback of a reader
  looks the stream up again: when it has expired, this deletes it once more, from within. Every such call has taken a
  reader out of the list, and a call for a source has removed a record, so that the number of readers and records
  bounds the depth. The definitions of the parts take the deletion as an argument.
\<close>

definition lookup_with :: "(string \<Rightarrow> file_store \<Rightarrow> file_store) \<Rightarrow> js_env \<Rightarrow> string \<Rightarrow> file_store \<Rightarrow> stream_metadata option \<times> file_store" where
  "lookup_with del env p st =
     (case map_of (fl_db st) p of
        None \<Rightarrow> (None, st)
      | Some m \<Rightarrow>
          if fs_isExpired env m then
            (if md_refCount m > 0 then
               (if md_softDeleted m then (Some m, st) else (let m' = m\<lparr>md_softDeleted := True\<rparr> in (Some m', db_put p m' st)))
             else (None, if md_softDeleted m then st else del p st))
          else (Some m, st))"

fun cancel_with :: "(string \<Rightarrow> file_store \<Rightarrow> file_store) \<Rightarrow> js_env \<Rightarrow> pending_long_poll list \<Rightarrow> file_store \<Rightarrow> file_store" where
  "cancel_with del env [] st = st"
| "cancel_with del env (q # qs) st =
     (case lookup_with del env (pl_path q) (fs_unpend q st) of
        (cur, st1) \<Rightarrow> cancel_with del env qs
          (fs_settle (pl_id q) \<lparr>wr_messages = [], wr_timedOut = False, wr_streamClosed = map_option md_closed cur\<rparr> st1))"

definition cancel_polls :: "(string \<Rightarrow> file_store \<Rightarrow> file_store) \<Rightarrow> js_env \<Rightarrow> string \<Rightarrow> file_store \<Rightarrow> file_store" where
  "cancel_polls del env p st =
     (let st1 = cancel_with del env (filter (\<lambda>q. pl_path q = p) (fl_polls st)) st
      in st1\<lparr>fl_polls := filter (\<lambda>q. pl_path q \<noteq> p) (fl_polls st1)\<rparr>)"

primrec fs_cascade :: "nat \<Rightarrow> js_env \<Rightarrow> string \<Rightarrow> file_store \<Rightarrow> file_store" where
  "fs_cascade 0 env = (\<lambda>p st. st)"
| "fs_cascade (Suc n) env = (\<lambda>p st.
     (case map_of (fl_db st) p of
        None \<Rightarrow> st
      | Some m \<Rightarrow>
          (case drop_edge p m (cancel_polls (fs_cascade n env) env p st) of
             (again, st1) \<Rightarrow> if again then fs_cascade n env (the (md_forkedFrom m)) st1 else st1)))"

abbreviation fs_depth :: "file_store \<Rightarrow> nat" where
  "fs_depth st \<equiv> length (fl_polls st) + length (fl_db st) + 1"

definition fs_deleteWithCascade :: "js_env \<Rightarrow> string \<Rightarrow> file_store \<Rightarrow> file_store" where
  "fs_deleteWithCascade env p st = fs_cascade (fs_depth st) env p st"

definition getMetaIfNotExpired :: "js_env \<Rightarrow> string \<Rightarrow> file_store \<Rightarrow> stream_metadata option \<times> file_store" where
  "getMetaIfNotExpired env p st = lookup_with (fs_deleteWithCascade env) env p st"

definition fs_cancelLongPollsForStream :: "js_env \<Rightarrow> string \<Rightarrow> file_store \<Rightarrow> file_store" where
  "fs_cancelLongPollsForStream env p st = cancel_polls (fs_deleteWithCascade env) env p st"

definition fs_delete :: "js_env \<Rightarrow> string \<Rightarrow> file_store \<Rightarrow> bool \<times> file_store" where
  "fs_delete env p st =
     (case map_of (fl_db st) p of
        None \<Rightarrow> (False, st)
      | Some m \<Rightarrow>
          if md_softDeleted m then (True, st)
          else if md_refCount m > 0 then (True, fs_cancelLongPollsForStream env p (db_put p (m\<lparr>md_softDeleted := True\<rparr>) st))
          else (True, fs_deleteWithCascade env p st))"

text \<open>The file of a deleted stream is removed some time later.\<close>

definition fs_unlink :: "string \<Rightarrow> file_store \<Rightarrow> file_store" where
  "fs_unlink dir st = st\<lparr>fl_files := AList.delete dir (fl_files st)\<rparr>"

definition fs_get :: "js_env \<Rightarrow> string \<Rightarrow> file_store \<Rightarrow> stream option \<times> file_store" where
  "fs_get env p st = (case getMetaIfNotExpired env p st of (m, st1) \<Rightarrow> (map_option streamMetaToStream m, st1))"

definition fs_has :: "js_env \<Rightarrow> string \<Rightarrow> file_store \<Rightarrow> bool \<times> file_store" where
  "fs_has env p st = (case getMetaIfNotExpired env p st of (m, st1) \<Rightarrow> (case m of None \<Rightarrow> False | Some x \<Rightarrow> \<not> md_softDeleted x, st1))"

definition fs_getCurrentOffset :: "js_env \<Rightarrow> string \<Rightarrow> file_store \<Rightarrow> string option \<times> file_store" where
  "fs_getCurrentOffset env p st = (case getMetaIfNotExpired env p st of (m, st1) \<Rightarrow> (map_option md_currentOffset m, st1))"

definition fs_getProducerEpoch :: "js_env \<Rightarrow> string \<Rightarrow> string \<Rightarrow> file_store \<Rightarrow> nat option \<times> file_store" where
  "fs_getProducerEpoch env p producerId st =
     (case getMetaIfNotExpired env p st of
        (m, st1) \<Rightarrow> (Option.bind m (\<lambda>x. map_option ps_epoch (map_of (md_producers x) producerId)), st1))"

definition fs_list :: "file_store \<Rightarrow> string list" where
  "fs_list st = sort (map fst (fl_db st))"

section \<open>Reading\<close>

text \<open>As in the store in memory, \<open>None\<close> is a walk along the sources that does not end.\<close>

partial_function (option) fs_readForkedMessages :: "file_store \<Rightarrow> string \<Rightarrow> nat option \<Rightarrow> nat option \<Rightarrow> stream_message list option"
where [code]:
  "fs_readForkedMessages st sourcePath startByte capByte =
     (case map_of (fl_db st) sourcePath of
        None \<Rightarrow> Some []
      | Some m \<Rightarrow>
          (let fork = truthy (md_forkedFrom m) \<and> truthy (md_forkOffset m);
               sourceForkByte = byte_of (the (md_forkOffset m));
               base = (if truthy (md_forkOffset m) then sourceForkByte else Some 0)
           in Option.bind
                (if fork \<and> num_less startByte sourceForkByte
                 then fs_readForkedMessages st (the (md_forkedFrom m)) startByte (num_min sourceForkByte capByte)
                 else Some [])
                (\<lambda>inherited. Some (inherited @ readMessagesFromSegmentFile (segment (md_directoryName m) st) startByte base (Some capByte)))))"

definition fs_read_messages :: "file_store \<Rightarrow> stream_metadata \<Rightarrow> string option \<Rightarrow> read_result outcome" where
  "fs_read_messages st m offset =
     (let startByte = byte_of (case offset of Some x \<Rightarrow> x | None \<Rightarrow> ZERO_OFFSET); currentByte = byte_of (md_currentOffset m);
          own = (\<lambda>base. readMessagesFromSegmentFile (segment (md_directoryName m) st) startByte base None);
          forkByte = byte_of (the (md_forkOffset m))
      in if md_currentOffset m = ZERO_OFFSET then Inr \<lparr>rr_messages = [], rr_upToDate = True\<rparr>
         else if num_less startByte currentByte \<or> startByte = None \<or> currentByte = None then
           (if truthy (md_forkedFrom m) \<and> truthy (md_forkOffset m) then
              chain_result
                (if num_less startByte forkByte then fs_readForkedMessages st (the (md_forkedFrom m)) startByte forkByte else Some [])
                (\<lambda>inherited. \<lparr>rr_messages = inherited @ own forkByte, rr_upToDate = True\<rparr>)
            else Inr \<lparr>rr_messages = own (Some 0), rr_upToDate = True\<rparr>)
         else Inr \<lparr>rr_messages = [], rr_upToDate = True\<rparr>)"

definition fs_read :: "js_env \<Rightarrow> string \<Rightarrow> string option \<Rightarrow> file_store \<Rightarrow> read_result outcome \<times> file_store" where
  "fs_read env p offset st =
     (case getMetaIfNotExpired env p st of
        (None, st1) \<Rightarrow> (Inl (Stream_not_found p), st1)
      | (Some m, st1) \<Rightarrow> (fs_read_messages st1 m offset, st1))"

definition fs_formatResponse :: "js_env \<Rightarrow> string \<Rightarrow> stream_message list \<Rightarrow> file_store \<Rightarrow> bytes outcome \<times> file_store" where
  "fs_formatResponse env p ms st =
     (case getMetaIfNotExpired env p st of
        (None, st1) \<Rightarrow> (Inl (Stream_not_found p), st1)
      | (Some m, st1) \<Rightarrow>
          (if normalizeContentType (md_contentType m) = ''application/json'' then formatJsonMessages (num_canon env) ms
           else Inr (concat (map m_data ms)), st1))"

section \<open>Waiting\<close>

definition fs_waitForMessages :: "js_env \<Rightarrow> string \<Rightarrow> string \<Rightarrow> file_store \<Rightarrow> wait_outcome outcome \<times> file_store" where
  "fs_waitForMessages env p offset st =
     (case getMetaIfNotExpired env p st of
        (None, st1) \<Rightarrow> (Inl (Stream_not_found p), st1)
      | (Some m, st1) \<Rightarrow>
          (let answer = (\<lambda>r. case r of
                 (Inl e, st2) \<Rightarrow> (Inl e, st2)
               | (Inr (ms, c), st2) \<Rightarrow> (Inr (Immediate \<lparr>wr_messages = ms, wr_timedOut = False, wr_streamClosed = c\<rparr>), st2))
           in if truthy (md_forkedFrom m) \<and> truthy (md_forkOffset m) \<and> offset < the (md_forkOffset m) then
                answer (case fs_read env p (Some offset) st1 of (Inl e, st2) \<Rightarrow> (Inl e, st2) | (Inr r, st2) \<Rightarrow> (Inr (rr_messages r, None), st2))
              else if md_closed m \<and> offset = md_currentOffset m then answer (Inr ([], Some True), st1)
              else (case fs_read env p (Some offset) st1 of
                      (Inl e, st2) \<Rightarrow> (Inl e, st2)
                    | (Inr r, st2) \<Rightarrow>
                        if rr_messages r \<noteq> [] then answer (Inr (rr_messages r, Some (md_closed m)), st2)
                        else if md_closed m then answer (Inr ([], Some True), st2)
                        else (let pending = \<lparr>pl_id = fl_next st2, pl_path = p, pl_offset = offset\<rparr>
                              in (Inr (Pending (fl_next st2)),
                                  st2\<lparr>fl_polls := fl_polls st2 @ [pending], fl_timers := fl_timers st2 @ [pending], fl_next := Suc (fl_next st2)\<rparr>)))))"

definition fs_poll_resolve :: "js_env \<Rightarrow> stream_message list \<Rightarrow> pending_long_poll \<Rightarrow> file_store \<Rightarrow> file_store" where
  "fs_poll_resolve env msgs q st =
     (case getMetaIfNotExpired env (pl_path q) (fs_unpend q st) of
        (cur, st1) \<Rightarrow> fs_settle (pl_id q) \<lparr>wr_messages = msgs, wr_timedOut = False, wr_streamClosed = map_option md_closed cur\<rparr> st1)"

definition fs_fire_timeout :: "js_env \<Rightarrow> pending_long_poll \<Rightarrow> file_store \<Rightarrow> file_store" where
  "fs_fire_timeout env q st =
     (if q \<in> set (fl_timers st) then
        (case getMetaIfNotExpired env (pl_path q) (fs_unpend q st) of
           (cur, st1) \<Rightarrow> fs_settle (pl_id q) \<lparr>wr_messages = [], wr_timedOut = True, wr_streamClosed = map_option md_closed cur\<rparr> st1)
      else st)"

fun fs_notify_loop :: "js_env \<Rightarrow> string \<Rightarrow> pending_long_poll list \<Rightarrow> file_store \<Rightarrow> unit outcome \<times> file_store" where
  "fs_notify_loop env p [] st = (Inr (), st)"
| "fs_notify_loop env p (q # qs) st =
     (case fs_read env p (Some (pl_offset q)) st of
        (Inl e, st1) \<Rightarrow> (Inl e, st1)
      | (Inr r, st1) \<Rightarrow> fs_notify_loop env p qs (if rr_messages r \<noteq> [] then fs_poll_resolve env (rr_messages r) q st1 else st1))"

definition fs_notifyLongPolls :: "js_env \<Rightarrow> string \<Rightarrow> file_store \<Rightarrow> unit outcome \<times> file_store" where
  "fs_notifyLongPolls env p st = fs_notify_loop env p (filter (\<lambda>q. pl_path q = p) (fl_polls st)) st"

definition fs_notifyLongPollsClosed :: "js_env \<Rightarrow> string \<Rightarrow> file_store \<Rightarrow> file_store" where
  "fs_notifyLongPollsClosed env p st = fold (fs_poll_resolve env []) (filter (\<lambda>q. pl_path q = p) (fl_polls st)) st"

text \<open>The loop of \<^verbatim>\<open>cancelAllWaits\<close> and \<^verbatim>\<open>clear\<close> goes over the array from which each resolved reader is spliced out,
  until an expiry within puts another array in its place.\<close>

definition fs_expires_fully :: "js_env \<Rightarrow> string \<Rightarrow> file_store \<Rightarrow> bool" where
  "fs_expires_fully env p st \<longleftrightarrow> (case map_of (fl_db st) p of
      None \<Rightarrow> False
    | Some m \<Rightarrow> fs_isExpired env m \<and> \<not> md_refCount m > 0 \<and> \<not> md_softDeleted m)"

function fs_cancel_loop :: "js_env \<Rightarrow> nat \<Rightarrow> pending_long_poll list \<Rightarrow> bool \<Rightarrow> file_store \<Rightarrow> file_store" where
  "fs_cancel_loop env i arr same st =
     (if i < length arr then
        (let q = arr ! i
         in fs_cancel_loop env (Suc i) (if same then remove1 q arr else arr)
              (same \<and> \<not> fs_expires_fully env (pl_path q) st) (fs_poll_resolve env [] q st))
      else st)"
  by pat_completeness auto
termination
  by (relation "measure (\<lambda>(env, i, arr, same, st). length arr - i)") (auto simp: length_remove1)

declare fs_cancel_loop.simps [simp del]

definition fs_cancelAllWaits :: "js_env \<Rightarrow> file_store \<Rightarrow> file_store" where
  "fs_cancelAllWaits env st = (fs_cancel_loop env 0 (fl_polls st) True st)\<lparr>fl_polls := []\<rparr>"

definition fs_clear :: "js_env \<Rightarrow> file_store \<Rightarrow> file_store" where
  "fs_clear env st = (fs_cancel_loop env 0 (fl_polls st) True st)\<lparr>fl_polls := [], fl_db := []\<rparr>"

section \<open>Append\<close>

definition fs_validateProducer :: "js_env \<Rightarrow> stream_metadata \<Rightarrow> string \<Rightarrow> nat \<Rightarrow> nat \<Rightarrow> producer_validation_result" where
  "fs_validateProducer env m producerId ep sq = producer_decision (now env) (map_of (md_producers m) producerId) producerId ep sq"

definition fs_is_closing_duplicate :: "stream_metadata \<Rightarrow> append_options \<Rightarrow> bool" where
  "fs_is_closing_duplicate m opts \<longleftrightarrow>
     truthy (ao_producerId opts) \<and>
     (case md_closedBy m of
        None \<Rightarrow> False
      | Some c \<Rightarrow> Some (cb_producerId c) = ao_producerId opts \<and> cb_epoch c = ao_producerEpoch opts \<and> cb_seq c = ao_producerSeq opts)"

definition fs_append_check :: "js_env \<Rightarrow> string \<Rightarrow> append_options \<Rightarrow> stream_metadata \<Rightarrow> append_verdict" where
  "fs_append_check env p opts m =
     (if md_softDeleted m then Reject (Stream_soft_deleted p)
      else if md_closed m then
        Early \<lparr>ar_message = None, ar_producerResult = (if fs_is_closing_duplicate m opts then Some (Duplicate (ao_producerSeq opts)) else None),
               ar_streamClosed = True\<rparr>
      else if truthy (ao_contentType opts) \<and> truthy (md_contentType m)
              \<and> normalizeContentType (ao_contentType opts) \<noteq> normalizeContentType (md_contentType m)
      then Reject (Content_type_mismatch (the (md_contentType m)) (the (ao_contentType opts)))
      else
        (let seq_checked = (\<lambda>r. case (ao_seq opts, md_lastSeq m) of
               (Some sq, Some l) \<Rightarrow> if sq \<le> l then Reject (Sequence_conflict sq l) else Proceed r
             | _ \<Rightarrow> Proceed r)
         in case producer_headers opts of
              None \<Rightarrow> seq_checked None
            | Some (i, ep, sq) \<Rightarrow>
                (let r = fs_validateProducer env m i ep sq
                 in if \<not> is_accepted r then Early \<lparr>ar_message = None, ar_producerResult = Some r, ar_streamClosed = False\<rparr>
                    else seq_checked (Some r))))"

text \<open>An append that waits for its write: the metadata it read, the payload and the new offset.\<close>

record append_task =
  tk_path :: string
  tk_meta :: stream_metadata
  tk_opts :: append_options
  tk_producer :: "producer_validation_result option"
  tk_data :: bytes
  tk_offset :: string

definition fs_append_begin ::
  "js_env \<Rightarrow> string \<Rightarrow> bytes \<Rightarrow> append_options \<Rightarrow> bool \<Rightarrow> file_store \<Rightarrow> (append_return outcome + append_task) \<times> file_store" where
  "fs_append_begin env p data opts isInitialCreate st =
     (case getMetaIfNotExpired env p st of
        (None, st1) \<Rightarrow> (Inl (Inl (Stream_not_found p)), st1)
      | (Some m, st1) \<Rightarrow>
          (case fs_append_check env p opts m of
             Reject e \<Rightarrow> (Inl (Inl e), st1)
           | Early r \<Rightarrow> (Inl (Inr (Result r)), st1)
           | Proceed producerResult \<Rightarrow>
               (let isJSON = (normalizeContentType (md_contentType m) = ''application/json'')
                in case (if isJSON then processJsonAppend (num_canon env) data isInitialCreate else Inr data) of
                     Inl e \<Rightarrow> (Inl (Inl e), st1)
                   | Inr processedData \<Rightarrow>
                       if isJSON \<and> processedData = [] then (Inl (Inr (Message None)), st1)
                       else (Inr \<lparr>tk_path = p, tk_meta = m, tk_opts = opts, tk_producer = producerResult, tk_data = processedData,
                                  tk_offset = advance_offset (md_currentOffset m) (length processedData)\<rparr>, st1))))"

definition append_bytes :: "string \<Rightarrow> bytes \<Rightarrow> file_store \<Rightarrow> file_store" where
  "append_bytes dir bs st = st\<lparr>fl_files := AList.update dir (segment dir st @ bs) (fl_files st)\<rparr>"

definition write_frame :: "append_task \<Rightarrow> file_store \<Rightarrow> file_store" where
  "write_frame tk st = append_bytes (md_directoryName (tk_meta tk)) (frame (tk_data tk)) st"

text \<open>The record that is put after the synchronisation, made from the one read at the start.\<close>

definition task_meta :: "append_task \<Rightarrow> stream_metadata" where
  "task_meta tk =
     (let m = tk_meta tk; opts = tk_opts tk
      in m\<lparr>md_currentOffset := tk_offset tk,
           md_lastSeq := (case ao_seq opts of Some sq \<Rightarrow> Some sq | None \<Rightarrow> md_lastSeq m),
           md_totalBytes := md_totalBytes m + length (tk_data tk) + 5,
           md_producers := (case tk_producer tk of Some (Accepted _ proposed i) \<Rightarrow> AList.update i proposed (md_producers m) | _ \<Rightarrow> md_producers m),
           md_closed := (if ao_close opts then True else md_closed m),
           md_closedBy := (if ao_close opts \<and> truthy (ao_producerId opts)
             then Some \<lparr>cb_producerId = the (ao_producerId opts), cb_epoch = ao_producerEpoch opts, cb_seq = ao_producerSeq opts\<rparr>
             else md_closedBy m)\<rparr>)"

definition append_put :: "js_env \<Rightarrow> append_task \<Rightarrow> file_store \<Rightarrow> append_return outcome \<times> file_store" where
  "append_put env tk st =
     (let p = tk_path tk; opts = tk_opts tk;
          message = \<lparr>m_data = tk_data tk, m_offset = tk_offset tk, m_timestamp = now env\<rparr>
      in case fs_notifyLongPolls env p (db_put p (task_meta tk) st) of
           (Inl e, st1) \<Rightarrow> (Inl e, st1)
         | (Inr _, st1) \<Rightarrow>
             (Inr (if tk_producer tk \<noteq> None \<or> ao_close opts
                   then Result \<lparr>ar_message = Some message, ar_producerResult = tk_producer tk, ar_streamClosed = ao_close opts\<rparr>
                   else Message (Some message)),
              if ao_close opts then fs_notifyLongPollsClosed env p st1 else st1))"

definition fs_append_run ::
  "js_env \<Rightarrow> string \<Rightarrow> bytes \<Rightarrow> append_options \<Rightarrow> bool \<Rightarrow> file_store \<Rightarrow> append_return outcome \<times> file_store" where
  "fs_append_run env p data opts isInitialCreate st =
     (case fs_append_begin env p data opts isInitialCreate st of
        (Inl r, st1) \<Rightarrow> (r, st1) | (Inr tk, st1) \<Rightarrow> append_put env tk (write_frame tk st1))"

definition fs_append :: "js_env \<Rightarrow> string \<Rightarrow> bytes \<Rightarrow> append_options \<Rightarrow> file_store \<Rightarrow> append_return outcome \<times> file_store" where
  "fs_append env p data opts st = fs_append_run env p data opts False st"

definition fs_appendWithProducer ::
  "js_env \<Rightarrow> string \<Rightarrow> bytes \<Rightarrow> append_options \<Rightarrow> file_store \<Rightarrow> append_result outcome \<times> file_store" where
  "fs_appendWithProducer env p data opts st =
     (case fs_append env p data opts st of
        (Inl e, st1) \<Rightarrow> (Inl e, st1)
      | (Inr (Result r), st1) \<Rightarrow> (Inr r, st1)
      | (Inr (Message m), st1) \<Rightarrow> (Inr \<lparr>ar_message = m, ar_producerResult = None, ar_streamClosed = False\<rparr>, st1))"

section \<open>Close\<close>

definition fs_closeStream :: "js_env \<Rightarrow> string \<Rightarrow> file_store \<Rightarrow> close_result option \<times> file_store" where
  "fs_closeStream env p st =
     (case getMetaIfNotExpired env p st of
        (None, st1) \<Rightarrow> (None, st1)
      | (Some m, st1) \<Rightarrow>
          (Some \<lparr>cr_finalOffset = md_currentOffset m, cr_alreadyClosed = md_closed m, cr_producerResult = None\<rparr>,
           fs_notifyLongPollsClosed env p (db_put p (m\<lparr>md_closed := True\<rparr>) st1)))"

definition fs_closeStreamWithProducer :: "js_env \<Rightarrow> string \<Rightarrow> string \<Rightarrow> nat \<Rightarrow> nat \<Rightarrow> file_store \<Rightarrow> close_result option \<times> file_store" where
  "fs_closeStreamWithProducer env p producerId producerEpoch producerSeq st =
     (case getMetaIfNotExpired env p st of
        (None, st1) \<Rightarrow> (None, st1)
      | (Some m, st1) \<Rightarrow>
          (let cb = \<lparr>cb_producerId = producerId, cb_epoch = Some producerEpoch, cb_seq = Some producerSeq\<rparr>;
               answer = (\<lambda>c r. Some \<lparr>cr_finalOffset = md_currentOffset m, cr_alreadyClosed = c, cr_producerResult = Some r\<rparr>)
           in if md_closed m then
                (answer True (if md_closedBy m = Some cb then Duplicate (Some producerSeq) else StreamClosed), st1)
              else (case fs_validateProducer env m producerId producerEpoch producerSeq of
                      Accepted isNew proposed i \<Rightarrow>
                        (answer False (Accepted isNew proposed i),
                         fs_notifyLongPollsClosed env p
                           (db_put p (m\<lparr>md_closed := True, md_closedBy := Some cb, md_producers := AList.update i proposed (md_producers m)\<rparr>) st1))
                    | r \<Rightarrow> (answer (md_closed m) r, st1))))"

section \<open>Create\<close>

definition fs_config_matches :: "create_options \<Rightarrow> stream_metadata \<Rightarrow> bool" where
  "fs_config_matches opts m \<longleftrightarrow>
     (let normalizeMimeType = (\<lambda>ct. toLowerCase (case ct of Some c \<Rightarrow> c | None \<Rightarrow> ''application/octet-stream''))
      in normalizeMimeType (co_contentType opts) = normalizeMimeType (md_contentType m)
         \<and> co_ttlSeconds opts = md_ttlSeconds m
         \<and> co_expiresAt opts = md_expiresAt m
         \<and> (co_closed opts = Some True) = md_closed m
         \<and> co_forkedFrom opts = md_forkedFrom m
         \<and> (co_forkOffset opts = None \<or> co_forkOffset opts = md_forkOffset m)
         \<and> or_zero (co_forkSubOffset opts) = or_zero (md_forkSubOffset m))"

definition fs_resolveForkSubOffset :: "js_env \<Rightarrow> file_store \<Rightarrow> string \<Rightarrow> string \<Rightarrow> nat \<Rightarrow> bool \<Rightarrow> bytes outcome" where
  "fs_resolveForkSubOffset env st sourcePath forkOff subOffset isJSON =
     (case map_of (fl_db st) sourcePath of
        None \<Rightarrow> Inl (Source_not_found sourcePath)
      | Some source \<Rightarrow>
          (case fs_readForkedMessages st sourcePath (byte_of forkOff) (byte_of (md_currentOffset source)) of
             None \<Rightarrow> Inl Stack_overflow
           | Some [] \<Rightarrow> Inl Sub_offset_no_data
           | Some (first # _) \<Rightarrow>
               if isJSON then
                 (case json_parse (num_canon env) ([91] @ strip_comma (text_decode (m_data first)) @ [93]) of
                    Some (JArr vals) \<Rightarrow>
                      if subOffset > length vals then Inl Sub_offset_count
                      else Inr (text_encode (join_comma (map stringify (take subOffset vals)) @ [44]))
                  | _ \<Rightarrow> Inl Sub_offset_unparseable)
               else if subOffset > length (m_data first) then Inl Sub_offset_length
               else Inr (take subOffset (m_data first))))"

definition fs_resolve_fork ::
  "js_env \<Rightarrow> create_options \<Rightarrow> file_store \<Rightarrow> (stream_metadata \<times> string \<times> bytes option) outcome" where
  "fs_resolve_fork env opts st =
     (let q = the (co_forkedFrom opts)
      in case map_of (fl_db st) q of
           None \<Rightarrow> Inl (Source_not_found q)
         | Some source \<Rightarrow>
             if md_softDeleted source then Inl (Source_soft_deleted q)
             else if fs_isExpired env source then Inl (Source_not_found q)
             else if truthy (co_contentType opts) \<and> trim (the (co_contentType opts)) \<noteq> []
                     \<and> normalizeContentType (co_contentType opts) \<noteq> normalizeContentType (md_contentType source)
             then Inl Fork_content_type_mismatch
             else
               (let forkOff = (if truthy (co_forkOffset opts) then the (co_forkOffset opts) else md_currentOffset source)
                in if forkOff < ZERO_OFFSET \<or> md_currentOffset source < forkOff then Inl (Invalid_fork_offset forkOff)
                   else if or_zero (co_forkSubOffset opts) > 0 then
                     (case fs_resolveForkSubOffset env st q forkOff (or_zero (co_forkSubOffset opts))
                             (normalizeContentType (md_contentType source) = ''application/json'') of
                        Inl e \<Rightarrow> Inl e
                      | Inr prefix \<Rightarrow> Inr (source, forkOff, Some prefix))
                   else Inr (source, forkOff, None)))"

definition fs_new_meta ::
  "js_env \<Rightarrow> string \<Rightarrow> string \<Rightarrow> create_options \<Rightarrow> (stream_metadata \<times> string \<times> bytes option) option \<Rightarrow> stream_metadata" where
  "fs_new_meta env dir p opts fork =
     (let ct = (if \<not> truthy (co_contentType opts) \<or> trim (the (co_contentType opts)) = []
                then (case fork of Some (source, _) \<Rightarrow> md_contentType source | None \<Rightarrow> co_contentType opts)
                else co_contentType opts);
          (ttl, expires) = (case fork of
              Some (source, _) \<Rightarrow> resolveForkExpiry opts (streamMetaToStream source)
            | None \<Rightarrow> (co_ttlSeconds opts, co_expiresAt opts));
          m = \<lparr>md_path = p, md_contentType = ct,
               md_currentOffset = (case fork of Some (_, forkOff, _) \<Rightarrow> forkOff | None \<Rightarrow> ZERO_OFFSET),
               md_lastSeq = None, md_ttlSeconds = ttl, md_expiresAt = expires, md_createdAt = now env, md_lastAccessedAt = now env,
               md_totalBytes = 0, md_directoryName = dir, md_producers = [], md_closed = False, md_closedBy = None,
               md_forkedFrom = (if fork = None then None else co_forkedFrom opts),
               md_forkOffset = map_option (\<lambda>(_, forkOff, _). forkOff) fork, md_forkSubOffset = None,
               md_refCount = 0, md_softDeleted = False\<rparr>
      in case fork of
           Some (_, _, Some prefix) \<Rightarrow>
             if prefix = [] then m
             else m\<lparr>md_currentOffset := advance_offset (md_currentOffset m) (length prefix), md_forkSubOffset := co_forkSubOffset opts\<rparr>
         | _ \<Rightarrow> m)"

definition fs_add_ref :: "string option \<Rightarrow> int \<Rightarrow> file_store \<Rightarrow> file_store" where
  "fs_add_ref src d st =
     (case src of
        None \<Rightarrow> st
      | Some q \<Rightarrow>
          (case map_of (fl_db st) q of
             None \<Rightarrow> st
           | Some m \<Rightarrow> db_put q (m\<lparr>md_refCount := (if d < 0 then max 0 (md_refCount m + d) else md_refCount m + d)\<rparr>) st))"

text \<open>The synchronous part of \<^verbatim>\<open>createInner\<close> once the path is free, up to the opening of the file: the frame of the prefix is
  written and synchronised, then record and reference are put in one transaction. No other event lies between the
  check of the source and the transaction.\<close>

definition fs_create_begin :: "js_env \<Rightarrow> string \<Rightarrow> string \<Rightarrow> create_options \<Rightarrow> file_store \<Rightarrow> stream_metadata outcome \<times> file_store" where
  "fs_create_begin env dir p opts st =
     (let isFork = truthy (co_forkedFrom opts)
      in case (if isFork then (case fs_resolve_fork env opts st of Inl e \<Rightarrow> Inl e | Inr f \<Rightarrow> Inr (Some f)) else Inr None) of
           Inl e \<Rightarrow> (Inl e, st)
         | Inr fork \<Rightarrow>
             (let m = fs_new_meta env dir p opts fork;
                  st1 = (case fork of
                      Some (_, _, Some prefix) \<Rightarrow> if prefix = [] then st else append_bytes dir (frame prefix) st
                    | _ \<Rightarrow> st);
                  st2 = fs_add_ref (if isFork then co_forkedFrom opts else None) 1 st1
              in (Inr m, db_put p m st2)))"

definition open_file :: "string \<Rightarrow> file_store \<Rightarrow> file_store" where
  "open_file dir st = append_bytes dir [] st"

definition rollbackCreatedStream :: "string \<Rightarrow> stream_metadata \<Rightarrow> file_store \<Rightarrow> file_store" where
  "rollbackCreatedStream p m st = fs_add_ref (if truthy (md_forkedFrom m) then md_forkedFrom m else None) (-1) (db_remove p st)"

text \<open>The rest: the file is opened, the initial data appended, the stream closed when asked for.\<close>

definition fs_create_finish :: "js_env \<Rightarrow> string \<Rightarrow> create_options \<Rightarrow> stream_metadata \<Rightarrow> file_store \<Rightarrow> stream outcome \<times> file_store" where
  "fs_create_finish env p opts m st =
     (let st1 = open_file (md_directoryName m) st;
          aopts = \<lparr>ao_seq = None, ao_contentType = co_contentType opts, ao_producerId = None, ao_producerEpoch = None,
                   ao_producerSeq = None, ao_close = False\<rparr>
      in case (if co_initialData opts = None \<or> co_initialData opts = Some [] then (Inr (Message None), st1)
               else fs_append_run env p (the (co_initialData opts)) aopts True st1) of
           (Inl e, st2) \<Rightarrow> (Inl e, fs_unlink (md_directoryName m) (rollbackCreatedStream p m st2))
         | (Inr _, st2) \<Rightarrow>
             (case map_of (fl_db st2) p of
                None \<Rightarrow> (Inl (Stream_not_found p), st2)
              | Some m1 \<Rightarrow>
                  (let m2 = (if co_closed opts = Some True then m1\<lparr>md_closed := True\<rparr> else m1)
                   in (Inr (streamMetaToStream m2), if co_closed opts = Some True then db_put p m2 st2 else st2))))"

definition fs_create :: "js_env \<Rightarrow> string \<Rightarrow> string \<Rightarrow> create_options \<Rightarrow> file_store \<Rightarrow> stream outcome \<times> file_store" where
  "fs_create env dir p opts st =
     (let fresh = (\<lambda>st1. case fs_create_begin env dir p opts st1 of
                           (Inl e, st2) \<Rightarrow> (Inl e, st2) | (Inr m, st2) \<Rightarrow> fs_create_finish env p opts m st2)
      in case map_of (fl_db st) p of
           None \<Rightarrow> fresh st
         | Some existingRaw \<Rightarrow>
             if fs_isExpired env existingRaw then fresh (snd (fs_delete env p st))
             else if md_softDeleted existingRaw then (Inl (Active_forks p), st)
             else if fs_config_matches opts existingRaw then (Inr (streamMetaToStream existingRaw), st)
             else (Inl (Config_mismatch p), st))"

section \<open>Recovery\<close>

text \<open>\<^verbatim>\<open>recover\<close>: records without a file are removed, offsets are made those of the complete frames, reference counts are
  counted anew, and soft-deleted streams that nothing refers to are deleted.\<close>

definition true_offset :: "stream_metadata \<Rightarrow> bytes \<Rightarrow> string" where
  "true_offset m content =
     (if truthy (md_forkOffset m)
      then format_offset (Some 0) (map_option (\<lambda>b. b + scan_frames content) (byte_of (the (md_forkOffset m))))
      else scanFileForTrueOffset content)"

fun reconcile_offsets :: "(string, bytes) jsmap \<Rightarrow> (string, stream_metadata) jsmap \<Rightarrow> (string, stream_metadata) jsmap" where
  "reconcile_offsets files [] = []"
| "reconcile_offsets files ((p, m) # db) =
     (case map_of files (md_directoryName m) of
        None \<Rightarrow> reconcile_offsets files db
      | Some content \<Rightarrow> (p, m\<lparr>md_currentOffset := true_offset m content\<rparr>) # reconcile_offsets files db)"

definition expected_refs :: "(string, stream_metadata) jsmap \<Rightarrow> string \<Rightarrow> int" where
  "expected_refs db p = int (length (filter (\<lambda>(_, m). truthy (md_forkedFrom m) \<and> md_forkedFrom m = Some p) db))"

definition reconcile_refs :: "(string, stream_metadata) jsmap \<Rightarrow> (string, stream_metadata) jsmap" where
  "reconcile_refs db = map (\<lambda>(p, m). (p, m\<lparr>md_refCount := expected_refs db p\<rparr>)) db"

definition collectible :: "(string, stream_metadata) jsmap \<Rightarrow> string list" where
  "collectible db = sort (map fst (filter (\<lambda>(p, m). md_softDeleted m \<and> expected_refs db p = 0) db))"

definition recover :: "js_env \<Rightarrow> file_store \<Rightarrow> file_store" where
  "recover env st =
     (let db1 = reconcile_offsets (fl_files st) (fl_db st)
      in fold (fs_deleteWithCascade env) (collectible db1) (st\<lparr>fl_db := reconcile_refs db1\<rparr>))"

text \<open>A crash ends the process: waiting readers and timers go. What a file has lost is an argument.\<close>

definition crash :: "(string, bytes) jsmap \<Rightarrow> file_store \<Rightarrow> file_store" where
  "crash files st = \<lparr>fl_db = fl_db st, fl_files = files, fl_polls = [], fl_timers = [], fl_resolved = [], fl_next = 0\<rparr>"

end
