(* ===== verification/File_Recovery.thy ===== *)
theory File_Recovery
  imports File_Store
begin

text \<open>
  What the file-backed store keeps through a crash. The bytes of a segment are the frames of its messages
  (\<open>frames\<close>); the scan and the reader take them apart again, also with a torn frame at the end. Recovery after a crash in the
  middle of an append leaves every live stream with all its messages.
\<close>

section \<open>Frames\<close>

lemma length_be32 [simp]: "length (be32 n) = 4"
  by (simp add: be32_def)

lemma read_be32 [simp]:
  assumes "n < 2 ^ 32"
  shows "readUInt32BE (be32 n @ xs) = n"
proof -
  have "n div 16777216 mod 256 = n div 16777216" using assms by simp
  moreover have "((n div 16777216 * 256 + n div 65536 mod 256) * 256 + n div 256 mod 256) * 256 + n mod 256 = n"
  proof -
    have "n div 16777216 * 256 + n div 65536 mod 256 = n div 65536"
      using div_mult_mod_eq[of "n div 65536" 256] by (simp add: div_mult2_eq[symmetric])
    moreover have "n div 65536 * 256 + n div 256 mod 256 = n div 256"
      using div_mult_mod_eq[of "n div 256" 256] by (simp add: div_mult2_eq[symmetric])
    ultimately show ?thesis by simp
  qed
  ultimately show ?thesis by (simp add: readUInt32BE_def be32_def)
qed

lemma read_be32_nil [simp]: "n < 2 ^ 32 \<Longrightarrow> readUInt32BE (be32 n) = n"
  using read_be32[of n "[]"] by simp

lemma length_frame [simp]: "length (frame d) = length d + 5"
  by (simp add: frame_def)

abbreviation fits32 :: "bytes \<Rightarrow> bool" where
  "fits32 d \<equiv> length d < 2 ^ 32"

lemma read_frame: "fits32 d \<Longrightarrow> readUInt32BE (frame d @ rest) = length d"
  by (simp add: frame_def)

definition frames :: "bytes list \<Rightarrow> bytes" where
  "frames ds = concat (map frame ds)"

lemma frames_simps [simp]: "frames [] = []" "frames (d # ds) = frame d @ frames ds" "frames (ds @ es) = frames ds @ frames es"
  by (simp_all add: frames_def)

lemma read_torn:
  assumes "fits32 d" "4 \<le> k"
  shows "readUInt32BE (take k (frame d)) = length d"
proof -
  have "take k (frame d) = be32 (length d) @ take (k - 4) (d @ [CHR 0x0A])" using assms by (simp add: frame_def)
  then show ?thesis using assms by simp
qed

lemma scan_frame: "fits32 d \<Longrightarrow> scan_frames (frame d @ rest) = length (frame d) + scan_frames rest"
  by (subst scan_frames.simps) (simp add: read_frame Let_def)

lemma scan_torn: "fits32 d \<Longrightarrow> k < length (frame d) \<Longrightarrow> scan_frames (take k (frame d)) = 0"
  by (subst scan_frames.simps) (auto simp: read_torn Let_def)

lemma scan_nil [simp]: "scan_frames [] = 0"
  by (simp add: scan_frames.simps)

lemma scan_all:
  assumes "\<forall>x\<in>set ds. fits32 x" "fits32 d" "k \<le> length (frame d)"
  shows "scan_frames (frames ds @ take k (frame d)) = length (frames ds) + (if k = length (frame d) then k else 0)"
  using assms
proof (induction ds)
  case Nil
  then show ?case using scan_frame[of d "[]"] scan_torn[of d k] by (cases "k = length (frame d)") auto
qed (simp add: scan_frame)

text \<open>The messages of a segment whose first frame starts at a position.\<close>

fun seg_messages :: "nat \<Rightarrow> bytes list \<Rightarrow> stream_message list" where
  "seg_messages pos [] = []"
| "seg_messages pos (d # ds) =
     \<lparr>m_data = d, m_offset = off (pos + length (frame d)), m_timestamp = 0\<rparr> # seg_messages (pos + length (frame d)) ds"

lemma seg_messages_append: "seg_messages pos (ds @ es) = seg_messages pos ds @ seg_messages (pos + length (frames ds)) es"
  by (induction ds arbitrary: pos) (simp_all add: add.assoc)

definition after_byte :: "nat \<Rightarrow> stream_message list \<Rightarrow> stream_message list" where
  "after_byte s = filter (\<lambda>m. s < off_val (m_offset m))"

lemma after_byte_simps [simp]: "after_byte s [] = []" "after_byte s (m # ms) = (if s < off_val (m_offset m) then m # after_byte s ms else after_byte s ms)"
  "after_byte s (ms @ ms') = after_byte s ms @ after_byte s ms'"
  by (simp_all add: after_byte_def)

lemma num_less_Some [simp]: "num_less (Some a) (Some b) \<longleftrightarrow> a < b"
  by (simp add: num_less_def)

lemma segment_step:
  assumes "readUInt32BE rest = length d" "4 + length d \<le> length rest" "take (length d) (drop 4 rest) = d"
  shows "readMessagesFromSegmentFile rest (Some s) (Some pos) None = after_byte s (seg_messages pos [d])
    @ readMessagesFromSegmentFile (drop (4 + length d + 1) rest) (Some s) (Some (pos + length (frame d))) None"
  using assms by (subst readMessagesFromSegmentFile.simps) (simp add: Let_def off_def[symmetric] add.assoc)

lemma segment_short: "length rest < 4 \<or> length rest < 4 + readUInt32BE rest \<Longrightarrow> readMessagesFromSegmentFile rest s pos cap = []"
  by (subst readMessagesFromSegmentFile.simps) (auto simp: Let_def)

lemma segment_frame:
  assumes "fits32 d"
  shows "readMessagesFromSegmentFile (frame d @ rest) (Some s) (Some pos) None
    = after_byte s (seg_messages pos [d]) @ readMessagesFromSegmentFile rest (Some s) (Some (pos + length (frame d))) None"
proof -
  have t: "take (length d) (drop 4 (frame d @ rest)) = d" by (simp add: frame_def)
  have "drop (4 + length d + 1) (frame d @ rest) = rest" by simp
  then show ?thesis using segment_step[OF read_frame[OF assms] _ t, of s pos] by simp
qed

lemma segment_torn:
  assumes "fits32 d" "k \<le> length (frame d)"
  shows "readMessagesFromSegmentFile (take k (frame d)) (Some s) (Some pos) None
    = (if 4 + length d \<le> k then after_byte s (seg_messages pos [d]) else [])"
proof (cases "4 + length d \<le> k")
  case True
  have "take k (frame d) = be32 (length d) @ take (k - 4) (d @ [CHR 0x0A])" using True by (simp add: frame_def)
  then have t: "take (length d) (drop 4 (take k (frame d))) = d" using True by simp
  have "4 \<le> k" using True by simp
  then have r: "readUInt32BE (take k (frame d)) = length d" by (rule read_torn[OF assms(1)])
  have e: "drop (4 + length d + 1) (take k (frame d)) = []" using assms by simp
  have l: "4 + length d \<le> length (take k (frame d))" using True assms(2) by simp
  show ?thesis unfolding segment_step[OF r l t] e using True by (simp add: segment_short)
next
  case False
  have "length (take k (frame d)) < 4 \<or> length (take k (frame d)) < 4 + readUInt32BE (take k (frame d))"
    using False assms read_torn[of d k] by (cases "4 \<le> k") auto
  then show ?thesis using False by (simp only: segment_short if_False)
qed

lemma segment_all:
  assumes "\<forall>x\<in>set ds. fits32 x" "fits32 d" "k \<le> length (frame d)"
  shows "readMessagesFromSegmentFile (frames ds @ take k (frame d)) (Some s) (Some pos) None
    = after_byte s (seg_messages pos ds)
      @ (if 4 + length d \<le> k then after_byte s (seg_messages (pos + length (frames ds)) [d]) else [])"
  using assms
proof (induction ds arbitrary: pos)
  case Nil
  then show ?case by (simp add: segment_torn)
next
  case (Cons x ds)
  then show ?case by (simp add: segment_frame add.assoc del: seg_messages.simps(2)) (simp add: add.assoc)
qed

lemma segment_frames:
  assumes "\<forall>x\<in>set ds. fits32 x"
  shows "readMessagesFromSegmentFile (frames ds) (Some s) (Some pos) None = after_byte s (seg_messages pos ds)"
  using segment_all[OF assms, of "[]" 0 s pos] by simp

section \<open>Stores at rest\<close>

definition base_byte :: "stream_metadata \<Rightarrow> nat" where
  "base_byte m = (if truthy (md_forkOffset m) then off_val (the (md_forkOffset m)) else 0)"

text \<open>The record of a stream and its segment agree: the file has the frames of some payloads, and the tail is their end.\<close>

definition logged :: "file_store \<Rightarrow> stream_metadata \<Rightarrow> bytes list \<Rightarrow> bool" where
  "logged st m ds \<longleftrightarrow> map_of (fl_files st) (md_directoryName m) = Some (frames ds) \<and> (\<forall>d\<in>set ds. fits32 d)
     \<and> (truthy (md_forkOffset m) \<longrightarrow> (\<exists>n. md_forkOffset m = Some (off n)))
     \<and> (truthy (md_forkedFrom m) \<longleftrightarrow> truthy (md_forkOffset m))"

definition rests :: "file_store \<Rightarrow> stream_metadata \<Rightarrow> bytes list \<Rightarrow> bool" where
  "rests st m ds \<longleftrightarrow> logged st m ds \<and> md_currentOffset m = off (base_byte m + length (frames ds))"

definition at_rest :: "file_store \<Rightarrow> bool" where
  "at_rest st \<longleftrightarrow> distinct (map fst (fl_db st)) \<and> distinct (map (md_directoryName \<circ> snd) (fl_db st))
     \<and> (\<forall>(p, m)\<in>set (fl_db st). \<exists>ds. rests st m ds)"

text \<open>The messages a stream has in its own segment after a byte.\<close>

definition own_messages :: "file_store \<Rightarrow> stream_metadata \<Rightarrow> nat \<Rightarrow> stream_message list" where
  "own_messages st m s = readMessagesFromSegmentFile (segment (md_directoryName m) st) (Some s) (Some (base_byte m)) None"

lemma byte_of_off [simp]: "byte_of (off n) = Some n"
proof -
  have d: "list_all is_digit (padStart 16 CHR ''0'' (nat_string n))" "list_all is_digit (replicate 16 CHR ''0'')"
    by (rule list_all_digit_padStart, simp) (simp add: list_all_iff)
  have "split_on CHR ''_'' (off n) = [replicate 16 CHR ''0'', padStart 16 CHR ''0'' (nat_string n)]"
    using underscore_not_digit[OF d(1)] underscore_not_digit[OF d(2)] by (simp add: off_eq split_on_append split_on_none)
  then show ?thesis using d by (simp add: byte_of_def js_Number_def)
qed

lemma true_offset_rests:
  assumes "logged st m ds"
  shows "true_offset m content = off (base_byte m + scan_frames content)"
proof (cases "truthy (md_forkOffset m)")
  case True
  then obtain n where "md_forkOffset m = Some (off n)" using assms by (auto simp: rests_def logged_def)
  then show ?thesis using True by (simp add: true_offset_def base_byte_def off_def[symmetric])
next
  case False
  then show ?thesis by (simp add: true_offset_def base_byte_def scanFileForTrueOffset_def)
qed

lemma rests_own: "rests st m ds \<Longrightarrow> own_messages st m s = after_byte s (seg_messages (base_byte m) ds)"
  by (simp add: rests_def logged_def own_messages_def segment_def segment_frames)

section \<open>Recovery\<close>

lemma reconciled_entry:
  assumes "distinct (map fst db)" "map_of db p = Some m" "map_of files (md_directoryName m) = Some content"
  shows "map_of (reconcile_offsets files db) p = Some (m\<lparr>md_currentOffset := true_offset m content\<rparr>)"
proof -
  have none: "p \<notin> fst ` set db \<Longrightarrow> map_of (reconcile_offsets files db) p = None" for db
    by (induction files db rule: reconcile_offsets.induct) (auto split: option.splits)
  show ?thesis using assms
    by (induction files db rule: reconcile_offsets.induct) (auto split: option.splits if_splits simp: none)
qed

lemma reconciled_keys: "set (map fst (reconcile_offsets files db)) \<subseteq> set (map fst db)"
  "distinct (map fst db) \<Longrightarrow> distinct (map fst (reconcile_offsets files db))"
proof -
  have s: "set (map fst (reconcile_offsets files db)) \<subseteq> set (map fst db)" for files db
    by (induction files db rule: reconcile_offsets.induct) (auto split: option.splits)
  then show "set (map fst (reconcile_offsets files db)) \<subseteq> set (map fst db)" .
  show "distinct (map fst db) \<Longrightarrow> distinct (map fst (reconcile_offsets files db))"
  proof (induction files db rule: reconcile_offsets.induct)
    case (2 files p m db)
    then have "p \<notin> set (map fst (reconcile_offsets files db))" using s[of files db] by auto
    then show ?case using 2 by (auto split: option.splits)
  qed simp
qed

lemma refs_entry: "map_of (reconcile_refs db) p = map_option (\<lambda>m. m\<lparr>md_refCount := expected_refs db p\<rparr>) (map_of db p)"
proof -
  have "map_of (map (\<lambda>(p, m). (p, m\<lparr>md_refCount := f p\<rparr>)) d) p = map_option (\<lambda>m. m\<lparr>md_refCount := f p\<rparr>) (map_of d p)" for f d
    by (induction d) auto
  then show ?thesis by (simp add: reconcile_refs_def)
qed

text \<open>Up to the reference count.\<close>

definition but_refs :: "stream_metadata \<Rightarrow> stream_metadata \<Rightarrow> bool" where
  "but_refs m m' \<longleftrightarrow> m' = m\<lparr>md_refCount := md_refCount m'\<rparr>"

lemma but_refs_simps [simp]: "but_refs m m" "but_refs m (m\<lparr>md_refCount := r\<rparr>)"
  by (simp_all add: but_refs_def)

lemma but_refs_fields:
  "but_refs m m' \<Longrightarrow> md_softDeleted m' = md_softDeleted m \<and> md_directoryName m' = md_directoryName m \<and> md_currentOffset m' = md_currentOffset m
    \<and> md_forkOffset m' = md_forkOffset m \<and> md_forkedFrom m' = md_forkedFrom m"
  unfolding but_refs_def by (cases m; cases m') simp

lemma but_refs_trans: "but_refs m m1 \<Longrightarrow> but_refs m1 m2 \<Longrightarrow> but_refs m m2"
  unfolding but_refs_def by (cases m; cases m1; cases m2) simp

lemma cancel_no_polls [simp]: "fl_polls st = [] \<Longrightarrow> cancel_polls del env p st = st"
  by (simp add: cancel_polls_def)

lemma drop_edge_keeps:
  assumes "drop_edge p m0 st = (again, st1)" "map_of (fl_db st) q = Some m" "q \<noteq> p"
  shows "fl_files st1 = fl_files st \<and> fl_polls st1 = fl_polls st \<and> (\<exists>m'. map_of (fl_db st1) q = Some m' \<and> but_refs m m')
    \<and> (again \<longrightarrow> q = the (md_forkedFrom m0) \<longrightarrow> md_softDeleted m)"
  using assms by (auto simp: drop_edge_def Let_def db_remove_def db_put_def update_conv' delete_conv' split: if_splits option.splits)

lemma fs_cascade_keeps:
  assumes "fl_polls st = []" "map_of (fl_db st) q = Some m" "\<not> md_softDeleted m" "q \<noteq> p"
  shows "fl_files (fs_cascade n env p st) = fl_files st \<and> fl_polls (fs_cascade n env p st) = []
    \<and> (\<exists>m'. map_of (fl_db (fs_cascade n env p st)) q = Some m' \<and> but_refs m m')"
  using assms
proof (induction n arbitrary: p st m)
  case (Suc n)
  show ?case
  proof (cases "map_of (fl_db st) p")
    case None
    then show ?thesis using Suc.prems by (auto intro: exI[of _ m])
  next
    case (Some m0)
    obtain again st1 where d: "drop_edge p m0 st = (again, st1)" by fastforce
    from drop_edge_keeps[OF d Suc.prems(2,4)] obtain m1 where k: "fl_files st1 = fl_files st" "fl_polls st1 = []"
      "map_of (fl_db st1) q = Some m1" "but_refs m m1" "again \<longrightarrow> q = the (md_forkedFrom m0) \<longrightarrow> md_softDeleted m"
      using Suc.prems(1) by auto
    have s: "\<not> md_softDeleted m1" using but_refs_fields[OF k(4)] Suc.prems(3) by simp
    have t: "but_refs m1 m' \<Longrightarrow> but_refs m m'" for m' by (rule but_refs_trans[OF k(4)])
    show ?thesis
    proof (cases again)
      case True
      then have "q \<noteq> the (md_forkedFrom m0)" using k(5) Suc.prems(3) by auto
      from Suc.IH[OF k(2,3) s this] show ?thesis using Some d True k Suc.prems(1) t by auto
    next
      case False
      then show ?thesis using Some d k Suc.prems(1) by auto
    qed
  qed
qed auto

lemma collect_keeps:
  assumes "fl_polls st = []" "map_of (fl_db st) q = Some m" "\<not> md_softDeleted m" "q \<notin> set ps"
  shows "fl_files (fold (fs_deleteWithCascade env) ps st) = fl_files st
    \<and> (\<exists>m'. map_of (fl_db (fold (fs_deleteWithCascade env) ps st)) q = Some m' \<and> but_refs m m')"
  using assms
proof (induction ps arbitrary: st m)
  case (Cons p ps)
  have "q \<noteq> p" using Cons.prems(4) by auto
  from fs_cascade_keeps[OF Cons.prems(1,2,3) this, of "fs_depth st" env] obtain m1 where
    k: "fl_files (fs_deleteWithCascade env p st) = fl_files st" "fl_polls (fs_deleteWithCascade env p st) = []"
      "map_of (fl_db (fs_deleteWithCascade env p st)) q = Some m1" "but_refs m m1" by (auto simp: fs_deleteWithCascade_def)
  have s: "\<not> md_softDeleted m1" using but_refs_fields[OF k(4)] Cons.prems(3) by simp
  have "q \<notin> set ps" using Cons.prems(4) by simp
  from Cons.IH[OF k(2,3) s this] show ?case using k(1) but_refs_trans[OF k(4)] by auto
qed auto

text \<open>Recovery of a stream that is not deleted.\<close>

lemma recover_entry:
  assumes "distinct (map fst (fl_db st))" "map_of (fl_db st) q = Some m" "\<not> md_softDeleted m" "fl_polls st = []"
    and "map_of (fl_files st) (md_directoryName m) = Some content"
  shows "fl_files (recover env st) = fl_files st
    \<and> (\<exists>m'. map_of (fl_db (recover env st)) q = Some m' \<and> but_refs (m\<lparr>md_currentOffset := true_offset m content\<rparr>) m')"
proof -
  let ?db = "reconcile_offsets (fl_files st) (fl_db st)"
  let ?m = "m\<lparr>md_currentOffset := true_offset m content\<rparr>"
  have e: "map_of ?db q = Some ?m" by (rule reconciled_entry[OF assms(1,2,5)])
  have "q \<notin> set (collectible ?db)"
  proof
    assume "q \<in> set (collectible ?db)"
    then obtain m' where m': "(q, m') \<in> set ?db" "md_softDeleted m'" by (auto simp: collectible_def)
    have "map_of ?db q = Some m'" by (rule map_of_is_SomeI[OF reconciled_keys(2)[OF assms(1)] m'(1)])
    then have "m' = ?m" using e by (simp only: option.inject)
    then have "md_softDeleted m' = md_softDeleted m" by simp
    then show False using m'(2) assms(3) by simp
  qed
  then show ?thesis
    using collect_keeps[of "st\<lparr>fl_db := reconcile_refs ?db\<rparr>" q "?m\<lparr>md_refCount := expected_refs ?db q\<rparr>" "collectible ?db" env] e assms(3,4)
    by (auto simp: recover_def Let_def refs_entry but_refs_def)
qed

section \<open>A crash in the middle of an append\<close>

text \<open>An append that goes on to its write has found its stream live and as recorded.\<close>

lemma begin_live:
  assumes "fs_append_begin env p data opts initial st = (Inr tk, st1)"
  shows "st1 = st \<and> tk_path tk = p \<and> map_of (fl_db st) p = Some (tk_meta tk) \<and> \<not> md_softDeleted (tk_meta tk)
    \<and> tk_offset tk = advance_offset (md_currentOffset (tk_meta tk)) (length (tk_data tk))"
proof -
  obtain r st2 where g: "getMetaIfNotExpired env p st = (r, st2)" by fastforce
  obtain m where r: "r = Some m" using assms g by (cases r) (simp_all add: fs_append_begin_def)
  have l: "st2 = st \<and> map_of (fl_db st) p = Some m \<or> md_softDeleted m"
    using g r by (auto simp: getMetaIfNotExpired_def lookup_with_def Let_def split: option.splits if_splits)
  obtain pr where c: "fs_append_check env p opts m = Proceed pr"
    using assms g r by (cases "fs_append_check env p opts m") (simp_all add: fs_append_begin_def)
  then have n: "\<not> md_softDeleted m" by (auto simp: fs_append_check_def)
  let ?json = "normalizeContentType (md_contentType m) = ''application/json''"
  obtain d where d: "(if ?json then processJsonAppend (num_canon env) data initial else Inr data) = Inr d"
    using assms g r c
    by (cases "if ?json then processJsonAppend (num_canon env) data initial else Inr data") (simp_all add: fs_append_begin_def Let_def)
  have "\<not> (?json \<and> d = [])" using assms g r c d by (auto simp: fs_append_begin_def Let_def)
  then have "st1 = st2" "tk = \<lparr>tk_path = p, tk_meta = m, tk_opts = opts, tk_producer = pr, tk_data = d,
      tk_offset = advance_offset (md_currentOffset m) (length d)\<rparr>"
    using assms g r c d by (simp_all add: fs_append_begin_def Let_def del: de_Morgan_conj not_imp split: if_split_asm)
  then show ?thesis using l n by auto
qed

text \<open>The state a crash leaves when it comes after the first \<open>k\<close> bytes of the frame have reached the disk, before or after the
  record was put.\<close>

definition crashed :: "append_task \<Rightarrow> nat \<Rightarrow> bool \<Rightarrow> file_store \<Rightarrow> file_store" where
  "crashed tk k committed st =
     crash (fl_files (append_bytes (md_directoryName (tk_meta tk)) (take k (frame (tk_data tk))) st))
       (if committed then db_put (tk_path tk) (task_meta tk) st else st)"

lemma task_meta_fields [simp]:
  "md_directoryName (task_meta tk) = md_directoryName (tk_meta tk)" "md_softDeleted (task_meta tk) = md_softDeleted (tk_meta tk)"
  "md_forkOffset (task_meta tk) = md_forkOffset (tk_meta tk)" "md_forkedFrom (task_meta tk) = md_forkedFrom (tk_meta tk)" "base_byte (task_meta tk) = base_byte (tk_meta tk)"
  by (simp_all add: task_meta_def Let_def base_byte_def)

lemma own_messages_cong:
  "map_of (fl_files st) (md_directoryName m) = map_of (fl_files st') (md_directoryName m') \<Longrightarrow> base_byte m = base_byte m'
    \<Longrightarrow> own_messages st m s = own_messages st' m' s"
  by (simp add: own_messages_def segment_def)

lemma true_offset_cong: "md_forkOffset m = md_forkOffset m' \<Longrightarrow> true_offset m c = true_offset m' c"
  by (simp add: true_offset_def)

text \<open>What the crash leaves of a stream: its record, and its segment with what reached the disk of the new frame.\<close>

lemma crashed_entry:
  assumes "at_rest st" "map_of (fl_db st) (tk_path tk) = Some (tk_meta tk)" "map_of (fl_db st) q = Some m" "rests st m ds"
  shows "map_of (fl_db (crashed tk k committed st)) q = Some (if committed \<and> q = tk_path tk then task_meta tk else m)"
    and "map_of (fl_files (crashed tk k committed st)) (md_directoryName m)
      = Some (frames ds @ take (if q = tk_path tk then k else 0) (frame (tk_data tk)))"
    and "distinct (map fst (fl_db (crashed tk k committed st)))" "fl_polls (crashed tk k committed st) = []"
proof -
  show "map_of (fl_db (crashed tk k committed st)) q = Some (if committed \<and> q = tk_path tk then task_meta tk else m)"
    using assms by (simp add: crashed_def crash_def db_put_def)
  show "distinct (map fst (fl_db (crashed tk k committed st)))" "fl_polls (crashed tk k committed st) = []"
    using assms(1) by (simp_all add: crashed_def crash_def db_put_def at_rest_def distinct_update)
  have inj: "inj_on (md_directoryName \<circ> snd) (set (fl_db st))" using assms(1) by (simp add: at_rest_def distinct_map)
  have "q \<noteq> tk_path tk \<Longrightarrow> md_directoryName m \<noteq> md_directoryName (tk_meta tk)"
    using inj_onD[OF inj, of "(q, m)" "(tk_path tk, tk_meta tk)"] assms(2,3) by (auto dest: map_of_SomeD)
  moreover have "q = tk_path tk \<Longrightarrow> m = tk_meta tk" using assms(2,3) by simp
  ultimately show "map_of (fl_files (crashed tk k committed st)) (md_directoryName m)
      = Some (frames ds @ take (if q = tk_path tk then k else 0) (frame (tk_data tk)))"
    using assms(4) by (cases "q = tk_path tk") (simp_all add: crashed_def crash_def append_bytes_def segment_def rests_def logged_def)
qed

lemma but_refs_base: "but_refs (m\<lparr>md_currentOffset := x\<rparr>) m' \<Longrightarrow> base_byte m' = base_byte m"
  using but_refs_fields[of "m\<lparr>md_currentOffset := x\<rparr>" m'] by (simp add: base_byte_def)

text \<open>Recovery after a crash in the middle of an append to a store whose records and files agree.\<close>

lemma crash_recovery:
  assumes "at_rest st" "fs_append_begin env p data opts initial st = (Inr tk, st1)" "fits32 (tk_data tk)"
    and "k \<le> length (frame (tk_data tk))" "committed \<longrightarrow> k = length (frame (tk_data tk))"
    and "map_of (fl_db st) q = Some m" "\<not> md_softDeleted m"
  shows "\<exists>m'. map_of (fl_db (recover env' (crashed tk k committed st1))) q = Some m' \<and> \<not> md_softDeleted m'
    \<and> own_messages (recover env' (crashed tk k committed st1)) m' s
        = own_messages st m s
          @ after_byte s (if q = p \<and> 4 + length (tk_data tk) \<le> k
                          then [\<lparr>m_data = tk_data tk, m_offset = tk_offset tk, m_timestamp = 0\<rparr>] else [])
    \<and> md_currentOffset m' = (if q = p \<and> k = length (frame (tk_data tk)) then tk_offset tk else md_currentOffset m)"
proof -
  obtain ds where ds: "rests st m ds" using assms(1,6) by (fastforce simp: at_rest_def dest: map_of_SomeD)
  have b: "st1 = st" "tk_path tk = p" "map_of (fl_db st) p = Some (tk_meta tk)"
    "tk_offset tk = advance_offset (md_currentOffset (tk_meta tk)) (length (tk_data tk))"
    using begin_live[OF assms(2)] by auto
  let ?d = "tk_data tk" and ?st = "crashed tk k committed st" and ?k = "if q = p then k else 0"
  let ?c = "frames ds @ take ?k (frame ?d)" and ?m = "if committed \<and> q = p then task_meta tk else m"
  note cr = crashed_entry[OF assms(1) b(3)[folded b(2)] assms(6) ds, of k committed, unfolded b(2)]
  have qp: "q = p \<Longrightarrow> m = tk_meta tk" using b(3) assms(6) by simp
  have m: "md_directoryName ?m = md_directoryName m" "md_softDeleted ?m = md_softDeleted m" "md_forkOffset ?m = md_forkOffset m"
    "base_byte ?m = base_byte m" using qp by auto
  have live: "\<not> md_softDeleted ?m" using m(2) assms(7) by simp
  from recover_entry[OF cr(3,1) live cr(4) cr(2)[folded m(1)], of env'] obtain m' where
    r: "fl_files (recover env' ?st) = fl_files ?st" "map_of (fl_db (recover env' ?st)) q = Some m'"
      "but_refs (?m\<lparr>md_currentOffset := true_offset ?m ?c\<rparr>) m'" by blast
  have f: "md_softDeleted m' = md_softDeleted m" "md_directoryName m' = md_directoryName m" "md_currentOffset m' = true_offset ?m ?c"
    using but_refs_fields[OF r(3)] m by simp_all
  have base: "base_byte m' = base_byte m" using but_refs_base[OF r(3)] m(4) by simp
  have ok: "\<forall>x\<in>set ds. fits32 x" "?k \<le> length (frame ?d)" using ds assms(4) by (simp_all add: rests_def logged_def)
  have cur: "md_currentOffset m = off (base_byte m + length (frames ds))" using ds by (simp add: rests_def logged_def)
  have tk: "q = p \<Longrightarrow> tk_offset tk = off (base_byte m + length (frames ds) + length (frame ?d))"
    using b(4) cur qp by (simp add: FRAME_OVERHEAD_def add_ac)
  have "own_messages (recover env' ?st) m' s = readMessagesFromSegmentFile ?c (Some s) (Some (base_byte m)) None"
    using cr(2) r(1) f(2) base by (simp add: own_messages_def segment_def)
  then have own: "own_messages (recover env' ?st) m' s = own_messages st m s
      @ (if 4 + length ?d \<le> ?k then after_byte s (seg_messages (base_byte m + length (frames ds)) [?d]) else [])"
    by (simp only: segment_all[OF ok(1) assms(3) ok(2)] rests_own[OF ds])
  have "true_offset ?m ?c = off (base_byte m + scan_frames ?c)"
    using true_offset_cong[OF m(3)] true_offset_rests[of st m ds] ds by (simp add: rests_def)
  then have tail: "md_currentOffset m' = (if q = p \<and> k = length (frame ?d) then tk_offset tk else md_currentOffset m)"
    using f(3) scan_all[OF ok(1) assms(3) ok(2)] cur tk by (simp add: add.assoc)
  show ?thesis unfolding b(1)
    using r(2) f(1) assms(7) own tail tk by (intro exI[of _ m']) (simp add: add.assoc)
qed

end
