(* ===== verification/File_Machine.thy ===== *)
theory File_Machine
  imports File_Recovery
begin

text \<open>
  The file-backed store as a machine: its operations, each run to its end, restarts and crashes at the boundary of a
  frame. In every state it reaches the records and the files agree, which is what recovery from a crash in the middle of
  a frame starts from.
\<close>

section \<open>Operations that leave the logs alone\<close>

definition same_file_log :: "stream_metadata \<Rightarrow> stream_metadata \<Rightarrow> bool" where
  "same_file_log m m' \<longleftrightarrow> md_directoryName m' = md_directoryName m \<and> md_currentOffset m' = md_currentOffset m \<and> md_forkOffset m' = md_forkOffset m
     \<and> md_forkedFrom m' = md_forkedFrom m"

text \<open>The files are the same, and every record that is left describes the same log.\<close>

definition thins :: "file_store \<Rightarrow> file_store \<Rightarrow> bool" where
  "thins st st' \<longleftrightarrow> fl_files st' = fl_files st \<and> (distinct (map fst (fl_db st)) \<longrightarrow> distinct (map fst (fl_db st')))
     \<and> (\<forall>q m'. map_of (fl_db st') q = Some m' \<longrightarrow> (\<exists>m. map_of (fl_db st) q = Some m \<and> same_file_log m m'))"

lemma same_file_log_refl [simp, intro]: "same_file_log m m"
  by (simp add: same_file_log_def)

lemma same_file_log_trans: "same_file_log m1 m2 \<Longrightarrow> same_file_log m2 m3 \<Longrightarrow> same_file_log m1 m3"
  by (simp add: same_file_log_def)

lemma thins_refl [simp, intro]: "thins st st"
  by (auto simp: thins_def)

lemma thins_trans [trans]: "thins st1 st2 \<Longrightarrow> thins st2 st3 \<Longrightarrow> thins st1 st3"
  unfolding thins_def using same_file_log_trans by (simp, blast)

lemma thins_same_db: "fl_files st' = fl_files st \<Longrightarrow> fl_db st' = fl_db st \<Longrightarrow> thins st st'"
  by (auto simp: thins_def)

lemma thins_put: "map_of (fl_db st) p = Some m \<Longrightarrow> same_file_log m m' \<Longrightarrow> thins st (db_put p m' st)"
  by (auto simp: thins_def db_put_def distinct_update)

lemma thins_remove: "thins st (db_remove p st)"
  by (auto simp: thins_def db_remove_def distinct_delete)

lemma thins_unpend: "thins st (fs_unpend q st)"
  by (rule thins_same_db) (simp_all add: fs_unpend_def)

lemma thins_settle: "thins st (fs_settle i r st)"
  by (rule thins_same_db) (simp_all add: fs_settle_def)

lemma thins_settled: "thins st st' \<Longrightarrow> thins st (fs_settle i r st')"
  by (rule thins_trans[OF _ thins_settle])

lemma thins_drop_edge: "thins st (snd (drop_edge p m st))"
proof -
  have "thins (db_remove p st) (snd (drop_edge p m st))"
    by (auto simp: drop_edge_def Let_def same_file_log_def intro!: thins_put split: option.splits)
  then show ?thesis by (rule thins_trans[OF thins_remove])
qed

lemma thins_lookup:
  assumes "\<And>p st. thins st (del p st)"
  shows "thins st (snd (lookup_with del env p st))"
  using assms by (auto simp: lookup_with_def Let_def same_file_log_def intro: thins_put split: option.splits)

lemma thins_cancel_with:
  assumes "\<And>p st. thins st (del p st)"
  shows "thins st (cancel_with del env qs st)"
proof (induction qs arbitrary: st)
  case (Cons q qs)
  obtain cur st1 where l: "lookup_with del env (pl_path q) (fs_unpend q st) = (cur, st1)" by fastforce
  then have "thins (fs_unpend q st) st1" using thins_lookup[of del "fs_unpend q st" env "pl_path q", OF assms] by simp
  then have "thins st (fs_settle i r st1)" for i r by (rule thins_settled[OF thins_trans[OF thins_unpend]])
  then have "thins st (cancel_with del env qs (fs_settle i r st1))" for i r by (rule thins_trans[OF _ Cons.IH])
  then show ?case using l by simp
qed simp

lemma thins_cancel_polls:
  assumes "\<And>p st. thins st (del p st)"
  shows "thins st (cancel_polls del env p st)"
  unfolding cancel_polls_def Let_def
  by (rule thins_trans[OF thins_cancel_with[of del st env "filter (\<lambda>q. pl_path q = p) (fl_polls st)", OF assms]])
    (simp add: thins_same_db)

lemma thins_cascade: "thins st (fs_cascade n env p st)"
proof (induction n arbitrary: p st)
  case (Suc n)
  show ?case
  proof (cases "map_of (fl_db st) p")
    case (Some m)
    let ?st = "cancel_polls (fs_cascade n env) env p st"
    obtain again st1 where d: "drop_edge p m ?st = (again, st1)" by fastforce
    have "thins st st1" using thins_trans[OF thins_cancel_polls[of _ st env p, OF Suc] thins_drop_edge[of ?st p m]] d by simp
    then show ?thesis using Some d by (auto intro: thins_trans[OF _ Suc])
  qed simp
qed simp

lemma thins_delete_cascade: "thins st (fs_deleteWithCascade env p st)"
  unfolding fs_deleteWithCascade_def by (rule thins_cascade)

lemma thins_meta: "thins st (snd (getMetaIfNotExpired env p st))"
  unfolding getMetaIfNotExpired_def by (rule thins_lookup[OF thins_delete_cascade])

lemma meta_entry: "getMetaIfNotExpired env p st = (Some m, st1) \<Longrightarrow> map_of (fl_db st1) p = Some m"
  by (auto simp: getMetaIfNotExpired_def lookup_with_def Let_def db_put_def split: option.splits if_splits)

lemma thins_cancel_stream: "thins st (fs_cancelLongPollsForStream env p st)"
  unfolding fs_cancelLongPollsForStream_def by (rule thins_cancel_polls[OF thins_delete_cascade])

lemma thins_delete: "thins st (snd (fs_delete env p st))"
proof (cases "map_of (fl_db st) p")
  case (Some m)
  have "thins st (fs_cancelLongPollsForStream env p (db_put p (m\<lparr>md_softDeleted := True\<rparr>) st))"
    by (rule thins_trans[OF thins_put[OF Some] thins_cancel_stream]) (simp add: same_file_log_def)
  then show ?thesis using Some thins_delete_cascade by (simp add: fs_delete_def)
qed (simp add: fs_delete_def)

lemma thins_touch: "thins st (fs_touchAccess env p st)"
  by (auto simp: fs_touchAccess_def same_file_log_def intro: thins_put split: option.splits)

lemma thins_read: "thins st (snd (fs_read env p offset st))"
  using thins_meta[of st env p] by (auto simp: fs_read_def split: prod.splits option.splits)

lemma thins_resolve: "thins st (fs_poll_resolve env msgs q st)"
  using thins_trans[OF thins_unpend thins_meta[of "fs_unpend q st" env "pl_path q"]]
  by (auto simp: fs_poll_resolve_def intro: thins_settled split: prod.splits)

lemma thins_timeout: "thins st (fs_fire_timeout env q st)"
  using thins_trans[OF thins_unpend thins_meta[of "fs_unpend q st" env "pl_path q"]]
  by (auto simp: fs_fire_timeout_def intro: thins_settled split: prod.splits)

lemma thins_notify: "thins st (snd (fs_notify_loop env p qs st))"
proof (induction qs arbitrary: st)
  case (Cons q qs)
  obtain r st1 where r: "fs_read env p (Some (pl_offset q)) st = (r, st1)" by fastforce
  then have "thins st st1" using thins_read[of st env p "Some (pl_offset q)"] by simp
  moreover have "thins st1 (snd (fs_notify_loop env p qs (fs_poll_resolve env ms q st1)))" for ms
    by (rule thins_trans[OF thins_resolve Cons.IH])
  ultimately show ?case using r thins_trans[of st st1] Cons.IH by (cases r) simp_all
qed simp

lemma thins_notifyClosed: "thins st (fs_notifyLongPollsClosed env p st)"
proof -
  have "thins st (fold (fs_poll_resolve env []) qs st)" for qs
    by (induction qs arbitrary: st) (auto intro: thins_trans[OF thins_resolve])
  then show ?thesis by (simp add: fs_notifyLongPollsClosed_def)
qed

lemma thins_wait: "thins st (snd (fs_waitForMessages env p offset st))"
proof -
  obtain r st1 where m: "getMetaIfNotExpired env p st = (r, st1)" by fastforce
  obtain x st2 where r: "fs_read env p (Some offset) st1 = (x, st2)" by fastforce
  have t: "thins st st1" using m thins_meta[of st env p] by simp
  have "thins st1 st2" using r thins_read[of st1 env p "Some offset"] by simp
  with t have t2: "thins st st2" by (rule thins_trans)
  then have "thins st (st2\<lparr>fl_polls := a, fl_timers := b, fl_next := c\<rparr>)" for a b c
    by (rule thins_trans) (simp add: thins_same_db)
  with t t2 show ?thesis using m r by (cases r; cases x) (simp_all add: fs_waitForMessages_def Let_def)
qed

lemma thins_cancel_loop: "thins st (fs_cancel_loop env i arr same st)"
proof (induction env i arr same st rule: fs_cancel_loop.induct)
  case (1 env i arr same st)
  show ?case
  proof (cases "i < length arr")
    case True
    show ?thesis
      by (subst fs_cancel_loop.simps) (simp add: True Let_def thins_trans[OF thins_resolve 1[OF True refl]])
  qed (subst fs_cancel_loop.simps, simp)
qed

lemma thins_cancel_all: "thins st (fs_cancelAllWaits env st)"
  unfolding fs_cancelAllWaits_def
  by (rule thins_trans[OF thins_cancel_loop[of st env 0 "fl_polls st" True]]) (simp add: thins_same_db)

lemma thins_clear: "thins st (fs_clear env st)"
proof -
  have "thins st1 (st1\<lparr>fl_polls := [], fl_db := []\<rparr>)" for st1 by (simp add: thins_def)
  then show ?thesis unfolding fs_clear_def by (rule thins_trans[OF thins_cancel_loop[of st env 0 "fl_polls st" True]])
qed

lemma thins_close: "thins st (snd (fs_closeStream env p st))"
proof -
  obtain r st1 where m: "getMetaIfNotExpired env p st = (r, st1)" by fastforce
  have t: "thins st st1" using m thins_meta[of st env p] by simp
  show ?thesis
  proof (cases r)
    case (Some x)
    have "thins st1 (fs_notifyLongPollsClosed env p (db_put p (x\<lparr>md_closed := True\<rparr>) st1))"
      using meta_entry[of env p st x st1] m Some
      by (intro thins_trans[OF thins_put thins_notifyClosed]) (auto simp: same_file_log_def)
    then show ?thesis using m Some thins_trans[OF t] by (simp add: fs_closeStream_def)
  qed (use m t in \<open>simp add: fs_closeStream_def\<close>)
qed

lemma thins_close_producer: "thins st (snd (fs_closeStreamWithProducer env p i ep sq st))"
proof -
  obtain r st1 where m: "getMetaIfNotExpired env p st = (r, st1)" by fastforce
  have t: "thins st st1" using m thins_meta[of st env p] by simp
  show ?thesis
  proof (cases r)
    case (Some x)
    have "thins st1 (fs_notifyLongPollsClosed env p (db_put p (x\<lparr>md_closed := True, md_closedBy := b, md_producers := c\<rparr>) st1))" for b c
      using meta_entry[of env p st x st1] m Some
      by (intro thins_trans[OF thins_put thins_notifyClosed]) (auto simp: same_file_log_def)
    then show ?thesis using m Some t thins_trans[OF t]
      by (auto simp: fs_closeStreamWithProducer_def Let_def split: producer_validation_result.splits)
  qed (use m t in \<open>simp add: fs_closeStreamWithProducer_def\<close>)
qed

section \<open>Records and files agree\<close>

definition own_dirs :: "(string, stream_metadata) jsmap \<Rightarrow> bool" where
  "own_dirs db \<longleftrightarrow> (\<forall>q q' m m'. map_of db q = Some m \<longrightarrow> map_of db q' = Some m' \<longrightarrow> md_directoryName m = md_directoryName m' \<longrightarrow> q = q')"

lemma own_dirs_distinct:
  assumes "distinct (map fst db)"
  shows "distinct (map (md_directoryName \<circ> snd) db) \<longleftrightarrow> own_dirs db"
proof
  assume "distinct (map (md_directoryName \<circ> snd) db)"
  then have "inj_on (md_directoryName \<circ> snd) (set db)" by (simp add: distinct_map)
  from inj_onD[OF this] have "q = q'" if "map_of db q = Some m" "map_of db q' = Some m'" "md_directoryName m = md_directoryName m'" for q q' m m'
    using that(3) map_of_SomeD[OF that(1)] map_of_SomeD[OF that(2)] by fastforce
  then show "own_dirs db" unfolding own_dirs_def by blast
next
  assume o: "own_dirs db"
  have "x = y" if "x \<in> set db" "y \<in> set db" "md_directoryName (snd x) = md_directoryName (snd y)" for x y
    using that o map_of_is_SomeI[OF assms, of "fst x" "snd x"] map_of_is_SomeI[OF assms, of "fst y" "snd y"]
    unfolding own_dirs_def by (metis option.inject prod.collapse)
  then show "distinct (map (md_directoryName \<circ> snd) db)"
    using assms by (auto simp: distinct_map intro!: inj_onI)
qed

text \<open>The same of the files alone: a recovery needs no more.\<close>

definition framed :: "file_store \<Rightarrow> bool" where
  "framed st \<longleftrightarrow> distinct (map fst (fl_db st)) \<and> own_dirs (fl_db st) \<and> (\<forall>q m. map_of (fl_db st) q = Some m \<longrightarrow> (\<exists>ds. logged st m ds))"

lemma at_rest_iff:
  "at_rest st \<longleftrightarrow> distinct (map fst (fl_db st)) \<and> own_dirs (fl_db st) \<and> (\<forall>q m. map_of (fl_db st) q = Some m \<longrightarrow> (\<exists>ds. rests st m ds))"
proof (cases "distinct (map fst (fl_db st))")
  case True
  then show ?thesis by (auto simp: at_rest_def own_dirs_distinct[OF True] dest: map_of_SomeD)
qed (simp add: at_rest_def)

lemma rest_entry: "at_rest st \<Longrightarrow> map_of (fl_db st) q = Some m \<Longrightarrow> \<exists>ds. rests st m ds"
  unfolding at_rest_iff by blast

lemma rests_same: "same_file_log m m' \<Longrightarrow> fl_files st' = fl_files st \<Longrightarrow> rests st m ds \<Longrightarrow> rests st' m' ds"
  by (simp add: rests_def logged_def same_file_log_def base_byte_def)

lemma thins_rest:
  assumes "at_rest st" "thins st st'"
  shows "at_rest st'"
proof -
  have earlier: "map_of (fl_db st') q = Some m' \<Longrightarrow> \<exists>m. map_of (fl_db st) q = Some m \<and> same_file_log m m'" for q m'
    using assms(2) by (simp add: thins_def)
  have "\<exists>ds. rests st' m' ds" if "map_of (fl_db st') q = Some m'" for q m'
    using earlier[OF that] assms rests_same by (fastforce simp: at_rest_iff thins_def)
  moreover have "own_dirs (fl_db st')"
    using assms(1) earlier unfolding at_rest_iff own_dirs_def same_file_log_def by metis
  ultimately show ?thesis using assms by (simp add: at_rest_iff thins_def)
qed

text \<open>A record that comes with its file, or takes the place of one with the same file.\<close>

lemma rest_put:
  assumes "at_rest st" "rests (db_put p m (append_bytes (md_directoryName m) bs st)) m ds"
    and "\<And>q m'. map_of (fl_db st) q = Some m' \<Longrightarrow> md_directoryName m' = md_directoryName m \<Longrightarrow> q = p"
  shows "at_rest (db_put p m (append_bytes (md_directoryName m) bs st))" (is "at_rest ?st")
proof -
  have e: "map_of (fl_db ?st) q = (if q = p then Some m else map_of (fl_db st) q)" for q
    by (simp add: db_put_def append_bytes_def)
  have o: "rests ?st m' x" if "map_of (fl_db st) q = Some m'" "q \<noteq> p" "rests st m' x" for q m' x
    using that assms(3) by (auto simp: rests_def logged_def db_put_def append_bytes_def)
  have "\<exists>x. rests ?st m' x" if "map_of (fl_db ?st) q = Some m'" for q m'
    using that assms(2) o rest_entry[OF assms(1), of q m'] unfolding e by (cases "q = p") (simp, blast, simp, blast)
  moreover have "own_dirs (fl_db ?st)"
    using assms(1,3) unfolding own_dirs_def e at_rest_iff by (metis (no_types, lifting) option.inject)
  moreover have "distinct (map fst (fl_db ?st))"
    using assms(1) by (simp add: at_rest_iff db_put_def append_bytes_def distinct_update)
  ultimately show ?thesis by (simp add: at_rest_iff)
qed

lemma rest_append:
  assumes "at_rest st" "fs_append_begin env p data opts initial st = (Inr tk, st1)" "fits32 (tk_data tk)"
  shows "at_rest (db_put p (task_meta tk) (write_frame tk st))"
proof -
  have b: "map_of (fl_db st) p = Some (tk_meta tk)" "tk_offset tk = advance_offset (md_currentOffset (tk_meta tk)) (length (tk_data tk))"
    using begin_live[OF assms(2)] by auto
  obtain ds where ds: "rests st (tk_meta tk) ds" using rest_entry[OF assms(1) b(1)] by blast
  let ?m = "task_meta tk"
  have cur: "md_currentOffset ?m = tk_offset tk" by (simp add: task_meta_def Let_def)
  have "rests (db_put p ?m (append_bytes (md_directoryName ?m) (frame (tk_data tk)) st)) ?m (ds @ [tk_data tk])"
    using ds b(2) cur assms(3)
    by (auto simp: rests_def logged_def db_put_def append_bytes_def segment_def FRAME_OVERHEAD_def add_ac)
  moreover have "q = p" if "map_of (fl_db st) q = Some m'" "md_directoryName m' = md_directoryName ?m" for q m'
    using that b(1) assms(1) by (simp add: at_rest_iff own_dirs_def)
  ultimately show ?thesis using rest_put[OF assms(1), of p ?m "frame (tk_data tk)"] by (simp add: write_frame_def)
qed

lemma thins_begin: "fs_append_begin env p data opts initial st = (r, st1) \<Longrightarrow> thins st st1"
proof -
  obtain x st2 where g: "getMetaIfNotExpired env p st = (x, st2)" by fastforce
  assume b: "fs_append_begin env p data opts initial st = (r, st1)"
  have "st1 = st2"
  proof (cases x)
    case (Some m)
    then show ?thesis using b g
      by (cases "fs_append_check env p opts m") (simp_all add: fs_append_begin_def Let_def split: sum.splits if_split_asm)
  qed (use b g in \<open>simp add: fs_append_begin_def\<close>)
  then show ?thesis using thins_meta[of st env p] g by simp
qed

definition payload_fits :: "js_env \<Rightarrow> string \<Rightarrow> bytes \<Rightarrow> append_options \<Rightarrow> bool \<Rightarrow> file_store \<Rightarrow> bool" where
  "payload_fits env p data opts initial st \<longleftrightarrow>
     (case fst (fs_append_begin env p data opts initial st) of Inr tk \<Rightarrow> fits32 (tk_data tk) | Inl _ \<Rightarrow> True)"

text \<open>Every record comes from one with the same file.\<close>

definition dirs_from :: "file_store \<Rightarrow> file_store \<Rightarrow> bool" where
  "dirs_from st st' \<longleftrightarrow> (\<forall>q m'. map_of (fl_db st') q = Some m' \<longrightarrow> (\<exists>m. map_of (fl_db st) q = Some m \<and> md_directoryName m = md_directoryName m'))"

lemma thins_dirs: "thins st st' \<Longrightarrow> dirs_from st st'"
  unfolding thins_def dirs_from_def same_file_log_def by metis

lemma dirs_trans: "dirs_from st1 st2 \<Longrightarrow> dirs_from st2 st3 \<Longrightarrow> dirs_from st1 st3"
  unfolding dirs_from_def by metis

lemma thins_append_put:
  "thins (db_put (tk_path tk) (task_meta tk) st) (snd (append_put env tk st))"
proof -
  let ?st = "db_put (tk_path tk) (task_meta tk) st"
  obtain r st1 where n: "fs_notifyLongPolls env (tk_path tk) ?st = (r, st1)" by fastforce
  have t: "thins ?st st1"
    using n thins_notify[of ?st env "tk_path tk" "filter (\<lambda>q. pl_path q = tk_path tk) (fl_polls ?st)"] by (simp add: fs_notifyLongPolls_def)
  then show ?thesis using n thins_trans[OF t thins_notifyClosed] by (cases r) (simp_all add: append_put_def Let_def)
qed

lemma append_run_rest:
  assumes "at_rest st" "payload_fits env p data opts initial st"
  shows "at_rest (snd (fs_append_run env p data opts initial st)) \<and> dirs_from st (snd (fs_append_run env p data opts initial st))"
proof -
  obtain r st1 where b: "fs_append_begin env p data opts initial st = (r, st1)" by fastforce
  show ?thesis
  proof (cases r)
    case (Inl x)
    then show ?thesis using b thins_rest[OF assms(1)] thins_dirs thins_begin[OF b] by (simp add: fs_append_run_def)
  next
    case (Inr tk)
    then have l: "st1 = st" "tk_path tk = p" "map_of (fl_db st) p = Some (tk_meta tk)" using begin_live b by auto
    have fits: "fits32 (tk_data tk)" using assms(2) b Inr by (simp add: payload_fits_def)
    let ?st = "db_put p (task_meta tk) (write_frame tk st)"
    have t: "thins ?st (snd (append_put env tk (write_frame tk st)))" using thins_append_put[of tk "write_frame tk st" env] l(2) by simp
    have "dirs_from st ?st" using l(3) by (auto simp: dirs_from_def db_put_def write_frame_def append_bytes_def)
    then have "dirs_from st (snd (append_put env tk (write_frame tk st)))" by (rule dirs_trans[OF _ thins_dirs[OF t]])
    then show ?thesis
      using thins_rest[OF rest_append[OF assms(1) b[unfolded Inr] fits] t] b Inr l(1) by (simp add: fs_append_run_def)
  qed
qed

lemma rest_unlink:
  assumes "at_rest st" "\<And>q m. map_of (fl_db st) q = Some m \<Longrightarrow> md_directoryName m \<noteq> dir"
  shows "at_rest (fs_unlink dir st)"
proof -
  have "rests (fs_unlink dir st) m ds" if "map_of (fl_db st) q = Some m" "rests st m ds" for q m ds
    using that assms(2) by (simp add: rests_def logged_def fs_unlink_def)
  then show ?thesis using assms(1) unfolding at_rest_iff by (auto simp: fs_unlink_def) (metis map_of_is_SomeI)
qed

section \<open>Create\<close>

definition prefix_of :: "(stream_metadata \<times> string \<times> bytes option) option \<Rightarrow> bytes" where
  "prefix_of fork = (case fork of Some (_, _, Some prefix) \<Rightarrow> prefix | _ \<Rightarrow> [])"

lemma new_meta_fields:
  "md_directoryName (fs_new_meta env dir p opts fork) = dir"
  "md_forkedFrom (fs_new_meta env dir p opts fork) = (if fork = None then None else co_forkedFrom opts)"
  "md_forkOffset (fs_new_meta env dir p opts fork) = map_option (\<lambda>(_, forkOff, _). forkOff) fork"
  "md_currentOffset (fs_new_meta env dir p opts fork)
     = (let fo = (case fork of Some (_, forkOff, _) \<Rightarrow> forkOff | None \<Rightarrow> ZERO_OFFSET)
        in if prefix_of fork = [] then fo else advance_offset fo (length (prefix_of fork)))"
  by (simp_all add: fs_new_meta_def prefix_of_def Let_def split: option.splits prod.splits)

lemma thins_add_ref: "thins st (fs_add_ref src d st)"
  by (auto simp: fs_add_ref_def same_file_log_def intro: thins_put split: option.splits)

lemma add_ref_append_bytes: "fs_add_ref src d (append_bytes dir bs st) = append_bytes dir bs (fs_add_ref src d st)"
  by (simp add: fs_add_ref_def append_bytes_def db_put_def segment_def split: option.splits)

text \<open>The fork a creation resolves: its offset is the format of a position.\<close>

definition fork_of :: "js_env \<Rightarrow> create_options \<Rightarrow> file_store \<Rightarrow> (stream_metadata \<times> string \<times> bytes option) option outcome" where
  "fork_of env opts st = (if truthy (co_forkedFrom opts) then map_sum (\<lambda>e. e) Some (fs_resolve_fork env opts st) else Inr None)"

lemma begin_fork:
  assumes "fs_create_begin env dir p opts st = (Inr m, st1)"
  shows "\<exists>fork src. fork_of env opts st = Inr fork \<and> m = fs_new_meta env dir p opts fork
    \<and> open_file dir st1 = db_put p m (append_bytes dir (if prefix_of fork = [] then [] else frame (prefix_of fork)) (fs_add_ref src 1 st))"
proof -
  obtain fork where f: "(if truthy (co_forkedFrom opts) then (case fs_resolve_fork env opts st of Inl e \<Rightarrow> Inl e | Inr f \<Rightarrow> Inr (Some f)) else Inr None)
      = Inr fork"
    using assms
    by (cases "if truthy (co_forkedFrom opts) then (case fs_resolve_fork env opts st of Inl e \<Rightarrow> Inl e | Inr f \<Rightarrow> Inr (Some f)) else Inr None")
      (simp_all add: fs_create_begin_def Let_def)
  then have "fork_of env opts st = Inr fork" by (auto simp: fork_of_def split: if_splits sum.splits)
  moreover have "m = fs_new_meta env dir p opts fork" using assms f by (simp add: fs_create_begin_def Let_def)
  moreover have "open_file dir st1 = db_put p m (append_bytes dir (if prefix_of fork = [] then [] else frame (prefix_of fork))
      (fs_add_ref (if truthy (co_forkedFrom opts) then co_forkedFrom opts else None) 1 st))"
    using assms f
    by (auto simp: fs_create_begin_def Let_def prefix_of_def open_file_def add_ref_append_bytes split: option.splits)
      (auto simp: append_bytes_def db_put_def segment_def)
  ultimately show ?thesis by blast
qed

lemma fork_offset:
  assumes "at_rest st" "fork_of env opts st = Inr (Some (source, fo, pre))"
    and "truthy (co_forkOffset opts) \<Longrightarrow> canonical (the (co_forkOffset opts))"
  shows "\<exists>n. fo = off n"
proof -
  have r: "fs_resolve_fork env opts st = Inr (source, fo, pre)"
    using assms(2) by (cases "fs_resolve_fork env opts st") (auto simp: fork_of_def split: if_splits)
  then obtain src where src: "map_of (fl_db st) (the (co_forkedFrom opts)) = Some src"
    by (cases "map_of (fl_db st) (the (co_forkedFrom opts))") (simp_all add: fs_resolve_fork_def Let_def)
  then have "fo = (if truthy (co_forkOffset opts) then the (co_forkOffset opts) else md_currentOffset src)"
    using r by (auto simp: fs_resolve_fork_def Let_def split: if_splits sum.splits)
  moreover have "\<exists>n. md_currentOffset src = off n" using rest_entry[OF assms(1) src] by (auto simp: rests_def)
  ultimately show ?thesis using assms(3) by (auto split: if_splits)
qed

lemma off_not_nil: "off n \<noteq> []"
  by (simp add: off_eq)

lemma create_opened_rest:
  assumes "at_rest st" "fs_create_begin env dir p opts st = (Inr m, st1)" "map_of (fl_files st) dir = None"
    and "truthy (co_forkOffset opts) \<Longrightarrow> canonical (the (co_forkOffset opts))"
    and "\<And>fork. fork_of env opts st = Inr fork \<Longrightarrow> fits32 (prefix_of fork)"
  shows "at_rest (open_file dir st1) \<and> map_of (fl_db (open_file dir st1)) p = Some m \<and> md_directoryName m = dir"
proof -
  from begin_fork[OF assms(2)] obtain fork src where f: "fork_of env opts st = Inr fork" "m = fs_new_meta env dir p opts fork"
    "open_file dir st1 = db_put p m (append_bytes dir (if prefix_of fork = [] then [] else frame (prefix_of fork)) (fs_add_ref src 1 st))"
    by blast
  let ?st = "fs_add_ref src 1 st" and ?ds = "if prefix_of fork = [] then [] else [prefix_of fork]"
  have dir: "md_directoryName m = dir" using f(2) by (simp add: new_meta_fields)
  have files: "fl_files ?st = fl_files st" using thins_add_ref[of st src 1] by (simp add: thins_def)
  have rest: "at_rest ?st" by (rule thins_rest[OF assms(1) thins_add_ref])
  have fo: "md_forkOffset m = None \<and> md_forkedFrom m = None \<and> md_currentOffset m = off (length (frames ?ds))
      \<or> (\<exists>n. md_forkOffset m = Some (off n) \<and> truthy (md_forkedFrom m) \<and> md_currentOffset m = off (n + length (frames ?ds)))"
  proof (cases fork)
    case None
    then show ?thesis using f(2) by (simp add: new_meta_fields prefix_of_def ZERO_OFFSET_off)
  next
    case (Some x)
    obtain source o' pre where x: "x = (source, o', pre)" by (cases x) auto
    obtain n where "o' = off n" using fork_offset[OF assms(1) f(1)[unfolded Some x] assms(4)] by blast
    moreover have "truthy (co_forkedFrom opts)" using f(1) Some by (auto simp: fork_of_def split: if_splits)
    ultimately show ?thesis using Some x f(2) by (simp add: new_meta_fields Let_def FRAME_OVERHEAD_def add_ac)
  qed
  have "rests (db_put p m (append_bytes (md_directoryName m) (frames ?ds) ?st)) m ?ds"
    using fo assms(3,5) f(1) files dir
    by (auto simp: rests_def logged_def base_byte_def db_put_def append_bytes_def segment_def off_not_nil)
  moreover have "q = p" if "map_of (fl_db ?st) q = Some m'" "md_directoryName m' = md_directoryName m" for q m'
    using that rest_entry[OF rest that(1)] assms(3) files dir by (auto simp: rests_def logged_def)
  ultimately have "at_rest (db_put p m (append_bytes dir (frames ?ds) ?st))" using rest_put[OF rest, of p m "frames ?ds" ?ds] dir by simp
  moreover have "open_file dir st1 = db_put p m (append_bytes dir (frames ?ds) ?st)" using f(3) by simp
  ultimately show ?thesis using dir by (simp add: db_put_def)
qed

text \<open>What a creation is given: a directory of its own, a fork offset in the form of a stored one, payloads that fit.\<close>

definition create_args_ok :: "js_env \<Rightarrow> string \<Rightarrow> string \<Rightarrow> create_options \<Rightarrow> file_store \<Rightarrow> bool" where
  "create_args_ok env dir p opts st \<longleftrightarrow>
     map_of (fl_files st) dir = None \<and> (truthy (co_forkOffset opts) \<longrightarrow> canonical (the (co_forkOffset opts)))
     \<and> (case fork_of env opts st of Inr fork \<Rightarrow> fits32 (prefix_of fork) | Inl _ \<Rightarrow> True)
     \<and> (case fs_create_begin env dir p opts st of
          (Inr m, st1) \<Rightarrow> co_initialData opts = None \<or> co_initialData opts = Some [] \<or> payload_fits env p (the (co_initialData opts))
            \<lparr>ao_seq = None, ao_contentType = co_contentType opts, ao_producerId = None, ao_producerEpoch = None,
             ao_producerSeq = None, ao_close = False\<rparr> True (open_file dir st1)
        | _ \<Rightarrow> True)"

lemma create_finish_rest:
  assumes "at_rest (open_file dir st)" "map_of (fl_db (open_file dir st)) p = Some m" "md_directoryName m = dir"
    and "co_initialData opts = None \<or> co_initialData opts = Some [] \<or> payload_fits env p (the (co_initialData opts))
            \<lparr>ao_seq = None, ao_contentType = co_contentType opts, ao_producerId = None, ao_producerEpoch = None,
             ao_producerSeq = None, ao_close = False\<rparr> True (open_file dir st)"
  shows "at_rest (snd (fs_create_finish env p opts m st))"
proof -
  let ?o = "\<lparr>ao_seq = None, ao_contentType = co_contentType opts, ao_producerId = None, ao_producerEpoch = None,
             ao_producerSeq = None, ao_close = False\<rparr>"
  obtain r st2 where a: "(if co_initialData opts = None \<or> co_initialData opts = Some [] then (Inr (Message None), open_file dir st)
      else fs_append_run env p (the (co_initialData opts)) ?o True (open_file dir st)) = (r, st2)" by fastforce
  have rest: "at_rest st2 \<and> dirs_from (open_file dir st) st2"
  proof (cases "co_initialData opts = None \<or> co_initialData opts = Some []")
    case True
    then show ?thesis using a assms(1) thins_dirs[OF thins_refl] by auto
  next
    case False
    then have "payload_fits env p (the (co_initialData opts)) ?o True (open_file dir st)" using assms(4) by blast
    from append_run_rest[OF assms(1) this] show ?thesis using a unfolding if_not_P[OF False] by simp
  qed
  show ?thesis
  proof (cases r)
    case (Inl e)
    let ?st = "rollbackCreatedStream p m st2"
    have t: "thins (db_remove p st2) ?st" by (simp add: rollbackCreatedStream_def thins_add_ref)
    have "md_directoryName x \<noteq> dir" if x: "map_of (fl_db ?st) q = Some x" for q x
    proof
      assume d: "md_directoryName x = dir"
      obtain z where "map_of (fl_db (db_remove p st2)) q = Some z" using x t unfolding thins_def by blast
      then have "q \<noteq> p" by (auto simp: db_remove_def)
      have "dirs_from (open_file dir st) ?st"
        using dirs_trans[OF conjunct2[OF rest] thins_dirs[OF thins_trans[OF thins_remove t]]] .
      then obtain y where "map_of (fl_db (open_file dir st)) q = Some y" "md_directoryName y = dir"
        using x d unfolding dirs_from_def by metis
      then have "q = p" using assms(1-3) unfolding at_rest_iff own_dirs_def by metis
      then show False using \<open>q \<noteq> p\<close> by simp
    qed
    moreover have "at_rest ?st" using thins_rest[OF conjunct1[OF rest] thins_trans[OF thins_remove t]] .
    ultimately have "at_rest (fs_unlink dir ?st)" by (rule rest_unlink[rotated])
    then show ?thesis using a Inl assms(3) by (simp add: fs_create_finish_def Let_def)
  next
    case (Inr x)
    have "at_rest (db_put p (m1\<lparr>md_closed := True\<rparr>) st2)" if "map_of (fl_db st2) p = Some m1" for m1
      by (rule thins_rest[OF conjunct1[OF rest] thins_put[OF that]]) (simp add: same_file_log_def)
    then show ?thesis using a Inr rest assms(3) by (auto simp: fs_create_finish_def Let_def split: option.splits)
  qed
qed

lemma create_fresh_rest:
  assumes "at_rest st" "create_args_ok env dir p opts st" "fs_create_begin env dir p opts st = (r, st1)"
  shows "at_rest (case r of Inl e \<Rightarrow> st1 | Inr m \<Rightarrow> snd (fs_create_finish env p opts m st1))"
proof (cases r)
  case (Inl e)
  then have "st1 = st" using assms(3) by (auto simp: fs_create_begin_def Let_def split: sum.splits if_splits option.splits)
  then show ?thesis using Inl assms(1) by simp
next
  case (Inr m)
  have o: "at_rest (open_file dir st1) \<and> map_of (fl_db (open_file dir st1)) p = Some m \<and> md_directoryName m = dir"
    using assms(2) by (intro create_opened_rest[OF assms(1) assms(3)[unfolded Inr]]) (auto simp: create_args_ok_def)
  have "at_rest (snd (fs_create_finish env p opts m st1))"
    using o assms(2,3) Inr by (intro create_finish_rest) (auto simp: create_args_ok_def)
  then show ?thesis using Inr by simp
qed

text \<open>The state in which the new stream is created: an expired one is deleted first.\<close>

definition creation_state :: "js_env \<Rightarrow> string \<Rightarrow> file_store \<Rightarrow> file_store" where
  "creation_state env p st = (case map_of (fl_db st) p of
      Some m \<Rightarrow> if fs_isExpired env m then snd (fs_delete env p st) else st | None \<Rightarrow> st)"

lemma create_rest:
  assumes "at_rest st" "create_args_ok env dir p opts (creation_state env p st)"
  shows "at_rest (snd (fs_create env dir p opts st))"
proof -
  let ?st = "creation_state env p st"
  have rest: "at_rest ?st" using assms(1) thins_rest[OF assms(1) thins_delete] by (simp add: creation_state_def split: option.splits)
  obtain r st1 where b: "fs_create_begin env dir p opts ?st = (r, st1)" by fastforce
  from create_fresh_rest[OF rest assms(2) b]
  have "at_rest (snd (case fs_create_begin env dir p opts ?st of
      (Inl e, st2) \<Rightarrow> (Inl e, st2) | (Inr m, st2) \<Rightarrow> fs_create_finish env p opts m st2))"
    unfolding b by (cases r) simp_all
  then show ?thesis using assms(1) unfolding creation_state_def
    by (cases "map_of (fl_db st) p") (auto simp: fs_create_def Let_def)
qed

section \<open>Recovery\<close>

lemma reconciled_from:
  "map_of (reconcile_refs (reconcile_offsets files db)) q = Some m' \<Longrightarrow> distinct (map fst db)
    \<Longrightarrow> \<exists>m c. map_of db q = Some m \<and> map_of files (md_directoryName m) = Some c
      \<and> md_directoryName m' = md_directoryName m \<and> md_forkOffset m' = md_forkOffset m \<and> md_forkedFrom m' = md_forkedFrom m
      \<and> md_currentOffset m' = true_offset m c"
proof -
  assume d: "distinct (map fst db)" and "map_of (reconcile_refs (reconcile_offsets files db)) q = Some m'"
  then obtain x where x: "map_of (reconcile_offsets files db) q = Some x" "but_refs x m'" by (auto simp: refs_entry)
  then have "(q, x) \<in> set (reconcile_offsets files db)" by (auto dest: map_of_SomeD)
  then obtain m c where m: "(q, m) \<in> set db" "map_of files (md_directoryName m) = Some c" "x = m\<lparr>md_currentOffset := true_offset m c\<rparr>"
    by (induction files db rule: reconcile_offsets.induct) (auto split: option.splits)
  then show ?thesis using map_of_is_SomeI[OF d m(1)] but_refs_fields[OF x(2)] by (intro exI[of _ m] exI[of _ c]) simp
qed

lemma recover_rest:
  assumes "framed st"
  shows "at_rest (recover env st)"
proof -
  let ?st = "st\<lparr>fl_db := reconcile_refs (reconcile_offsets (fl_files st) (fl_db st))\<rparr>"
  have d: "distinct (map fst (fl_db st))" using assms by (simp add: framed_def)
  note from' = reconciled_from[OF _ d, of "fl_files st"]
  have "\<exists>ds. rests ?st m' ds" if "map_of (fl_db ?st) q = Some m'" for q m'
  proof -
    from that from'[of q m'] obtain m c where m: "map_of (fl_db st) q = Some m" "map_of (fl_files st) (md_directoryName m) = Some c"
      "md_directoryName m' = md_directoryName m" "md_forkOffset m' = md_forkOffset m" "md_forkedFrom m' = md_forkedFrom m" "md_currentOffset m' = true_offset m c" by auto
    obtain ds where l: "logged st m ds" using assms m(1) unfolding framed_def by blast
    then have "c = frames ds" "\<forall>x\<in>set ds. fits32 x" using m(2) by (simp_all add: logged_def)
    then have "scan_frames c = length (frames ds)" using scan_all[of ds "[]" 0] by simp
    then have "rests ?st m' ds" using l m true_offset_rests[OF l] by (simp add: rests_def logged_def base_byte_def)
    then show ?thesis ..
  qed
  moreover have "own_dirs (fl_db ?st)"
    using assms from' unfolding framed_def own_dirs_def by (simp, metis)
  moreover have "distinct (map fst (fl_db ?st))"
    using reconciled_keys(2)[OF d] by (simp add: reconcile_refs_def comp_def case_prod_beta)
  ultimately have r: "at_rest ?st" by (simp add: at_rest_iff)
  have "thins st (fold (fs_deleteWithCascade env) ps st)" for ps st
    by (induction ps arbitrary: st) (auto intro: thins_trans[OF thins_delete_cascade])
  from thins_rest[OF r this] show ?thesis by (simp add: recover_def Let_def)
qed

text \<open>A crash at the boundary of a frame leaves whole frames.\<close>

lemma crashed_framed:
  assumes "at_rest st" "fs_append_begin env p data opts initial st = (Inr tk, st1)" "fits32 (tk_data tk)"
    and "k = 0 \<or> k = length (frame (tk_data tk))"
  shows "framed (crashed tk k committed st)"
proof -
  have b: "tk_path tk = p" "map_of (fl_db st) p = Some (tk_meta tk)" using begin_live[OF assms(2)] by auto
  let ?st = "crashed tk k committed st" and ?f = "\<lambda>q m. if committed \<and> q = p then task_meta tk else m"
  have e: "map_of (fl_db ?st) q = map_option (?f q) (map_of (fl_db st) q)" for q
    using b by (cases "map_of (fl_db st) q") (auto simp: crashed_def crash_def db_put_def)
  have same: "md_directoryName (?f q m) = md_directoryName m \<and> md_forkOffset (?f q m) = md_forkOffset m
      \<and> md_forkedFrom (?f q m) = md_forkedFrom m" if "map_of (fl_db st) q = Some m" for q m
    using that b by auto
  have "\<exists>ds. logged ?st m' ds" if m': "map_of (fl_db ?st) q = Some m'" for q m'
  proof -
    obtain m where m: "map_of (fl_db st) q = Some m" "m' = ?f q m" using m' unfolding e by blast
    obtain ds where ds: "rests st m ds" using rest_entry[OF assms(1) m(1)] by blast
    have "map_of (fl_files ?st) (md_directoryName m) = Some (frames ds @ take (if q = p then k else 0) (frame (tk_data tk)))"
      using crashed_entry(2)[OF assms(1) b(2)[folded b(1)] m(1) ds, of k committed] b(1) by simp
    then have "logged ?st m' (if q = p \<and> k \<noteq> 0 then ds @ [tk_data tk] else ds)"
      using ds same[OF m(1)] assms(3,4) m(2) unfolding logged_def rests_def by auto
    then show ?thesis ..
  qed
  moreover have "own_dirs (fl_db ?st)"
    unfolding own_dirs_def
  proof (intro allI impI)
    fix q q' m m'
    assume m: "map_of (fl_db ?st) q = Some m" "map_of (fl_db ?st) q' = Some m'" "md_directoryName m = md_directoryName m'"
    then obtain x x' where x: "map_of (fl_db st) q = Some x" "m = ?f q x" "map_of (fl_db st) q' = Some x'" "m' = ?f q' x'"
      unfolding e by blast
    have "md_directoryName x = md_directoryName x'" using m(3) same[OF x(1)] same[OF x(3)] x(2,4) by simp
    then show "q = q'" using x(1,3) assms(1) unfolding at_rest_iff own_dirs_def by blast
  qed
  moreover have "distinct (map fst (fl_db ?st))"
    using assms(1) by (simp add: at_rest_iff crashed_def crash_def db_put_def distinct_update)
  ultimately show ?thesis by (simp add: framed_def)
qed

lemma rest_framed:
  assumes "at_rest st"
  shows "framed (crash (fl_files st) st)"
proof -
  have "logged (crash (fl_files st) st) m ds" if "rests st m ds" for m ds
    using that by (simp add: crash_def rests_def logged_def)
  then show ?thesis using assms unfolding at_rest_iff framed_def by (auto simp: crash_def) blast
qed

section \<open>The machine\<close>

text \<open>The operations of the store, each as it comes; \<open>Unlink\<close> is the removal of a deleted stream's file, \<open>Restart\<close> a stop and a
  recovery, \<open>Crash\<close> a recovery after an append was cut off before its frame or behind it.\<close>

inductive fs_step :: "file_store \<Rightarrow> file_store \<Rightarrow> bool" where
  Create: "create_args_ok env dir p opts (creation_state env p st) \<Longrightarrow> fs_step st (snd (fs_create env dir p opts st))"
| Append: "payload_fits env p data opts False st \<Longrightarrow> fs_step st (snd (fs_append env p data opts st))"
| Append_producer: "payload_fits env p data opts False st \<Longrightarrow> fs_step st (snd (fs_appendWithProducer env p data opts st))"
| Close: "fs_step st (snd (fs_closeStream env p st))"
| Close_producer: "fs_step st (snd (fs_closeStreamWithProducer env p i ep sq st))"
| Delete: "fs_step st (snd (fs_delete env p st))"
| Unlink: "\<forall>m\<in>snd ` set (fl_db st). md_directoryName m \<noteq> dir \<Longrightarrow> fs_step st (fs_unlink dir st)"
| Lookup: "fs_step st (snd (getMetaIfNotExpired env p st))"
| Touch: "fs_step st (fs_touchAccess env p st)"
| Read: "fs_step st (snd (fs_read env p offset st))"
| Wait: "fs_step st (snd (fs_waitForMessages env p offset' st))"
| Timeout: "fs_step st (fs_fire_timeout env q st)"
| Cancel_waits: "fs_step st (fs_cancelAllWaits env st)"
| Clear: "fs_step st (fs_clear env st)"
| Restart: "fs_step st (recover env (crash (fl_files st) st))"
| Crash: "fs_append_begin env p data opts initial st = (Inr tk, st1) \<Longrightarrow> fits32 (tk_data tk) \<Longrightarrow> k = 0 \<or> k = length (frame (tk_data tk))
    \<Longrightarrow> fs_step st (recover env' (crashed tk k committed st))"

inductive fs_reachable :: "file_store \<Rightarrow> bool" where
  fs_start: "fs_reachable empty_file_store"
| fs_next: "fs_reachable st \<Longrightarrow> fs_step st st' \<Longrightarrow> fs_reachable st'"

lemma append_producer_same: "snd (fs_appendWithProducer env p data opts st) = snd (fs_append env p data opts st)"
  by (auto simp: fs_appendWithProducer_def split: prod.splits sum.splits append_return.splits)

lemma fs_step_rest: "fs_step st st' \<Longrightarrow> at_rest st \<Longrightarrow> at_rest st'"
proof (induction rule: fs_step.induct)
  case Create
  then show ?case by (intro create_rest)
next
  case Append
  then show ?case using append_run_rest by (simp add: fs_append_def)
next
  case Append_producer
  then show ?case unfolding append_producer_same using append_run_rest by (simp add: fs_append_def)
next
  case Unlink
  then show ?case by (intro rest_unlink) (auto dest!: map_of_SomeD)
next
  case Restart
  then show ?case by (intro recover_rest rest_framed)
next
  case Crash
  then show ?case by (intro recover_rest crashed_framed)
qed (auto intro: thins_rest thins_close thins_close_producer thins_delete thins_meta thins_touch thins_read thins_wait thins_timeout
    thins_cancel_all thins_clear)

lemma reachable_rest:
  assumes "fs_reachable st"
  shows "at_rest st"
  using assms
proof (induction rule: fs_reachable.induct)
  case fs_start
  show ?case by (simp add: at_rest_def empty_file_store_def)
next
  case (fs_next st st')
  then show ?case using fs_step_rest[of st st'] by simp
qed

end
