(* ===== verification/File_Depth.thy ===== *)
theory File_Depth
  imports File_Machine "HOL-Library.Multiset"
begin

text \<open>
  The depth that \<open>fs_deleteWithCascade\<close> gives its recursion is enough: with any greater depth it does the same. Every nested deletion
  has taken a waiting reader or a record away.
\<close>

definition weight :: "file_store \<Rightarrow> nat" where
  "weight st = length (fl_polls st) + length (fl_db st)"

lemma length_delete_present: "map_of al k = Some x \<Longrightarrow> length (AList.delete k al) < length al"
  by (induction al) (auto simp: AList.delete_eq le_imp_less_Suc)

lemma length_delete_any: "length (AList.delete k al) \<le> length al"
  by (simp add: AList.delete_eq)

lemma weight_put: "map_of (fl_db st) p = Some x \<Longrightarrow> weight (db_put p m st) = weight st"
  by (simp add: weight_def db_put_def length_update_present)

lemma weight_settle [simp]: "weight (fs_settle i r st) = weight st"
  by (simp add: weight_def fs_settle_def)

lemma weight_fewer_polls: "weight (st\<lparr>fl_polls := filter P (fl_polls st)\<rparr>) \<le> weight st"
  by (simp add: weight_def)

lemma weight_unpend: "weight (fs_unpend q st) \<le> weight st" "q \<in> set (fl_polls st) \<Longrightarrow> weight (fs_unpend q st) < weight st"
proof -
  show "weight (fs_unpend q st) \<le> weight st" by (simp add: weight_def fs_unpend_def length_remove1)
  assume "q \<in> set (fl_polls st)"
  then have "length (remove1 q (fl_polls st)) < length (fl_polls st)" using length_pos_if_in_set by (fastforce simp: length_remove1)
  then show "weight (fs_unpend q st) < weight st" by (simp add: weight_def fs_unpend_def)
qed

lemma weight_drop_edge:
  "weight (snd (drop_edge p m st)) \<le> weight st"
  "map_of (fl_db st) p = Some x \<Longrightarrow> weight (snd (drop_edge p m st)) < weight st"
proof -
  have e: "weight (snd (drop_edge p m st)) = length (fl_polls st) + length (AList.delete p (fl_db st))"
    by (auto simp: weight_def drop_edge_def Let_def db_remove_def db_put_def length_update_present split: option.splits if_splits)
  show "weight (snd (drop_edge p m st)) \<le> weight st" unfolding e using length_delete_any[of p "fl_db st"] by (simp add: weight_def)
  assume "map_of (fl_db st) p = Some x"
  then show "weight (snd (drop_edge p m st)) < weight st" unfolding e using length_delete_present[of "fl_db st" p] by (simp add: weight_def)
qed

text \<open>A deletion that only takes away, and removes its record when the store is small enough for it.\<close>

definition deletes :: "(string \<Rightarrow> file_store \<Rightarrow> file_store) \<Rightarrow> nat \<Rightarrow> bool" where
  "deletes del N \<longleftrightarrow> (\<forall>p st. thins st (del p st) \<and> weight (del p st) \<le> weight st
     \<and> (weight st < N \<longrightarrow> map_of (fl_db (del p st)) p = None))"

lemma lookup_weight:
  assumes "deletes del N" "weight st < N"
  shows "weight (snd (lookup_with del env p st)) \<le> weight st
    \<and> (map_of (fl_db (snd (lookup_with del env p st))) p = None \<or> fl_polls (snd (lookup_with del env p st)) = fl_polls st)"
  using assms
  by (auto simp: lookup_with_def Let_def deletes_def weight_put split: option.splits) (simp_all add: db_put_def)

lemma lookup_gone: "map_of (fl_db st) p = None \<Longrightarrow> lookup_with del env p st = (None, st)"
  by (simp add: lookup_with_def)

lemma unpend_db [simp]: "fl_db (fs_unpend q st) = fl_db st" "fl_polls (fs_unpend q st) = remove1 q (fl_polls st)"
  by (simp_all add: fs_unpend_def)

lemma settle_db [simp]: "fl_db (fs_settle i r st) = fl_db st" "fl_polls (fs_settle i r st) = fl_polls st"
  by (simp_all add: fs_settle_def)

lemma cancel_gone:
  assumes "map_of (fl_db st) p = None" "\<forall>q\<in>set qs. pl_path q = p"
  shows "cancel_with del env qs st = cancel_with del' env qs st \<and> weight (cancel_with del env qs st) \<le> weight st"
  using assms
proof (induction qs arbitrary: st)
  case (Cons q qs)
  let ?st = "fs_unpend q st" and ?r = "\<lparr>wr_messages = [], wr_timedOut = False, wr_streamClosed = None\<rparr>"
  have p: "pl_path q = p" using Cons.prems(2) by simp
  have l: "lookup_with d env p ?st = (None, ?st)" for d using Cons.prems(1) by (intro lookup_gone) simp
  have "cancel_with d env (q # qs) st = cancel_with d env qs (fs_settle (pl_id q) ?r ?st)" for d using l p by simp
  moreover have "cancel_with del env qs (fs_settle (pl_id q) ?r ?st) = cancel_with del' env qs (fs_settle (pl_id q) ?r ?st)
      \<and> weight (cancel_with del env qs (fs_settle (pl_id q) ?r ?st)) \<le> weight (fs_settle (pl_id q) ?r ?st)"
    using Cons.prems by (intro Cons.IH) simp_all
  ultimately show ?case using weight_unpend(1)[of q st] by (simp, metis le_trans)
qed simp

lemma cancel_agree:
  assumes "deletes del N" "\<And>p st. weight st < N \<Longrightarrow> del p st = del' p st"
    and "mset qs \<subseteq># mset (fl_polls st)" "\<forall>q\<in>set qs. pl_path q = p" "weight st \<le> N"
  shows "cancel_with del env qs st = cancel_with del' env qs st \<and> weight (cancel_with del env qs st) \<le> weight st - (if qs = [] then 0 else 1)"
  using assms(3-)
proof (induction qs arbitrary: st)
  case (Cons q qs)
  let ?st = "fs_unpend q st"
  have p: "pl_path q = p" using Cons.prems(2) by simp
  have q: "q \<in> set (fl_polls st)" using Cons.prems(1) by (metis list.set_intros(1) mset_subset_eqD set_mset_mset)
  have w: "weight ?st < weight st" by (rule weight_unpend(2)[OF q])
  then have wN: "weight ?st < N" using Cons.prems(3) by simp
  have same: "lookup_with del env p ?st = lookup_with del' env p ?st"
    using assms(2)[OF wN] by (simp add: lookup_with_def split: option.splits)
  obtain cur st1 where l: "lookup_with del env p ?st = (cur, st1)" by fastforce
  let ?st2 = "fs_settle (pl_id q) \<lparr>wr_messages = [], wr_timedOut = False, wr_streamClosed = map_option md_closed cur\<rparr> st1"
  have step: "cancel_with del env (q # qs) st = cancel_with del env qs ?st2" "cancel_with del' env (q # qs) st = cancel_with del' env qs ?st2"
    using l same p by simp_all
  have lw: "weight ?st2 \<le> weight ?st" "map_of (fl_db ?st2) p = None \<or> fl_polls ?st2 = remove1 q (fl_polls st)"
    using lookup_weight[OF assms(1) wN, of env p] l by simp_all
  have "cancel_with del env qs ?st2 = cancel_with del' env qs ?st2 \<and> weight (cancel_with del env qs ?st2) \<le> weight ?st2"
  proof (cases "map_of (fl_db ?st2) p = None")
    case True
    have "\<forall>q\<in>set qs. pl_path q = p" using Cons.prems(2) by simp
    then show ?thesis by (rule cancel_gone[OF True])
  next
    case False
    then have "fl_polls ?st2 = remove1 q (fl_polls st)" using lw(2) by (simp only: disj_not1 simp_thms)
    then have "mset qs \<subseteq># mset (fl_polls ?st2)" using Cons.prems(1) by (simp add: insert_subset_eq_iff)
    then have "cancel_with del env qs ?st2 = cancel_with del' env qs ?st2
        \<and> weight (cancel_with del env qs ?st2) \<le> weight ?st2 - (if qs = [] then 0 else 1)"
      using Cons.prems(2,3) lw(1) w by (intro Cons.IH) simp_all
    then show ?thesis by (auto split: if_splits)
  qed
  then show ?case unfolding step using lw(1) w by auto
qed simp

lemma cancel_polls_weight:
  assumes "\<And>p st. weight (del p st) \<le> weight st"
  shows "weight (cancel_polls del env p st) \<le> weight st"
proof -
  have l: "weight (snd (lookup_with del env p st)) \<le> weight st" for p st
    using assms by (auto simp: lookup_with_def Let_def weight_put split: option.splits)
  have "weight (cancel_with del env qs st) \<le> weight st" for qs
  proof (induction qs arbitrary: st)
    case (Cons q qs)
    obtain cur st1 where e: "lookup_with del env (pl_path q) (fs_unpend q st) = (cur, st1)" by fastforce
    have "weight st1 \<le> weight st" using l[of "pl_path q" "fs_unpend q st"] e weight_unpend(1)[of q st] by simp
    then have "weight (cancel_with del env qs (fs_settle i r st1)) \<le> weight st" for i r using le_trans[OF Cons.IH] by simp
    then show ?case using e by simp
  qed simp
  from le_trans[OF weight_fewer_polls this] show ?thesis by (simp add: cancel_polls_def Let_def)
qed

lemma cancel_polls_agree:
  assumes "deletes del N" "\<And>p st. weight st < N \<Longrightarrow> del p st = del' p st" "weight st \<le> N" "map_of (fl_db st) p = Some x"
  shows "cancel_polls del env p st = cancel_polls del' env p st \<and> weight (cancel_polls del env p st) \<le> weight st
    \<and> (map_of (fl_db (cancel_polls del env p st)) p = None \<longrightarrow> weight (cancel_polls del env p st) < weight st)"
proof -
  let ?qs = "filter (\<lambda>q. pl_path q = p) (fl_polls st)"
  have s: "mset ?qs \<subseteq># mset (fl_polls st)" by (simp add: multiset_filter_subset)
  have p: "\<forall>q\<in>set ?qs. pl_path q = p" by simp
  note c' = cancel_agree[OF assms(1) _ s p assms(3), of del' env, OF assms(2)]
  note c = conjunct1[OF c'] conjunct2[OF c']
  let ?st = "cancel_with del env ?qs st"
  have f: "weight (cancel_polls del env p st) \<le> weight ?st" using weight_fewer_polls by (simp add: cancel_polls_def Let_def)
  have db: "fl_db (cancel_polls del env p st) = fl_db ?st" by (simp add: cancel_polls_def Let_def)
  have lt: "weight ?st < weight st" if "map_of (fl_db ?st) p = None"
  proof -
    have n: "?qs \<noteq> []" using that assms(4) by (metis cancel_with.simps(1) option.distinct(1))
    then obtain q where "q \<in> set (fl_polls st)" by (auto simp: filter_empty_conv)
    then have "0 < weight st" by (cases "fl_polls st") (auto simp: weight_def)
    then show ?thesis using c(2) n by simp
  qed
  have le: "weight ?st \<le> weight st" using c(2) by (simp split: if_splits)
  have eq: "cancel_polls del env p st = cancel_polls del' env p st" using c(1) by (simp add: cancel_polls_def)
  show ?thesis by (intro conjI impI eq le_trans[OF f le] le_less_trans[OF f lt]) (simp add: db)
qed

lemma cascade_deletes: "deletes (fs_cascade n env) n"
proof (induction n)
  case (Suc n)
  have "weight (fs_cascade (Suc n) env p st) \<le> weight st \<and> map_of (fl_db (fs_cascade (Suc n) env p st)) p = None" for p st
  proof (cases "map_of (fl_db st) p")
    case (Some m)
    let ?st = "cancel_polls (fs_cascade n env) env p st"
    obtain again st1 where d: "drop_edge p m ?st = (again, st1)" by fastforce
    have 1: "map_of (fl_db st1) p = None"
      using d by (auto simp: drop_edge_def Let_def db_remove_def db_put_def split: if_splits option.splits)
    have 2: "map_of (fl_db (fs_cascade n env q st1)) p = None" for q
      using thins_cascade[of st1 n env q] 1 unfolding thins_def by (metis option.collapse option.distinct(1))
    have 3: "weight (fs_cascade n env q st1) \<le> weight st1" for q using Suc by (simp add: deletes_def)
    have "weight ?st \<le> weight st" using Suc by (intro cancel_polls_weight) (simp add: deletes_def)
    then have "weight st1 \<le> weight st" using weight_drop_edge(1)[of p m ?st] d by simp
    then show ?thesis using Some d 1 2 3 le_trans[OF 3] by auto
  qed simp
  then show ?case using thins_cascade by (simp add: deletes_def del: fs_cascade.simps)
qed (simp add: deletes_def)

text \<open>The depth is enough.\<close>

lemma cascade_agree:
  assumes "weight st < n" "weight st < n'"
  shows "fs_cascade n env p st = fs_cascade n' env p st"
  using assms
proof (induction n arbitrary: n' p st)
  case (Suc n)
  obtain k where k: "n' = Suc k" using Suc.prems(2) by (cases n') auto
  show ?case
  proof (cases "map_of (fl_db st) p")
    case (Some m)
    have w: "weight st \<le> n" "weight st \<le> k" using Suc.prems k by simp_all
    have d: "deletes (fs_cascade n env) (weight st)" using cascade_deletes[of n env] w(1) by (auto simp: deletes_def)
    have a: "fs_cascade n env q x = fs_cascade k env q x" if "weight x < weight st" for q x
      using that w by (intro Suc.IH) simp_all
    let ?st = "cancel_polls (fs_cascade n env) env p st"
    have c: "?st = cancel_polls (fs_cascade k env) env p st \<and> weight ?st \<le> weight st
        \<and> (map_of (fl_db ?st) p = None \<longrightarrow> weight ?st < weight st)"
      by (rule cancel_polls_agree[OF d a order_refl Some])
    obtain again st1 where e: "drop_edge p m ?st = (again, st1)" by fastforce
    have "weight st1 < weight st"
    proof (cases "map_of (fl_db ?st) p")
      case None
      then have "weight ?st < weight st" by (rule mp[OF conjunct2[OF conjunct2[OF c]]])
      then show ?thesis using weight_drop_edge(1)[of p m ?st] unfolding e by simp
    next
      case (Some x)
      have "weight ?st \<le> weight st" by (rule conjunct1[OF conjunct2[OF c]])
      then show ?thesis using weight_drop_edge(2)[OF Some, of m] unfolding e by simp
    qed
    from a[OF this] have "fs_cascade n env (the (md_forkedFrom m)) st1 = fs_cascade k env (the (md_forkedFrom m)) st1" .
    then show ?thesis using Some e c k by simp
  qed (simp add: k)
qed simp

lemma depth_enough: "fs_depth st \<le> n \<Longrightarrow> fs_cascade n env p st = fs_deleteWithCascade env p st"
  unfolding fs_deleteWithCascade_def by (intro cascade_agree) (simp_all add: weight_def)

end
