(* ===== verification/File_Read.thy ===== *)
theory File_Read
  imports File_Machine Store_Props
begin

text \<open>
  The store in memory as the specification of the file-backed one: \<open>mem_of\<close> is the map of streams with the messages of their
  files, and a read of the files along a chain of forks gives what the read of that map gives. The properties of the
  file-backed store and their instances.
\<close>

section \<open>Messages of a segment\<close>

lemma seg_message_offset:
  "m \<in> set (seg_messages pos ds) \<Longrightarrow> \<exists>n. m_offset m = off n \<and> pos < n \<and> n \<le> pos + length (frames ds)"
  by (induction ds arbitrary: pos) fastforce+

lemma after_byte_seg:
  assumes "pos + length (frames ds) < MAX_OFFSET" "s < MAX_OFFSET"
  shows "filter (\<lambda>m. off s < m_offset m) (seg_messages pos ds) = after_byte s (seg_messages pos ds)"
proof -
  have "off s < m_offset m \<longleftrightarrow> s < off_val (m_offset m)" if "m \<in> set (seg_messages pos ds)" for m
    using seg_message_offset[OF that] assms by (auto simp: off_less_iff)
  then show ?thesis unfolding after_byte_def by (intro filter_cong refl)
qed

lemma seg_sorted:
  assumes "pos + length (frames ds) < MAX_OFFSET"
  shows "sorted_wrt (<) (map m_offset (seg_messages pos ds))"
  using assms
proof (induction ds arbitrary: pos)
  case (Cons d ds)
  have "off (pos + length (frame d)) < m_offset m" if "m \<in> set (seg_messages (pos + length (frame d)) ds)" for m
    using seg_message_offset[OF that] Cons.prems by (auto simp: off_less_iff)
  then show ?case using Cons by (auto simp: add_ac)
qed simp

lemma capped_none:
  assumes "pos + length (frames ds) < MAX_OFFSET" "cap \<le> pos" "s < MAX_OFFSET"
  shows "own_capped (Some (off s)) (Some (off cap)) (seg_messages pos ds) = []"
  using assms
proof (induction ds arbitrary: pos)
  case (Cons d ds)
  have "off cap < off (pos + length (frame d))" using Cons.prems by (simp add: off_less_iff)
  moreover have "own_capped (Some (off s)) (Some (off cap)) (seg_messages (pos + length (frame d)) ds) = []"
    using Cons.prems by (intro Cons.IH) simp_all
  ultimately show ?case by simp
qed simp

lemma segment_capped:
  assumes "\<forall>x\<in>set ds. fits32 x" "pos + length (frames ds) < MAX_OFFSET" "s < MAX_OFFSET" "cap < MAX_OFFSET"
  shows "readMessagesFromSegmentFile (frames ds) (Some s) (Some pos) (Some (Some cap))
    = own_capped (Some (off s)) (Some (off cap)) (seg_messages pos ds)"
  using assms
proof (induction ds arbitrary: pos)
  case Nil
  then show ?case by (simp add: segment_short)
next
  case (Cons d ds)
  let ?n = "pos + length (frame d)"
  have d: "fits32 d" and n: "?n < MAX_OFFSET" using Cons.prems by simp_all
  have t: "take (length d) (drop 4 (frame d @ frames ds)) = d" by (simp add: frame_def)
  have r: "drop (4 + length d + 1) (frame d @ frames ds) = frames ds" by simp
  have step: "readMessagesFromSegmentFile (frames (d # ds)) (Some s) (Some pos) (Some (Some cap))
    = (if cap < ?n then [] else (if s < ?n then [\<lparr>m_data = d, m_offset = off ?n, m_timestamp = 0\<rparr>] else [])
        @ readMessagesFromSegmentFile (frames ds) (Some s) (Some ?n) (Some (Some cap)))"
    by (subst readMessagesFromSegmentFile.simps) (use t r in \<open>simp add: Let_def read_frame[OF d] off_def[symmetric] add.assoc\<close>)
  have IH: "readMessagesFromSegmentFile (frames ds) (Some s) (Some ?n) (Some (Some cap))
      = own_capped (Some (off s)) (Some (off cap)) (seg_messages ?n ds)"
    using Cons.prems by (intro Cons.IH) (simp_all add: add_ac)
  have le: "off ?n \<le> off s \<longleftrightarrow> ?n \<le> s" "off cap < off ?n \<longleftrightarrow> cap < ?n"
    using n Cons.prems by (simp_all add: off_less_iff linorder_not_less[symmetric])
  have nn: "cap < ?n \<Longrightarrow> own_capped (Some (off s)) (Some (off cap)) (seg_messages ?n ds) = []"
    using Cons.prems by (intro capped_none) (simp_all add: add_ac)
  show ?case unfolding step IH using le nn off_not_nil[of s] by (auto simp: le nn)
qed

section \<open>The streams in memory\<close>

definition mem_stream :: "file_store \<Rightarrow> stream_metadata \<Rightarrow> stream" where
  "mem_stream st m = (streamMetaToStream m)\<lparr>messages := own_messages st m 0\<rparr>"

definition mem_of :: "file_store \<Rightarrow> store" where
  "mem_of st = empty_store\<lparr>streams := map (\<lambda>(p, m). (p, mem_stream st m)) (fl_db st)\<rparr>"

lemma mem_entry: "map_of (streams (mem_of st)) q = map_option (mem_stream st) (map_of (fl_db st) q)"
proof -
  have "map_of (map (\<lambda>(p, m). (p, mem_stream st m)) db) q = map_option (mem_stream st) (map_of db q)" for db
    by (induction db) auto
  then show ?thesis by (simp add: mem_of_def)
qed

lemma mem_stream_fields [simp]: "forkedFrom (mem_stream st m) = md_forkedFrom m" "forkOffset (mem_stream st m) = md_forkOffset m"
  "currentOffset (mem_stream st m) = md_currentOffset m" "expiresAt (mem_stream st m) = md_expiresAt m"
  "ttlSeconds (mem_stream st m) = md_ttlSeconds m" "lastAccessedAt (mem_stream st m) = md_lastAccessedAt m"
  by (simp_all add: mem_stream_def streamMetaToStream_def)

lemma after_zero: "after_byte 0 (seg_messages pos ds) = seg_messages pos ds"
  by (induction ds arbitrary: pos) simp_all

lemma mem_messages: "rests st m ds \<Longrightarrow> messages (mem_stream st m) = seg_messages (base_byte m) ds"
  by (simp add: mem_stream_def rests_own after_zero)

text \<open>Tails that fit the padding, as \<open>room\<close> grants for the store in memory.\<close>

definition tails_fit :: "file_store \<Rightarrow> bool" where
  "tails_fit st \<longleftrightarrow> (\<forall>m\<in>snd ` set (fl_db st). canonical (md_currentOffset m))"

lemma fit_entry:
  assumes "at_rest st" "tails_fit st" "map_of (fl_db st) q = Some m"
  shows "\<exists>ds. rests st m ds \<and> base_byte m + length (frames ds) < MAX_OFFSET"
proof -
  obtain ds where ds: "rests st m ds" using rest_entry[OF assms(1,3)] by blast
  have "canonical (md_currentOffset m)" using assms(2) map_of_SomeD[OF assms(3)] unfolding tails_fit_def by force
  then show ?thesis using ds by (auto simp: rests_def)
qed

section \<open>Chains of forks\<close>

text \<open>The walk of either store at a source, over the walk \<open>f\<close> of the source's own source.\<close>

definition chain_body :: "file_store \<Rightarrow> (string \<Rightarrow> nat \<Rightarrow> stream_message list option) \<Rightarrow> string \<Rightarrow> nat \<Rightarrow> nat \<Rightarrow> stream_message list option" where
  "chain_body st f src s cap = (case map_of (fl_db st) src of
      None \<Rightarrow> Some []
    | Some m \<Rightarrow> Option.bind (if truthy (md_forkedFrom m) \<and> s < base_byte m then f (the (md_forkedFrom m)) (min (base_byte m) cap) else Some [])
        (\<lambda>inherited. Some (inherited @ own_capped (Some (off s)) (Some (off cap)) (messages (mem_stream st m)))))"

lemma fork_base:
  assumes "rests st m ds" "truthy (md_forkedFrom m)"
  shows "md_forkOffset m = Some (off (base_byte m)) \<and> truthy (md_forkOffset m)"
  using assms by (auto simp: rests_def logged_def base_byte_def)

lemma segment_base: "rests st m ds \<Longrightarrow> (if truthy (md_forkOffset m) then byte_of (the (md_forkOffset m)) else Some 0) = Some (base_byte m)"
  by (auto simp: rests_def logged_def base_byte_def)

lemma file_chain_body:
  assumes "at_rest st" "tails_fit st" "s < MAX_OFFSET" "cap < MAX_OFFSET"
  shows "(case map_of (fl_db st) src of
        None \<Rightarrow> Some []
      | Some m \<Rightarrow>
          (let fork = truthy (md_forkedFrom m) \<and> truthy (md_forkOffset m);
               sourceForkByte = byte_of (the (md_forkOffset m));
               base = (if truthy (md_forkOffset m) then sourceForkByte else Some 0)
           in Option.bind
                (if fork \<and> num_less (Some s) sourceForkByte then f st (the (md_forkedFrom m)) (Some s) (num_min sourceForkByte (Some cap)) else Some [])
                (\<lambda>inherited. Some (inherited @ readMessagesFromSegmentFile (segment (md_directoryName m) st) (Some s) base (Some (Some cap))))))
    = chain_body st (\<lambda>src c. f st src (Some s) (Some c)) src s cap"
proof (cases "map_of (fl_db st) src")
  case (Some m)
  from fit_entry[OF assms(1,2) Some] obtain ds where ds: "rests st m ds" "base_byte m + length (frames ds) < MAX_OFFSET" by blast
  have "segment (md_directoryName m) st = frames ds" "\<forall>x\<in>set ds. fits32 x" using ds(1) by (simp_all add: rests_def logged_def segment_def)
  then have own: "readMessagesFromSegmentFile (segment (md_directoryName m) st) (Some s) (Some (base_byte m)) (Some (Some cap))
      = own_capped (Some (off s)) (Some (off cap)) (messages (mem_stream st m))"
    using segment_capped[of ds "base_byte m" s cap] ds assms(3,4) mem_messages by simp
  show ?thesis
  proof (cases "truthy (md_forkedFrom m)")
    case True
    then show ?thesis using Some own fork_base[OF ds(1) True] by (simp add: chain_body_def Let_def num_min_def off_not_nil)
  next
    case False
    then show ?thesis unfolding Let_def Some option.case segment_base[OF ds(1)] own chain_body_def by simp
  qed
qed (simp add: chain_body_def)

lemma mem_chain_body:
  assumes "at_rest st" "tails_fit st" "s < MAX_OFFSET" "cap < MAX_OFFSET"
  shows "(case map_of (streams (mem_of st)) src of
        None \<Rightarrow> Some []
      | Some source \<Rightarrow>
          Option.bind
            (if truthy (forkedFrom source) \<and> (\<not> truthy (Some (off s)) \<or> js_less (Some (off s)) (forkOffset source))
             then f (streams (mem_of st)) (the (forkedFrom source)) (Some (off s))
                    (if js_less (forkOffset source) (Some (off cap)) then forkOffset source else Some (off cap))
             else Some [])
            (\<lambda>inherited. Some (inherited @ own_capped (Some (off s)) (Some (off cap)) (messages source))))
    = chain_body st (\<lambda>src c. f (streams (mem_of st)) src (Some (off s)) (Some (off c))) src s cap"
proof (cases "map_of (fl_db st) src")
  case (Some m)
  from fit_entry[OF assms(1,2) Some] obtain ds where ds: "rests st m ds" "base_byte m + length (frames ds) < MAX_OFFSET" by blast
  show ?thesis
  proof (cases "truthy (md_forkedFrom m)")
    case True
    have "base_byte m < MAX_OFFSET" using ds(2) by simp
    then have lt: "off s < off (base_byte m) \<longleftrightarrow> s < base_byte m" "off (base_byte m) < off cap \<longleftrightarrow> base_byte m < cap"
      using assms(3,4) by (simp_all add: off_less_iff)
    have fo: "md_forkOffset m = Some (off (base_byte m))" using fork_base[OF ds(1) True] by simp
    show ?thesis using Some True fo lt off_not_nil[of s] by (simp add: mem_entry chain_body_def min_def)
  next
    case False
    then show ?thesis using Some by (simp add: mem_entry chain_body_def)
  qed
qed (simp add: mem_entry chain_body_def)

lemma base_fits: "at_rest st \<Longrightarrow> tails_fit st \<Longrightarrow> map_of (fl_db st) q = Some m \<Longrightarrow> base_byte m < MAX_OFFSET"
  using fit_entry by fastforce

lemma chain_body_mono:
  assumes "chain_body st f src s cap = Some ms" "at_rest st" "tails_fit st"
    and "\<And>q c ms. f q c = Some ms \<Longrightarrow> c < MAX_OFFSET \<Longrightarrow> g q c = Some ms"
  shows "chain_body st g src s cap = Some ms"
proof (cases "map_of (fl_db st) src")
  case None
  then show ?thesis using assms(1) by (simp add: chain_body_def)
next
  case (Some m)
  have c: "min (base_byte m) cap < MAX_OFFSET" using base_fits[OF assms(2,3) Some] by simp
  show ?thesis using assms(1) assms(4)[OF _ c] Some
    by (auto simp: chain_body_def split: if_splits bind_splits)
qed

lemma file_to_mem:
  assumes "at_rest st" "tails_fit st" "s < MAX_OFFSET" "cap < MAX_OFFSET" "fs_readForkedMessages st src (Some s) (Some cap) = Some ms"
  shows "readForkedMessages (streams (mem_of st)) src (Some (off s)) (Some (off cap)) = Some ms"
proof -
  have "st' = st \<longrightarrow> a = Some s \<longrightarrow> (\<forall>cap < MAX_OFFSET. b = Some cap \<longrightarrow>
      readForkedMessages (streams (mem_of st)) src' (Some (off s)) (Some (off cap)) = Some ms')"
    if "fs_readForkedMessages st' src' a b = Some ms'" for st' src' a b ms'
  proof (rule fs_readForkedMessages.raw_induct[OF _ that, where P = "\<lambda>st' src' a b ms'. st' = st \<longrightarrow> a = Some s \<longrightarrow>
      (\<forall>cap < MAX_OFFSET. b = Some cap \<longrightarrow> readForkedMessages (streams (mem_of st)) src' (Some (off s)) (Some (off cap)) = Some ms')"],
      intro impI allI)
    fix f st' src' a b ms' c
    assume IH: "\<And>st' src' a b ms'. f st' src' a b = Some ms' \<Longrightarrow> st' = st \<longrightarrow> a = Some s \<longrightarrow>
        (\<forall>cap < MAX_OFFSET. b = Some cap \<longrightarrow> readForkedMessages (streams (mem_of st)) src' (Some (off s)) (Some (off cap)) = Some ms')"
      and body: "(case map_of (fl_db st') src' of None \<Rightarrow> Some [] | Some m \<Rightarrow>
          (let fork = truthy (md_forkedFrom m) \<and> truthy (md_forkOffset m); sourceForkByte = byte_of (the (md_forkOffset m));
               base = (if truthy (md_forkOffset m) then sourceForkByte else Some 0)
           in Option.bind (if fork \<and> num_less a sourceForkByte then f st' (the (md_forkedFrom m)) a (num_min sourceForkByte b) else Some [])
                (\<lambda>inherited. Some (inherited @ readMessagesFromSegmentFile (segment (md_directoryName m) st') a base (Some b))))) = Some ms'"
      and e: "st' = st" "a = Some s" "c < MAX_OFFSET" "b = Some c"
    from body have b: "chain_body st (\<lambda>src c. f st src (Some s) (Some c)) src' s c = Some ms'"
      unfolding e file_chain_body[OF assms(1-3) e(3)] .
    have "chain_body st (\<lambda>src c. readForkedMessages (streams (mem_of st)) src (Some (off s)) (Some (off c))) src' s c = Some ms'"
      by (rule chain_body_mono[OF b assms(1,2)]) (use IH in blast)
    then show "readForkedMessages (streams (mem_of st)) src' (Some (off s)) (Some (off c)) = Some ms'"
      by (subst readForkedMessages.simps) (simp only: mem_chain_body[OF assms(1-3) e(3)])
  qed
  then show ?thesis using assms(4,5) by blast
qed

lemma mem_to_file:
  assumes "at_rest st" "tails_fit st" "s < MAX_OFFSET" "cap < MAX_OFFSET"
    and "readForkedMessages (streams (mem_of st)) src (Some (off s)) (Some (off cap)) = Some ms"
  shows "fs_readForkedMessages st src (Some s) (Some cap) = Some ms"
proof -
  have "ss = streams (mem_of st) \<longrightarrow> a = Some (off s) \<longrightarrow> (\<forall>cap < MAX_OFFSET. b = Some (off cap) \<longrightarrow>
      fs_readForkedMessages st src' (Some s) (Some cap) = Some ms')"
    if "readForkedMessages ss src' a b = Some ms'" for ss src' a b ms'
  proof (rule readForkedMessages.raw_induct[OF _ that, where P = "\<lambda>ss src' a b ms'. ss = streams (mem_of st) \<longrightarrow> a = Some (off s) \<longrightarrow>
      (\<forall>cap < MAX_OFFSET. b = Some (off cap) \<longrightarrow> fs_readForkedMessages st src' (Some s) (Some cap) = Some ms')"],
      intro impI allI)
    fix f ss src' a b ms' c
    assume IH: "\<And>ss src' a b ms'. f ss src' a b = Some ms' \<Longrightarrow> ss = streams (mem_of st) \<longrightarrow> a = Some (off s) \<longrightarrow>
        (\<forall>cap < MAX_OFFSET. b = Some (off cap) \<longrightarrow> fs_readForkedMessages st src' (Some s) (Some cap) = Some ms')"
      and body: "(case map_of ss src' of None \<Rightarrow> Some [] | Some source \<Rightarrow>
          Option.bind
            (if truthy (forkedFrom source) \<and> (\<not> truthy a \<or> js_less a (forkOffset source))
             then f ss (the (forkedFrom source)) a (if js_less (forkOffset source) b then forkOffset source else b) else Some [])
            (\<lambda>inherited. Some (inherited @ own_capped a b (messages source)))) = Some ms'"
      and e: "ss = streams (mem_of st)" "a = Some (off s)" "c < MAX_OFFSET" "b = Some (off c)"
    from body have b: "chain_body st (\<lambda>src c. f (streams (mem_of st)) src (Some (off s)) (Some (off c))) src' s c = Some ms'"
      unfolding e mem_chain_body[OF assms(1-3) e(3)] .
    have "chain_body st (\<lambda>src c. fs_readForkedMessages st src (Some s) (Some c)) src' s c = Some ms'"
      by (rule chain_body_mono[OF b assms(1,2)]) (use IH in blast)
    then show "fs_readForkedMessages st src' (Some s) (Some c) = Some ms'"
      by (subst fs_readForkedMessages.simps) (simp only: file_chain_body[OF assms(1-3) e(3)])
  qed
  then show ?thesis using assms(4,5) by blast
qed

lemma chains_agree:
  assumes "at_rest st" "tails_fit st" "s < MAX_OFFSET" "cap < MAX_OFFSET"
  shows "fs_readForkedMessages st src (Some s) (Some cap) = readForkedMessages (streams (mem_of st)) src (Some (off s)) (Some (off cap))"
  using file_to_mem[OF assms, of src] mem_to_file[OF assms, of src]
  by (cases "fs_readForkedMessages st src (Some s) (Some cap)"; cases "readForkedMessages (streams (mem_of st)) src (Some (off s)) (Some (off cap))")
    auto

section \<open>Reads\<close>

lemma mem_own:
  assumes "rests st m ds" "base_byte m + length (frames ds) < MAX_OFFSET" "s < MAX_OFFSET"
  shows "readOwnMessages (mem_stream st m) (off s) = after_byte s (seg_messages (base_byte m) ds)"
proof -
  let ?ms = "seg_messages (base_byte m) ds"
  have "(if find_offset_from 0 ?ms (off s) = -1 then [] else drop (nat (find_offset_from 0 ?ms (off s))) ?ms) = filter (\<lambda>m. off s < m_offset m) ?ms"
  proof (cases "find_offset_from 0 ?ms (off s) = -1")
    case True
    then show ?thesis using find_offset_none[of 0 ?ms "off s"] by (auto intro!: filter_False[symmetric])
  next
    case False
    then show ?thesis using find_offset_drop[OF seg_sorted[OF assms(2)] False] by simp
  qed
  then show ?thesis using after_byte_seg[OF assms(2,3)] mem_messages[OF assms(1)]
    by (simp only: readOwnMessages_def findOffsetIndex_def Let_def)
qed

lemma after_end: "base + length (frames ds) \<le> s \<Longrightarrow> after_byte s (seg_messages base ds) = []"
  using seg_message_offset by (fastforce simp: after_byte_def filter_empty_conv)

lemma off_not_start [simp]: "off n \<noteq> ''-1''"
  by (simp add: off_eq numeral_eq_Suc)

lemma read_own_messages: "\<not> truthy (forkedFrom x) \<Longrightarrow> read_messages ss x (Some (off s)) = Inr \<lparr>rr_messages = readOwnMessages x (off s), rr_upToDate = True\<rparr>"
  by (auto simp: read_messages_def readOwnMessages_def Let_def off_not_nil)

lemma read_fork_messages: "truthy (forkedFrom x) \<Longrightarrow> read_messages ss x (Some (off s)) = readFromFork ss x (off s)"
  by (simp add: read_messages_def off_not_nil)

lemma read_messages_agree:
  assumes "at_rest st" "tails_fit st" "map_of (fl_db st) p = Some m" "s < MAX_OFFSET"
  shows "fs_read_messages st m (Some (off s)) = read_messages (streams (mem_of st)) (mem_stream st m) (Some (off s))"
proof -
  from fit_entry[OF assms(1-3)] obtain ds where ds: "rests st m ds" "base_byte m + length (frames ds) < MAX_OFFSET" by blast
  let ?tail = "base_byte m + length (frames ds)"
  have cur: "md_currentOffset m = off ?tail" and seg: "segment (md_directoryName m) st = frames ds" and fit: "\<forall>x\<in>set ds. fits32 x"
    using ds(1) by (simp_all add: rests_def logged_def segment_def)
  note own = mem_own[OF ds assms(4)]
  have unf: "fs_read_messages st m (Some (off s)) = (if s < ?tail then
       (if truthy (md_forkedFrom m) then chain_result
            (if s < base_byte m then fs_readForkedMessages st (the (md_forkedFrom m)) (Some s) (Some (base_byte m)) else Some [])
            (\<lambda>inherited. \<lparr>rr_messages = inherited @ after_byte s (seg_messages (base_byte m) ds), rr_upToDate = True\<rparr>)
        else Inr \<lparr>rr_messages = after_byte s (seg_messages 0 ds), rr_upToDate = True\<rparr>)
      else Inr \<lparr>rr_messages = [], rr_upToDate = True\<rparr>)"
    using cur fork_base[OF ds(1)] segment_frames[OF fit]
    by (auto simp: fs_read_messages_def Let_def seg ZERO_OFFSET_off off_not_nil)
  show ?thesis
  proof (cases "truthy (md_forkedFrom m)")
    case True
    have b: "base_byte m < MAX_OFFSET" using ds(2) by simp
    have fo: "md_forkOffset m = Some (off (base_byte m))" using fork_base[OF ds(1) True] by simp
    show ?thesis unfolding unf using True fo own after_end[of "base_byte m" ds s] chains_agree[OF assms(1,2,4) b] assms(4) b
      by (auto simp: read_fork_messages readFromFork_def off_less_iff chain_result_def)
  next
    case False
    then have "base_byte m = 0" using ds(1) by (simp add: rests_def logged_def base_byte_def)
    with False show ?thesis unfolding unf using own after_end[of "base_byte m" ds s] by (simp add: read_own_messages)
  qed
qed

text \<open>C9. A read from the files is a read of the store in memory. In every state the file-backed store reaches, with tails that fit the
  padding, \<^verbatim>\<open>read\<close> of a live stream at any position returns what \<^verbatim>\<open>StreamStore.read\<close> returns on the map of streams that have
  the messages of their files: the same messages and offsets, along any chain of forks, also when the walk does not end.\<close>

theorem file_read_refines:
  assumes "fs_reachable st" "tails_fit st" "map_of (fl_db st) p = Some m" "\<not> fs_isExpired env m" "s < MAX_OFFSET"
  shows "fst (fs_read env p (Some (off s)) st) = fst (read env p (Some (off s)) (mem_of st))"
proof -
  have "getMetaIfNotExpired env p st = (Some m, st)" using assms(3,4) by (simp add: getMetaIfNotExpired_def lookup_with_def)
  moreover have "isExpired env (mem_stream st m) = fs_isExpired env m"
    by (cases "md_ttlSeconds m") (simp_all add: isExpired_def fs_isExpired_def)
  then have "getIfNotExpired env p (mem_of st) = (Some (mem_stream st m), mem_of st)"
    using assms(3,4) by (simp add: getIfNotExpired_def mem_entry)
  ultimately show ?thesis
    using read_messages_agree[OF reachable_rest[OF assms(1)] assms(2,3,5)] by (simp add: fs_read_def read_def)
qed

text \<open>A stream with two messages and a fork of it behind the first, as the files hold them.\<close>

definition file_a :: file_store where
  "file_a = snd (fs_append (env_at 2) ''/a'' ''cd'' no_append_options
     (snd (fs_create (env_at 1) ''da'' ''/a'' (no_create_options\<lparr>co_initialData := Some ''xyz''\<rparr>) empty_file_store)))"

definition file_ab :: file_store where
  "file_ab = snd (fs_append (env_at 4) ''/b'' ''w'' no_append_options
     (snd (fs_create (env_at 3) ''db'' ''/b'' (no_create_options\<lparr>co_forkedFrom := Some ''/a'', co_forkOffset := Some (off 8)\<rparr>) file_a)))"

lemma reach_file_a: "fs_reachable file_a"
proof -
  have 1: "create_args_ok (env_at 1) ''da'' ''/a'' (no_create_options\<lparr>co_initialData := Some ''xyz''\<rparr>)
      (creation_state (env_at 1) ''/a'' empty_file_store)" by code_simp
  have 2: "payload_fits (env_at 2) ''/a'' ''cd'' no_append_options False
      (snd (fs_create (env_at 1) ''da'' ''/a'' (no_create_options\<lparr>co_initialData := Some ''xyz''\<rparr>) empty_file_store))" by code_simp
  show ?thesis unfolding file_a_def by (rule fs_next[OF fs_next[OF fs_start Create[OF 1]] Append[OF 2]])
qed

lemma reach_file_ab: "fs_reachable file_ab"
proof -
  have 1: "create_args_ok (env_at 3) ''db'' ''/b'' (no_create_options\<lparr>co_forkedFrom := Some ''/a'', co_forkOffset := Some (off 8)\<rparr>)
      (creation_state (env_at 3) ''/b'' file_a)" by code_simp
  have 2: "payload_fits (env_at 4) ''/b'' ''w'' no_append_options False
      (snd (fs_create (env_at 3) ''db'' ''/b'' (no_create_options\<lparr>co_forkedFrom := Some ''/a'', co_forkOffset := Some (off 8)\<rparr>) file_a))" by code_simp
  show ?thesis unfolding file_ab_def by (rule fs_next[OF fs_next[OF reach_file_a Create[OF 1]] Append[OF 2]])
qed

theorem file_read_refines_witness:
  "fst (fs_read (env_at 5) ''/b'' (Some (off 0)) file_ab) = fst (read (env_at 5) ''/b'' (Some (off 0)) (mem_of file_ab))
   \<and> fst (fs_read (env_at 5) ''/b'' (Some (off 0)) file_ab) = Inr \<lparr>rr_messages = [msg_at ''xyz'' 8 0, msg_at ''w'' 14 0], rr_upToDate = True\<rparr>"
proof
  have fit: "tails_fit file_ab" by code_simp
  have m: "map_of (fl_db file_ab) ''/b'' = Some (the (map_of (fl_db file_ab) ''/b''))" by code_simp
  have l: "\<not> fs_isExpired (env_at 5) (the (map_of (fl_db file_ab) ''/b''))" by code_simp
  show "fst (fs_read (env_at 5) ''/b'' (Some (off 0)) file_ab) = fst (read (env_at 5) ''/b'' (Some (off 0)) (mem_of file_ab))"
    by (rule file_read_refines[OF reach_file_ab fit m l]) (simp add: MAX_OFFSET_def)
  show "fst (fs_read (env_at 5) ''/b'' (Some (off 0)) file_ab) = Inr \<lparr>rr_messages = [msg_at ''xyz'' 8 0, msg_at ''w'' 14 0], rr_upToDate = True\<rparr>"
    by code_simp
qed

section \<open>Crashes\<close>




definition task_a :: append_task where
  "task_a = projr (fst (fs_append_begin (env_at 6) ''/a'' ''new'' no_append_options False file_ab))"


end
