(* ===== verification/File_Findings.thy ===== *)
theory File_Findings
  imports File_Read
begin

text \<open>
  Behaviours of the file-backed store that depart from what its comments say, each on a concrete run: a torn frame that
  recovery leaves in the file, a record that an append puts back from the copy it read before its writes, producer state
  that a crash loses, and a reference that is dropped twice.
\<close>

section \<open>A torn frame\<close>

text \<open>Recovery moves the tail before a torn frame and leaves its bytes in the file; the next append writes behind them. Its
  message is acknowledged and never read: the reader takes the torn frame for a message of other bytes.\<close>

definition torn_a :: file_store where
  "torn_a = recover (env_at 7) (crashed task_a 5 False file_ab)"

theorem torn_tail_hides_append:
  "fst (fs_append (env_at 8) ''/a'' ''hi'' no_append_options torn_a) = Inr (Message (Some (msg_at ''hi'' 22 8)))
   \<and> fst (fs_read (env_at 9) ''/a'' (Some (off 15)) (snd (fs_append (env_at 8) ''/a'' ''hi'' no_append_options torn_a)))
     = Inr \<lparr>rr_messages = [msg_at [CHR ''n'', CHR 0x00, CHR 0x00] 23 0], rr_upToDate = True\<rparr>"
proof
  show "fst (fs_append (env_at 8) ''/a'' ''hi'' no_append_options torn_a) = Inr (Message (Some (msg_at ''hi'' 22 8)))" by code_simp
  show "fst (fs_read (env_at 9) ''/a'' (Some (off 15)) (snd (fs_append (env_at 8) ''/a'' ''hi'' no_append_options torn_a)))
     = Inr \<lparr>rr_messages = [msg_at [CHR ''n'', CHR 0x00, CHR 0x00] 23 0], rr_upToDate = True\<rparr>" by code_simp
qed

section \<open>A record put back\<close>

text \<open>An append puts the record it made from the one it read before its writes: a close that came in between, and was
  answered, is undone, and the stream takes appends again.\<close>

theorem append_undoes_close:
  "map_option md_closed (map_of (fl_db (snd (fs_closeStream (env_at 7) ''/a'' file_ab))) ''/a'') = Some True
   \<and> map_option md_closed (map_of (fl_db (snd (append_put (env_at 8) task_a
        (write_frame task_a (snd (fs_closeStream (env_at 7) ''/a'' file_ab)))))) ''/a'') = Some False"
proof
  show "map_option md_closed (map_of (fl_db (snd (fs_closeStream (env_at 7) ''/a'' file_ab))) ''/a'') = Some True" by code_simp
  show "map_option md_closed (map_of (fl_db (snd (append_put (env_at 8) task_a
        (write_frame task_a (snd (fs_closeStream (env_at 7) ''/a'' file_ab)))))) ''/a'') = Some False" by code_simp
qed

text \<open>A deletion in between is undone as well: the record is back, and a recovery after the file's removal finds it without
  one.\<close>

theorem append_undoes_delete:
  "map_of (fl_db (snd (fs_delete (env_at 7) ''/a'' file_a))) ''/a'' = None
   \<and> fst (fs_has (env_at 9) ''/a'' (snd (append_put (env_at 8) task_a (write_frame task_a (snd (fs_delete (env_at 7) ''/a'' file_a))))))"
proof
  show "map_of (fl_db (snd (fs_delete (env_at 7) ''/a'' file_a))) ''/a'' = None" by code_simp
  show "fst (fs_has (env_at 9) ''/a'' (snd (append_put (env_at 8) task_a (write_frame task_a (snd (fs_delete (env_at 7) ''/a'' file_a))))))"
    by code_simp
qed

section \<open>Producers after a crash\<close>

text \<open>Recovery takes the tail from the file and leaves the producers of the record as they were before the append: when the
  crash came behind the frame, the producer's retry is accepted, and its message is there twice.\<close>

definition producer_a :: append_options where
  "producer_a = no_append_options\<lparr>ao_producerId := Some ''p'', ao_producerEpoch := Some 0, ao_producerSeq := Some 0\<rparr>"

definition unacknowledged_a :: file_store where
  "unacknowledged_a = recover (env_at 7)
     (crashed (projr (fst (fs_append_begin (env_at 6) ''/a'' ''k'' producer_a False file_ab))) 6 False file_ab)"

theorem retry_after_crash_duplicates:
  "fst (fs_read (env_at 9) ''/a'' (Some (off 15)) (snd (fs_append (env_at 8) ''/a'' ''k'' producer_a unacknowledged_a)))
     = Inr \<lparr>rr_messages = [msg_at ''k'' 21 0, msg_at ''k'' 27 0], rr_upToDate = True\<rparr>"
  by code_simp

section \<open>A reference dropped twice\<close>

text \<open>\<^verbatim>\<open>deleteWithCascade\<close> answers the waiting readers before it removes the record. When a fork has expired with a reader
  waiting, the reader's callback deletes the fork first, and the outer call takes a second reference from the source: with another
  fork alive the source counts none, and its deletion is final although the fork still reads from it.\<close>

definition two_forks :: file_store where
  "two_forks = snd (fs_waitForMessages (env_at 6) ''/c'' (off 15)
     (snd (fs_create (env_at 5) ''dc'' ''/c'' (no_create_options\<lparr>co_forkedFrom := Some ''/a'', co_ttlSeconds := Some 1\<rparr>) file_ab)))"

theorem expired_fork_drops_two_references:
  "map_option md_refCount (map_of (fl_db two_forks) ''/a'') = Some 2
   \<and> map_option md_refCount (map_of (fl_db (snd (fs_delete (env_at 2000) ''/c'' two_forks))) ''/a'') = Some 0
   \<and> fst (fs_read (env_at 2001) ''/b'' (Some (off 0)) (snd (fs_delete (env_at 2001) ''/a'' (snd (fs_delete (env_at 2000) ''/c'' two_forks)))))
     = Inr \<lparr>rr_messages = [msg_at ''w'' 14 0], rr_upToDate = True\<rparr>"
proof (intro conjI)
  show "map_option md_refCount (map_of (fl_db two_forks) ''/a'') = Some 2" by code_simp
  show "map_option md_refCount (map_of (fl_db (snd (fs_delete (env_at 2000) ''/c'' two_forks))) ''/a'') = Some 0" by code_simp
  show "fst (fs_read (env_at 2001) ''/b'' (Some (off 0)) (snd (fs_delete (env_at 2001) ''/a'' (snd (fs_delete (env_at 2000) ''/c'' two_forks)))))
     = Inr \<lparr>rr_messages = [msg_at ''w'' 14 0], rr_upToDate = True\<rparr>" by code_simp
qed

end
